(* ===== verification/Prelude.thy ===== *)
theory Prelude
  imports "HOL-Library.Word" "HOL-Library.Sublist"
begin

text \<open>
  Shared ground of the development: C strings, the result types that make C's failures
  explicit, the ASCII character classes and the number parsers of the C library as the
  sources use them, and the collections the component theories put their facts into.
  A byte string is a HOL \<open>string\<close> (a list of 8-bit characters); a pointer that may be
  NULL is an \<open>option\<close>; \<open>size_t\<close> values are \<open>nat\<close> or \<open>int\<close> where the text says so.
\<close>

named_theorems sp_simps \<open>rewrite rules of the model's operations\<close>
named_theorems sp_wf \<open>preservation of well-formedness invariants\<close>
named_theorems sp_frame \<open>fields an operation leaves alone\<close>

section \<open>Results\<close>

text \<open>A computation on raw memory either yields a value or reads or copies out of bounds.\<close>

datatype 'a cres = CVal 'a | CFault

primrec cbind :: "'a cres \<Rightarrow> ('a \<Rightarrow> 'b cres) \<Rightarrow> 'b cres" where
  "cbind (CVal a) f = f a"
| "cbind CFault f = CFault"

lemma cbind_CVal_iff [simp]: "cbind m f = CVal b \<longleftrightarrow> (\<exists>a. m = CVal a \<and> f a = CVal b)"
  by (cases m) auto

lemma cbind_CFault_iff [simp]:
  "cbind m f = CFault \<longleftrightarrow> m = CFault \<or> (\<exists>a. m = CVal a \<and> f a = CFault)"
  by (cases m) auto

lemma cbind_cong [fundef_cong]:
  "m = m' \<Longrightarrow> (\<And>a. m' = CVal a \<Longrightarrow> f a = g a) \<Longrightarrow> cbind m f = cbind m' g"
  by (cases m') auto

text \<open>A computation that keeps every value of another one: the order of fuel and recursion.\<close>

definition cres_le :: "'a cres \<Rightarrow> 'a cres \<Rightarrow> bool" where
  "cres_le m n \<longleftrightarrow> (\<forall>a. m = CVal a \<longrightarrow> n = CVal a)"

lemma cres_le_refl [simp, intro]: "cres_le m m"
  by (simp add: cres_le_def)

lemma cres_leD: "cres_le m n \<Longrightarrow> m = CVal a \<Longrightarrow> n = CVal a"
  by (simp add: cres_le_def)

lemma cbind_mono: "cres_le m n \<Longrightarrow> (\<And>a. cres_le (f a) (g a)) \<Longrightarrow> cres_le (cbind m f) (cbind n g)"
  by (auto simp: cres_le_def)

lemma cres_le_if: "(c \<Longrightarrow> cres_le a a') \<Longrightarrow> (\<not> c \<Longrightarrow> cres_le b b') \<Longrightarrow>
  cres_le (if c then a else b) (if c then a' else b')"
  by simp

lemma cres_le_option: "cres_le a a' \<Longrightarrow> (\<And>x. cres_le (f x) (f' x)) \<Longrightarrow>
  cres_le (case x of None \<Rightarrow> a | Some y \<Rightarrow> f y) (case x of None \<Rightarrow> a' | Some y \<Rightarrow> f' y)"
  by (cases x) auto

lemma cres_le_prod: "(\<And>x y. cres_le (f x y) (f' x y)) \<Longrightarrow>
  cres_le (case p of (x, y) \<Rightarrow> f x y) (case p of (x, y) \<Rightarrow> f' x y)"
  by (cases p) auto

lemmas cres_monos = cbind_mono cres_le_if cres_le_option cres_le_prod cres_le_refl

section \<open>C strings\<close>

abbreviation NUL :: char where "NUL \<equiv> CHR 0x00"

text \<open>The bytes a C string function sees of a buffer: everything before the first NUL.\<close>

definition quoted :: "string \<Rightarrow> string" where
  "quoted s = [CHR 0x27] @ s @ [CHR 0x27]"

definition c_str :: "string \<Rightarrow> string" where
  "c_str s = takeWhile (\<lambda>c. c \<noteq> NUL) s"

lemma c_str_id [simp]: "NUL \<notin> set s \<Longrightarrow> c_str s = s"
  unfolding c_str_def by (induction s) auto

lemma c_str_no_NUL [simp]: "NUL \<notin> set (c_str s)"
  by (auto simp: c_str_def dest: set_takeWhileD)

lemma c_str_idem [simp]: "c_str (c_str s) = c_str s"
  by simp

lemma c_str_Nil [simp]: "c_str [] = []"
  by (simp add: c_str_def)

lemma c_str_length: "length (c_str s) \<le> length s"
  by (simp add: c_str_def length_takeWhile_le)

text \<open>\<open>len\<close> bytes of a string from offset \<open>start\<close>; anything else is out of bounds.\<close>

definition c_sub :: "string \<Rightarrow> int \<Rightarrow> int \<Rightarrow> string cres" where
  "c_sub s start len =
     (if 0 \<le> start \<and> 0 \<le> len \<and> start + len \<le> int (length s)
      then CVal (take (nat len) (drop (nat start) s)) else CFault)"

lemma c_sub_CVal_length: "c_sub s i n = CVal t \<Longrightarrow> int (length t) = n"
  by (auto simp: c_sub_def split: if_splits)

section \<open>Character classes and case folding\<close>

abbreviation byte :: "char \<Rightarrow> nat" where "byte c \<equiv> of_char c"

definition is_digit :: "char \<Rightarrow> bool" where
  "is_digit c \<longleftrightarrow> 48 \<le> byte c \<and> byte c \<le> 57"

definition is_upper :: "char \<Rightarrow> bool" where
  "is_upper c \<longleftrightarrow> 65 \<le> byte c \<and> byte c \<le> 90"

definition is_lower :: "char \<Rightarrow> bool" where
  "is_lower c \<longleftrightarrow> 97 \<le> byte c \<and> byte c \<le> 122"

definition is_alnum :: "char \<Rightarrow> bool" where
  "is_alnum c \<longleftrightarrow> is_digit c \<or> is_upper c \<or> is_lower c"

definition is_graph :: "char \<Rightarrow> bool" where
  "is_graph c \<longleftrightarrow> 33 \<le> byte c \<and> byte c \<le> 126"

definition is_space :: "char \<Rightarrow> bool" where
  "is_space c \<longleftrightarrow> byte c = 32 \<or> 9 \<le> byte c \<and> byte c \<le> 13"

definition to_lower :: "char \<Rightarrow> char" where
  "to_lower c = (if is_upper c then char_of (byte c + 32) else c)"

definition equals_ci :: "string \<Rightarrow> string \<Rightarrow> bool" where
  "equals_ci s t \<longleftrightarrow> map to_lower s = map to_lower t"

definition prefix_ci :: "string \<Rightarrow> string \<Rightarrow> bool" where
  "prefix_ci p s \<longleftrightarrow> length p \<le> length s \<and> equals_ci p (take (length p) s)"

lemma equals_ci_refl [simp]: "equals_ci s s"
  by (simp add: equals_ci_def)

lemma equals_ci_sym: "equals_ci s t \<longleftrightarrow> equals_ci t s"
  by (auto simp: equals_ci_def)

lemma equals_ci_trans: "equals_ci s t \<Longrightarrow> equals_ci t u \<Longrightarrow> equals_ci s u"
  by (simp add: equals_ci_def)

lemma equals_ci_length: "equals_ci s t \<Longrightarrow> length s = length t"
  by (metis equals_ci_def length_map)

section \<open>Numbers in and out of strings\<close>

definition digit_val :: "char \<Rightarrow> nat" where
  "digit_val c = byte c - 48"

text \<open>The magnitude a run of decimal digits denotes.\<close>

definition dec_value :: "string \<Rightarrow> nat" where
  "dec_value ds = foldl (\<lambda>n c. 10 * n + digit_val c) 0 ds"

text \<open>
  The split the C number parsers make: leading blanks, an optional sign, the longest run of
  decimal digits. The result is the sign and the digits; no digits means nothing was parsed.
\<close>

definition c_sign_digits :: "string \<Rightarrow> bool \<times> string" where
  "c_sign_digits s =
     (case dropWhile is_space s of
        [] \<Rightarrow> (False, [])
      | c # cs \<Rightarrow>
          if c = CHR ''-'' then (True, takeWhile is_digit cs)
          else if c = CHR ''+'' then (False, takeWhile is_digit cs)
          else (False, takeWhile is_digit (c # cs)))"

text \<open>
  \<open>strtoimax(s, \<dots>, 10)\<close> on a 64-bit \<open>intmax_t\<close>: \<open>None\<close> when no digits were read
  or the value is out of range (the caller sees \<open>endptr == s\<close> or \<open>errno\<close>), which is
  when the callers report an error. The value stored in that case is clamped; see
  \<open>strtoimax_value\<close>.
\<close>

definition strtoimax_value :: "string \<Rightarrow> int" where
  "strtoimax_value s =
     (let (neg, ds) = c_sign_digits s; v = (if neg then - int (dec_value ds) else int (dec_value ds))
      in max (- (2 ^ 63)) (min (2 ^ 63 - 1) v))"

definition strtoimax_ok :: "string \<Rightarrow> bool" where
  "strtoimax_ok s =
     (let (neg, ds) = c_sign_digits s
      in ds \<noteq> [] \<and> (if neg then dec_value ds \<le> 2 ^ 63 else dec_value ds < 2 ^ 63))"

text \<open>\<open>strtoul(s, \<dots>, 10)\<close>: a minus sign negates modulo \<open>2 ^ 64\<close>.\<close>

definition strtoul_value :: "string \<Rightarrow> nat" where
  "strtoul_value s =
     (let (neg, ds) = c_sign_digits s; v = dec_value ds
      in if 2 ^ 64 \<le> v then 2 ^ 64 - 1
         else if neg then (2 ^ 64 - v) mod 2 ^ 64 else v)"

definition strtoul_ok :: "string \<Rightarrow> bool" where
  "strtoul_ok s = (let (neg, ds) = c_sign_digits s in ds \<noteq> [] \<and> dec_value ds < 2 ^ 64)"

text \<open>The low 32 bits of a value read as a C \<open>int\<close>.\<close>

definition to_int32 :: "int \<Rightarrow> int" where
  "to_int32 i = signed_take_bit 31 i"

lemma to_int32_id: "- (2 ^ 31) \<le> i \<Longrightarrow> i < 2 ^ 31 \<Longrightarrow> to_int32 i = i"
  by (simp add: to_int32_def signed_take_bit_int_eq_self)

text \<open>\<open>atoi\<close>: the value of the leading number as an \<open>int\<close>, 0 when there is none.\<close>

definition c_atoi :: "string \<Rightarrow> int" where
  "c_atoi s = to_int32 (strtoimax_value s)"

text \<open>Decimal output of an unsigned value, as \<open>%u\<close>, \<open>%zu\<close> and \<open>%lu\<close> print it.\<close>

fun show_nat :: "nat \<Rightarrow> string" where
  "show_nat n = (if n < 10 then [char_of (48 + n)] else show_nat (n div 10) @ [char_of (48 + n mod 10)])"

declare show_nat.simps [simp del]

definition show_int :: "int \<Rightarrow> string" where
  "show_int i = (if i < 0 then CHR ''-'' # show_nat (nat (- i)) else show_nat (nat i))"

lemma dec_value_snoc: "dec_value (ds @ [c]) = 10 * dec_value ds + digit_val c"
  by (simp add: dec_value_def)

lemma dec_value_show_nat [simp]: "dec_value (show_nat n) = n"
proof (induction n rule: show_nat.induct)
  case (1 n)
  show ?case
  proof (cases "n < 10")
    case True
    then show ?thesis
      by (subst show_nat.simps) (simp add: dec_value_def digit_val_def)
  next
    case False
    then have "show_nat n = show_nat (n div 10) @ [char_of (48 + n mod 10)]"
      by (subst show_nat.simps) simp
    moreover have "digit_val (char_of (48 + n mod 10)) = n mod 10"
    proof -
      have "48 + n mod 10 < 256" by linarith
      then show ?thesis by (simp add: digit_val_def)
    qed
    ultimately show ?thesis using 1 False by (simp add: dec_value_snoc)
  qed
qed

lemma show_nat_digits: "c \<in> set (show_nat n) \<Longrightarrow> is_digit c"
proof (induction n rule: show_nat.induct)
  case (1 n)
  have b: "is_digit (char_of (48 + n mod 10))"
    by (simp add: is_digit_def) 
  show ?case
    using 1 b by (subst (asm) (2) show_nat.simps) (auto simp: is_digit_def split: if_splits)
qed

lemma show_nat_nonempty [simp]: "show_nat n \<noteq> []"
  by (subst show_nat.simps) simp

lemma takeWhile_show_nat [simp]: "takeWhile is_digit (show_nat n) = show_nat n"
  by (auto simp: takeWhile_eq_all_conv show_nat_digits)

lemma c_sign_digits_show_nat [simp]: "c_sign_digits (show_nat n) = (False, show_nat n)"
proof -
  obtain c cs where c: "show_nat n = c # cs" by (cases "show_nat n") auto
  then have d: "is_digit c" using show_nat_digits [of c n] by simp
  then have "\<not> is_space c" "c \<noteq> CHR ''-''" "c \<noteq> CHR ''+''"
    by (auto simp: is_digit_def is_space_def)
  then show ?thesis
    using takeWhile_show_nat [of n] by (simp add: c_sign_digits_def c)
qed

lemma strtoimax_value_show_nat: "n < 2 ^ 63 \<Longrightarrow> strtoimax_value (show_nat n) = int n"
  by (simp add: strtoimax_value_def)

lemma c_atoi_show_nat: "n < 2 ^ 31 \<Longrightarrow> c_atoi (show_nat n) = int n"
  by (simp add: c_atoi_def strtoimax_value_show_nat to_int32_id)

lemma show_int_of_nat [simp]: "show_int (int n) = show_nat n"
  by (simp add: show_int_def)

lemma length_show_nat_le3: "n < 1000 \<Longrightarrow> length (show_nat n) \<le> 3"
  by (subst show_nat.simps, subst show_nat.simps, subst show_nat.simps) auto

end
