(* ===== verification/Tweetnacl.thy ===== *)
theory Tweetnacl
  imports Prelude
begin

unbundle bit_operations_syntax

text \<open>
  The authenticated encryption of \<open>src/tweetnacl.c\<close> that cookies and sessions go through:
  \<open>crypto_secretbox\<close>, its stream cipher and its one-time authenticator. A \<open>u8\<close> is a natural
  number below 256 and an array of them a list; a \<open>u32\<close> is an \<open>unsigned long\<close>, 64 bits wide on
  the platforms the extension is built for, and its arithmetic wraps there. A \<open>const u8 *\<close> that
  may be NULL is an \<open>option\<close>, an advanced pointer is \<open>drop\<close>. The curve, hash and signature
  functions of the file are not used by the extension.
\<close>

section \<open>Words\<close>

type_synonym bytes = "nat list"

definition u32 :: "nat \<Rightarrow> nat" where
  "u32 n = n mod 2 ^ 64"

definition L32 :: "nat \<Rightarrow> nat \<Rightarrow> nat" where
  "L32 x c = u32 (push_bit c x) OR drop_bit (32 - c) (x AND 0xffffffff)"

definition ld32 :: "bytes \<Rightarrow> nat" where
  "ld32 x =
     (let u = x ! 3; u = u32 (push_bit 8 u) OR x ! 2; u = u32 (push_bit 8 u) OR x ! 1
      in u32 (push_bit 8 u) OR x ! 0)"

text \<open>The bytes \<open>st32\<close> writes: \<open>n\<close> times the low byte, then a shift.\<close>

primrec low_bytes :: "nat \<Rightarrow> nat \<Rightarrow> bytes" where
  "low_bytes 0 u = []"
| "low_bytes (Suc n) u = u mod 256 # low_bytes n (drop_bit 8 u)"

definition st32 :: "nat \<Rightarrow> bytes" where
  "st32 u = low_bytes 4 u"

section \<open>Comparison\<close>

definition vn :: "bytes \<Rightarrow> bytes \<Rightarrow> nat \<Rightarrow> int" where
  "vn x y n =
     (let d = fold (\<lambda>i d. d OR (x ! i XOR y ! i)) [0..<n] 0
      in int (1 AND drop_bit 8 (u32 (d + 2 ^ 64 - 1))) - 1)"

definition crypto_verify_16 :: "bytes \<Rightarrow> bytes \<Rightarrow> int" where
  "crypto_verify_16 x y = vn x y 16"

section \<open>Salsa20\<close>

definition core_load :: "bytes \<Rightarrow> bytes \<Rightarrow> bytes \<Rightarrow> nat list" where
  "core_load inp k c =
     fold (\<lambda>i x. x[5 * i := ld32 (drop (4 * i) c), 1 + i := ld32 (drop (4 * i) k),
                   6 + i := ld32 (drop (4 * i) inp), 11 + i := ld32 (drop (16 + 4 * i) k)])
       [0..<4] (replicate 16 0)"

text \<open>The body of the loop over \<open>j\<close>, and the loop with the copy of \<open>w\<close> to \<open>x\<close>.\<close>

definition core_quarter :: "nat list \<Rightarrow> nat \<Rightarrow> nat list \<Rightarrow> nat list" where
  "core_quarter x j w =
     (let t0 = x ! ((5 * j) mod 16); t1 = x ! ((5 * j + 4) mod 16);
          t2 = x ! ((5 * j + 8) mod 16); t3 = x ! ((5 * j + 12) mod 16);
          t1 = t1 XOR L32 (u32 (t0 + t3)) 7;
          t2 = t2 XOR L32 (u32 (t1 + t0)) 9;
          t3 = t3 XOR L32 (u32 (t2 + t1)) 13;
          t0 = t0 XOR L32 (u32 (t3 + t2)) 18
      in w[4 * j + (j + 0) mod 4 := t0, 4 * j + (j + 1) mod 4 := t1,
           4 * j + (j + 2) mod 4 := t2, 4 * j + (j + 3) mod 4 := t3])"

definition core_round :: "nat list \<Rightarrow> nat list" where
  "core_round x = fold (core_quarter x) [0..<4] (replicate 16 0)"

definition sub32 :: "nat \<Rightarrow> nat \<Rightarrow> nat" where
  "sub32 a b = u32 (a + 2 ^ 64 - b)"

definition core :: "bytes \<Rightarrow> bytes \<Rightarrow> bytes \<Rightarrow> bool \<Rightarrow> bytes" where
  "core inp k c h =
     (let y = core_load inp k c; x = (core_round ^^ 20) y in
      if h then
        (let x = map (\<lambda>i. u32 (x ! i + y ! i)) [0..<16];
             x = fold (\<lambda>i x. x[5 * i := sub32 (x ! (5 * i)) (ld32 (drop (4 * i) c)),
                               6 + i := sub32 (x ! (6 + i)) (ld32 (drop (4 * i) inp))]) [0..<4] x
         in concat (map (\<lambda>i. st32 (x ! (5 * i))) [0..<4]) @ concat (map (\<lambda>i. st32 (x ! (6 + i))) [0..<4]))
      else concat (map (\<lambda>i. st32 (u32 (x ! i + y ! i))) [0..<16]))"

definition crypto_core_salsa20 :: "bytes \<Rightarrow> bytes \<Rightarrow> bytes \<Rightarrow> bytes" where
  "crypto_core_salsa20 inp k c = core inp k c False"

definition crypto_core_hsalsa20 :: "bytes \<Rightarrow> bytes \<Rightarrow> bytes \<Rightarrow> bytes" where
  "crypto_core_hsalsa20 inp k c = core inp k c True"

definition sigma :: bytes where
  "sigma = map byte ''expand 32-byte k''"

section \<open>The stream\<close>

text \<open>\<open>c[i] = (m?m[i]:0) ^ x[i]\<close> for \<open>n\<close> bytes.\<close>

definition xor_block :: "bytes option \<Rightarrow> bytes \<Rightarrow> nat \<Rightarrow> bytes" where
  "xor_block m x n = map (\<lambda>i. (case m of Some m \<Rightarrow> m ! i | None \<Rightarrow> 0) XOR x ! i) [0..<n]"

text \<open>The block counter in \<open>z[8..15]\<close>; \<open>u\<close> is the carry.\<close>

fun count_up :: "nat \<Rightarrow> bytes \<Rightarrow> bytes" where
  "count_up u [] = []"
| "count_up u (b # z) = (let u = u32 (u + b) in u mod 256 # count_up (drop_bit 8 u) z)"

definition next_block :: "bytes \<Rightarrow> bytes" where
  "next_block z = take 8 z @ count_up 1 (drop 8 z)"

function salsa20_blocks :: "bytes \<Rightarrow> bytes \<Rightarrow> bytes option \<Rightarrow> nat \<Rightarrow> bytes" where
  "salsa20_blocks k z m b =
     (let x = crypto_core_salsa20 z k sigma in
      if 64 \<le> b then xor_block m x 64 @ salsa20_blocks k (next_block z) (map_option (drop 64) m) (b - 64)
      else if b \<noteq> 0 then xor_block m x b else [])"
  by pat_completeness auto
termination by (relation "measure (\<lambda>(k, z, m, b). b)") auto

declare salsa20_blocks.simps [simp del]

definition crypto_stream_salsa20_xor :: "bytes option \<Rightarrow> nat \<Rightarrow> bytes \<Rightarrow> bytes \<Rightarrow> bytes" where
  "crypto_stream_salsa20_xor m b n k =
     (if b = 0 then [] else salsa20_blocks k (take 8 n @ replicate 8 0) m b)"

definition crypto_stream :: "nat \<Rightarrow> bytes \<Rightarrow> bytes \<Rightarrow> bytes" where
  "crypto_stream d n k = crypto_stream_salsa20_xor None d (drop 16 n) (crypto_core_hsalsa20 n k sigma)"

definition crypto_stream_xor :: "bytes \<Rightarrow> nat \<Rightarrow> bytes \<Rightarrow> bytes \<Rightarrow> bytes" where
  "crypto_stream_xor m d n k =
     crypto_stream_salsa20_xor (Some m) d (drop 16 n) (crypto_core_hsalsa20 n k sigma)"

section \<open>The one-time authenticator\<close>

text \<open>Numbers of 17 limbs of 8 bits, in radix 256; \<open>u\<close> is the carry.\<close>

fun add_limbs :: "nat \<Rightarrow> nat list \<Rightarrow> nat list \<Rightarrow> nat list" where
  "add_limbs u (h # hs) (c # cs) = (let u = u32 (u + u32 (h + c)) in (u AND 255) # add_limbs (drop_bit 8 u) hs cs)"
| "add_limbs u hs cs = hs"

definition add1305 :: "nat list \<Rightarrow> nat list \<Rightarrow> nat list" where
  "add1305 h c = add_limbs 0 h c"

definition minusp :: "nat list" where
  "minusp = 5 # replicate 15 0 @ [252]"

definition clamp_masks :: "(nat \<times> nat) list" where
  "clamp_masks = [(3, 15), (4, 252), (7, 15), (8, 252), (11, 15), (12, 252), (15, 15)]"

definition load_r :: "bytes \<Rightarrow> nat list" where
  "load_r k = fold (\<lambda>(j, m) r. r[j := r ! j AND m]) clamp_masks (map (\<lambda>j. k ! j) [0..<16] @ [0])"

definition mul_limbs :: "nat list \<Rightarrow> nat list \<Rightarrow> nat list" where
  "mul_limbs h r =
     map (\<lambda>i. fold (\<lambda>j x. u32 (x + u32 (h ! j * (if j \<le> i then r ! (i - j) else u32 (320 * r ! (i + 17 - j))))))
       [0..<17] 0) [0..<17]"

fun carry_limbs :: "nat \<Rightarrow> nat list \<Rightarrow> nat list \<times> nat" where
  "carry_limbs u [] = ([], u)"
| "carry_limbs u (h # hs) =
     (let u = u32 (u + h); (hs', u') = carry_limbs (drop_bit 8 u) hs in ((u AND 255) # hs', u'))"

definition squeeze :: "nat list \<Rightarrow> nat list" where
  "squeeze x =
     (let (h, u) = carry_limbs 0 (take 16 x);
          u = u32 (u + x ! 16); top = u AND 3;
          u = u32 (5 * drop_bit 2 u);
          (h, u) = carry_limbs u h
      in h @ [u32 (u + top)])"

text \<open>At most 16 bytes of the message, a one behind them, and zeroes.\<close>

definition block_limbs :: "bytes \<Rightarrow> nat \<Rightarrow> nat list" where
  "block_limbs m n = (let j = min 16 n in map (\<lambda>i. m ! i) [0..<j] @ 1 # replicate (16 - j) 0)"

function auth_blocks :: "nat list \<Rightarrow> nat list \<Rightarrow> bytes \<Rightarrow> nat \<Rightarrow> nat list" where
  "auth_blocks r h m n =
     (if 0 < n then auth_blocks r (squeeze (mul_limbs (add1305 h (block_limbs m n)) r)) (drop (min 16 n) m) (n - min 16 n)
      else h)"
  by pat_completeness auto
termination by (relation "measure (\<lambda>(r, h, m, n). n)") auto

declare auth_blocks.simps [simp del]

text \<open>\<open>s\<close> is all ones when the subtraction of the prime went below zero.\<close>

definition freeze :: "nat list \<Rightarrow> nat list" where
  "freeze g =
     (let h = add1305 g minusp; s = u32 (2 ^ 64 - drop_bit 7 (h ! 16))
      in map2 (\<lambda>h g. h XOR (s AND (g XOR h))) h g)"

definition crypto_onetimeauth :: "bytes \<Rightarrow> nat \<Rightarrow> bytes \<Rightarrow> bytes" where
  "crypto_onetimeauth m n k =
     (let h = freeze (auth_blocks (load_r k) (replicate 17 0) m n);
          c = map (\<lambda>j. k ! (j + 16)) [0..<16] @ [0]
      in map (\<lambda>j. j mod 256) (take 16 (add1305 h c)))"

definition crypto_onetimeauth_verify :: "bytes \<Rightarrow> bytes \<Rightarrow> nat \<Rightarrow> bytes \<Rightarrow> int" where
  "crypto_onetimeauth_verify h m n k = crypto_verify_16 h (crypto_onetimeauth m n k)"

section \<open>Secret boxes\<close>

text \<open>The return value with what is written to the output, \<open>None\<close> for \<open>-1\<close>.\<close>

definition crypto_secretbox :: "bytes \<Rightarrow> nat \<Rightarrow> bytes \<Rightarrow> bytes \<Rightarrow> bytes option" where
  "crypto_secretbox m d n k =
     (if d < 32 then None
      else (let c = crypto_stream_xor m d n k;
                tag = crypto_onetimeauth (drop 32 c) (d - 32) c
            in Some (replicate 16 0 @ tag @ drop 32 c)))"

definition crypto_secretbox_open :: "bytes \<Rightarrow> nat \<Rightarrow> bytes \<Rightarrow> bytes \<Rightarrow> bytes option" where
  "crypto_secretbox_open c d n k =
     (if d < 32 then None
      else (let x = crypto_stream 32 n k in
        if crypto_onetimeauth_verify (drop 16 c) (drop 32 c) (d - 32) x \<noteq> 0 then None
        else Some (replicate 32 0 @ drop 32 (crypto_stream_xor c d n k))))"

section \<open>Bytes stay bytes\<close>

definition bytes_ok :: "bytes \<Rightarrow> bool" where
  "bytes_ok bs \<longleftrightarrow> (\<forall>b\<in>set bs. b < 256)"

lemma bytes_ok_simps [simp]:
  "bytes_ok []" "bytes_ok (b # bs) \<longleftrightarrow> b < 256 \<and> bytes_ok bs" "bytes_ok (xs @ ys) \<longleftrightarrow> bytes_ok xs \<and> bytes_ok ys"
  "bytes_ok (replicate n 0)"
  by (auto simp: bytes_ok_def)

lemma bytes_ok_nth: "bytes_ok bs \<Longrightarrow> i < length bs \<Longrightarrow> bs ! i < 256"
  by (simp add: bytes_ok_def)

lemma bytes_ok_take: "bytes_ok bs \<Longrightarrow> bytes_ok (take n bs)"
  by (auto simp: bytes_ok_def dest: in_set_takeD)

lemma bytes_ok_drop: "bytes_ok bs \<Longrightarrow> bytes_ok (drop n bs)"
  by (auto simp: bytes_ok_def dest: in_set_dropD)

lemma xor_less_256: "a < 256 \<Longrightarrow> b < 256 \<Longrightarrow> a XOR b < (256 :: nat)"
  using take_bit_nat_eq_self_iff [of 8 "a XOR b"] take_bit_nat_eq_self_iff [of 8 a] take_bit_nat_eq_self_iff [of 8 b]
  by (simp add: take_bit_xor)

lemma and_255: "n AND 255 = n mod (256 :: nat)"
  using take_bit_eq_mask [of 8 n] by (simp add: take_bit_eq_mod mask_eq_exp_minus_1)

lemma bytes_ok_low_bytes: "bytes_ok (low_bytes n u)"
  by (induction n arbitrary: u) simp_all

lemma length_low_bytes [simp]: "length (low_bytes n u) = n"
  by (induction n arbitrary: u) simp_all

lemma st32_ok [simp]: "bytes_ok (st32 u)" "length (st32 u) = 4"
  by (simp_all add: st32_def bytes_ok_low_bytes)

lemma bytes_ok_concat: "\<forall>x\<in>set xs. bytes_ok x \<Longrightarrow> bytes_ok (concat xs)"
  by (auto simp: bytes_ok_def)

lemma length_concat_4: "\<forall>x\<in>set xs. length x = 4 \<Longrightarrow> length (concat xs) = 4 * length xs"
  by (induction xs) auto

lemma core_ok [simp]: "bytes_ok (core inp k c h)" "length (core inp k c h) = (if h then 32 else 64)"
  by (simp_all add: core_def Let_def bytes_ok_concat length_concat_4)

section \<open>The stream is a key stream\<close>

definition key_stream :: "bytes \<Rightarrow> bytes \<Rightarrow> nat \<Rightarrow> bytes" where
  "key_stream k z b = salsa20_blocks k z None b"

lemma length_xor_block [simp]: "length (xor_block m x n) = n"
  by (simp add: xor_block_def)

lemma xor_block_take: "n \<le> 64 \<Longrightarrow> xor_block None x n = take n (xor_block None x 64)"
  by (simp add: xor_block_def take_map)

lemma length_salsa20_blocks [simp]: "length (salsa20_blocks k z m b) = b"
proof (induction k z m b rule: salsa20_blocks.induct)
  case (1 k z m b)
  show ?case by (subst salsa20_blocks.simps) (simp add: Let_def 1 [OF refl])
qed

lemma xor_block_Some:
  "n \<le> length m \<Longrightarrow> xor_block (Some m) x n = map2 (XOR) (take n m) (xor_block None x n)"
  by (rule nth_equalityI) (auto simp: xor_block_def)

lemma map2_append: "length xs = length us \<Longrightarrow> map2 f (xs @ ys) (us @ vs) = map2 f xs us @ map2 f ys vs"
  by simp

lemma salsa20_blocks_xor:
  "b \<le> length m \<Longrightarrow> salsa20_blocks k z (Some m) b = map2 (XOR) (take b m) (key_stream k z b)"
proof (induction k z "Some m" b arbitrary: m rule: salsa20_blocks.induct)
  case (1 k z b)
  let ?x = "crypto_core_salsa20 z k sigma"
  show ?case
  proof (cases "64 \<le> b")
    case True
    have "salsa20_blocks k (next_block z) (Some (drop 64 m)) (b - 64) =
        map2 (XOR) (take (b - 64) (drop 64 m)) (key_stream k (next_block z) (b - 64))"
      using 1 True by simp
    moreover have "take b m = take 64 m @ take (b - 64) (drop 64 m)"
      using True by (metis add_diff_inverse_nat not_less take_add)
    ultimately show ?thesis
      using True 1(2) by (simp add: salsa20_blocks.simps [of k z _ b] key_stream_def Let_def xor_block_Some)
  next
    case False
    then show ?thesis
      using 1(2) by (simp add: salsa20_blocks.simps [of k z _ b] key_stream_def Let_def xor_block_Some)
  qed
qed

lemma key_stream_take: "n \<le> b \<Longrightarrow> take n (key_stream k z b) = key_stream k z n"
proof (induction k z "None :: bytes option" b arbitrary: n rule: salsa20_blocks.induct)
  case (1 k z b)
  let ?x = "crypto_core_salsa20 z k sigma"
  show ?case
  proof (cases "64 \<le> n")
    case True
    then have "take (n - 64) (key_stream k (next_block z) (b - 64)) = key_stream k (next_block z) (n - 64)"
      using 1 by simp
    then show ?thesis
      using True 1(2) by (simp add: salsa20_blocks.simps [of k z _ b] salsa20_blocks.simps [of k z _ n] key_stream_def Let_def)
  next
    case False
    then show ?thesis
      using 1(2) xor_block_take [of n ?x] xor_block_take [of b ?x]
      by (simp add: salsa20_blocks.simps [of k z _ b] salsa20_blocks.simps [of k z _ n] key_stream_def Let_def)
  qed
qed

lemma xor_block_ok:
  assumes "bytes_ok x" "n \<le> length x" "case m of Some m \<Rightarrow> bytes_ok m \<and> n \<le> length m | None \<Rightarrow> True"
  shows "bytes_ok (xor_block m x n)"
  using assms by (auto simp: bytes_ok_def xor_block_def intro!: xor_less_256 split: option.splits)

lemma key_stream_ok: "bytes_ok (key_stream k z b)"
proof (induction k z "None :: bytes option" b rule: salsa20_blocks.induct)
  case (1 k z b)
  then show ?case
    by (auto simp: salsa20_blocks.simps [of k z _ b] key_stream_def Let_def crypto_core_salsa20_def intro: xor_block_ok)
qed

definition box_stream :: "bytes \<Rightarrow> bytes \<Rightarrow> nat \<Rightarrow> bytes" where
  "box_stream n k d =
     (if d = 0 then [] else key_stream (crypto_core_hsalsa20 n k sigma) (take 8 (drop 16 n) @ replicate 8 0) d)"

lemma crypto_stream_key: "crypto_stream d n k = box_stream n k d"
  by (simp add: crypto_stream_def crypto_stream_salsa20_xor_def box_stream_def key_stream_def)

lemma crypto_stream_xor_key:
  "d \<le> length m \<Longrightarrow> crypto_stream_xor m d n k = map2 (XOR) (take d m) (box_stream n k d)"
  by (simp add: crypto_stream_xor_def crypto_stream_salsa20_xor_def box_stream_def salsa20_blocks_xor)

lemma length_box_stream [simp]: "length (box_stream n k d) = d"
  by (simp add: box_stream_def key_stream_def)

lemma box_stream_take: "e \<le> d \<Longrightarrow> take e (box_stream n k d) = box_stream n k e"
  by (simp add: box_stream_def key_stream_take)

lemma box_stream_ok: "bytes_ok (box_stream n k d)"
  by (simp add: box_stream_def key_stream_ok)

section \<open>Comparison\<close>

lemma fold_or_zero: "fold (\<lambda>i d. d OR f i) js d = 0 \<longleftrightarrow> d = (0 :: nat) \<and> (\<forall>i\<in>set js. f i = 0)"
  by (induction js arbitrary: d) (auto simp: or_eq_0_iff)

lemma fold_or_less: "d < 256 \<Longrightarrow> \<forall>i\<in>set js. f i < 256 \<Longrightarrow> fold (\<lambda>i d. d OR f i) js d < (256 :: nat)"
proof (induction js arbitrary: d)
  case (Cons i js)
  have "d OR f i < 256"
    using Cons.prems take_bit_nat_eq_self_iff [of 8 "d OR f i"] take_bit_nat_eq_self_iff [of 8 d] take_bit_nat_eq_self_iff [of 8 "f i"]
    by (simp add: take_bit_or)
  then show ?case using Cons by simp
qed simp

lemma and_1: "1 AND n = n mod (2 :: nat)"
  by (simp add: one_and_eq)

lemma vn_final:
  assumes "d < 256"
  shows "int (1 AND drop_bit 8 (u32 (d + 2 ^ 64 - 1))) - 1 = (if d = 0 then 0 else - 1)"
proof (cases d)
  case 0
  then show ?thesis by (simp add: u32_def drop_bit_eq_div and_1)
next
  case (Suc e)
  then have "u32 (d + 2 ^ 64 - 1) = e" "e div 256 = 0" using assms by (simp_all add: u32_def)
  then show ?thesis using Suc by (simp add: drop_bit_eq_div and_1)
qed

lemma xor_zero_iff: "a XOR b = 0 \<longleftrightarrow> a = (b :: nat)"
  by (metis xor_self_eq xor.right_neutral xor.left_commute)

lemma vn_eq:
  assumes "bytes_ok x" "bytes_ok y" "n \<le> length x" "n \<le> length y"
  shows "vn x y n = (if take n x = take n y then 0 else - 1)"
proof -
  let ?f = "\<lambda>i. x ! i XOR y ! i"
  let ?d = "fold (\<lambda>i d. d OR ?f i) [0..<n] 0"
  have "?d < 256"
    by (rule fold_or_less) (use assms in \<open>auto simp: bytes_ok_nth xor_less_256\<close>)
  moreover have "?d = 0 \<longleftrightarrow> take n x = take n y"
    unfolding fold_or_zero using assms by (auto simp: xor_zero_iff list_eq_iff_nth_eq)
  ultimately show ?thesis using vn_final [of ?d] by (simp add: vn_def Let_def)
qed

section \<open>Boxes\<close>

lemma length_add_limbs [simp]: "length (add_limbs u h c) = length h"
  by (induction u h c rule: add_limbs.induct) (simp_all add: Let_def)

lemma length_carry_limbs [simp]: "length (fst (carry_limbs u h)) = length h"
  by (induction u h rule: carry_limbs.induct) (simp_all add: Let_def split_beta)

lemma length_squeeze [simp]: "15 < length x \<Longrightarrow> length (squeeze x) = 17"
  by (simp add: squeeze_def Let_def split_beta)

lemma length_mul_limbs [simp]: "length (mul_limbs h r) = 17"
  by (simp add: mul_limbs_def)

lemma length_auth_blocks: "length h = 17 \<Longrightarrow> length (auth_blocks r h m n) = 17"
proof (induction r h m n rule: auth_blocks.induct)
  case (1 r h m n)
  then show ?case by (subst auth_blocks.simps) simp
qed

lemma length_crypto_onetimeauth [simp]: "length (crypto_onetimeauth m n k) = 16"
  by (simp add: crypto_onetimeauth_def freeze_def add1305_def minusp_def length_auth_blocks Let_def)

lemma crypto_onetimeauth_ok: "bytes_ok (crypto_onetimeauth m n k)"
  by (auto simp: crypto_onetimeauth_def bytes_ok_def Let_def)

lemma crypto_onetimeauth_key: "take 32 k = take 32 k' \<Longrightarrow> 32 \<le> length k \<Longrightarrow> 32 \<le> length k' \<Longrightarrow>
    crypto_onetimeauth m n k = crypto_onetimeauth m n k'"
proof -
  assume a: "take 32 k = take 32 k'" "32 \<le> length k" "32 \<le> length k'"
  have "k ! j = k' ! j" if "j < 32" for j using a that by (metis nth_take)
  then have "map (\<lambda>j. k ! j) [0..<16] = map (\<lambda>j. k' ! j) [0..<16]" "map (\<lambda>j. k ! (j + 16)) [0..<16] = map (\<lambda>j. k' ! (j + 16)) [0..<16]"
    by simp_all
  then show ?thesis by (simp only: crypto_onetimeauth_def load_r_def)
qed

lemma map2_xor_zero: "length ks = n \<Longrightarrow> map2 (XOR) (replicate n 0) ks = (ks :: nat list)"
  by (rule nth_equalityI) auto

lemma map2_xor_twice: "length ks = length m \<Longrightarrow> map2 (XOR) (map2 (XOR) m ks) ks = (m :: nat list)"
  by (rule nth_equalityI) (auto simp: xor.assoc)

lemma bytes_ok_map2_xor: "bytes_ok xs \<Longrightarrow> bytes_ok ys \<Longrightarrow> bytes_ok (map2 (XOR) xs ys)"
  by (auto simp: bytes_ok_def set_zip intro!: xor_less_256)

text \<open>What a box holds: the tag of the ciphertext, and the ciphertext.\<close>

definition sealed :: "bytes \<Rightarrow> bytes \<Rightarrow> bytes \<Rightarrow> bytes" where
  "sealed x n k =
     (let ct = map2 (XOR) x (drop 32 (box_stream n k (32 + length x)))
      in crypto_onetimeauth ct (length x) (box_stream n k 32) @ ct)"

lemma crypto_secretbox_sealed:
  "crypto_secretbox (replicate 32 0 @ x) (32 + length x) n k = Some (replicate 16 0 @ sealed x n k)"
proof -
  let ?d = "32 + length x" and ?m = "replicate 32 0 @ x"
  let ?ks = "box_stream n k ?d"
  let ?ct = "map2 (XOR) x (drop 32 ?ks)"
  have ks: "?ks = box_stream n k 32 @ drop 32 ?ks"
    using append_take_drop_id [of 32 ?ks] box_stream_take [of 32 ?d n k] by simp
  have c: "crypto_stream_xor ?m ?d n k = box_stream n k 32 @ ?ct"
    by (subst ks) (simp add: crypto_stream_xor_key, subst ks, simp add: map2_xor_zero)
  have "crypto_onetimeauth ?ct (length x) (box_stream n k 32 @ ?ct) = crypto_onetimeauth ?ct (length x) (box_stream n k 32)"
    by (rule crypto_onetimeauth_key) simp_all
  then show ?thesis by (simp add: crypto_secretbox_def c sealed_def Let_def)
qed

lemma crypto_secretbox_open_sealed:
  assumes "length c = 32 + length y" "take 16 (drop 16 c) @ drop 32 c = t @ y" "length t = 16" "bytes_ok c"
  shows "crypto_secretbox_open c (32 + length y) n k =
    (if t = crypto_onetimeauth y (length y) (box_stream n k 32)
     then Some (replicate 32 0 @ map2 (XOR) y (drop 32 (box_stream n k (32 + length y)))) else None)"
proof -
  have t: "take 16 (drop 16 c) = t" "drop 32 c = y" using assms by auto
  have v: "crypto_onetimeauth_verify (drop 16 c) y (length y) (box_stream n k 32) =
      (if t = crypto_onetimeauth y (length y) (box_stream n k 32) then 0 else - 1)"
  proof -
    have "vn (drop 16 c) (crypto_onetimeauth y (length y) (box_stream n k 32)) 16 =
        (if t = crypto_onetimeauth y (length y) (box_stream n k 32) then 0 else - 1)"
      using assms t(1) by (subst vn_eq) (simp_all add: crypto_onetimeauth_ok bytes_ok_drop)
    then show ?thesis by (simp add: crypto_onetimeauth_verify_def crypto_verify_16_def)
  qed
  have "crypto_stream_xor c (32 + length y) n k = map2 (XOR) c (box_stream n k (32 + length y))"
    using assms(1) by (simp add: crypto_stream_xor_key)
  then have "drop 32 (crypto_stream_xor c (32 + length y) n k) = map2 (XOR) y (drop 32 (box_stream n k (32 + length y)))"
    using t(2) by (simp add: drop_map drop_zip)
  then show ?thesis using v by (simp add: crypto_secretbox_open_def t(2) crypto_stream_key Let_def)
qed

text \<open>
  C3. What opens was sealed, and what was sealed opens: a box (whose first 16 bytes are not looked
  at) opens to a message exactly when sealing this message under the same nonce and key gives the
  box. So no other tag is accepted for a ciphertext, and no message is lost.
\<close>

theorem secretbox_open_iff:
  assumes "32 \<le> d" "length c = d" "bytes_ok c"
  shows "crypto_secretbox_open c d n k = Some m \<longleftrightarrow>
    length m = d \<and> take 32 m = replicate 32 0 \<and> crypto_secretbox m d n k = Some (replicate 16 0 @ drop 16 c)"
proof -
  let ?y = "drop 32 c" and ?t = "take 16 (drop 16 c)"
  let ?x = "map2 (XOR) ?y (drop 32 (box_stream n k d))"
  have d: "32 + length ?y = d" using assms by simp
  have t: "length ?t = 16" using assms by simp
  have c: "?t @ ?y = drop 16 c" by (metis append_take_drop_id drop_drop numeral_Bit0)
  have o: "crypto_secretbox_open c d n k =
      (if ?t = crypto_onetimeauth ?y (length ?y) (box_stream n k 32) then Some (replicate 32 0 @ ?x) else None)"
    using crypto_secretbox_open_sealed [of c ?y ?t n k] assms(2,3) t d by simp
  show ?thesis
  proof (intro iffI; (elim conjE)?)
    assume "crypto_secretbox_open c d n k = Some m"
    then have tag: "?t = crypto_onetimeauth ?y (length ?y) (box_stream n k 32)" and m: "m = replicate 32 0 @ ?x"
      using o by (auto split: if_splits)
    have "map2 (XOR) ?x (drop 32 (box_stream n k d)) = ?y" by (rule map2_xor_twice) (use assms in simp)
    then have "sealed ?x n k = drop 16 c" using tag d c by (simp add: sealed_def Let_def)
    then show "length m = d \<and> take 32 m = replicate 32 0 \<and> crypto_secretbox m d n k = Some (replicate 16 0 @ drop 16 c)"
      using crypto_secretbox_sealed [of ?x n k] d by (simp add: m)
  next
    assume m: "length m = d" "take 32 m = replicate 32 0" and s: "crypto_secretbox m d n k = Some (replicate 16 0 @ drop 16 c)"
    obtain x where x: "m = replicate 32 0 @ x" using m(2) by (metis append_take_drop_id)
    have dx: "32 + length x = d" using m(1) by (simp add: x)
    have "sealed x n k = ?t @ ?y" using s crypto_secretbox_sealed [of x n k] c dx by (simp add: x)
    moreover have "length x = length ?y" using dx d by simp
    ultimately have tag: "?t = crypto_onetimeauth ?y (length ?y) (box_stream n k 32)"
      and y: "?y = map2 (XOR) x (drop 32 (box_stream n k d))"
      using dx t unfolding sealed_def Let_def by (auto simp: append_eq_append_conv)
    have "?x = x" unfolding y by (rule map2_xor_twice) (use dx in simp)
    then show "crypto_secretbox_open c d n k = Some m" using o tag by (simp add: x)
  qed
qed

lemma bytes_ok_sealed: "bytes_ok x \<Longrightarrow> bytes_ok (sealed x n k)"
  by (simp add: sealed_def Let_def crypto_onetimeauth_ok bytes_ok_map2_xor bytes_ok_drop box_stream_ok)

lemma crypto_secretbox_open_bytes:
  assumes "crypto_secretbox_open c d n k = Some m" "bytes_ok c" "d \<le> length c"
  shows "bytes_ok m" "length m = d"
  using assms
  by (auto simp: crypto_secretbox_open_def crypto_stream_xor_key Let_def split: if_splits
      intro!: bytes_ok_drop bytes_ok_map2_xor bytes_ok_take box_stream_ok)

theorem secretbox_open_iff_witness:
  "crypto_secretbox_open (replicate 16 0 @ sealed [7, 255] (replicate 24 1) (replicate 32 2)) 34 (replicate 24 1) (replicate 32 2) =
     Some (replicate 32 0 @ [7, 255])"
proof -
  let ?n = "replicate 24 (1 :: nat)" and ?k = "replicate 32 (2 :: nat)"
  have l: "length (sealed [7, 255] ?n ?k) = 18" by (simp add: sealed_def Let_def)
  then show ?thesis
    using crypto_secretbox_sealed [of "[7, 255]" ?n ?k] bytes_ok_sealed [of "[7, 255]" ?n ?k]
    by (subst secretbox_open_iff) simp_all
qed

end
