(* ===== verification/Poly1305.thy ===== *)
theory Poly1305
  imports Tweetnacl
begin

unbundle bit_operations_syntax

text \<open>
  What the one-time authenticator of \<open>src/tweetnacl.c\<close> computes: the limbs of
  \<open>crypto_onetimeauth\<close> are read as a number, and the result is the tag of Poly1305 as it is
  specified, a polynomial in the first half of the key modulo the prime, plus the second half.
\<close>

section \<open>The specification\<close>

text \<open>A list of limbs as a number in radix 256, the least significant limb first.\<close>

fun limbs_value :: "nat list \<Rightarrow> nat" where
  "limbs_value [] = 0"
| "limbs_value (b # bs) = b + 256 * limbs_value bs"

definition p1305 :: nat where
  "p1305 = 2 ^ 130 - 5"

definition clamp :: nat where
  "clamp = 0x0ffffffc0ffffffc0ffffffc0fffffff"

text \<open>Each block is a number with a one behind its last byte.\<close>

fun poly_blocks :: "nat \<Rightarrow> nat \<Rightarrow> bytes \<Rightarrow> nat" where
  "poly_blocks r a m =
     (if m = [] then a
      else poly_blocks r ((a + limbs_value (take 16 m @ [1])) * r mod p1305) (drop 16 m))"

declare poly_blocks.simps [simp del]

definition poly1305 :: "bytes \<Rightarrow> bytes \<Rightarrow> nat" where
  "poly1305 m k =
     (poly_blocks (limbs_value (take 16 k) AND clamp) 0 m + limbs_value (take 16 (drop 16 k))) mod 2 ^ 128"

section \<open>Numbers and limbs\<close>

lemma limbs_value_append: "limbs_value (xs @ ys) = limbs_value xs + 256 ^ length xs * limbs_value ys"
  by (induction xs) (simp_all add: algebra_simps)

lemma limbs_value_zeros [simp]: "limbs_value (replicate n 0) = 0"
  by (induction n) simp_all

lemma limbs_value_less: "bytes_ok bs \<Longrightarrow> limbs_value bs < 256 ^ length bs"
  by (induction bs) auto

lemma limbs_value_sum: "limbs_value bs = (\<Sum>i<length bs. bs ! i * 256 ^ i)"
proof (induction bs)
  case (Cons b bs)
  have "(\<Sum>i<length (b # bs). (b # bs) ! i * 256 ^ i) = b + (\<Sum>i<length bs. bs ! i * 256 ^ Suc i)"
    by (simp only: length_Cons sum.lessThan_Suc_shift) simp
  then show ?case using Cons by (simp add: sum_distrib_left algebra_simps)
qed simp

lemma limbs_value_inj: "bytes_ok xs \<Longrightarrow> bytes_ok ys \<Longrightarrow> length xs = length ys \<Longrightarrow> limbs_value xs = limbs_value ys \<Longrightarrow> xs = ys"
proof (induction xs arbitrary: ys)
  case (Cons x xs)
  then obtain y ys' where ys: "ys = y # ys'" by (cases ys) auto
  have e: "x + 256 * limbs_value xs = y + 256 * limbs_value ys'" using Cons.prems by (simp add: ys)
  have "x < 256" "y < 256" using Cons.prems by (auto simp: ys)
  then have "x = y" "limbs_value xs = limbs_value ys'"
    using arg_cong [OF e, of "\<lambda>n. n mod 256"] arg_cong [OF e, of "\<lambda>n. n div 256"] by simp_all
  then show ?case using Cons ys by simp
qed simp

section \<open>Addition\<close>

definition small :: "nat \<Rightarrow> nat list \<Rightarrow> bool" where
  "small n hs \<longleftrightarrow> (\<forall>h\<in>set hs. h < n)"

lemma small_simps [simp]: "small n []" "small n (h # hs) \<longleftrightarrow> h < n \<and> small n hs" "small n (xs @ ys) \<longleftrightarrow> small n xs \<and> small n ys"
  by (auto simp: small_def)

lemma small_256: "small 256 hs = bytes_ok hs"
  by (simp add: small_def bytes_ok_def)

lemma small_mono: "small m hs \<Longrightarrow> m \<le> n \<Longrightarrow> small n hs"
  by (auto simp: small_def)

lemma u32_id: "n < 2 ^ 64 \<Longrightarrow> u32 n = n"
  by (simp add: u32_def)

lemma mod_256_split: "(u + 256 * y) mod (256 * m) = u mod 256 + 256 * ((u div 256 + y) mod (m :: nat))"
  by (subst mod_mult2_eq) (simp add: add.commute)

lemma add_limbs_value:
  "length hs = length cs \<Longrightarrow> small (2 ^ 62) hs \<Longrightarrow> small (2 ^ 62) cs \<Longrightarrow> u < 2 ^ 62 \<Longrightarrow>
   bytes_ok (add_limbs u hs cs) \<and> limbs_value (add_limbs u hs cs) = (u + limbs_value hs + limbs_value cs) mod 256 ^ length hs"
proof (induction u hs cs rule: add_limbs.induct)
  case (1 u h hs c cs)
  have u: "u32 (h + c) = h + c" "u32 (u + (h + c)) = u + h + c" using 1 by (simp_all add: u32_id)
  let ?u = "u + h + c"
  have v: "?u div 256 < 2 ^ 62" by (rule less_mult_imp_div_less) (use 1 in simp)
  have IH: "bytes_ok (add_limbs (?u div 256) hs cs) \<and>
      limbs_value (add_limbs (?u div 256) hs cs) = (?u div 256 + limbs_value hs + limbs_value cs) mod 256 ^ length hs"
    using 1 v by (simp add: u drop_bit_eq_div)
  have "limbs_value (add_limbs u (h # hs) (c # cs)) = ?u mod 256 + 256 * ((?u div 256 + limbs_value hs + limbs_value cs) mod 256 ^ length hs)"
    using IH by (simp add: u and_255 drop_bit_eq_div Let_def)
  also have "\<dots> = (?u + 256 * (limbs_value hs + limbs_value cs)) mod (256 * 256 ^ length hs)"
    using mod_256_split [of ?u "limbs_value hs + limbs_value cs" "256 ^ length hs"] by (simp only: add.assoc)
  also have "\<dots> = (u + limbs_value (h # hs) + limbs_value (c # cs)) mod 256 ^ length (h # hs)"
    by (simp add: algebra_simps)
  finally show ?case using IH by (simp add: u and_255 drop_bit_eq_div Let_def)
qed simp_all

lemma carry_limbs_value:
  "small n hs \<Longrightarrow> u < n \<Longrightarrow> n \<le> 2 ^ 62 \<Longrightarrow> carry_limbs u hs = (l, v) \<Longrightarrow>
   bytes_ok l \<and> limbs_value l + 256 ^ length hs * v = u + limbs_value hs \<and> v < n"
proof (induction u hs arbitrary: l v rule: carry_limbs.induct)
  case (2 u h hs)
  have u: "u32 (u + h) = u + h" using 2 by (simp add: u32_id)
  obtain l' where l': "carry_limbs ((u + h) div 256) hs = (l', v)" "l = (u + h) mod 256 # l'"
    using 2 by (auto simp: u and_255 drop_bit_eq_div Let_def split: prod.splits)
  have v: "(u + h) div 256 < n" by (rule less_mult_imp_div_less) (use 2 in simp)
  have IH: "bytes_ok l'" "limbs_value l' + 256 ^ length hs * v = (u + h) div 256 + limbs_value hs" "v < n"
    using 2 v l' by (simp_all add: u drop_bit_eq_div)
  have "limbs_value l + 256 ^ length (h # hs) * v = (u + h) mod 256 + 256 * (limbs_value l' + 256 ^ length hs * v)"
    by (simp add: l' algebra_simps)
  also have "\<dots> = u + limbs_value (h # hs)" 
    unfolding IH(2) using mod_mult_div_eq [of "u + h" 256] by simp
  finally show ?case using IH by (simp add: l')
qed simp

section \<open>Multiplication\<close>

lemma fold_u32_sum:
  "n \<le> 17 \<Longrightarrow> \<forall>j<17. f j < 2 ^ 32 \<Longrightarrow>
   fold (\<lambda>j x. u32 (x + u32 (f j))) [0..<n] 0 = (\<Sum>j<n. f j) \<and> (\<Sum>j<n. f j) \<le> n * 2 ^ 32"
proof (induction n)
  case (Suc n)
  then have "fold (\<lambda>j x. u32 (x + u32 (f j))) [0..<n] 0 = (\<Sum>j<n. f j)" "(\<Sum>j<n. f j) \<le> n * 2 ^ 32" "f n < 2 ^ 32"
    by simp_all
  then show ?case using Suc.prems(1) by (simp add: u32_id)
qed simp

text \<open>The factor of the \<open>j\<close>-th limb in the \<open>i\<close>-th limb of a product.\<close>

definition factor :: "nat list \<Rightarrow> nat \<Rightarrow> nat \<Rightarrow> nat" where
  "factor r i j = (if j \<le> i then r ! (i - j) else 320 * r ! (i + 17 - j))"

lemma factor_less: "bytes_ok r \<Longrightarrow> length r = 17 \<Longrightarrow> i < 17 \<Longrightarrow> j < 17 \<Longrightarrow> factor r i j < 320 * 256"
proof (cases "j \<le> i")
  assume a: "bytes_ok r" "length r = 17" "i < 17" "j < 17"
  case True
  have "r ! (i - j) < 256" by (rule bytes_ok_nth [OF a(1)]) (use a in simp)
  then show ?thesis using True by (simp add: factor_def)
next
  assume a: "bytes_ok r" "length r = 17" "i < 17" "j < 17"
  case False
  have "r ! (i + 17 - j) < 256" by (rule bytes_ok_nth [OF a(1)]) (use a False in simp)
  then show ?thesis using False by (simp add: factor_def)
qed

lemma mul_limbs_sum:
  assumes "bytes_ok h" "bytes_ok r" "length h = 17" "length r = 17"
  shows "mul_limbs h r = map (\<lambda>i. \<Sum>j<17. h ! j * factor r i j) [0..<17]" and "small (2 ^ 40) (mul_limbs h r)"
proof -
  have less: "h ! j * factor r i j < 2 ^ 32" if "i < 17" "j < 17" for i j
  proof -
    have "h ! j * factor r i j \<le> 256 * (320 * 256)"
      using that factor_less [OF assms(2,4) that] bytes_ok_nth [OF assms(1), of j] assms(3) by (intro mult_mono) simp_all
    then show ?thesis by simp
  qed
  have f: "u32 (320 * r ! (i + 17 - j)) = 320 * r ! (i + 17 - j)" if "i < 17" "j < 17" "\<not> j \<le> i" for i j
  proof -
    have "r ! (i + 17 - j) < 256" by (rule bytes_ok_nth [OF assms(2)]) (use assms(4) that in simp)
    then show ?thesis by (simp add: u32_id)
  qed
  have sums: "fold (\<lambda>j x. u32 (x + u32 (h ! j * (if j \<le> i then r ! (i - j) else u32 (320 * r ! (i + 17 - j)))))) [0..<17] 0 =
      (\<Sum>j<17. h ! j * factor r i j) \<and> (\<Sum>j<17. h ! j * factor r i j) \<le> 17 * 2 ^ 32" if "i < 17" for i
  proof -
    have "fold (\<lambda>j x. u32 (x + u32 (h ! j * (if j \<le> i then r ! (i - j) else u32 (320 * r ! (i + 17 - j)))))) [0..<17] 0 =
        fold (\<lambda>j x. u32 (x + u32 (h ! j * factor r i j))) [0..<17] 0"
      by (rule fold_cong) (use f that in \<open>auto simp: factor_def\<close>)
    then show ?thesis using fold_u32_sum [of 17 "\<lambda>j. h ! j * factor r i j"] less that by simp
  qed
  then show "mul_limbs h r = map (\<lambda>i. \<Sum>j<17. h ! j * factor r i j) [0..<17]"
    unfolding mul_limbs_def by (intro map_cong refl) simp
  then show "small (2 ^ 40) (mul_limbs h r)" using sums by (fastforce simp: small_def)
qed

lemma two_136: "(256 :: nat) ^ 17 = 320 + p1305 * 64"
  by (simp add: p1305_def)

lemma column_value:
  assumes "j < 17" "length r = 17"
  shows "256 ^ j * limbs_value r = (\<Sum>i<17. factor r i j * 256 ^ i) + p1305 * (\<Sum>i<j. 64 * (r ! (i + 17 - j) * 256 ^ i))"
proof -
  let ?g = "\<lambda>k. r ! k * 256 ^ (k + j)"
  have "256 ^ j * limbs_value r = (\<Sum>k<17. ?g k)"
    by (simp add: limbs_value_sum assms(2) sum_distrib_left power_add algebra_simps)
  also have "\<dots> = (\<Sum>k\<in>{0..<17 - j}. ?g k) + (\<Sum>k\<in>{17 - j..<17}. ?g k)"
    using assms(1) by (simp add: lessThan_atLeast0 sum.atLeastLessThan_concat)
  also have "(\<Sum>k\<in>{0..<17 - j}. ?g k) = (\<Sum>i\<in>{j..<17}. factor r i j * 256 ^ i)"
    using sum.shift_bounds_nat_ivl [of "\<lambda>i. factor r i j * 256 ^ i" 0 j "17 - j"] assms(1) by (simp add: factor_def)
  also have "(\<Sum>k\<in>{17 - j..<17}. ?g k) = (\<Sum>i<j. r ! (i + 17 - j) * 256 ^ (i + 17))"
    using sum.shift_bounds_nat_ivl [of ?g 0 "17 - j" j] assms(1) by (simp add: lessThan_atLeast0 add.assoc)
  also have "\<dots> = (\<Sum>i<j. factor r i j * 256 ^ i + p1305 * (64 * (r ! (i + 17 - j) * 256 ^ i)))"
  proof (rule sum.cong [OF refl])
    fix i assume "i \<in> {..<j}"
    moreover have "(256 :: nat) ^ (i + 17) = 256 ^ i * (320 + p1305 * 64)" by (simp only: power_add two_136)
    ultimately show "r ! (i + 17 - j) * 256 ^ (i + 17) = factor r i j * 256 ^ i + p1305 * (64 * (r ! (i + 17 - j) * 256 ^ i))"
      by (simp only: factor_def lessThan_iff not_le [symmetric] if_False) (simp only: algebra_simps)
  qed
  also have "\<dots> = (\<Sum>i<j. factor r i j * 256 ^ i) + p1305 * (\<Sum>i<j. 64 * (r ! (i + 17 - j) * 256 ^ i))"
    by (simp only: sum.distrib sum_distrib_left)
  finally have "256 ^ j * limbs_value r = (\<Sum>i\<in>{j..<17}. factor r i j * 256 ^ i) + (\<Sum>i<j. factor r i j * 256 ^ i) +
      p1305 * (\<Sum>i<j. 64 * (r ! (i + 17 - j) * 256 ^ i))" by simp
  moreover have "(\<Sum>i<j. factor r i j * 256 ^ i) + (\<Sum>i\<in>{j..<17}. factor r i j * 256 ^ i) = (\<Sum>i<17. factor r i j * 256 ^ i)"
    using assms(1) by (simp add: lessThan_atLeast0 sum.atLeastLessThan_concat)
  ultimately show ?thesis by simp
qed

lemma mul_limbs_value:
  assumes "bytes_ok h" "bytes_ok r" "length h = 17" "length r = 17"
  shows "limbs_value (mul_limbs h r) mod p1305 = limbs_value h * limbs_value r mod p1305"
proof -
  let ?k = "\<lambda>j. \<Sum>i<j. 64 * (r ! (i + 17 - j) * 256 ^ i)"
  have "limbs_value h * limbs_value r = (\<Sum>j<17. h ! j * (256 ^ j * limbs_value r))"
    by (simp add: limbs_value_sum [of h] assms(3) sum_distrib_right sum_distrib_left algebra_simps)
  also have "\<dots> = (\<Sum>j<17. h ! j * ((\<Sum>i<17. factor r i j * 256 ^ i) + p1305 * ?k j))"
    by (rule sum.cong) (simp_all add: column_value assms(4))
  also have "\<dots> = (\<Sum>j<17. h ! j * (\<Sum>i<17. factor r i j * 256 ^ i)) + p1305 * (\<Sum>j<17. h ! j * ?k j)"
    by (simp only: distrib_left sum.distrib sum_distrib_left mult.left_commute)
  also have "(\<Sum>j<17. h ! j * (\<Sum>i<17. factor r i j * 256 ^ i)) = (\<Sum>i<17. (\<Sum>j<17. h ! j * factor r i j) * 256 ^ i)"
    unfolding sum_distrib_left sum_distrib_right by (subst sum.swap) (simp add: mult.assoc)
  also have "\<dots> = limbs_value (mul_limbs h r)"
    by (simp add: limbs_value_sum mul_limbs_sum(1) [OF assms])
  finally show ?thesis by simp
qed

section \<open>Carries\<close>

lemma and_3: "n AND 3 = n mod (4 :: nat)"
  using take_bit_eq_mask [of 2 n] by (simp add: take_bit_eq_mod mask_eq_exp_minus_1)

definition squeezed :: "nat list \<Rightarrow> bool" where
  "squeezed h \<longleftrightarrow> length h = 17 \<and> bytes_ok (take 16 h) \<and> h ! 16 \<le> 4"

lemma limbs_17:
  assumes "length h = 17"
  shows "limbs_value h = limbs_value (take 16 h) + 256 ^ 16 * h ! 16"
proof -
  have "take (Suc 16) h = take 16 h @ [h ! 16]" by (rule take_Suc_conv_app_nth) (use assms in simp)
  then have "h = take 16 h @ [h ! 16]" using assms by simp
  then show ?thesis using limbs_value_append [of "take 16 h" "[h ! 16]"] assms by simp
qed

lemma squeezed_less: "squeezed h \<Longrightarrow> limbs_value h < 5 * 256 ^ 16"
  using limbs_value_less [of "take 16 h"] limbs_17 [of h] by (simp add: squeezed_def)

lemma squeeze_value:
  assumes "length x = 17" "small (2 ^ 40) x"
  shows "squeezed (squeeze x) \<and> limbs_value (squeeze x) mod p1305 = limbs_value x mod p1305"
proof -
  have x16: "x ! 16 < 2 ^ 40" and x: "small (2 ^ 40) (take 16 x)"
    using assms by (auto simp: small_def dest: in_set_takeD)
  obtain l u1 where 1: "carry_limbs 0 (take 16 x) = (l, u1)" by (metis surj_pair)
  have c1: "bytes_ok l" "limbs_value l + 256 ^ 16 * u1 = limbs_value (take 16 x)" "u1 < 2 ^ 40"
    using carry_limbs_value [OF x _ _ 1] assms(1) by simp_all
  have l: "length l = 16" using length_carry_limbs [of 0 "take 16 x"] assms(1) by (simp add: 1)
  define u where "u = u1 + x ! 16"
  have u: "u32 (u1 + x ! 16) = u" "u < 2 ^ 41" "u32 (5 * (u div 4)) = 5 * (u div 4)"
    using c1(3) x16 by (simp_all add: u32_id u_def)
  obtain l2 u2 where 2: "carry_limbs (5 * (u div 4)) l = (l2, u2)" by (metis surj_pair)
  have "small (2 ^ 44) l" using c1(1) small_mono [of 256 l "2 ^ 44"] by (simp add: small_256)
  then have c2: "bytes_ok l2" "limbs_value l2 + 256 ^ 16 * u2 = 5 * (u div 4) + limbs_value l" "u2 < 2 ^ 44"
    using carry_limbs_value [OF _ _ _ 2, of "2 ^ 44"] u(2) l by simp_all
  have l2: "length l2 = 16" using length_carry_limbs [of "5 * (u div 4)" l] l by (simp add: 2)
  have top: "u32 (u2 + u mod 4) = u2 + u mod 4" using c2(3) by (simp add: u32_id)
  have s: "squeeze x = l2 @ [u2 + u mod 4]"
    by (simp add: squeeze_def 1 2 u and_3 drop_bit_eq_div top Let_def)
  have "256 ^ 16 * u2 < 256 ^ 16 * 2" using c2(2) u(2) limbs_value_less [OF c1(1)] l by simp
  then have u2: "u2 \<le> 1" by simp
  have "limbs_value x = limbs_value l + 256 ^ 16 * u"
    using limbs_17 [OF assms(1)] c1(2) by (simp add: u_def algebra_simps)
  also have "\<dots> = limbs_value l + 256 ^ 16 * (u mod 4) + 2 ^ 130 * (u div 4)"
    by (subst mod_mult_div_eq [of u 4, symmetric]) (simp only: distrib_left, simp)
  also have "\<dots> = limbs_value (squeeze x) + p1305 * (u div 4)"
    using c2(2) l2 by (simp add: s limbs_value_append p1305_def algebra_simps)
  finally have "limbs_value x = limbs_value (squeeze x) + p1305 * (u div 4)" .
  then show ?thesis using c2(1) l2 u2 by (simp add: squeezed_def s nth_append)
qed

section \<open>Blocks\<close>

lemma limbs_value_take: "bytes_ok l \<Longrightarrow> n \<le> length l \<Longrightarrow> limbs_value (take n l) = limbs_value l mod 256 ^ n"
proof -
  assume a: "bytes_ok l" "n \<le> length l"
  then have "limbs_value l = limbs_value (take n l) + 256 ^ n * limbs_value (drop n l)" "limbs_value (take n l) < 256 ^ n"
    using limbs_value_append [of "take n l" "drop n l"] limbs_value_less [OF bytes_ok_take [OF a(1), of n]] by simp_all
  then show ?thesis by simp
qed

lemma limbs_value_top: "length l = 17 \<Longrightarrow> bytes_ok l \<Longrightarrow> l ! 16 = limbs_value l div 256 ^ 16"
  using limbs_17 [of l] limbs_value_less [of "take 16 l"] by (simp add: bytes_ok_take)

lemma block_limbs_value:
  assumes "bytes_ok m"
  shows "limbs_value (block_limbs m (length m)) = limbs_value (take 16 m @ [1])"
    and "bytes_ok (block_limbs m (length m))" "length (block_limbs m (length m)) = 17"
    and "limbs_value (block_limbs m (length m)) \<le> 2 * 256 ^ 16"
proof -
  let ?j = "min 16 (length m)"
  have b: "block_limbs m (length m) = (take 16 m @ [1]) @ replicate (16 - ?j) 0"
    by (simp add: block_limbs_def Let_def list_eq_iff_nth_eq nth_append min.commute)
  then show v: "limbs_value (block_limbs m (length m)) = limbs_value (take 16 m @ [1])"
    by (simp only: limbs_value_append limbs_value_zeros)
  show "bytes_ok (block_limbs m (length m))" "length (block_limbs m (length m)) = 17"
    unfolding b using assms by (simp_all add: bytes_ok_take)
  have "limbs_value (take 16 m) < 256 ^ length (take 16 m)" by (rule limbs_value_less) (use assms in \<open>simp add: bytes_ok_take\<close>)
  moreover have "(256 :: nat) ^ length (take 16 m) \<le> 256 ^ 16" by (rule power_increasing) simp_all
  ultimately show "limbs_value (block_limbs m (length m)) \<le> 2 * 256 ^ 16"
    unfolding v limbs_value_append by simp
qed

lemma squeezed_ok: "squeezed h \<Longrightarrow> bytes_ok h"
proof -
  assume h: "squeezed h"
  have "bytes_ok (take (Suc 16) h)"
    by (subst take_Suc_conv_app_nth) (use h in \<open>simp_all add: squeezed_def\<close>)
  then show ?thesis using h by (simp add: squeezed_def)
qed

lemma auth_step:
  assumes "squeezed h" "bytes_ok r" "length r = 17" "bytes_ok m"
  shows "squeezed (squeeze (mul_limbs (add1305 h (block_limbs m (length m))) r))"
    and "limbs_value (squeeze (mul_limbs (add1305 h (block_limbs m (length m))) r)) mod p1305 =
         (limbs_value h + limbs_value (take 16 m @ [1])) * limbs_value r mod p1305"
proof -
  note b = block_limbs_value [OF assms(4)]
  let ?g = "add1305 h (block_limbs m (length m))"
  have l: "length h = 17" using assms(1) by (simp add: squeezed_def)
  have "limbs_value h + limbs_value (block_limbs m (length m)) < 256 ^ 17"
    using squeezed_less [OF assms(1)] b(4) by simp
  then have g: "bytes_ok ?g" "limbs_value ?g = limbs_value h + limbs_value (take 16 m @ [1])" "length ?g = 17"
    using add_limbs_value [of h "block_limbs m (length m)" 0] squeezed_ok [OF assms(1)] b l
      small_mono [of 256 h "2 ^ 62"] small_mono [of 256 "block_limbs m (length m)" "2 ^ 62"]
    by (simp_all add: add1305_def small_256)
  note q = squeeze_value [OF length_mul_limbs mul_limbs_sum(2) [OF g(1) assms(2) g(3) assms(3)]]
  show "squeezed (squeeze (mul_limbs ?g r))" using q by simp
  show "limbs_value (squeeze (mul_limbs ?g r)) mod p1305 = (limbs_value h + limbs_value (take 16 m @ [1])) * limbs_value r mod p1305"
    using q mul_limbs_value [OF g(1) assms(2) g(3) assms(3)] g(2) by simp
qed

lemma poly_blocks_mod: "a mod p1305 = a' mod p1305 \<Longrightarrow> poly_blocks r a m mod p1305 = poly_blocks r a' m mod p1305"
proof (cases "m = []")
  case False
  assume a: "a mod p1305 = a' mod p1305"
  have "(a + b) * r mod p1305 = (a' + b) * r mod p1305" for b
    using a by (metis mod_add_left_eq mod_mult_left_eq)
  then show ?thesis using False by (simp add: poly_blocks.simps [of r a] poly_blocks.simps [of r a'])
qed (simp add: poly_blocks.simps)

lemma poly_blocks_less: "a < p1305 \<Longrightarrow> poly_blocks r a m < p1305"
proof (induction r a m rule: poly_blocks.induct)
  case (1 r a m)
  then show ?case by (subst poly_blocks.simps) (simp add: p1305_def)
qed

lemma auth_blocks_value:
  assumes "bytes_ok r" "length r = 17"
  shows "squeezed h \<Longrightarrow> bytes_ok m \<Longrightarrow> squeezed (auth_blocks r h m (length m)) \<and>
    limbs_value (auth_blocks r h m (length m)) mod p1305 = poly_blocks (limbs_value r) (limbs_value h) m mod p1305"
proof (induction m arbitrary: h rule: measure_induct_rule [of length])
  case (less m)
  show ?case
  proof (cases "m = []")
    case True
    then show ?thesis using less by (simp add: auth_blocks.simps poly_blocks.simps)
  next
    case False
    let ?h = "squeeze (mul_limbs (add1305 h (block_limbs m (length m))) r)"
    note st = auth_step [OF less.prems(1) assms less.prems(2)]
    have rec: "auth_blocks r h m (length m) = auth_blocks r ?h (drop 16 m) (length (drop 16 m))"
    proof (cases "16 \<le> length m")
      case True
      then show ?thesis using False by (subst auth_blocks.simps) simp
    next
      case short: False
      then show ?thesis using False by (subst auth_blocks.simps) simp
    qed
    have "squeezed (auth_blocks r ?h (drop 16 m) (length (drop 16 m))) \<and>
        limbs_value (auth_blocks r ?h (drop 16 m) (length (drop 16 m))) mod p1305 =
        poly_blocks (limbs_value r) (limbs_value ?h) (drop 16 m) mod p1305"
      by (rule less.IH) (use False less.prems st in \<open>simp_all add: bytes_ok_drop\<close>)
    moreover have "poly_blocks (limbs_value r) (limbs_value ?h) (drop 16 m) mod p1305 = poly_blocks (limbs_value r) (limbs_value h) m mod p1305"
      using st(2) False by (subst (2) poly_blocks.simps) (auto intro!: poly_blocks_mod)
    ultimately show ?thesis using rec by simp
  qed
qed

section \<open>The last reduction\<close>

lemma add1305_value:
  assumes "bytes_ok h" "bytes_ok c" "length h = 17" "length c = 17"
  shows "bytes_ok (add1305 h c)" "limbs_value (add1305 h c) = (limbs_value h + limbs_value c) mod 256 ^ 17" "length (add1305 h c) = 17"
  using add_limbs_value [of h c 0] assms small_mono [of 256 h "2 ^ 62"] small_mono [of 256 c "2 ^ 62"]
  by (simp_all add: add1305_def small_256)

lemma minusp_value: "limbs_value minusp = 256 ^ 17 - p1305" "bytes_ok minusp" "length minusp = 17"
  by (simp_all add: minusp_def p1305_def limbs_value_append)

lemma and_ones: "n < 2 ^ 64 \<Longrightarrow> (2 ^ 64 - 1) AND n = (n :: nat)"
  using take_bit_eq_mask [of 64 n] take_bit_nat_eq_self [of n 64] by (simp add: mask_eq_exp_minus_1 and.commute)

lemma freeze_value:
  assumes "squeezed g"
  shows "bytes_ok (freeze g)" "length (freeze g) = 17" "limbs_value (freeze g) = limbs_value g mod p1305"
proof -
  let ?h = "add1305 g minusp"
  have l: "length g = 17" using assms by (simp add: squeezed_def)
  note h = add1305_value [OF squeezed_ok [OF assms] minusp_value(2) l minusp_value(3)]
  have less: "limbs_value g < 2 * p1305" using squeezed_less [OF assms] by (simp add: p1305_def)
  have top: "?h ! 16 = limbs_value ?h div 256 ^ 16" by (rule limbs_value_top [OF h(3,1)])
  have "bytes_ok (freeze g) \<and> length (freeze g) = 17 \<and> limbs_value (freeze g) = limbs_value g mod p1305"
  proof (cases "p1305 \<le> limbs_value g")
    case True
    then have "limbs_value g + (256 ^ 17 - p1305) = (limbs_value g - p1305) + 256 ^ 17" by (simp add: p1305_def)
    then have v: "limbs_value ?h = limbs_value g - p1305"
      using less h(2) by (simp add: minusp_value)
    then have "?h ! 16 < 128" using less top by (simp add: p1305_def)
    then have "freeze g = map2 (\<lambda>h g. h) ?h g" by (simp add: freeze_def drop_bit_eq_div u32_def Let_def)
    also have "\<dots> = ?h" using l h(3) by (simp add: list_eq_iff_nth_eq)
    finally have f: "freeze g = ?h" .
    have "limbs_value g mod p1305 = limbs_value g - p1305" using True less by (simp add: mod_if)
    then show ?thesis unfolding f using v h by simp
  next
    case False
    then have "limbs_value ?h = limbs_value g + (256 ^ 17 - p1305)"
      using h(2) by (simp add: minusp_value p1305_def)
    then have "128 \<le> ?h ! 16" using top by (simp add: p1305_def)
    moreover have "?h ! 16 < 256" using bytes_ok_nth [OF h(1), of 16] h(3) by simp
    ultimately have "drop_bit 7 (?h ! 16) = 1" by (simp add: drop_bit_eq_div)
    then have "freeze g = map2 (\<lambda>h g. h XOR ((2 ^ 64 - 1) AND (g XOR h))) ?h g"
      by (simp add: freeze_def u32_def Let_def)
    also have "\<dots> = g"
    proof (rule nth_equalityI)
      fix i assume "i < length (map2 (\<lambda>h g. h XOR ((2 ^ 64 - 1) AND (g XOR h))) ?h g)"
      then have i: "i < length ?h" "i < length g" using l h(3) by simp_all
      have "g ! i < 256" "?h ! i < 256" using bytes_ok_nth [OF h(1)] bytes_ok_nth [OF squeezed_ok [OF assms]] i by simp_all
      then have "g ! i XOR ?h ! i < 2 ^ 64" using xor_less_256 [of "g ! i" "?h ! i"] by simp
      then have "(2 ^ 64 - 1) AND (g ! i XOR ?h ! i) = g ! i XOR ?h ! i" by (rule and_ones)
      then show "map2 (\<lambda>h g. h XOR ((2 ^ 64 - 1) AND (g XOR h))) ?h g ! i = g ! i"
        using i by (simp add: xor.left_commute [of "?h ! i"])
    qed (use l h(3) in simp)
    finally have f: "freeze g = g" .
    show ?thesis unfolding f using False l squeezed_ok [OF assms] by simp
  qed
  then show "bytes_ok (freeze g)" "length (freeze g) = 17" "limbs_value (freeze g) = limbs_value g mod p1305" by simp_all
qed

section \<open>The key\<close>

lemma and_less_256: "a < 256 \<Longrightarrow> b < 256 \<Longrightarrow> a AND b < (256 :: nat)"
  using take_bit_nat_eq_self_iff [of 8 "a AND b"] take_bit_nat_eq_self_iff [of 8 a] take_bit_nat_eq_self_iff [of 8 b]
  by (simp add: take_bit_and)

lemma bytes_ok_map2_and: "bytes_ok xs \<Longrightarrow> bytes_ok ys \<Longrightarrow> bytes_ok (map2 (AND) xs ys)"
  by (auto simp: bytes_ok_def set_zip intro!: and_less_256)

lemma and_split: "x < 256 \<Longrightarrow> y < 256 \<Longrightarrow> (x + 256 * a) AND (y + 256 * b) = (x AND y) + 256 * (a AND (b :: nat))"
proof -
  assume "x < 256" "y < 256"
  let ?n = "(x + 256 * a) AND (y + 256 * b)"
  have "take_bit 8 ?n = x AND y"
    using \<open>x < 256\<close> \<open>y < 256\<close> by (simp add: take_bit_and) (simp add: take_bit_eq_mod)
  moreover have "drop_bit 8 ?n = a AND b"
    using \<open>x < 256\<close> \<open>y < 256\<close> by (simp add: drop_bit_and) (simp add: drop_bit_eq_div)
  ultimately show ?thesis using mod_mult_div_eq [of ?n 256] by (simp add: take_bit_eq_mod drop_bit_eq_div)
qed

lemma limbs_value_and:
  "length xs = length ys \<Longrightarrow> bytes_ok xs \<Longrightarrow> bytes_ok ys \<Longrightarrow>
   limbs_value (map2 (AND) xs ys) = limbs_value xs AND limbs_value ys"
  by (induction xs ys rule: list_induct2) (simp_all add: and_split)

lemma and_255_id: "n < 256 \<Longrightarrow> n AND 255 = (n :: nat)"
  by (simp add: and_255)

lemma load_r_value:
  assumes "bytes_ok k" "16 \<le> length k"
  shows "bytes_ok (load_r k)" "length (load_r k) = 17" "limbs_value (load_r k) = limbs_value (take 16 k) AND clamp"
proof -
  let ?c = "[255, 255, 255, 15, 252, 255, 255, 15, 252, 255, 255, 15, 252, 255, 255, 15] :: nat list"
  have k: "map (\<lambda>j. k ! j) [0..<16] = take 16 k" using assms(2) by (simp add: list_eq_iff_nth_eq)
  have b: "k ! j AND 255 = k ! j" if "j < 16" for j
    by (rule and_255_id, rule bytes_ok_nth [OF assms(1)]) (use assms(2) that in simp)
  have "load_r k = map2 (AND) (map (\<lambda>j. k ! j) [0..<16]) ?c @ [0]"
    using b by (simp add: load_r_def clamp_masks_def upt_rec)
  then have r: "load_r k = map2 (AND) (take 16 k) ?c @ [0]" by (simp only: k)
  have t: "bytes_ok (take 16 k)" "length (take 16 k) = length ?c" using assms by (simp_all add: bytes_ok_take)
  have "limbs_value ?c = clamp" by (simp add: clamp_def)
  then show "limbs_value (load_r k) = limbs_value (take 16 k) AND clamp"
    using limbs_value_and [OF t(2,1), of] unfolding r limbs_value_append by simp
  have "bytes_ok (map2 (AND) (take 16 k) ?c)" by (rule bytes_ok_map2_and [OF t(1)]) simp
  then show "bytes_ok (load_r k)" "length (load_r k) = 17"
    unfolding r using assms(2) by simp_all
qed

text \<open>
  C10. The authenticator is Poly1305: for every message and every key of 32 bytes the 16 bytes
  that \<open>crypto_onetimeauth\<close> computes with its 17 limbs, its delayed carries and its constant-time
  reduction are the number that the specification gives.
\<close>

theorem onetimeauth_poly1305:
  assumes "bytes_ok m" "bytes_ok k" "length k = 32"
  shows "bytes_ok (crypto_onetimeauth m (length m) k) \<and> length (crypto_onetimeauth m (length m) k) = 16 \<and>
    limbs_value (crypto_onetimeauth m (length m) k) = poly1305 m k"
proof -
  note r = load_r_value [OF assms(2), unfolded assms(3), simplified]
  let ?b = "auth_blocks (load_r k) (replicate 17 0) m (length m)"
  have "squeezed (replicate 17 0)" by (simp add: squeezed_def)
  note b = auth_blocks_value [OF r(1,2) this assms(1)]
  note f = freeze_value [OF conjunct1 [OF b]]
  let ?c = "map (\<lambda>j. k ! (j + 16)) [0..<16] @ [0]"
  have c: "?c = take 16 (drop 16 k) @ [0]" using assms(3) by (simp add: list_eq_iff_nth_eq nth_append add.commute)
  have cok: "bytes_ok ?c" "length ?c = 17" "limbs_value ?c = limbs_value (take 16 (drop 16 k))"
    unfolding c using assms by (simp_all add: bytes_ok_take bytes_ok_drop limbs_value_append)
  note s = add1305_value [OF f(1) cok(1) f(2) cok(2)]
  have p: "poly_blocks (limbs_value (load_r k)) 0 m < p1305" by (rule poly_blocks_less) (simp add: p1305_def)
  have "map (\<lambda>j. j mod 256) (take 16 (add1305 (freeze ?b) ?c)) = take 16 (add1305 (freeze ?b) ?c)"
    using bytes_ok_take [OF s(1), of 16] by (simp add: bytes_ok_def map_idI)
  then have "crypto_onetimeauth m (length m) k = take 16 (add1305 (freeze ?b) ?c)"
    by (simp only: crypto_onetimeauth_def Let_def)
  moreover have "limbs_value (take 16 (add1305 (freeze ?b) ?c)) = limbs_value (add1305 (freeze ?b) ?c) mod 256 ^ 16"
    by (rule limbs_value_take) (use s in simp_all)
  moreover have f': "limbs_value (freeze ?b) = poly_blocks (limbs_value (load_r k)) 0 m"
    using b f(3) p by simp
  moreover have "limbs_value (freeze ?b) + limbs_value ?c < 256 ^ 17"
    unfolding f' cok(3) using p limbs_value_less [of "take 16 (drop 16 k)"] assms
    by (simp add: bytes_ok_take bytes_ok_drop p1305_def)
  then have "limbs_value (add1305 (freeze ?b) ?c) = limbs_value (freeze ?b) + limbs_value ?c"
    unfolding s(2) by (rule mod_less)
  ultimately have "limbs_value (crypto_onetimeauth m (length m) k) = poly1305 m k"
    unfolding poly1305_def r(3) [symmetric] cok(3) [symmetric] by simp
  then show ?thesis by (simp add: crypto_onetimeauth_ok)
qed

theorem onetimeauth_poly1305_witness:
  "limbs_value (crypto_onetimeauth [1, 2, 255] (length [1, 2, 255 :: nat]) (replicate 32 9)) = poly1305 [1, 2, 255] (replicate 32 9)"
  by (rule onetimeauth_poly1305 [THEN conjunct2, THEN conjunct2]) (simp_all add: bytes_ok_def)

end
