(* ===== verification/Salsa20.thy ===== *)
theory Salsa20
  imports Poly1305
begin

unbundle bit_operations_syntax

text \<open>
  What the core of the stream cipher of \<open>src/tweetnacl.c\<close> computes: Salsa20 and HSalsa20 as they
  are specified on 32-bit words, although the code holds them in 64-bit ones, whose high halves
  fill with carries, and although it transposes the state after every round instead of
  alternating rounds on columns and rows.
\<close>

section \<open>The specification\<close>

type_synonym word32 = "32 word"

fun quarterround :: "word32 \<times> word32 \<times> word32 \<times> word32 \<Rightarrow> word32 \<times> word32 \<times> word32 \<times> word32" where
  "quarterround (y0, y1, y2, y3) =
     (let z1 = y1 XOR word_rotl 7 (y0 + y3);
          z2 = y2 XOR word_rotl 9 (z1 + y0);
          z3 = y3 XOR word_rotl 13 (z2 + z1);
          z0 = y0 XOR word_rotl 18 (z3 + z2)
      in (z0, z1, z2, z3))"

declare quarterround.simps [simp del]

fun columnround :: "word32 list \<Rightarrow> word32 list" where
  "columnround [x0, x1, x2, x3, x4, x5, x6, x7, x8, x9, x10, x11, x12, x13, x14, x15] =
     (let (y0, y4, y8, y12) = quarterround (x0, x4, x8, x12);
          (y5, y9, y13, y1) = quarterround (x5, x9, x13, x1);
          (y10, y14, y2, y6) = quarterround (x10, x14, x2, x6);
          (y15, y3, y7, y11) = quarterround (x15, x3, x7, x11)
      in [y0, y1, y2, y3, y4, y5, y6, y7, y8, y9, y10, y11, y12, y13, y14, y15])"
| "columnround xs = xs"

fun rowround :: "word32 list \<Rightarrow> word32 list" where
  "rowround [y0, y1, y2, y3, y4, y5, y6, y7, y8, y9, y10, y11, y12, y13, y14, y15] =
     (let (z0, z1, z2, z3) = quarterround (y0, y1, y2, y3);
          (z5, z6, z7, z4) = quarterround (y5, y6, y7, y4);
          (z10, z11, z8, z9) = quarterround (y10, y11, y8, y9);
          (z15, z12, z13, z14) = quarterround (y15, y12, y13, y14)
      in [z0, z1, z2, z3, z4, z5, z6, z7, z8, z9, z10, z11, z12, z13, z14, z15])"
| "rowround ys = ys"

definition doubleround :: "word32 list \<Rightarrow> word32 list" where
  "doubleround x = rowround (columnround x)"

definition littleendian :: "bytes \<Rightarrow> word32" where
  "littleendian b = word_of_nat (limbs_value (take 4 b))"

definition to_bytes :: "word32 \<Rightarrow> bytes" where
  "to_bytes w = low_bytes 4 (unat w)"

definition words :: "nat \<Rightarrow> bytes \<Rightarrow> word32 list" where
  "words n b = map (\<lambda>i. littleendian (drop (4 * i) b)) [0..<n]"

definition salsa20_input :: "bytes \<Rightarrow> bytes \<Rightarrow> bytes \<Rightarrow> word32 list" where
  "salsa20_input n k c =
     [words 4 c ! 0] @ words 4 k @ [words 4 c ! 1] @ words 4 n @ [words 4 c ! 2] @ words 4 (drop 16 k) @ [words 4 c ! 3]"

definition salsa20_spec :: "bytes \<Rightarrow> bytes \<Rightarrow> bytes \<Rightarrow> bytes" where
  "salsa20_spec n k c =
     (let x = salsa20_input n k c in concat (map to_bytes (map2 (+) x ((doubleround ^^ 10) x))))"

definition hsalsa20_spec :: "bytes \<Rightarrow> bytes \<Rightarrow> bytes \<Rightarrow> bytes" where
  "hsalsa20_spec n k c =
     (let z = (doubleround ^^ 10) (salsa20_input n k c)
      in concat (map (\<lambda>i. to_bytes (z ! i)) [0, 5, 10, 15, 6, 7, 8, 9]))"

section \<open>Halves of words\<close>

definition low :: "nat \<Rightarrow> word32" where
  "low n = word_of_nat n"

lemma u32_take_bit: "u32 n = take_bit 64 n"
  by (simp add: u32_def take_bit_eq_mod)

lemma bit_low: "bit (low n) i \<longleftrightarrow> i < 32 \<and> bit n i"
  by (simp add: low_def bit_simps)

lemma low_u32 [simp]: "low (u32 n) = low n"
  by (rule bit_word_eqI) (simp add: bit_low u32_take_bit bit_take_bit_iff)

lemma low_add: "low (a + b) = low a + low b"
  by (simp add: low_def)

lemma low_xor: "low (a XOR b) = low a XOR low b"
  by (rule bit_word_eqI) (simp add: bit_low bit_xor_iff)

lemma L32_bits: "L32 x c = take_bit 64 (push_bit c x) OR drop_bit (32 - c) (take_bit 32 x)"
  unfolding L32_def u32_take_bit by (simp add: take_bit_eq_mask [of 32] mask_eq_exp_minus_1)

lemma low_L32: "0 < c \<Longrightarrow> c < 32 \<Longrightarrow> low (L32 x c) = word_rotl c (low x)"
proof (rule bit_word_eqI)
  fix i assume c: "0 < c" "c < 32" and "i < LENGTH(32)"
  then have i: "i < 32" by simp
  have "bit (L32 x c) i \<longleftrightarrow> (if c \<le> i then bit x (i - c) else bit x (i + (32 - c)))"
    unfolding L32_bits bit_or_iff bit_take_bit_iff bit_push_bit_iff bit_drop_bit_eq comp_apply
    using c i by (auto simp: bit_take_bit_iff possible_bit_def add.commute)
  moreover have "bit (word_rotl c (low x)) i \<longleftrightarrow> (if c \<le> i then bit x (i - c) else bit x (i + (32 - c)))"
    unfolding bit_word_rotl_iff bit_low using c i by (auto simp: mod_if)
  ultimately show "bit (low (L32 x c)) i \<longleftrightarrow> bit (word_rotl c (low x)) i" using i by (simp add: bit_low)
qed

section \<open>Rounds\<close>

fun transpose16 :: "'a list \<Rightarrow> 'a list" where
  "transpose16 [x0, x1, x2, x3, x4, x5, x6, x7, x8, x9, x10, x11, x12, x13, x14, x15] =
     [x0, x4, x8, x12, x1, x5, x9, x13, x2, x6, x10, x14, x3, x7, x11, x15]"
| "transpose16 xs = xs"

lemma list_16:
  assumes "length x = 16"
  obtains x0 x1 x2 x3 x4 x5 x6 x7 x8 x9 x10 x11 x12 x13 x14 x15
  where "x = [x0, x1, x2, x3, x4, x5, x6, x7, x8, x9, x10, x11, x12, x13, x14, x15]"
  using assms by (auto simp: length_Suc_conv eval_nat_numeral)

lemma length_columnround: "length y = 16 \<Longrightarrow> length (columnround y) = 16"
  by (erule list_16) (simp split: prod.split)

lemma length_transpose16: "length y = 16 \<Longrightarrow> length (transpose16 y) = 16"
  by (erule list_16) simp

lemma rowround_columnround: "length y = 16 \<Longrightarrow> rowround y = transpose16 (columnround (transpose16 y))"
  by (erule list_16) (simp split: prod.split)

lemma transpose16_twice: "length y = 16 \<Longrightarrow> transpose16 (transpose16 y) = y"
  by (erule list_16) simp

lemma replicate_16: "replicate 16 (0 :: nat) = [0, 0, 0, 0, 0, 0, 0, 0, 0, 0, 0, 0, 0, 0, 0, 0]"
  by (simp add: numeral_eq_Suc)

lemma core_round_low: "length x = 16 \<Longrightarrow> map low (core_round x) = transpose16 (columnround (map low x))"
  by (erule list_16)
    (simp add: core_round_def core_quarter_def upt_rec replicate_16 quarterround.simps Let_def low_xor low_L32 low_add)

lemma length_core_round [simp]: "length (core_round x) = 16"
  by (simp add: core_round_def core_quarter_def upt_rec Let_def)

lemma core_round_twice:
  assumes "length x = 16"
  shows "map low (core_round (core_round x)) = doubleround (map low x)"
proof -
  let ?c = "columnround (map low x)"
  have c: "length ?c = 16" using assms by (simp add: length_columnround)
  have "map low (core_round (core_round x)) = transpose16 (columnround (transpose16 ?c))"
    using core_round_low [of "core_round x"] core_round_low [OF assms] by simp
  then show ?thesis using rowround_columnround [OF c] by (simp add: doubleround_def)
qed

lemma length_core_rounds: "length y = 16 \<Longrightarrow> length ((core_round ^^ n) y) = 16"
  by (cases n) simp_all

lemma core_rounds_low: "length y = 16 \<Longrightarrow> map low ((core_round ^^ (2 * n)) y) = (doubleround ^^ n) (map low y)"
proof (induction n)
  case (Suc n)
  have "map low ((core_round ^^ (2 * Suc n)) y) = map low (core_round (core_round ((core_round ^^ (2 * n)) y)))" by simp
  also have "\<dots> = doubleround (map low ((core_round ^^ (2 * n)) y))"
    by (rule core_round_twice) (rule length_core_rounds [OF Suc.prems])
  finally show ?case using Suc by simp
qed simp

section \<open>Bytes\<close>

lemma low_bytes_mod: "low_bytes n (u mod 256 ^ n) = low_bytes n u"
proof (induction n arbitrary: u)
  case (Suc n)
  have "u mod 256 ^ Suc n mod 256 = u mod 256" by (rule mod_mod_cancel) simp
  moreover have "u mod 256 ^ Suc n div 256 = u div 256 mod 256 ^ n"
    by (simp add: mod_mult2_eq)
  ultimately show ?case using Suc [of "u div 256"] by (simp add: drop_bit_eq_div)
qed simp

lemma st32_low: "st32 u = to_bytes (low u)"
proof -
  have "unat (low u) = u mod 256 ^ 4" by (simp add: low_def unat_of_nat)
  then show ?thesis using low_bytes_mod [of 4 u] by (simp add: st32_def to_bytes_def)
qed

lemma shift_in: "b < 256 \<Longrightarrow> u < 2 ^ 56 \<Longrightarrow> u32 (push_bit 8 u) OR b = 256 * u + (b :: nat)"
proof -
  assume "b < 256" "u < 2 ^ 56"
  let ?n = "push_bit 8 u OR b"
  have u: "u32 (push_bit 8 u) = push_bit 8 u" using \<open>u < 2 ^ 56\<close> by (simp add: u32_def push_bit_eq_mult)
  have "take_bit 8 ?n = b"
    using \<open>b < 256\<close> by (simp add: take_bit_or take_bit_push_bit take_bit_nat_eq_self_iff)
  moreover have "drop_bit 8 ?n = u"
    using \<open>b < 256\<close> by (simp add: drop_bit_or drop_bit_push_bit) (simp add: drop_bit_eq_div)
  ultimately show ?thesis using mod_mult_div_eq [of ?n 256] by (simp add: u take_bit_eq_mod drop_bit_eq_div)
qed

lemma ld32_low:
  assumes "bytes_ok b" "4 \<le> length b"
  shows "low (ld32 b) = littleendian b" "ld32 b < 2 ^ 64"
proof -
  obtain b0 b1 b2 b3 t where b: "b = b0 # b1 # b2 # b3 # t"
    using assms(2) by (auto simp: Suc_le_length_iff eval_nat_numeral)
  have "b0 < 256" "b1 < 256" "b2 < 256" "b3 < 256" using assms(1) by (simp_all add: b)
  note less = this
  then have "u32 (push_bit 8 b3) OR b2 = 256 * b3 + b2" "u32 (push_bit 8 (256 * b3 + b2)) OR b1 = 256 * (256 * b3 + b2) + b1"
    "u32 (push_bit 8 (256 * (256 * b3 + b2) + b1)) OR b0 = 256 * (256 * (256 * b3 + b2) + b1) + b0"
    by (simp_all add: shift_in)
  moreover have "b ! 3 = b3" "b ! 2 = b2" "b ! 1 = b1" "b ! 0 = b0" by (simp_all add: b)
  ultimately have "ld32 b = 256 * (256 * (256 * b3 + b2) + b1) + b0"
    by (simp only: ld32_def Let_def)
  then show "low (ld32 b) = littleendian b" "ld32 b < 2 ^ 64" using less by (simp_all add: b low_def littleendian_def)
qed

lemma core_load_low:
  assumes "bytes_ok n" "bytes_ok k" "bytes_ok c" "length n = 16" "length k = 32" "length c = 16"
  shows "map low (core_load n k c) = salsa20_input n k c"
proof -
  have l: "low (ld32 (drop i b)) = littleendian (drop i b)" if "bytes_ok b" "i + 4 \<le> length b" for i b
    using that by (intro ld32_low) (simp_all add: bytes_ok_drop)
  show ?thesis
    by (simp add: core_load_def replicate_16 upt_rec salsa20_input_def words_def l assms ld32_low [of n, unfolded assms]
        ld32_low [of k, unfolded assms] ld32_low [of c, unfolded assms])
qed

lemma length_core_load [simp]: "length (core_load n k c) = 16"
  by (simp add: core_load_def upt_rec)

lemma low_sub32: "b < 2 ^ 64 \<Longrightarrow> low (sub32 a b) = low a - low b"
  by (simp add: sub32_def) (simp add: low_def of_nat_diff)

text \<open>The words the code takes off again are those it started from.\<close>

lemma core_load_nth:
  "i < 4 \<Longrightarrow> core_load n k c ! (5 * i) = ld32 (drop (4 * i) c)"
  "i < 4 \<Longrightarrow> core_load n k c ! (6 + i) = ld32 (drop (4 * i) n)"
  by (auto simp: core_load_def replicate_16 upt_rec less_Suc_eq numeral_eq_Suc)

lemma hsalsa_words:
  assumes "length x = 16" "\<forall>i<4. low (c i) = low (y ! (5 * i)) \<and> c i < 2 ^ 64" "\<forall>i<4. low (n i) = low (y ! (6 + i)) \<and> n i < 2 ^ 64"
  shows "map (\<lambda>j. low (fold (\<lambda>i x. x[5 * i := sub32 (x ! (5 * i)) (c i), 6 + i := sub32 (x ! (6 + i)) (n i)]) [0..<4]
      (map (\<lambda>i. u32 (x ! i + y ! i)) [0..<16]) ! j)) [0, 5, 10, 15, 6, 7, 8, 9] = map (\<lambda>j. low (x ! j)) [0, 5, 10, 15, 6, 7, 8, 9]"
proof -
  have u: "[0..<4] = [0, 1, 2, 3 :: nat]" by (simp add: upt_rec)
  have c: "low (c 0) = low (y ! 0)" "low (c 1) = low (y ! 5)" "low (c 2) = low (y ! 10)" "low (c 3) = low (y ! 15)"
    "c 0 < 2 ^ 64" "c 1 < 2 ^ 64" "c 2 < 2 ^ 64" "c 3 < 2 ^ 64"
    using assms(2) [rule_format, of 0] assms(2) [rule_format, of 1] assms(2) [rule_format, of 2] assms(2) [rule_format, of 3] by simp_all
  have n: "low (n 0) = low (y ! 6)" "low (n 1) = low (y ! 7)" "low (n 2) = low (y ! 8)" "low (n 3) = low (y ! 9)"
    "n 0 < 2 ^ 64" "n 1 < 2 ^ 64" "n 2 < 2 ^ 64" "n 3 < 2 ^ 64"
    using assms(3) [rule_format, of 0] assms(3) [rule_format, of 1] assms(3) [rule_format, of 2] assms(3) [rule_format, of 3] by simp_all
  show ?thesis
    unfolding u using c n by (simp add: low_sub32 low_add)
qed

text \<open>
  C11. The stream cipher's core is Salsa20: on every nonce block, key and constant the code computes
  the specification's output, and with the flag set that of HSalsa20, from which the key of the
  stream is derived. The carries in the high halves of its words never reach the output.
\<close>

theorem core_salsa20:
  assumes "bytes_ok n" "bytes_ok k" "bytes_ok c" "length n = 16" "length k = 32" "length c = 16"
  shows "crypto_core_salsa20 n k c = salsa20_spec n k c \<and> crypto_core_hsalsa20 n k c = hsalsa20_spec n k c"
proof -
  let ?y = "core_load n k c" and ?i = "salsa20_input n k c"
  let ?x = "(core_round ^^ 20) ?y" and ?z = "(doubleround ^^ 10) ?i"
  have y: "map low ?y = ?i" by (rule core_load_low [OF assms])
  have x: "map low ?x = ?z" using core_rounds_low [of ?y 10] y by simp
  have len: "length ?x = 16" by (simp add: length_core_rounds)
  have lowx: "low (?x ! j) = ?z ! j" and lowy: "low (?y ! j) = ?i ! j" if "j < 16" for j
    using that x y len by (metis length_core_load nth_map)+
  have li: "length ?i = 16" "length ?z = 16" using arg_cong [OF y, of length] arg_cong [OF x, of length] len by simp_all
  have "map (\<lambda>i. st32 (u32 (?x ! i + ?y ! i))) [0..<16] = map (\<lambda>i. to_bytes (?z ! i + ?i ! i)) [0..<16]"
    by (rule map_cong) (simp_all add: st32_low low_add lowx lowy)
  also have "\<dots> = map to_bytes (map2 (+) ?i ?z)"
    by (rule nth_equalityI) (simp_all add: li add.commute)
  finally have 1: "crypto_core_salsa20 n k c = salsa20_spec n k c"
    by (simp add: crypto_core_salsa20_def core_def salsa20_spec_def Let_def)
  let ?c = "\<lambda>i. ld32 (drop (4 * i) c)" and ?n = "\<lambda>i. ld32 (drop (4 * i) n)"
  let ?w = "fold (\<lambda>i x. x[5 * i := sub32 (x ! (5 * i)) (?c i), 6 + i := sub32 (x ! (6 + i)) (?n i)]) [0..<4]
      (map (\<lambda>i. u32 (?x ! i + ?y ! i)) [0..<16])"
  have less: "?c i < 2 ^ 64" "?n i < 2 ^ 64" if "i < 4" for i
    using that assms by (intro ld32_low(2); simp add: bytes_ok_drop)+
  have w: "map (\<lambda>j. low (?w ! j)) [0, 5, 10, 15, 6, 7, 8, 9] = map (\<lambda>j. low (?x ! j)) [0, 5, 10, 15, 6, 7, 8, 9]"
    by (rule hsalsa_words [OF len]) (use less in \<open>auto simp: core_load_nth\<close>)
  have "crypto_core_hsalsa20 n k c = concat (map (\<lambda>j. to_bytes (low (?w ! j))) [0, 5, 10, 15, 6, 7, 8, 9])"
    by (simp add: crypto_core_hsalsa20_def core_def Let_def st32_low upt_rec)
  also have "\<dots> = concat (map to_bytes (map (\<lambda>j. low (?x ! j)) [0, 5, 10, 15, 6, 7, 8, 9]))"
    unfolding w [symmetric] by simp
  also have "\<dots> = hsalsa20_spec n k c" by (simp add: hsalsa20_spec_def Let_def lowx)
  finally show ?thesis using 1 by simp
qed

theorem core_salsa20_witness:
  "crypto_core_salsa20 (replicate 16 1) (replicate 32 2) sigma = salsa20_spec (replicate 16 1) (replicate 32 2) sigma"
  by (rule core_salsa20 [THEN conjunct1]) (simp_all add: bytes_ok_def sigma_def)

end
