(* ===== verification/Sp_Log.thy ===== *)
theory Sp_Log
  imports Prelude
begin

text \<open>
  Logging and the way a request ends: \<open>get_ipaddr\<close>, \<open>sp_log_msgf\<close> and the logging
  macros of \<open>src/sp_utils.c\<close> and \<open>src/sp_utils.h\<close>. An operation of a component is an
  \<open>'a eff\<close>: the events it causes, in order, and either its value or \<open>Bailout\<close>, the long
  jump of \<open>zend_bailout()\<close> that ends the request, or \<open>Crash\<close>, a failed \<open>assert\<close> or an
  access outside an object. Whether the engine's \<open>zend_error\<close>
  returns from a fatal error is not the extension's code: it is the field
  \<open>le_fatal_bails\<close> of the environment.
\<close>

section \<open>Effects\<close>

datatype log_level = E_ERROR | E_WARNING | E_NOTICE

datatype log_sink =
  Sink_Zend log_level | Sink_Zend_At log_level string nat | Sink_Syslog log_level | Sink_File string

datatype event =
    Ev_Log log_sink string
  | Ev_Dump string string
  | Ev_Call string "string list"

datatype 'a outcome = Done 'a | Bailout | Crash

type_synonym 'a eff = "event list \<times> 'a outcome"

definition ret :: "'a \<Rightarrow> 'a eff" where
  "ret a = ([], Done a)"

definition emit :: "event \<Rightarrow> unit eff" where
  "emit e = ([e], Done ())"

definition zend_bailout :: "'a eff" where
  "zend_bailout = ([], Bailout)"

definition crash :: "'a eff" where
  "crash = ([], Crash)"

fun ebind :: "'a eff \<Rightarrow> ('a \<Rightarrow> 'b eff) \<Rightarrow> 'b eff" where
  "ebind (es, Done a) f = (es @ fst (f a), snd (f a))"
| "ebind (es, Bailout) f = (es, Bailout)"
| "ebind (es, Crash) f = (es, Crash)"

definition eseq :: "unit eff \<Rightarrow> 'b eff \<Rightarrow> 'b eff" where
  "eseq m n = ebind m (\<lambda>_. n)"

lemma ebind_ret [simp]: "ebind (ret a) f = f a"
  by (simp add: ret_def)

lemma ebind_zend_bailout [simp]: "ebind zend_bailout f = zend_bailout"
  by (simp add: zend_bailout_def)

lemma ebind_crash [simp]: "ebind crash f = crash"
  by (simp add: crash_def)

lemma snd_crash [simp]: "snd crash = Crash"
  by (simp add: crash_def)

lemma ebind_ret_right [simp]: "ebind m ret = m"
  by (cases m, cases "snd m") (auto simp: ret_def)

lemma ebind_assoc: "ebind (ebind m f) g = ebind m (\<lambda>a. ebind (f a) g)"
proof (cases m)
  case (Pair es o1)
  show ?thesis
  proof (cases o1)
    case (Done a)
    obtain es2 o2 where f: "f a = (es2, o2)" by (cases "f a")
    then show ?thesis using Pair Done by (cases o2) auto
  qed (use Pair in simp_all)
qed

lemma snd_ret [simp]: "snd (ret a) = Done a"
  by (simp add: ret_def)

lemma snd_zend_bailout [simp]: "snd zend_bailout = Bailout"
  by (simp add: zend_bailout_def)

lemma snd_emit [simp]: "snd (emit e) = Done ()"
  by (simp add: emit_def)

lemma snd_ebind: "snd (ebind m f) = (case snd m of Done a \<Rightarrow> snd (f a) | Bailout \<Rightarrow> Bailout | Crash \<Rightarrow> Crash)"
  by (cases "(m, f)" rule: ebind.cases) auto

lemma snd_eseq: "snd (eseq m n) = (case snd m of Done a \<Rightarrow> snd n | Bailout \<Rightarrow> Bailout | Crash \<Rightarrow> Crash)"
  by (simp add: eseq_def snd_ebind)

lemma fst_ebind: "fst (ebind m f) = fst m @ (case snd m of Done a \<Rightarrow> fst (f a) | Bailout \<Rightarrow> [] | Crash \<Rightarrow> [])"
  by (cases "(m, f)" rule: ebind.cases) auto

lemma fst_eseq: "fst (eseq m n) = fst m @ (case snd m of Done a \<Rightarrow> fst n | Bailout \<Rightarrow> [] | Crash \<Rightarrow> [])"
  by (simp add: eseq_def fst_ebind)

lemma eseq_ret_unit [simp]: "eseq m (ret ()) = m"
proof -
  have "(\<lambda>_. ret ()) = ret" by (rule ext) simp
  then show ?thesis by (simp add: eseq_def)
qed

lemma eseq_ret [simp]: "eseq (ret u) n = n"
  by (simp add: eseq_def)

text \<open>A memory access inside an effect.\<close>

definition lift_cres :: "'a cres \<Rightarrow> 'a eff" where
  "lift_cres m = (case m of CVal a \<Rightarrow> ret a | CFault \<Rightarrow> crash)"

lemma lift_cres_simps [simp]: "lift_cres (CVal a) = ret a" "lift_cres CFault = crash"
  by (simp_all add: lift_cres_def)

lemma ebind_Done_iff:
  "snd (ebind m f) = Done b \<longleftrightarrow> (\<exists>a. snd m = Done a \<and> snd (f a) = Done b)"
  by (simp add: snd_ebind split: outcome.splits)

lemma eseq_Done_iff: "snd (eseq m n) = Done b \<longleftrightarrow> snd m = Done () \<and> snd n = Done b"
  by (simp add: snd_eseq split: outcome.splits)

lemmas eff_simps = snd_ebind snd_eseq fst_ebind fst_eseq

section \<open>The client's address\<close>

text \<open>
  \<open>get_ipaddr\<close>: the SAPI's \<open>REMOTE_ADDR\<close> when it fits the 64-byte buffer, else the
  process environment's, else \<open>X-Forwarded-For\<close>, else a default.
\<close>

definition default_ipaddr :: string where
  "default_ipaddr = ''0.0.0.0''"

definition get_ipaddr :: "(string \<Rightarrow> string option) \<Rightarrow> (string \<Rightarrow> string option) \<Rightarrow> string" where
  "get_ipaddr sapi_getenv getenv =
     (let fallback = (case getenv ''REMOTE_ADDR'' of
                        Some ip \<Rightarrow> ip
                      | None \<Rightarrow> (case getenv ''HTTP_X_FORWARDED_FOR'' of
                                   Some fwd \<Rightarrow> fwd
                                 | None \<Rightarrow> default_ipaddr))
      in case sapi_getenv ''REMOTE_ADDR'' of
           Some v \<Rightarrow> if 0 < length v \<and> length v < 64 then v else fallback
         | None \<Rightarrow> fallback)"

section \<open>Logging\<close>

datatype sp_log_media_type = SP_LOG_ZEND | SP_LOG_SYSLOG | SP_LOG_FILE

record sp_config_log =
  log_type :: sp_log_media_type
  log_path :: "string option"

datatype log_type = SP_TYPE_LOG | SP_TYPE_DROP | SP_TYPE_SIMULATION

record log_env =
  le_media :: sp_config_log
  le_nonfatal :: bool
  le_fatal_bails :: bool
  le_asserts :: bool
  le_sapi_getenv :: "string \<Rightarrow> string option"
  le_getenv :: "string \<Rightarrow> string option"
  le_config_location :: "(string \<times> nat) option"
  le_executed_filename :: string
  le_executed_lineno :: nat
  le_can_open :: "string \<Rightarrow> bool"

text \<open>\<open>assert(c)\<close>, which release builds compile out: \<open>le_asserts\<close> says which build it is.\<close>

definition c_assert :: "log_env \<Rightarrow> bool \<Rightarrow> unit eff" where
  "c_assert L c = (if c \<or> \<not> le_asserts L then ret () else crash)"

lemma c_assert_True [simp]: "c_assert L True = ret ()"
  by (simp add: c_assert_def)

definition client_ip :: "log_env \<Rightarrow> string" where
  "client_ip L = get_ipaddr (le_sapi_getenv L) (le_getenv L)"

definition bracket :: "string \<Rightarrow> string" where
  "bracket s = ''['' @ s @ '']''"

text \<open>
  The engine's \<open>zend_error\<close> and \<open>zend_error_at\<close>: the message is issued; a fatal error
  may not return.
\<close>

definition zend_error :: "log_env \<Rightarrow> log_level \<Rightarrow> string \<Rightarrow> unit eff" where
  "zend_error L level msg =
     eseq (emit (Ev_Log (Sink_Zend level) msg))
       (if level = E_ERROR \<and> le_fatal_bails L then zend_bailout else ret ())"

definition sp_config_error :: "log_env \<Rightarrow> log_level \<Rightarrow> string \<times> nat \<Rightarrow> string \<Rightarrow> unit eff" where
  "sp_config_error L level loc msg =
     eseq (emit (Ev_Log (Sink_Zend_At level (fst loc) (snd loc)) msg))
       (if level = E_ERROR \<and> le_fatal_bails L then zend_bailout else ret ())"

definition logtype_name :: "log_type \<Rightarrow> string" where
  "logtype_name ty = (case ty of SP_TYPE_SIMULATION \<Rightarrow> ''simulation'' | SP_TYPE_DROP \<Rightarrow> ''drop'' | SP_TYPE_LOG \<Rightarrow> ''log'')"

text \<open>The switch on the media: exactly one line goes to exactly one place.\<close>

definition log_deliver :: "log_env \<Rightarrow> log_level \<Rightarrow> log_level \<Rightarrow> string \<Rightarrow> string \<Rightarrow> unit eff" where
  "log_deliver L zend_level level line located =
     (case log_type (le_media L) of
        SP_LOG_SYSLOG \<Rightarrow> emit (Ev_Log (Sink_Syslog (if level = E_ERROR then E_ERROR else E_NOTICE)) located)
      | SP_LOG_FILE \<Rightarrow>
          (let path = (case log_path (le_media L) of Some p \<Rightarrow> p | None \<Rightarrow> [])
           in if \<not> le_can_open L path
              then zend_error L zend_level
                     (''[snuffleupagus]'' @ bracket (client_ip L) @ ''[logging][log] unable to open '' @ path @ '' to log'')
              else emit (Ev_Log (Sink_File path) (located @ [CHR 0x0A])))
      | SP_LOG_ZEND \<Rightarrow>
          (case le_config_location L of
             Some loc \<Rightarrow> sp_config_error L zend_level loc line
           | None \<Rightarrow> zend_error L zend_level line))"

definition sp_log_msgf :: "log_env \<Rightarrow> string \<Rightarrow> log_level \<Rightarrow> log_type \<Rightarrow> string \<Rightarrow> unit eff" where
  "sp_log_msgf L feature level ty msg =
     (let zend_level = (if le_nonfatal L \<and> level = E_ERROR then E_WARNING else level);
          line = ''[snuffleupagus]'' @ bracket (client_ip L) @ bracket feature @ bracket (logtype_name ty) @ '' '' @ msg;
          (file, lineno) = (case le_config_location L of
                              Some loc \<Rightarrow> loc
                            | None \<Rightarrow> (le_executed_filename L, le_executed_lineno L));
          located = line @ '' in '' @ file @ '' on line '' @ show_nat lineno
      in eseq (log_deliver L zend_level level line located)
           (if ty = SP_TYPE_DROP then zend_bailout else ret ()))"

definition sp_log_drop :: "log_env \<Rightarrow> string \<Rightarrow> string \<Rightarrow> unit eff" where
  "sp_log_drop L feature msg = sp_log_msgf L feature E_ERROR SP_TYPE_DROP msg"

definition sp_log_simulation :: "log_env \<Rightarrow> string \<Rightarrow> string \<Rightarrow> unit eff" where
  "sp_log_simulation L feature msg = sp_log_msgf L feature E_WARNING SP_TYPE_SIMULATION msg"

definition sp_log_auto :: "log_env \<Rightarrow> string \<Rightarrow> bool \<Rightarrow> string \<Rightarrow> unit eff" where
  "sp_log_auto L feature is_simulation msg =
     sp_log_msgf L feature (if is_simulation then E_WARNING else E_ERROR)
       (if is_simulation then SP_TYPE_SIMULATION else SP_TYPE_DROP) msg"

definition sp_log_err :: "log_env \<Rightarrow> string \<Rightarrow> string \<Rightarrow> unit eff" where
  "sp_log_err L feature msg = sp_log_msgf L feature E_ERROR SP_TYPE_LOG msg"

definition sp_log_warn :: "log_env \<Rightarrow> string \<Rightarrow> string \<Rightarrow> unit eff" where
  "sp_log_warn L feature msg = sp_log_msgf L feature E_WARNING SP_TYPE_LOG msg"

section \<open>How a log call ends\<close>

lemma snd_zend_error:
  "snd (zend_error L level msg) = (if level = E_ERROR \<and> le_fatal_bails L then Bailout else Done ())"
  by (simp add: zend_error_def eff_simps)

lemma snd_sp_config_error:
  "snd (sp_config_error L level loc msg) = (if level = E_ERROR \<and> le_fatal_bails L then Bailout else Done ())"
  by (simp add: sp_config_error_def eff_simps)

lemma snd_log_deliver_cases:
  "snd (log_deliver L zl level line located) = Done () \<or>
   snd (log_deliver L zl level line located) = Bailout \<and> zl = E_ERROR \<and> le_fatal_bails L"
  by (simp add: log_deliver_def Let_def snd_zend_error snd_sp_config_error
      split: sp_log_media_type.split option.split)

lemma length_fst_log_deliver [simp]: "length (fst (log_deliver L zl level line located)) = 1"
  by (simp add: log_deliver_def Let_def zend_error_def sp_config_error_def emit_def ret_def
      zend_bailout_def eff_simps split: sp_log_media_type.split option.split)

text \<open>A drop never returns, whatever the logging media and whether it works.\<close>

lemma snd_sp_log_msgf_DROP [simp]: "snd (sp_log_msgf L feature level SP_TYPE_DROP msg) = Bailout"
  using snd_log_deliver_cases
  by (simp add: sp_log_msgf_def Let_def snd_eseq split: prod.split outcome.split) (metis outcome.distinct)

lemma snd_sp_log_drop [simp]: "snd (sp_log_drop L feature msg) = Bailout"
  by (simp add: sp_log_drop_def)

text \<open>Other calls return, unless the message is fatal; a warning always does.\<close>

lemma snd_sp_log_msgf_cases:
  "ty \<noteq> SP_TYPE_DROP \<Longrightarrow>
   snd (sp_log_msgf L feature level ty msg) = Done () \<or>
   snd (sp_log_msgf L feature level ty msg) = Bailout \<and> level = E_ERROR"
  using snd_log_deliver_cases
  by (simp add: sp_log_msgf_def Let_def split: prod.split) metis

lemma snd_sp_log_warning:
  "ty \<noteq> SP_TYPE_DROP \<Longrightarrow> level \<noteq> E_ERROR \<Longrightarrow> snd (sp_log_msgf L feature level ty msg) = Done ()"
  using snd_sp_log_msgf_cases by blast

lemma snd_sp_log_err_not_Crash [simp]: "snd (sp_log_err L feature msg) \<noteq> Crash"
  unfolding sp_log_err_def using snd_sp_log_msgf_cases [of SP_TYPE_LOG L feature E_ERROR msg] by auto

lemma snd_sp_log_err_cases: "snd (sp_log_err L feature msg) = Done () \<or> snd (sp_log_err L feature msg) = Bailout"
  unfolding sp_log_err_def using snd_sp_log_msgf_cases by fastforce

lemma snd_sp_log_simulation [simp]: "snd (sp_log_simulation L feature msg) = Done ()"
  by (simp add: sp_log_simulation_def snd_sp_log_warning)

lemma snd_sp_log_warn [simp]: "snd (sp_log_warn L feature msg) = Done ()"
  by (simp add: sp_log_warn_def snd_sp_log_warning)

lemma snd_sp_log_auto [simp]:
  "snd (sp_log_auto L feature sim msg) = (if sim then Done () else Bailout)"
  by (simp add: sp_log_auto_def snd_sp_log_warning)

text \<open>Every call leaves exactly one line in exactly one place.\<close>

lemma length_fst_sp_log_msgf [simp]: "length (fst (sp_log_msgf L feature level ty msg)) = 1"
  using snd_log_deliver_cases
  by (simp add: sp_log_msgf_def Let_def eff_simps zend_bailout_def ret_def split: prod.split outcome.split)

text \<open>
  Drops are enforced and simulations are not: \<open>sp_log_auto\<close> writes one line and then
  ends the request exactly when the rule is not simulated, for every logging media, even one
  that cannot be opened, and whether or not the engine's fatal errors return.
\<close>

theorem sp_log_auto_enforces:
  "snd (sp_log_auto L feature sim msg) = (if sim then Done () else Bailout) \<and>
   length (fst (sp_log_auto L feature sim msg)) = 1"
proof
  show "length (fst (sp_log_auto L feature sim msg)) = 1"
    by (simp add: sp_log_auto_def)
qed simp

end
