(* ===== verification/Network_Utils.thy ===== *)
theory Network_Utils
  imports Sp_Log
begin

text \<open>
  Addresses and networks: \<open>src/sp_network_utils.c\<close>. A \<open>struct in_addr\<close> is its 32-bit word
  as a little-endian machine loads it, a \<open>struct in6_addr\<close> the list of its four words. The
  C library's \<open>inet_pton\<close> and \<open>inet_ntop\<close> are parameters. A shift by more bits than a word
  has, and a read past the four words, are \<open>CFault\<close>; the mask parser never lets one happen.
\<close>

unbundle bit_operations_syntax

section \<open>Matching an address against a network\<close>

definition htonl :: "32 word \<Rightarrow> 32 word" where
  "htonl x = push_bit 24 (x AND 0xFF) OR push_bit 8 (x AND 0xFF00)
     OR drop_bit 8 (x AND 0xFF0000) OR drop_bit 24 x"

text \<open>\<open>0xFFFFFFFFu << n\<close>: undefined for \<open>n\<close> outside 0 to 31.\<close>

definition u32_ones_shl :: "int \<Rightarrow> 32 word cres" where
  "u32_ones_shl n = (if 0 \<le> n \<and> n < 32 then CVal (push_bit (nat n) 0xFFFFFFFF) else CFault)"

definition cidr4_match :: "32 word \<Rightarrow> 32 word \<Rightarrow> 8 word \<Rightarrow> bool cres" where
  "cidr4_match addr net bits =
     (if bits = 0 then CVal True
      else cbind (u32_ones_shl (32 - uint bits)) (\<lambda>m. CVal ((addr XOR net) AND htonl m = 0)))"

definition cidr6_match :: "32 word list \<Rightarrow> 32 word list \<Rightarrow> 8 word \<Rightarrow> bool cres" where
  "cidr6_match a n bits =
     (let bits_whole = unat (drop_bit 5 bits);
          bits_incomplete = uint (bits AND 0x1F)
      in if bits_whole \<noteq> 0 \<and> (length a < bits_whole \<or> length n < bits_whole) then CFault
         else if bits_whole \<noteq> 0 \<and> take bits_whole a \<noteq> take bits_whole n then CVal False
         else if bits_incomplete \<noteq> 0 then
           cbind (u32_ones_shl (32 - bits_incomplete)) (\<lambda>m.
             if length a \<le> bits_whole \<or> length n \<le> bits_whole then CFault
             else if (a ! bits_whole XOR n ! bits_whole) AND htonl m \<noteq> 0 then CVal False
             else CVal True)
         else CVal True)"

definition AF_INET :: int where "AF_INET = 2"
definition AF_INET6 :: int where "AF_INET6 = 10"

text \<open>The C library: address text to address, \<open>None\<close> when it is not one, and back.\<close>

record inet_lib =
  inet_pton4 :: "string \<Rightarrow> 32 word option"
  inet_pton6 :: "string \<Rightarrow> 32 word list option"
  inet_ntop4 :: "32 word \<Rightarrow> string option"
  inet_ntop6 :: "32 word list \<Rightarrow> string option"

definition get_ip_version :: "inet_lib \<Rightarrow> string \<Rightarrow> int" where
  "get_ip_version N ip =
     (if inet_pton4 N ip = None \<and> inet_pton6 N ip \<noteq> None then AF_INET6
      else if inet_pton4 N ip \<noteq> None then AF_INET
      else -1)"

datatype sp_ip = IPv4 "32 word" | IPv6 "32 word list"

record sp_cidr =
  ip_version :: int
  cidr_ip :: sp_ip
  cidr_mask :: "8 word"

definition cidr_match :: "inet_lib \<Rightarrow> log_env \<Rightarrow> string \<Rightarrow> sp_cidr \<Rightarrow> bool eff" where
  "cidr_match N L ip cidr =
     (let v = get_ip_version N ip in
      if v = AF_INET then
        if AF_INET \<noteq> ip_version cidr then ret False
        else (case (inet_pton4 N ip, cidr_ip cidr) of
                (Some out4, IPv4 net) \<Rightarrow> lift_cres (cidr4_match out4 net (cidr_mask cidr))
              | _ \<Rightarrow> crash)
      else if v = AF_INET6 then
        if AF_INET6 \<noteq> ip_version cidr then ret False
        else (case (inet_pton6 N ip, cidr_ip cidr) of
                (Some out6, IPv6 net) \<Rightarrow> lift_cres (cidr6_match out6 net (cidr_mask cidr))
              | _ \<Rightarrow> crash)
      else eseq (sp_log_err L ''cidr_match'' (''Weird ip ('' @ ip @ '') family'')) (ret False))"

section \<open>Parsing a network\<close>

definition slash :: char where "slash = CHR 0x2F"

text \<open>
  The test of \<open>get_ip_and_cidr\<close> on what follows the slash; \<open>nth_c\<close> reads a C string with
  its terminator.
\<close>

definition nth_c :: "string \<Rightarrow> nat \<Rightarrow> char" where
  "nth_c s i = (if i < length s then s ! i else NUL)"

definition mask_rejected :: "string \<Rightarrow> bool" where
  "mask_rejected msk \<longleftrightarrow>
     (let masklen = length msk; imask = c_atoi msk
      in masklen < 1 \<or> masklen > 3 \<or> \<not> is_digit (nth_c msk 0)
         \<or> (masklen \<ge> 2 \<and> \<not> is_digit (nth_c msk 1)) \<or> (masklen = 3 \<and> \<not> is_digit (nth_c msk 2))
         \<or> imask < 0 \<or> imask > 128)"

text \<open>
  \<open>get_ip_and_cidr\<close> writes into the caller's buffer and structure: the result is the buffer,
  the structure and the returned status. An address that is neither kind leaves the union as
  it was.
\<close>

definition get_ip_and_cidr ::
  "inet_lib \<Rightarrow> log_env \<Rightarrow> string \<Rightarrow> sp_cidr \<Rightarrow> (string \<times> sp_cidr \<times> int) eff" where
  "get_ip_and_cidr N L ip cidr =
     (let host = takeWhile (\<lambda>c. c \<noteq> slash) ip; rest = dropWhile (\<lambda>c. c \<noteq> slash) ip in
      if rest = [] then
        eseq (sp_log_err L ''config'' (quoted ip @ '' isn't a valid network mask, it seems that you forgot a '' @ quoted ''/'' @ ''.'')) (ret (ip, cidr, -1))
      else
        let msk = tl rest in
        if mask_rejected msk then
          eseq (sp_log_err L ''config'' (quoted msk @ '' isn't a valid network mask.'')) (ret (ip, cidr, -1))
        else
          let cut = host @ NUL # msk; v = get_ip_version N host;
              c1 = cidr\<lparr>cidr_mask := word_of_int (c_atoi msk), ip_version := v\<rparr>
          in eseq (c_assert L (v = AF_INET6 \<or> v = AF_INET))
              (if v = AF_INET \<and> cidr_mask c1 > 32 then
                 eseq (sp_log_err L ''config'' (quoted (show_int (uint (cidr_mask c1))) @ '' isn't a valid ipv4 mask.''))
                   (ret (cut, c1, -1))
               else
                 let c2 = (if v = AF_INET then
                             (case inet_pton4 N host of Some a \<Rightarrow> c1\<lparr>cidr_ip := IPv4 a\<rparr> | None \<Rightarrow> c1)
                           else if v = AF_INET6 then
                             (case inet_pton6 N host of Some a \<Rightarrow> c1\<lparr>cidr_ip := IPv6 a\<rparr> | None \<Rightarrow> c1)
                           else c1)
                 in if v < 0 then
                      eseq (sp_log_err L ''config'' (''Weird ip ('' @ ip @ '') family'')) (ret (host @ slash # msk, c2, -1))
                    else ret (host @ slash # msk, c2, 0)))"

text \<open>\<open>get_ip_str\<close>: \<open>None\<close> is failure, else the text left in the buffer.\<close>

definition INET_ADDRSTRLEN :: nat where "INET_ADDRSTRLEN = 16"
definition INET6_ADDRSTRLEN :: nat where "INET6_ADDRSTRLEN = 46"

definition get_ip_str :: "inet_lib \<Rightarrow> nat \<Rightarrow> sp_cidr \<Rightarrow> string option" where
  "get_ip_str N dst_len cidr =
     (let finish = (\<lambda>ipstr_len txt.
            if dst_len < ipstr_len + 1 + 3 + 1 then None
            else (case txt of
                    None \<Rightarrow> None
                  | Some t \<Rightarrow>
                      if ipstr_len \<le> length t then None
                      else Some (t @ take (dst_len - length t - 1) (''/'' @ show_int (uint (cidr_mask cidr))))))
      in if ip_version cidr = AF_INET then
           finish INET_ADDRSTRLEN (case cidr_ip cidr of IPv4 a \<Rightarrow> inet_ntop4 N a | _ \<Rightarrow> None)
         else if ip_version cidr = AF_INET6 then
           finish INET6_ADDRSTRLEN (case cidr_ip cidr of IPv6 a \<Rightarrow> inet_ntop6 N a | _ \<Rightarrow> None)
         else None)"

section \<open>Masks and bits\<close>

text \<open>The bits of an address in network order, most significant first.\<close>

definition net_bits :: "32 word \<Rightarrow> bool list" where
  "net_bits w = map (bit (htonl w)) (rev [0..<32])"

lemma length_net_bits [simp]: "length (net_bits w) = 32"
  by (simp add: net_bits_def)

lemma nth_net_bits: "i < 32 \<Longrightarrow> net_bits w ! i = bit (htonl w) (31 - i)"
  by (simp add: net_bits_def rev_nth)

lemma bit_htonl:
  "bit (htonl x) n \<longleftrightarrow> n < 32 \<and> bit x (24 - 8 * (n div 8) + n mod 8)"
proof (cases "n < 32")
  case True
  have out: "\<not> bit x k" if "32 \<le> k" for k
    using that by (auto dest: bit_imp_le_length)
  from True have "n \<in> set [0..<32]" by simp
  then show ?thesis
    by (simp add: htonl_def bit_simps upt_rec) (elim disjE; simp add: out; simp add: numeral_eq_Suc)
next
  case False
  then show ?thesis by (auto simp: htonl_def bit_simps dest: bit_imp_le_length)
qed

definition swap_ix :: "nat \<Rightarrow> nat" where
  "swap_ix n = 24 - 8 * (n div 8) + n mod 8"

lemma swap_ix_less: "n < 32 \<Longrightarrow> swap_ix n < 32"
  unfolding swap_ix_def by linarith

lemma swap_ix_swap_ix: "n < 32 \<Longrightarrow> swap_ix (swap_ix n) = n"
proof -
  assume "n < 32"
  then have q: "n div 8 \<le> 3" by linarith
  have "swap_ix n = 8 * (3 - n div 8) + n mod 8" using q by (simp add: swap_ix_def)
  then have "swap_ix n div 8 = 3 - n div 8" "swap_ix n mod 8 = n mod 8" by simp_all
  then have "swap_ix (swap_ix n) = 24 - 8 * (3 - n div 8) + n mod 8" by (simp add: swap_ix_def [of "swap_ix n"])
  also have "\<dots> = 8 * (n div 8) + n mod 8" using q by linarith
  finally show ?thesis by simp
qed

lemma bit_htonl_swap: "bit (htonl x) n \<longleftrightarrow> n < 32 \<and> bit x (swap_ix n)"
  by (simp add: bit_htonl swap_ix_def)

lemma htonl_htonl [simp]: "htonl (htonl x) = x"
  by (rule bit_word_eqI) (simp add: bit_htonl_swap swap_ix_less swap_ix_swap_ix)

lemma htonl_0 [simp]: "htonl 0 = 0"
  by (simp add: htonl_def)

lemma htonl_eq_0_iff: "htonl x = 0 \<longleftrightarrow> x = 0"
  by (metis htonl_0 htonl_htonl)

lemma htonl_inject [simp]: "htonl x = htonl y \<longleftrightarrow> x = y"
  by (metis htonl_htonl)

lemma htonl_masked_diff: "htonl ((x XOR y) AND htonl m) = (htonl x XOR htonl y) AND m"
  by (rule bit_word_eqI) (auto simp: bit_htonl_swap bit_simps swap_ix_less swap_ix_swap_ix)

text \<open>The test of the sources: no set bit of the shifted mask differs.\<close>

lemma high_bits_eq_iff:
  fixes x y :: "32 word"
  assumes "0 < k" "k \<le> 32"
  shows "(x XOR y) AND push_bit (32 - k) 0xFFFFFFFF = 0 \<longleftrightarrow> (\<forall>i<k. bit x (31 - i) = bit y (31 - i))"
    (is "?l \<longleftrightarrow> ?r")
proof -
  have ones: "bit (0xFFFFFFFF :: 32 word) j \<longleftrightarrow> j < 32" for j
  proof -
    have "(0xFFFFFFFF :: 32 word) = - 1" by simp
    then show ?thesis by (simp only: bit_minus_1_iff) (simp add: possible_bit_word)
  qed
  have "?l \<longleftrightarrow> (\<forall>j<32. 32 - k \<le> j \<longrightarrow> bit x j = bit y j)"
    using ones by (auto simp: bit_eq_iff bit_simps possible_bit_word)
  also have "\<dots> \<longleftrightarrow> ?r"
  proof
    assume "\<forall>j<32. 32 - k \<le> j \<longrightarrow> bit x j = bit y j"
    then show ?r using assms by auto
  next
    assume r: ?r
    show "\<forall>j<32. 32 - k \<le> j \<longrightarrow> bit x j = bit y j"
    proof (intro allI impI)
      fix j :: nat
      assume "j < 32" "32 - k \<le> j"
      then have "31 - j < k" "31 - (31 - j) = j" using assms by linarith+
      then show "bit x j = bit y j" using r by metis
    qed
  qed
  finally show ?thesis .
qed

lemma take_eq_iff_nth: "length xs = length ys \<Longrightarrow> n \<le> length xs \<Longrightarrow>
  take n xs = take n ys \<longleftrightarrow> (\<forall>i<n. xs ! i = ys ! i)"
  by (auto simp: list_eq_iff_nth_eq)

lemma masked_diff_iff:
  assumes "0 < k" "k \<le> 32"
  shows "(x XOR y) AND htonl (push_bit (32 - k) 0xFFFFFFFF) = 0 \<longleftrightarrow> take k (net_bits x) = take k (net_bits y)"
proof -
  have "(x XOR y) AND htonl (push_bit (32 - k) 0xFFFFFFFF) = 0 \<longleftrightarrow>
    (htonl x XOR htonl y) AND push_bit (32 - k) 0xFFFFFFFF = 0"
    by (metis htonl_eq_0_iff htonl_masked_diff)
  also have "\<dots> \<longleftrightarrow> take k (net_bits x) = take k (net_bits y)"
    using assms by (auto simp: high_bits_eq_iff take_eq_iff_nth nth_net_bits)
  finally show ?thesis .
qed

lemma net_bits_inject: "net_bits x = net_bits y \<longleftrightarrow> x = y"
proof
  assume "net_bits x = net_bits y"
  then have "take 32 (net_bits x) = take 32 (net_bits y)" by simp
  then have "(x XOR y) AND htonl (push_bit 0 0xFFFFFFFF) = 0" using masked_diff_iff [of 32 x y] by simp
  moreover have "htonl 0xFFFFFFFF = 0xFFFFFFFF" by (simp add: htonl_def)
  moreover have "(0xFFFFFFFF :: 32 word) = - 1" by simp
  ultimately have "x XOR y = 0" by (metis and.right_neutral push_bit_0_id id_apply)
  then show "x = y" by (metis xor.assoc xor.left_neutral xor_self_eq)
qed simp

lemma u32_ones_shl_CVal: "0 < k \<Longrightarrow> k \<le> 32 \<Longrightarrow> u32_ones_shl (32 - int k) = CVal (push_bit (32 - k) 0xFFFFFFFF)"
  by (simp add: u32_ones_shl_def nat_diff_distrib)

lemma cidr4_match_aux:
  assumes "unat bits \<le> 32"
  shows "cidr4_match a n bits = CVal (take (unat bits) (net_bits a) = take (unat bits) (net_bits n))"
proof (cases "bits = 0")
  case False
  then have "0 < unat bits" by (simp add: unat_gt_0)
  then show ?thesis
    using assms False u32_ones_shl_CVal [of "unat bits"]
    by (simp add: cidr4_match_def masked_diff_iff del: unat_gt_0)
qed (simp add: cidr4_match_def)

text \<open>The bits of a list of words, as an IPv6 address has them.\<close>

definition net_bits6 :: "32 word list \<Rightarrow> bool list" where
  "net_bits6 ws = concat (map net_bits ws)"

lemma net_bits6_simps [simp]: "net_bits6 [] = []" "net_bits6 (w # ws) = net_bits w @ net_bits6 ws"
  by (simp_all add: net_bits6_def)

lemma length_net_bits6 [simp]: "length (net_bits6 ws) = 32 * length ws"
  by (induction ws) auto

lemma net_bits6_inject: "length xs = length ys \<Longrightarrow> net_bits6 xs = net_bits6 ys \<longleftrightarrow> xs = ys"
  by (induction xs ys rule: list_induct2) (auto simp: net_bits_inject)

lemma take_net_bits6:
  "w \<le> length xs \<Longrightarrow> take (32 * w + r) (net_bits6 xs) = net_bits6 (take w xs) @ take r (net_bits6 (drop w xs))"
proof (induction w arbitrary: xs)
  case (Suc w)
  then obtain x ys where "xs = x # ys" by (cases xs) auto
  then show ?case using Suc by (simp add: algebra_simps)
qed simp

lemma take_net_bits6_iff:
  assumes "length xs = length ys" "w < length xs" "r \<le> 32"
  shows "take (32 * w + r) (net_bits6 xs) = take (32 * w + r) (net_bits6 ys) \<longleftrightarrow>
    take w xs = take w ys \<and> take r (net_bits (xs ! w)) = take r (net_bits (ys ! w))"
proof -
  have d: "drop w zs = zs ! w # drop (Suc w) zs" if "w < length zs" for zs :: "32 word list"
    using that by (simp add: Cons_nth_drop_Suc)
  have "take (32 * w + r) (net_bits6 xs) = take (32 * w + r) (net_bits6 ys) \<longleftrightarrow>
    net_bits6 (take w xs) @ take r (net_bits (xs ! w)) = net_bits6 (take w ys) @ take r (net_bits (ys ! w))"
    using assms by (simp add: take_net_bits6 d)
  also have "\<dots> \<longleftrightarrow> take w xs = take w ys \<and> take r (net_bits (xs ! w)) = take r (net_bits (ys ! w))"
    using assms by (subst append_eq_append_conv) (simp_all add: net_bits6_inject)
  finally show ?thesis .
qed

lemma cidr6_match_aux:
  assumes "length a = 4" "length n = 4" "unat bits \<le> 128"
  shows "cidr6_match a n bits = CVal (take (unat bits) (net_bits6 a) = take (unat bits) (net_bits6 n))"
proof -
  define w where "w = unat bits div 32"
  define r where "r = unat bits mod 32"
  have whole: "unat (drop_bit 5 bits) = w"
    by (simp add: w_def drop_bit_eq_div unat_div)
  have "unat (bits AND 0x1F) = r"
  proof -
    have "(0x1F :: 8 word) = mask 5" by (simp add: mask_eq_exp_minus_1)
    then have "bits AND 0x1F = take_bit 5 bits" by (simp only: take_bit_eq_mask)
    then show ?thesis by (simp add: r_def take_bit_eq_mod unat_mod)
  qed
  then have incomplete: "uint (bits AND 0x1F) = int r" by (metis uint_nat)
  have bits: "unat bits = 32 * w + r" and r: "r < 32" by (simp_all add: w_def r_def)
  show ?thesis
  proof (cases "r = 0")
    case True
    then have "w \<le> 4" using bits assms(3) by simp
    moreover have "take (32 * w) (net_bits6 a) = take (32 * w) (net_bits6 n) \<longleftrightarrow> take w a = take w n"
      using take_net_bits6 [of w a 0] take_net_bits6 [of w n 0] \<open>w \<le> 4\<close> assms
      by (simp add: net_bits6_inject)
    ultimately show ?thesis
      using assms True by (auto simp: cidr6_match_def Let_def whole incomplete bits)
  next
    case False
    then have w: "w < 4" using bits assms(3) by simp
    have "(a ! w XOR n ! w) AND htonl (push_bit (32 - r) 0xFFFFFFFF) = 0 \<longleftrightarrow>
        take r (net_bits (a ! w)) = take r (net_bits (n ! w))"
      using False r by (intro masked_diff_iff) simp_all
    then show ?thesis
      using assms False w r u32_ones_shl_CVal [of r]
      by (auto simp: cidr6_match_def Let_def whole incomplete bits take_net_bits6_iff)
  qed
qed

section \<open>Well-formed networks\<close>

definition wf_cidr :: "sp_cidr \<Rightarrow> bool" where
  "wf_cidr c \<longleftrightarrow>
     (case cidr_ip c of
        IPv4 a \<Rightarrow> ip_version c = AF_INET \<and> unat (cidr_mask c) \<le> 32
      | IPv6 a \<Rightarrow> ip_version c = AF_INET6 \<and> length a = 4 \<and> unat (cidr_mask c) \<le> 128)"

text \<open>What \<open>inet_pton\<close> documents: a successful \<open>AF_INET6\<close> conversion fills the 16 bytes.\<close>

definition pton6_fills :: "inet_lib \<Rightarrow> bool" where
  "pton6_fills N \<longleftrightarrow> (\<forall>s ws. inet_pton6 N s = Some ws \<longrightarrow> length ws = 4)"

text \<open>The specification of a match: same family, and the first mask bits agree.\<close>

definition ip_in_net :: "inet_lib \<Rightarrow> string \<Rightarrow> sp_cidr \<Rightarrow> bool" where
  "ip_in_net N ip c =
     (case (inet_pton4 N ip, inet_pton6 N ip, cidr_ip c) of
        (Some a, _, IPv4 n) \<Rightarrow> take (unat (cidr_mask c)) (net_bits a) = take (unat (cidr_mask c)) (net_bits n)
      | (None, Some a, IPv6 n) \<Rightarrow> take (unat (cidr_mask c)) (net_bits6 a) = take (unat (cidr_mask c)) (net_bits6 n)
      | _ \<Rightarrow> False)"

lemma cidr_match_aux:
  assumes "wf_cidr c" "pton6_fills N" "inet_pton4 N ip \<noteq> None \<or> inet_pton6 N ip \<noteq> None"
  shows "cidr_match N L ip c = ret (ip_in_net N ip c)"
  using assms
  by (auto simp: cidr_match_def wf_cidr_def pton6_fills_def ip_in_net_def get_ip_version_def Let_def
      AF_INET_def AF_INET6_def cidr4_match_aux cidr6_match_aux split: sp_ip.splits option.splits)

lemma accepted_mask:
  assumes "\<not> mask_rejected m"
  shows "0 \<le> c_atoi m" "c_atoi m \<le> 128"
  using assms by (auto simp: mask_rejected_def Let_def)

lemma get_ip_and_cidr_aux:
  assumes ok: "snd (get_ip_and_cidr N L net c0) = Done (buf, c, 0)" and N: "pton6_fills N"
  shows "buf = net \<and> wf_cidr c"
proof -
  let ?host = "takeWhile (\<lambda>c. c \<noteq> slash) net"
  let ?rest = "dropWhile (\<lambda>c. c \<noteq> slash) net"
  have err: "snd (eseq (sp_log_err L f m) (ret (x, y, -1 :: int))) \<noteq> Done (buf, c, 0)" for f m x y
    by (auto simp: eseq_Done_iff)
  have rest: "?rest \<noteq> []" "\<not> mask_rejected (tl ?rest)"
    using ok err by (auto simp: get_ip_and_cidr_def Let_def split: if_splits)
  then have net: "?host @ slash # tl ?rest = net"
    by (metis (mono_tags, lifting) hd_dropWhile list.collapse takeWhile_dropWhile_id)
  note m = accepted_mask [OF rest(2)]
  have "uint (word_of_int (c_atoi (tl ?rest)) :: 8 word) = c_atoi (tl ?rest)"
    using m by (simp add: uint_word_of_int)
  then have "unat (word_of_int (c_atoi (tl ?rest)) :: 8 word) \<le> 128"
    using m by (simp add: unat_eq_nat_uint)
  then show ?thesis
    using ok N rest net
    by (auto simp: get_ip_and_cidr_def Let_def eseq_Done_iff get_ip_version_def pton6_fills_def
        wf_cidr_def word_less_nat_alt not_less AF_INET_def AF_INET6_def split: if_splits)
qed

text \<open>The library's two directions agree on the address of \<open>c\<close>: \<open>t\<close> is its text.\<close>

definition inet_text :: "inet_lib \<Rightarrow> sp_cidr \<Rightarrow> string \<Rightarrow> bool" where
  "inet_text N c t \<longleftrightarrow>
     slash \<notin> set t \<and>
     (case cidr_ip c of
        IPv4 a \<Rightarrow> inet_ntop4 N a = Some t \<and> inet_pton4 N t = Some a \<and> length t < INET_ADDRSTRLEN
      | IPv6 a \<Rightarrow> inet_ntop6 N a = Some t \<and> inet_pton6 N t = Some a \<and> inet_pton4 N t = None
                  \<and> length t < INET6_ADDRSTRLEN)"

lemma show_int_uint: "show_int (uint w) = show_nat (unat w)"
  by (metis show_int_of_nat uint_nat)

lemma mask_accepted_show_nat:
  assumes "n \<le> 128"
  shows "\<not> mask_rejected (show_nat n)"
proof -
  have "length (show_nat n) \<le> 3" using assms by (intro length_show_nat_le3) simp
  moreover have "0 < length (show_nat n)" by simp
  moreover have "is_digit (nth_c (show_nat n) i)" if "i < length (show_nat n)" for i
    using that show_nat_digits [OF nth_mem [OF that]] by (simp add: nth_c_def)
  ultimately show ?thesis
    using assms by (auto simp: mask_rejected_def Let_def c_atoi_show_nat)
qed

lemma takeWhile_slash: "slash \<notin> set t \<Longrightarrow> takeWhile (\<lambda>c. c \<noteq> slash) (t @ slash # m) = t"
  "slash \<notin> set t \<Longrightarrow> dropWhile (\<lambda>c. c \<noteq> slash) (t @ slash # m) = slash # m"
  by (induction t) auto

section \<open>Properties\<close>

text \<open>
  C29. A CIDR match is the comparison of the first mask bits: for a well-formed network and an
  address of either family, \<open>cidr_match\<close> reads nothing out of bounds and shifts by no more
  than a word, and it holds exactly when the families agree and so do the leading bits.
\<close>

theorem cidr_match_prefix:
  assumes "wf_cidr c" "pton6_fills N" "inet_pton4 N ip \<noteq> None \<or> inet_pton6 N ip \<noteq> None"
  shows "cidr_match N L ip c = ret (ip_in_net N ip c)"
  using assms by (rule cidr_match_aux)

definition sample_inet :: inet_lib where
  "sample_inet =
     \<lparr>inet_pton4 = (\<lambda>s. if s = ''10.1.2.3'' then Some 0x0302010A else if s = ''10.0.0.0'' then Some 0x0000000A else None),
      inet_pton6 = (\<lambda>s. if s = ''::1'' then Some [0, 0, 0, 0x01000000] else None),
      inet_ntop4 = (\<lambda>a. if a = 0x0000000A then Some ''10.0.0.0'' else None),
      inet_ntop6 = (\<lambda>a. None)\<rparr>"

definition sample_net :: sp_cidr where
  "sample_net = \<lparr>ip_version = AF_INET, cidr_ip = IPv4 0x0000000A, cidr_mask = 8\<rparr>"

theorem cidr_match_prefix_witness:
  "\<forall>L. cidr_match sample_inet L ''10.1.2.3'' sample_net = ret (ip_in_net sample_inet ''10.1.2.3'' sample_net)"
  by (intro allI cidr_match_prefix)
    (simp_all add: wf_cidr_def sample_net_def sample_inet_def pton6_fills_def)

text \<open>
  A network the configuration parser accepts is well-formed: when \<open>get_ip_and_cidr\<close>
  returns 0 the caller's text is restored, the mask fits the family, and no address makes a
  later match go out of bounds.
\<close>

theorem get_ip_and_cidr_wf:
  assumes "snd (get_ip_and_cidr N L net c0) = Done (buf, c, 0)" "pton6_fills N"
  shows "buf = net \<and> wf_cidr c \<and> (\<forall>ip. snd (cidr_match N L ip c) \<noteq> Crash)"
proof -
  note wf = get_ip_and_cidr_aux [OF assms]
  have "snd (cidr_match N L ip c) \<noteq> Crash" for ip
  proof (cases "inet_pton4 N ip \<noteq> None \<or> inet_pton6 N ip \<noteq> None")
    case True
    then show ?thesis using wf assms(2) by (simp add: cidr_match_aux)
  next
    case False
    then show ?thesis
      by (simp add: cidr_match_def get_ip_version_def AF_INET_def AF_INET6_def snd_eseq
          split: outcome.split)
  qed
  then show ?thesis using wf by blast
qed

definition sample_log_env :: log_env where
  "sample_log_env =
     \<lparr>le_media = \<lparr>log_type = SP_LOG_ZEND, log_path = None\<rparr>, le_nonfatal = False, le_fatal_bails = True,
      le_asserts = True, le_sapi_getenv = (\<lambda>v. None), le_getenv = (\<lambda>v. Some ''127.0.0.1''), le_config_location = None,
      le_executed_filename = ''a.php'', le_executed_lineno = 1, le_can_open = (\<lambda>p. True)\<rparr>"

theorem get_ip_and_cidr_wf_witness:
  "\<exists>buf c. snd (get_ip_and_cidr sample_inet sample_log_env ''10.0.0.0/8'' sample_net) = Done (buf, c, 0) \<and>
     buf = ''10.0.0.0/8'' \<and> wf_cidr c"
proof -
  have "snd (get_ip_and_cidr sample_inet sample_log_env ''10.0.0.0/8'' sample_net) =
      Done (''10.0.0.0/8'', sample_net, 0)"
    by code_simp
  moreover have "pton6_fills sample_inet" by (simp add: pton6_fills_def sample_inet_def)
  ultimately show ?thesis using get_ip_and_cidr_wf by blast
qed

text \<open>
  Printing and parsing a network are inverse: for a well-formed network whose address the
  library prints and reads back, \<open>get_ip_str\<close> into a large enough buffer gives a text that
  \<open>get_ip_and_cidr\<close> accepts and parses to the same network.
\<close>

theorem get_ip_str_roundtrip:
  assumes "wf_cidr c" "inet_text N c t" "51 \<le> dst_len"
  shows "\<exists>s. get_ip_str N dst_len c = Some s \<and> get_ip_and_cidr N L s c0 = ret (s, c, 0)"
proof -
  let ?m = "unat (cidr_mask c)"
  let ?s = "t @ slash # show_nat ?m"
  have m128: "?m \<le> 128" using assms(1) by (auto simp: wf_cidr_def split: sp_ip.splits)
  have "length (show_nat ?m) \<le> 3" using m128 by (intro length_show_nat_le3) simp
  then have str: "get_ip_str N dst_len c = Some ?s"
    using assms
    by (auto simp: get_ip_str_def wf_cidr_def inet_text_def Let_def AF_INET_def AF_INET6_def
        INET_ADDRSTRLEN_def INET6_ADDRSTRLEN_def slash_def show_int_uint split: sp_ip.splits)
  have slash: "slash \<notin> set t" using assms(2) by (simp add: inet_text_def)
  have mask: "word_of_int (c_atoi (show_nat ?m)) = cidr_mask c"
    using m128 by (simp add: c_atoi_show_nat)
  have same: "c0\<lparr>cidr_mask := cidr_mask c, ip_version := v, cidr_ip := ip\<rparr> = c"
    if "ip_version c = v" "cidr_ip c = ip" for v ip
    using that by (cases c; cases c0) simp
  have "get_ip_and_cidr N L ?s c0 = ret (?s, c, 0)"
    using assms(1,2) mask_accepted_show_nat [OF m128]
    by (auto simp: get_ip_and_cidr_def takeWhile_slash [OF slash] Let_def mask same wf_cidr_def inet_text_def
        get_ip_version_def AF_INET_def AF_INET6_def word_less_nat_alt split: sp_ip.splits)
  then show ?thesis using str by blast
qed

theorem get_ip_str_roundtrip_witness:
  "\<forall>L. \<exists>s. get_ip_str sample_inet 64 sample_net = Some s \<and>
     get_ip_and_cidr sample_inet L s sample_net = ret (s, sample_net, 0)"
  by (intro allI get_ip_str_roundtrip [where t = "''10.0.0.0''"])
    (simp_all add: wf_cidr_def inet_text_def sample_net_def sample_inet_def slash_def INET_ADDRSTRLEN_def)

text \<open>
  An assertion on user input: with assertions compiled in, a network whose address is
  neither IPv4 nor IPv6 aborts the process, so the error return behind it is only reached in
  builds without them.
\<close>

theorem invalid_network_aborts:
  assumes "slash \<notin> set host" "\<not> mask_rejected m" "inet_pton4 N host = None" "inet_pton6 N host = None"
  shows "snd (get_ip_and_cidr N L (host @ slash # m) c0) =
    (if le_asserts L then Crash
     else snd (eseq (sp_log_err L ''config'' (''Weird ip ('' @ (host @ slash # m) @ '') family''))
       (ret (host @ slash # m, c0\<lparr>cidr_mask := word_of_int (c_atoi m), ip_version := -1\<rparr>, -1))))"
  using assms
  by (simp add: get_ip_and_cidr_def takeWhile_slash Let_def get_ip_version_def AF_INET_def AF_INET6_def
      c_assert_def snd_eseq [of crash])

theorem invalid_network_aborts_witness:
  "snd (get_ip_and_cidr sample_inet sample_log_env (''nohost'' @ slash # ''8'') sample_net) = Crash"
proof -
  have "slash \<notin> set ''nohost''" "\<not> mask_rejected ''8''" by code_simp+
  then show ?thesis
    by (subst invalid_network_aborts) (simp_all add: sample_inet_def sample_log_env_def)
qed

end
