(* ===== verification/Php_Values.thy ===== *)
theory Php_Values
  imports Network_Utils
begin

text \<open>
  The engine's data as the extension sees it: zvals, hash tables, functions and call frames,
  and the part of the engine the extension calls, as the fields of the record \<open>php\<close>. A
  \<open>HashTable\<close> is the association list of its entries in iteration order, with distinct
  keys; the locale \<open>hash_interface\<close> states what the extension relies on, and the
  interpretation shows that the lists provide it. A double is its 64 bits: only the engine's
  formatter reads it.
\<close>

section \<open>Hash tables\<close>

fun zh_find :: "('k \<times> 'v) list \<Rightarrow> 'k \<Rightarrow> 'v option" where
  "zh_find [] k = None"
| "zh_find ((k', v) # ht) k = (if k' = k then Some v else zh_find ht k)"

text \<open>Overwrite in place, or append a new entry at the end.\<close>

fun zh_update :: "('k \<times> 'v) list \<Rightarrow> 'k \<Rightarrow> 'v \<Rightarrow> ('k \<times> 'v) list" where
  "zh_update [] k v = [(k, v)]"
| "zh_update ((k', v') # ht) k v = (if k' = k then (k', v) # ht else (k', v') # zh_update ht k v)"

text \<open>\<open>zend_hash_add\<close>: nothing happens when the key exists.\<close>

definition zh_add :: "('k \<times> 'v) list \<Rightarrow> 'k \<Rightarrow> 'v \<Rightarrow> ('k \<times> 'v) list" where
  "zh_add ht k v = (if zh_find ht k = None then ht @ [(k, v)] else ht)"

fun zh_del :: "('k \<times> 'v) list \<Rightarrow> 'k \<Rightarrow> ('k \<times> 'v) list" where
  "zh_del [] k = []"
| "zh_del ((k', v') # ht) k = (if k' = k then ht else (k', v') # zh_del ht k)"

definition zh_wf :: "('k \<times> 'v) list \<Rightarrow> bool" where
  "zh_wf ht \<longleftrightarrow> distinct (map fst ht)"

lemma zh_find_map_of: "zh_find ht = map_of ht"
  by (rule ext, induct_tac ht) auto

lemma zh_find_append: "zh_find (xs @ ys) k = (case zh_find xs k of None \<Rightarrow> zh_find ys k | Some v \<Rightarrow> Some v)"
  by (induction xs) auto

lemma zh_find_None_iff: "zh_find ht k = None \<longleftrightarrow> k \<notin> fst ` set ht"
  by (induction ht) (auto split: if_splits)

lemma zh_find_Some_in: "zh_find ht k = Some v \<Longrightarrow> (k, v) \<in> set ht"
  by (induction ht) (auto split: if_splits)

lemma zh_find_update: "zh_find (zh_update ht k v) k' = (if k' = k then Some v else zh_find ht k')"
  by (induction ht) auto

lemma zh_find_add: "zh_find (zh_add ht k v) k' =
  (if k' = k \<and> zh_find ht k = None then Some v else zh_find ht k')"
  by (auto simp: zh_add_def zh_find_append split: option.splits)

lemma fst_set_zh_del: "fst ` set (zh_del ht k) \<subseteq> fst ` set ht"
  by (induction ht k rule: zh_del.induct) (simp_all add: subset_insertI subset_insertI2 insert_mono)

lemma zh_find_del: "zh_wf ht \<Longrightarrow> zh_find (zh_del ht k) k' = (if k' = k then None else zh_find ht k')"
proof (induction ht)
  case (Cons e ht)
  then have "zh_find ht (fst e) = None" by (auto simp: zh_wf_def zh_find_None_iff)
  then show ?case using Cons by (cases e) (auto simp: zh_wf_def)
qed simp

lemma fst_set_zh_update: "fst ` set (zh_update ht k v) = insert k (fst ` set ht)"
  by (induction ht k v rule: zh_update.induct) (simp_all add: insert_commute)

lemma zh_wf_Nil [simp]: "zh_wf []"
  by (simp add: zh_wf_def)

lemma zh_wf_update: "zh_wf ht \<Longrightarrow> zh_wf (zh_update ht k v)"
proof (induction ht)
  case (Cons e ht)
  then show ?case
    using fst_set_zh_update [of ht k v] by (cases e) (auto simp: zh_wf_def)
qed (simp add: zh_wf_def)

lemma zh_wf_add: "zh_wf ht \<Longrightarrow> zh_wf (zh_add ht k v)"
  by (auto simp: zh_add_def zh_wf_def zh_find_None_iff)

lemma zh_wf_del: "zh_wf ht \<Longrightarrow> zh_wf (zh_del ht k)"
proof (induction ht)
  case (Cons e ht)
  then show ?case
    using fst_set_zh_del [of ht k] by (cases e) (auto simp: zh_wf_def)
qed simp

text \<open>The contract of a hash table.\<close>

locale hash_interface =
  fixes find :: "'m \<Rightarrow> 'k \<Rightarrow> 'v option"
    and upd :: "'m \<Rightarrow> 'k \<Rightarrow> 'v \<Rightarrow> 'm"
    and add :: "'m \<Rightarrow> 'k \<Rightarrow> 'v \<Rightarrow> 'm"
    and del :: "'m \<Rightarrow> 'k \<Rightarrow> 'm"
    and wf :: "'m \<Rightarrow> bool"
  assumes find_upd: "find (upd m k v) = (find m)(k \<mapsto> v)"
    and find_add: "find (add m k v) = (if find m k = None then (find m)(k \<mapsto> v) else find m)"
    and find_del: "wf m \<Longrightarrow> find (del m k) = (find m)(k := None)"
    and wf_upd: "wf m \<Longrightarrow> wf (upd m k v)"
    and wf_add: "wf m \<Longrightarrow> wf (add m k v)"
    and wf_del: "wf m \<Longrightarrow> wf (del m k)"
begin

lemma find_add_other: "k' \<noteq> k \<Longrightarrow> find (add m k v) k' = find m k'"
  by (simp add: find_add)

lemma find_add_keeps: "find m k' = Some w \<Longrightarrow> find (add m k v) k' = Some w"
  by (auto simp: find_add)

lemma dom_add: "dom (find (add m k v)) = insert k (dom (find m))"
  by (auto simp: find_add)

text \<open>Moving an entry from one table to another keeps every other one.\<close>

lemma move_find:
  assumes "wf m" "k' \<noteq> k"
  shows "find (del m k) k' = find m k'" "find (add n k v) k' = find n k'"
  using assms by (simp_all add: find_del find_add_other)

end

interpretation zh: hash_interface zh_find zh_update zh_add zh_del zh_wf
  by unfold_locales (auto simp: fun_eq_iff zh_find_update zh_find_add zh_find_del zh_wf_update zh_wf_add zh_wf_del)

section \<open>Values\<close>

datatype hkey = HStr string | HIdx int

datatype zval =
    IS_UNDEF
  | IS_NULL
  | IS_FALSE
  | IS_TRUE
  | IS_LONG int
  | IS_DOUBLE "64 word"
  | IS_STRING string
  | IS_ARRAY "(hkey \<times> zval) list"
  | IS_OBJECT string "(hkey \<times> zval) list"
  | IS_RESOURCE
  | IS_REFERENCE zval
  | IS_INDIRECT zval
  | IS_PTR zval

datatype sp_php_type =
    SP_PHP_TYPE_UNDEF | SP_PHP_TYPE_NULL | SP_PHP_TYPE_FALSE | SP_PHP_TYPE_TRUE | SP_PHP_TYPE_LONG
  | SP_PHP_TYPE_DOUBLE | SP_PHP_TYPE_STRING | SP_PHP_TYPE_ARRAY | SP_PHP_TYPE_OBJECT
  | SP_PHP_TYPE_RESOURCE | SP_PHP_TYPE_REFERENCE

text \<open>\<open>Z_TYPE_P\<close> as the extension's enumeration; \<open>None\<close> for the engine's internal types.\<close>

fun z_type :: "zval \<Rightarrow> sp_php_type option" where
  "z_type IS_UNDEF = Some SP_PHP_TYPE_UNDEF"
| "z_type IS_NULL = Some SP_PHP_TYPE_NULL"
| "z_type IS_FALSE = Some SP_PHP_TYPE_FALSE"
| "z_type IS_TRUE = Some SP_PHP_TYPE_TRUE"
| "z_type (IS_LONG _) = Some SP_PHP_TYPE_LONG"
| "z_type (IS_DOUBLE _) = Some SP_PHP_TYPE_DOUBLE"
| "z_type (IS_STRING _) = Some SP_PHP_TYPE_STRING"
| "z_type (IS_ARRAY _) = Some SP_PHP_TYPE_ARRAY"
| "z_type (IS_OBJECT _ _) = Some SP_PHP_TYPE_OBJECT"
| "z_type IS_RESOURCE = Some SP_PHP_TYPE_RESOURCE"
| "z_type (IS_REFERENCE _) = Some SP_PHP_TYPE_REFERENCE"
| "z_type (IS_INDIRECT _) = None"
| "z_type (IS_PTR _) = None"

section \<open>Functions and frames\<close>

datatype zend_function_type = ZEND_USER_FUNCTION | ZEND_INTERNAL_FUNCTION | ZEND_EVAL_CODE

text \<open>
  A declared argument is its name and whether it is variadic; \<open>num_args\<close> counts the
  declared arguments without the variadic one, whose information follows theirs.
\<close>

record zend_function =
  fn_type :: zend_function_type
  function_name :: "string option"
  fn_scope :: "string option"
  fn_filename :: string
  arg_info :: "(string \<times> bool) list"
  num_args :: nat

text \<open>
  A frame: the function that runs (none for a dummy frame), how many arguments it was called
  with, its variable slots (those of a native function are the arguments passed, those of a PHP
  function its compiled variables and temporaries), and its symbol table, when the engine can
  build one. The chain of callers is the list of frames, the innermost first.
\<close>

record zend_execute_data =
  ex_func :: "zend_function option"
  ex_num_args :: nat
  ex_slots :: "zval list"
  ex_symtable :: "(string \<times> zval) list option"

text \<open>\<open>ZEND_CALL_VAR_NUM\<close>: a slot of the frame; there is nothing behind the last one.\<close>

definition ZEND_CALL_VAR_NUM :: "zend_execute_data \<Rightarrow> nat \<Rightarrow> zval cres" where
  "ZEND_CALL_VAR_NUM ex i = (if i < length (ex_slots ex) then CVal (ex_slots ex ! i) else CFault)"

text \<open>\<open>arg_info[i]\<close>: what is declared about an argument; there is nothing behind the last one.\<close>

definition arg_info_at :: "zend_function \<Rightarrow> nat \<Rightarrow> (string \<times> bool) cres" where
  "arg_info_at f i = (if i < length (arg_info f) then CVal (arg_info f ! i) else CFault)"

definition ZEND_USER_CODE :: "zend_function_type \<Rightarrow> bool" where
  "ZEND_USER_CODE t \<longleftrightarrow> t = ZEND_USER_FUNCTION \<or> t = ZEND_EVAL_CODE"

text \<open>
  The engine as the extension calls it. \<open>e_rx\<close> is PCRE on a compiled pattern and a subject;
  \<open>e_rx_valid\<close> says which patterns compile. \<open>e_sha256\<close> gives the 32 bytes of a digest;
  \<open>e_frame_lineno\<close> is \<open>zend_get_executed_lineno\<close> when the given frame is the current one;
  \<open>e_strerror\<close> is the text of the last system error, \<open>e_pcre_error\<close> PCRE's of a pattern.
\<close>

record php =
  e_executed_filename :: string
  e_executed_lineno :: nat
  e_sapi_getenv :: "string \<Rightarrow> string option"
  e_getenv :: "string \<Rightarrow> string option"
  e_can_open :: "string \<Rightarrow> bool"
  e_fatal_bails :: bool
  e_asserts :: bool
  e_inet :: inet_lib
  e_rx :: "string \<Rightarrow> string \<Rightarrow> bool"
  e_rx_valid :: "string \<Rightarrow> bool"
  e_format_double :: "64 word \<Rightarrow> string"
  e_raw_url_encode :: "string \<Rightarrow> string"
  e_sha256 :: "string \<Rightarrow> string"
  e_read_file :: "string \<Rightarrow> string option"
  e_file_exists :: "string \<Rightarrow> bool"
  e_mkdir :: "string \<Rightarrow> bool"
  e_open_dump :: "string \<Rightarrow> bool"
  e_var_export :: "zval \<Rightarrow> string"
  e_frame_lineno :: "zend_execute_data list \<Rightarrow> nat"
  e_http_globals :: "string \<Rightarrow> (hkey \<times> zval) list option"
  e_constant :: "string \<Rightarrow> zval option"
  e_class_constants :: "string \<Rightarrow> (hkey \<times> zval) list option"
  e_strerror :: string
  e_pcre_error :: "string \<Rightarrow> string"

end
