(* ===== verification/Sp_List.thy ===== *)
theory Sp_List
  imports Prelude "HOL-Library.Multiset"
begin

text \<open>
  The singly linked list of \<open>src/sp_list.c\<close> as the list of its data pointers: NULL is the
  empty list, the nodes are the elements in order. The sort is the in-place insertion sort
  of the source; what it promises is stated in the locale \<open>cmp_order\<close> for any comparison
  that behaves like the sign of a difference on the elements it is given.
\<close>

section \<open>The operations\<close>

text \<open>
  \<open>sp_list_insert\<close> walks to the last node and links the new one behind it;
  \<open>sp_list_prepend\<close> links it in front.
\<close>

fun sp_list_insert :: "'a list \<Rightarrow> 'a \<Rightarrow> 'a list" where
  "sp_list_insert [] d = [d]"
| "sp_list_insert (x # xs) d = x # sp_list_insert xs d"

definition sp_list_prepend :: "'a list \<Rightarrow> 'a \<Rightarrow> 'a list" where
  "sp_list_prepend xs d = d # xs"

fun sp_list_len :: "'a list \<Rightarrow> nat" where
  "sp_list_len [] = 0"
| "sp_list_len (x # xs) = sp_list_len xs + 1"

text \<open>
  The inner loop of \<open>sp_list_sort\<close>: \<open>p\<close> walks the sorted list until the element after it
  is larger (or there is none) and the current node is linked behind \<open>p\<close>.
\<close>

fun sort_link :: "('a \<Rightarrow> 'a \<Rightarrow> int) \<Rightarrow> 'a \<Rightarrow> 'a list \<Rightarrow> 'a list" where
  "sort_link cmp cur [] = []"
| "sort_link cmp cur [p] = [p, cur]"
| "sort_link cmp cur (p # q # ps) =
     (if 0 > cmp cur q then p # cur # q # ps else p # sort_link cmp cur (q # ps))"

text \<open>The outer loop: take the first node off the input, put it into the sorted list.\<close>

fun sort_loop :: "('a \<Rightarrow> 'a \<Rightarrow> int) \<Rightarrow> 'a list \<Rightarrow> 'a list \<Rightarrow> 'a list" where
  "sort_loop cmp [] head = head"
| "sort_loop cmp (cur # rest) [] = sort_loop cmp rest [cur]"
| "sort_loop cmp (cur # rest) (h # hs) =
     (if 0 > cmp cur h then sort_loop cmp rest (cur # h # hs)
      else sort_loop cmp rest (sort_link cmp cur (h # hs)))"

fun sp_list_sort :: "('a \<Rightarrow> 'a \<Rightarrow> int) \<Rightarrow> 'a list \<Rightarrow> 'a list" where
  "sp_list_sort cmp [] = []"
| "sp_list_sort cmp [x] = [x]"
| "sp_list_sort cmp xs = sort_loop cmp xs []"

text \<open>
  \<open>sp_list_free\<close> releases every node's data (where there is a release function and the
  datum is not NULL) and then the node, in list order: the trace of what is released.
\<close>

datatype 'a release = Free_Data 'a | Free_Node

fun sp_list_free :: "bool \<Rightarrow> 'a option list \<Rightarrow> 'a release list" where
  "sp_list_free has_free [] = []"
| "sp_list_free has_free (d # ds) =
     (case d of Some x \<Rightarrow> if has_free then [Free_Data x] else [] | None \<Rightarrow> []) @
     Free_Node # sp_list_free has_free ds"

section \<open>What they compute\<close>

lemma sp_list_insert_append [simp]: "sp_list_insert xs d = xs @ [d]"
  by (induction xs) auto

lemma sp_list_prepend_Cons [simp]: "sp_list_prepend xs d = d # xs"
  by (simp add: sp_list_prepend_def)

lemma sp_list_len_length [simp]: "sp_list_len xs = length xs"
  by (induction xs) auto

lemma mset_sort_link: "xs \<noteq> [] \<Longrightarrow> mset (sort_link cmp cur xs) = add_mset cur (mset xs)"
  by (induction cmp cur xs rule: sort_link.induct) auto

lemma mset_sort_loop: "mset (sort_loop cmp xs ys) = mset xs + mset ys"
  by (induction cmp xs ys rule: sort_loop.induct) (auto simp: mset_sort_link)

lemma mset_sp_list_sort: "mset (sp_list_sort cmp xs) = mset xs"
  by (induction cmp xs rule: sp_list_sort.induct) (auto simp: mset_sort_loop)

lemma set_sp_list_sort [simp]: "set (sp_list_sort cmp xs) = set xs"
  by (metis mset_sp_list_sort set_mset_mset)

lemma length_sp_list_sort [simp]: "length (sp_list_sort cmp xs) = length xs"
  by (metis mset_sp_list_sort size_mset)

section \<open>The sort against its specification\<close>

text \<open>
  A comparison that agrees with a key on the elements of \<open>carrier\<close>: its sign is the order
  of the keys. Under this contract the sort yields the stable sort by key.
\<close>

fun rinsert :: "('a \<Rightarrow> 'k::linorder) \<Rightarrow> 'a \<Rightarrow> 'a list \<Rightarrow> 'a list" where
  "rinsert f c [] = [c]"
| "rinsert f c (x # xs) = (if f x \<le> f c then x # rinsert f c xs else c # x # xs)"

lemma set_rinsert [simp]: "set (rinsert f c xs) = insert c (set xs)"
  by (induction xs) auto

lemma sorted_rinsert: "sorted (map f xs) \<Longrightarrow> sorted (map f (rinsert f c xs))"
  by (induction xs) (auto simp: not_le)

lemma filter_rinsert:
  "sorted (map f xs) \<Longrightarrow>
   filter (\<lambda>x. f x = k) (rinsert f c xs) = filter (\<lambda>x. f x = k) xs @ (if f c = k then [c] else [])"
proof (induction xs)
  case (Cons a xs)
  show ?case
  proof (cases "f a \<le> f c")
    case True
    then show ?thesis using Cons by simp
  next
    case False
    then have "f c = k \<Longrightarrow> filter (\<lambda>x. f x = k) (a # xs) = []"
      using Cons.prems by (auto simp: filter_empty_conv)
    then show ?thesis using False by auto
  qed
qed simp

locale cmp_order =
  fixes cmp :: "'a \<Rightarrow> 'a \<Rightarrow> int"
    and rank :: "'a \<Rightarrow> 'k::linorder"
    and carrier :: "'a set"
  assumes cmp_neg_iff: "x \<in> carrier \<Longrightarrow> y \<in> carrier \<Longrightarrow> cmp x y < 0 \<longleftrightarrow> rank x < rank y"
begin

lemma cmp_nonneg_iff: "x \<in> carrier \<Longrightarrow> y \<in> carrier \<Longrightarrow> 0 \<le> cmp x y \<longleftrightarrow> rank y \<le> rank x"
  using cmp_neg_iff by (meson leD leI)

text \<open>The inner loop inserts behind every element that is not larger.\<close>

lemma sort_link_rinsert:
  assumes "set (h # xs) \<subseteq> carrier" "cur \<in> carrier" "rank h \<le> rank cur"
  shows "sort_link cmp cur (h # xs) = rinsert rank cur (h # xs)"
  using assms
proof (induction xs arbitrary: h)
  case (Cons q qs)
  then show ?case
    by (cases "rank q \<le> rank cur") (auto simp: cmp_neg_iff cmp_nonneg_iff not_le not_less)
qed simp

lemma sort_step:
  assumes "set hs \<subseteq> carrier" "c \<in> carrier"
  shows "sort_loop cmp (c # cs) hs = sort_loop cmp cs (rinsert rank c hs)"
proof (cases hs)
  case (Cons h t)
  then show ?thesis
    using assms sort_link_rinsert [of h t c]
    by (cases "rank h \<le> rank c") (auto simp: cmp_neg_iff cmp_nonneg_iff not_le not_less)
qed simp

lemma sort_loop_spec:
  assumes "set cs \<subseteq> carrier" "set hs \<subseteq> carrier" "sorted (map rank hs)"
  shows "sorted (map rank (sort_loop cmp cs hs)) \<and>
    filter (\<lambda>x. rank x = k) (sort_loop cmp cs hs) = filter (\<lambda>x. rank x = k) (hs @ cs)"
  using assms
proof (induction cs arbitrary: hs)
  case (Cons c cs)
  then have "set cs \<subseteq> carrier" "set (rinsert rank c hs) \<subseteq> carrier"
    "sorted (map rank (rinsert rank c hs))"
    by (auto intro: sorted_rinsert)
  from Cons.IH [OF this] show ?case
    using Cons.prems by (simp add: sort_step filter_rinsert)
qed simp

lemma sp_list_sort_sorted: "set xs \<subseteq> carrier \<Longrightarrow> sorted (map rank (sp_list_sort cmp xs))"
  using sort_loop_spec [of xs "[]"] by (cases "(cmp, xs)" rule: sp_list_sort.cases) auto

lemma sp_list_sort_stable:
  "set xs \<subseteq> carrier \<Longrightarrow>
   filter (\<lambda>x. rank x = k) (sp_list_sort cmp xs) = filter (\<lambda>x. rank x = k) xs"
  using sort_loop_spec [of xs "[]" k] by (cases "(cmp, xs)" rule: sp_list_sort.cases) auto

text \<open>The C sort is the library's stable sort by key.\<close>

lemma sp_list_sort_eq_sort_key:
  assumes "set xs \<subseteq> carrier"
  shows "sp_list_sort cmp xs = sort_key rank xs"
proof -
  have "sort_key rank xs = sp_list_sort cmp xs"
  proof (rule properties_for_sort_key)
    fix k
    show "filter (\<lambda>x. rank k = rank x) (sp_list_sort cmp xs) = filter (\<lambda>x. rank k = rank x) xs"
      using sp_list_sort_stable [OF assms, of "rank k"] by (metis (mono_tags, lifting) filter_cong)
  qed (simp_all add: mset_sp_list_sort sp_list_sort_sorted assms)
  then show ?thesis by simp
qed

end

end
