(* ===== verification/Var_Parser.thy ===== *)
theory Var_Parser
  imports Sp_List
begin

text \<open>
  The parser for the variable paths of rules (\<open>.var("$a->b[c]")\<close>, \<open>.param(\<dots>)\<close>):
  \<open>src/sp_var_parser.c\<close>, \<open>src/sp_var_parser.h\<close> and \<open>src/sp_tree.c\<close>. A linked
  \<open>sp_tree\<close> is the list of its nodes, NULL the empty list. Every substring the C code
  copies goes through \<open>c_sub\<close>, so an offset or a length outside the string is the result
  \<open>CFault\<close>; the theory shows that it never is one. The PCRE library is the parameter
  \<open>rx\<close> (pattern, subject).
\<close>

section \<open>Trees and tokens\<close>

datatype elem_type =
  UNDEFINED | OBJECT | ARRAY | ARRAY_END | INTERPRETED_STRING | LITERAL_STRING | CLASS | VAR | CONSTANT

datatype sp_node = Node (ntype: elem_type) (nvalue: "string option") (nidx: "sp_node list")

type_synonym sp_tree = "sp_node list"

definition sp_tree_new :: sp_tree where
  "sp_tree_new = [Node UNDEFINED None []]"

text \<open>What \<open>sp_tree_free\<close> releases, in order: the value, the index, then the node.\<close>

fun sp_tree_free :: "sp_tree \<Rightarrow> string option release list" where
  "sp_tree_free [] = []"
| "sp_tree_free (Node ty v idx # rest) = Free_Data v # sp_tree_free idx @ Free_Node # sp_tree_free rest"

record sp_conf_token =
  ct_type :: elem_type
  ct_text_repr :: string
  ct_pos :: nat

definition OBJECT_TOKEN :: string where "OBJECT_TOKEN = ''->''"
definition ARRAY_TOKEN :: string where "ARRAY_TOKEN = ''[''"
definition ARRAY_END_TOKEN :: string where "ARRAY_END_TOKEN = '']''"
definition STRING_TOKEN :: string where "STRING_TOKEN = [CHR 0x22]"
definition ESC_STRING_TOKEN :: string where "ESC_STRING_TOKEN = [CHR 0x27]"
definition CLASS_TOKEN :: string where "CLASS_TOKEN = ''::''"
definition VARIABLE_TOKEN :: char where "VARIABLE_TOKEN = CHR 0x24"

definition REGEXP_VAR :: string where "REGEXP_VAR = ''^'' @ [CHR 0x5C] @ ''$[a-z_][a-z0-9_]*$''"
definition REGEXP_CONST :: string where
  "REGEXP_CONST = ''^[a-z_0-9'' @ [CHR 0x5C, CHR 0x5C] @ '']*$''"

lemmas token_texts = OBJECT_TOKEN_def ARRAY_TOKEN_def ARRAY_END_TOKEN_def STRING_TOKEN_def
  ESC_STRING_TOKEN_def CLASS_TOKEN_def

definition delimiter_list :: "(elem_type \<times> string) list" where
  "delimiter_list =
     [(OBJECT, OBJECT_TOKEN), (ARRAY, ARRAY_TOKEN), (ARRAY_END, ARRAY_END_TOKEN),
      (INTERPRETED_STRING, STRING_TOKEN), (LITERAL_STRING, ESC_STRING_TOKEN), (CLASS, CLASS_TOKEN)]"

section \<open>Tokenising\<close>

text \<open>
  The loop of \<open>parse_str_tokens\<close>: \<open>strchr\<close> moves to the next occurrence of the
  delimiter's first character, \<open>strncmp\<close> decides; \<open>off\<close> is \<open>cur_str - str\<close>.
\<close>

function str_tokens_loop :: "elem_type \<times> string \<Rightarrow> string \<Rightarrow> nat \<Rightarrow> sp_conf_token list \<Rightarrow> sp_conf_token list" where
  "str_tokens_loop tok [] off acc = acc"
| "str_tokens_loop tok (c # cs) off acc =
     (if c \<noteq> hd (snd tok) then str_tokens_loop tok cs (off + 1) acc
      else if prefix (snd tok) (c # cs) then
        str_tokens_loop tok (drop (length (snd tok) - 1) cs) (off + length (snd tok))
          (sp_list_insert acc \<lparr>ct_type = fst tok, ct_text_repr = snd tok, ct_pos = off\<rparr>)
      else str_tokens_loop tok cs (off + 1) acc)"
  by pat_completeness auto
termination by (relation "measure (\<lambda>(tok, s, off, acc). length s)") auto

definition parse_str_tokens :: "string \<Rightarrow> elem_type \<times> string \<Rightarrow> sp_conf_token list \<Rightarrow> sp_conf_token list" where
  "parse_str_tokens str tok tokens_list = str_tokens_loop tok str 0 tokens_list"

text \<open>\<open>cmp_tokens\<close>: the difference of two \<open>size_t\<close> positions, returned as an \<open>int\<close>.\<close>

definition cmp_tokens :: "sp_conf_token \<Rightarrow> sp_conf_token \<Rightarrow> int" where
  "cmp_tokens a b = to_int32 ((int (ct_pos a) - int (ct_pos b)) mod 2 ^ 64)"

definition var_tokens :: "string \<Rightarrow> sp_conf_token list" where
  "var_tokens line =
     sp_list_sort cmp_tokens (fold (parse_str_tokens line) delimiter_list [])"

section \<open>Building the tree\<close>

definition is_var_name_valid :: "(string \<Rightarrow> string \<Rightarrow> bool) \<Rightarrow> string \<Rightarrow> bool" where
  "is_var_name_valid rx name \<longleftrightarrow> rx REGEXP_VAR name \<or> rx REGEXP_CONST name"

text \<open>
  \<open>create_var\<close>: copy \<open>value_len\<close> bytes of \<open>value\<close>, check the name, parse the index,
  fill the empty first node or append a new one. \<open>None\<close> is the error return; the tree is
  then thrown away by the caller.
\<close>

definition create_var ::
  "(string option \<Rightarrow> sp_tree cres) \<Rightarrow> (string \<Rightarrow> string \<Rightarrow> bool) \<Rightarrow> sp_tree \<Rightarrow> string \<Rightarrow> int \<Rightarrow>
   elem_type \<Rightarrow> string option \<Rightarrow> sp_tree option cres" where
  "create_var parse rx tree value value_len ty idx =
     (let ty' = (if take 1 value = [VARIABLE_TOKEN] \<and> ty = CONSTANT then VAR else ty)
      in cbind (c_sub value 0 value_len) (\<lambda>v.
           if ty' \<noteq> INTERPRETED_STRING \<and> \<not> is_var_name_valid rx v then CVal None
           else cbind (parse idx) (\<lambda>i.
             let var_node = Node ty' (Some v) i
             in CVal (Some (if length tree = 1 \<and> ntype (hd tree) = UNDEFINED
                            then [var_node] else tree @ [var_node])))))"

definition is_next_token_empty :: "sp_conf_token \<Rightarrow> sp_conf_token option \<Rightarrow> string \<Rightarrow> bool" where
  "is_next_token_empty token token_next str =
     (case token_next of
        Some n \<Rightarrow> ct_pos n = ct_pos token + length (ct_text_repr token)
      | None \<Rightarrow> int (ct_pos token) = int (length str) - int (length (ct_text_repr token)))"

definition is_token_valid ::
  "sp_conf_token \<Rightarrow> sp_conf_token option \<Rightarrow> elem_type \<Rightarrow> int \<Rightarrow> string \<Rightarrow> int \<Rightarrow> bool" where
  "is_token_valid token token_next quot array_count str pos =
     (if ct_type token = LITERAL_STRING \<or> ct_type token = INTERPRETED_STRING then
        (if quot = ct_type token then
           (case token_next of
              Some n \<Rightarrow> ct_pos n = ct_pos token + 1
            | None \<Rightarrow> int (ct_pos token) = int (length str) - 1)
         else True)
      else if ct_type token = ARRAY_END then
        (if quot = UNDEFINED then
           (if array_count < 1 then False
            else (case token_next of
                    Some n \<Rightarrow> \<not> (ct_type n = INTERPRETED_STRING \<or> ct_type n = LITERAL_STRING)
                  | None \<Rightarrow> int (ct_pos token) = int (length str) - int (length (ct_text_repr token))))
         else True)
      else if ct_type token = OBJECT then
        (if quot = UNDEFINED \<and> is_next_token_empty token token_next str then False
         else if pos = 0 \<and> take 1 str \<noteq> [VARIABLE_TOKEN] then False
         else True)
      else if ct_type token = CLASS then
        \<not> (quot = UNDEFINED \<and> is_next_token_empty token token_next str)
      else True)"

record parse_state =
  ps_pos :: int
  ps_array_count :: int
  ps_pos_idx_start :: int
  ps_quote :: elem_type
  ps_tree :: sp_tree

definition parse_init :: parse_state where
  "parse_init = \<lparr>ps_pos = 0, ps_array_count = 0, ps_pos_idx_start = -1, ps_quote = UNDEFINED,
                 ps_tree = sp_tree_new\<rparr>"

text \<open>The pointer \<open>&str[pos]\<close>.\<close>

definition c_ptr :: "string \<Rightarrow> int \<Rightarrow> string cres" where
  "c_ptr str pos = (if 0 \<le> pos \<and> pos \<le> int (length str) then CVal (drop (nat pos) str) else CFault)"

text \<open>The quote bookkeeping of one token: position, quote and the token's type afterwards.\<close>

definition quote_step :: "sp_conf_token \<Rightarrow> parse_state \<Rightarrow> parse_state \<times> elem_type" where
  "quote_step token st =
     (if ct_type token = INTERPRETED_STRING \<or> ct_type token = LITERAL_STRING then
        (st\<lparr>ps_pos := (if ps_quote st = UNDEFINED \<and> ps_array_count st = 0
                        then ps_pos st + int (length (ct_text_repr token)) else ps_pos st),
            ps_quote := (if ps_quote st = UNDEFINED then ct_type token
                         else if ps_quote st = ct_type token then UNDEFINED else ps_quote st)\<rparr>,
         INTERPRETED_STRING)
      else (st, ct_type token))"

text \<open>The bracket bookkeeping outside quotes.\<close>

definition bracket_step :: "sp_conf_token \<Rightarrow> elem_type \<Rightarrow> parse_state \<Rightarrow> parse_state \<times> elem_type" where
  "bracket_step token ty st =
     (if ty = ARRAY then
        (st\<lparr>ps_pos_idx_start := (if ps_array_count st \<noteq> 0 then ps_pos_idx_start st
              else to_int32 (int (ct_pos token + length (ct_text_repr token)))),
            ps_array_count := ps_array_count st + 1\<rparr>, ty)
      else if ty = ARRAY_END then (st\<lparr>ps_array_count := ps_array_count st - 1\<rparr>, ARRAY)
      else (st, ty))"

text \<open>A component ends at this token: cut out its text and its index and create the node.\<close>

definition emit_var ::
  "(string option \<Rightarrow> sp_tree cres) \<Rightarrow> (string \<Rightarrow> string \<Rightarrow> bool) \<Rightarrow> string \<Rightarrow> sp_conf_token \<Rightarrow> elem_type \<Rightarrow>
   parse_state \<Rightarrow> parse_state option cres" where
  "emit_var parse rx str token ty st =
     (let tpos = int (ct_pos token);
          tlen = int (length (ct_text_repr token));
          value_len = tpos - ps_pos st;
          value_len = (if ty = ARRAY then value_len - tlen else value_len);
          has_idx = ps_pos_idx_start st > 0
      in cbind (if has_idx
                then cbind (c_sub str (ps_pos_idx_start st) (tpos - ps_pos_idx_start st)) (\<lambda>i. CVal (Some i))
                else CVal None) (\<lambda>idx.
         cbind (c_ptr str (ps_pos st)) (\<lambda>value.
         cbind (create_var parse rx (ps_tree st) value
                  (if has_idx then value_len - (tpos - ps_pos_idx_start st) else value_len) ty idx) (\<lambda>r.
           CVal (case r of
                   None \<Rightarrow> None
                 | Some tree \<Rightarrow> Some (st\<lparr>ps_tree := tree, ps_pos := tpos + tlen, ps_pos_idx_start := -1\<rparr>))))))"

definition parse_token ::
  "(string option \<Rightarrow> sp_tree cres) \<Rightarrow> (string \<Rightarrow> string \<Rightarrow> bool) \<Rightarrow> string \<Rightarrow> sp_conf_token \<Rightarrow>
   sp_conf_token option \<Rightarrow> parse_state \<Rightarrow> parse_state option cres" where
  "parse_token parse rx str token token_next st =
     (if \<not> is_token_valid token token_next (ps_quote st) (ps_array_count st) str (ps_pos st)
      then CVal None
      else
        let (st1, ty1) = quote_step token st
        in if ps_quote st1 = UNDEFINED then
             (let (st2, ty2) = bracket_step token ty1 st1
              in if ps_array_count st2 = 0 then emit_var parse rx str token ty2 st2
                 else CVal (Some st2))
           else CVal (Some st1))"

fun parse_loop ::
  "(string option \<Rightarrow> sp_tree cres) \<Rightarrow> (string \<Rightarrow> string \<Rightarrow> bool) \<Rightarrow> string \<Rightarrow> sp_conf_token list \<Rightarrow>
   parse_state \<Rightarrow> parse_state option cres" where
  "parse_loop parse rx str [] st = CVal (Some st)"
| "parse_loop parse rx str (t # ts) st =
     cbind (parse_token parse rx str t (case ts of [] \<Rightarrow> None | n # _ \<Rightarrow> Some n) st)
       (\<lambda>r. case r of None \<Rightarrow> CVal None | Some st' \<Rightarrow> parse_loop parse rx str ts st')"

definition parse_tokens ::
  "(string option \<Rightarrow> sp_tree cres) \<Rightarrow> (string \<Rightarrow> string \<Rightarrow> bool) \<Rightarrow> string \<Rightarrow> sp_conf_token list \<Rightarrow>
   sp_tree option cres" where
  "parse_tokens parse rx str tokens_list =
     cbind (parse_loop parse rx str tokens_list parse_init) (\<lambda>r.
       case r of
         None \<Rightarrow> CVal None
       | Some st \<Rightarrow>
           if ps_array_count st \<noteq> 0 then CVal None
           else if ps_quote st \<noteq> UNDEFINED then CVal None
           else if ps_pos st \<noteq> int (length str) then
             cbind (c_ptr str (ps_pos st)) (\<lambda>value.
               create_var parse rx (ps_tree st) value (int (length str) - ps_pos st) CONSTANT None)
           else CVal (Some (ps_tree st)))"

text \<open>
  \<open>sp_parse_var\<close> calls itself on the text between brackets. The fuel bounds that nesting;
  \<open>sp_parse_var\<close> gives one unit per byte, which \<open>sp_parse_var_fuel_enough\<close> shows is
  always enough. NULL (an error, or no line) is the empty tree.
\<close>

fun sp_parse_var_fuel :: "nat \<Rightarrow> (string \<Rightarrow> string \<Rightarrow> bool) \<Rightarrow> string option \<Rightarrow> sp_tree cres" where
  "sp_parse_var_fuel n rx None = CVal []"
| "sp_parse_var_fuel 0 rx (Some line) = CFault"
| "sp_parse_var_fuel (Suc n) rx (Some line) =
     cbind (parse_tokens (sp_parse_var_fuel n rx) rx line (var_tokens line)) (\<lambda>r.
       case r of
         None \<Rightarrow> CVal []
       | Some tree \<Rightarrow> CVal (if length tree = 1 \<and> ntype (hd tree) = UNDEFINED
                           then [Node CONSTANT (Some []) (nidx (hd tree))] else tree))"

definition sp_parse_var :: "(string \<Rightarrow> string \<Rightarrow> bool) \<Rightarrow> string \<Rightarrow> sp_tree cres" where
  "sp_parse_var rx line = sp_parse_var_fuel (Suc (length line)) rx (Some line)"

section \<open>The token list\<close>

definition tok_len :: "sp_conf_token \<Rightarrow> nat" where
  "tok_len t = length (ct_text_repr t)"

text \<open>A token of the list is a delimiter of the table that stands in the string at its position.\<close>

definition token_at :: "string \<Rightarrow> sp_conf_token \<Rightarrow> bool" where
  "token_at str t \<longleftrightarrow> (ct_type t, ct_text_repr t) \<in> set delimiter_list
     \<and> prefix (ct_text_repr t) (drop (ct_pos t) str)"

definition tok_disjoint :: "sp_conf_token \<Rightarrow> sp_conf_token \<Rightarrow> bool" where
  "tok_disjoint t u \<longleftrightarrow> ct_pos t + tok_len t \<le> ct_pos u \<or> ct_pos u + tok_len u \<le> ct_pos t"

lemma tok_disjoint_sym: "tok_disjoint t u \<Longrightarrow> tok_disjoint u t"
  by (auto simp: tok_disjoint_def)

lemma delimiter_nonempty: "(ty, r) \<in> set delimiter_list \<Longrightarrow> r \<noteq> []"
  by (auto simp: delimiter_list_def token_texts)

lemma token_at_len: "token_at str t \<Longrightarrow> 0 < tok_len t"
  by (auto simp: token_at_def tok_len_def dest: delimiter_nonempty)

lemma token_at_end: "token_at str t \<Longrightarrow> ct_pos t + tok_len t \<le> length str"
proof -
  assume t: "token_at str t"
  then have "tok_len t \<le> length str - ct_pos t"
    unfolding token_at_def tok_len_def by (metis length_drop prefix_length_le)
  with token_at_len [OF t] show ?thesis by linarith
qed

lemma token_at_nth: "token_at str t \<Longrightarrow> i < tok_len t \<Longrightarrow> str ! (ct_pos t + i) = ct_text_repr t ! i"
proof -
  assume t: "token_at str t" and i: "i < tok_len t"
  then obtain w where w: "drop (ct_pos t) str = ct_text_repr t @ w"
    unfolding token_at_def prefix_def by blast
  have "str ! (ct_pos t + i) = drop (ct_pos t) str ! i"
    using token_at_end [OF t] i by (simp add: nth_drop)
  then show ?thesis using i by (simp add: w nth_append tok_len_def)
qed

text \<open>No delimiter of the table occurs inside another one, so tokens of different types never meet.\<close>

lemma delimiters_apart:
  assumes "(ty, r) \<in> set delimiter_list" "(ty', r') \<in> set delimiter_list" "i < length r" "r ! i = r' ! 0"
  shows "(ty, r) = (ty', r')"
proof -
  have "i = 0 \<or> i = 1" using assms(1,3) by (auto simp: delimiter_list_def token_texts)
  then show ?thesis using assms by (auto simp: delimiter_list_def token_texts)
qed

lemma tokens_disjoint_types:
  assumes t: "token_at str t" and u: "token_at str u" and ne: "ct_type t \<noteq> ct_type u"
  shows "tok_disjoint t u"
proof (rule ccontr)
  assume "\<not> tok_disjoint t u"
  then have o: "ct_pos u < ct_pos t + tok_len t" "ct_pos t < ct_pos u + tok_len u"
    by (auto simp: tok_disjoint_def)
  have meet: False
    if "token_at str a" "token_at str b" "ct_type a \<noteq> ct_type b"
      "ct_pos a \<le> ct_pos b" "ct_pos b < ct_pos a + tok_len a" for a b
  proof -
    define i where "i = ct_pos b - ct_pos a"
    have "i < tok_len a" "str ! (ct_pos a + i) = str ! (ct_pos b + 0)" using that by (simp_all add: i_def)
    then have "ct_text_repr a ! i = ct_text_repr b ! 0"
      using token_at_nth [OF that(1), of i] token_at_nth [OF that(2), of 0] token_at_len [OF that(2)] by simp
    then show False
      using delimiters_apart [of "ct_type a" "ct_text_repr a" "ct_type b" "ct_text_repr b" i]
        that \<open>i < tok_len a\<close> by (auto simp: token_at_def tok_len_def)
  qed
  show False
    using meet [OF t u ne] meet [OF u t ne [symmetric]] o by (cases "ct_pos t \<le> ct_pos u") auto
qed

text \<open>What one delimiter contributes: in place, in ascending order, without overlap.\<close>

lemma str_tokens_loop_spec:
  assumes "(ty, r) \<in> set delimiter_list" "off \<le> length str" "s = drop off str"
  shows "\<exists>new. str_tokens_loop (ty, r) s off acc = acc @ new
    \<and> (\<forall>t\<in>set new. token_at str t \<and> ct_type t = ty \<and> ct_text_repr t = r \<and> off \<le> ct_pos t)
    \<and> sorted_wrt (\<lambda>t u. ct_pos t + tok_len t \<le> ct_pos u) new"
  using assms
proof (induction "(ty, r)" s off acc rule: str_tokens_loop.induct)
  case (1 off acc)
  then show ?case by (intro exI [of _ "[]"]) simp
next
  case (2 c cs off acc)
  have r: "r \<noteq> []" using "2.prems" delimiter_nonempty by blast
  have cs: "cs = drop (off + 1) str" and off: "off + 1 \<le> length str"
    using "2.prems" by (metis drop_Suc list.sel(3) Suc_eq_plus1 tl_drop)
      (metis "2.prems"(2,3) Suc_eq_plus1 Suc_leI drop_all le_neq_implies_less length_drop length_0_conv
        list.distinct(1) diff_self_eq_0)
  show ?case
  proof (cases "c = hd r \<and> prefix r (c # cs)")
    case False
    then have eq: "str_tokens_loop (ty, r) (c # cs) off acc = str_tokens_loop (ty, r) cs (off + 1) acc"
      by auto
    obtain new where "str_tokens_loop (ty, r) cs (off + 1) acc = acc @ new"
      "\<forall>t\<in>set new. token_at str t \<and> ct_type t = ty \<and> ct_text_repr t = r \<and> off + 1 \<le> ct_pos t"
      "sorted_wrt (\<lambda>t u. ct_pos t + tok_len t \<le> ct_pos u) new"
      using "2.hyps"(1) "2.hyps"(3) False "2.prems"(1) cs off by (cases "c = hd r") auto
    then show ?thesis unfolding eq by (intro exI [of _ new]) auto
  next
    case True
    define tok where "tok = \<lparr>ct_type = ty, ct_text_repr = r, ct_pos = off\<rparr>"
    define n where "n = off + length r"
    have len: "Suc (length r - 1) = length r" using r by simp
    have "prefix r (drop off str)" using True "2.prems"(3) by simp
    then have n: "n \<le> length str"
      using prefix_length_le [of r "drop off str"] r "2.prems"(2) by (simp add: n_def)
    have d: "drop (length r - 1) cs = drop n str"
      using r by (simp add: cs n_def) (metis One_nat_def Suc_pred add.commute add_Suc length_greater_0_conv)
    have eq: "str_tokens_loop (ty, r) (c # cs) off acc =
        str_tokens_loop (ty, r) (drop (length r - 1) cs) n (acc @ [tok])"
    proof -
      have "c = hd r" "prefix r (hd r # cs)" using True by auto
      then show ?thesis using len by (simp add: tok_def n_def)
    qed
    have IH: "\<exists>new. str_tokens_loop (ty, r) (drop (length r - 1) cs) n (acc @ [tok]) = (acc @ [tok]) @ new
      \<and> (\<forall>t\<in>set new. token_at str t \<and> ct_type t = ty \<and> ct_text_repr t = r \<and> n \<le> ct_pos t)
      \<and> sorted_wrt (\<lambda>t u. ct_pos t + tok_len t \<le> ct_pos u) new"
    proof -
      have "c = hd r" "prefix r (hd r # cs)" using True by auto
      then show ?thesis using "2.hyps"(2) "2.prems"(1) n d len by (simp add: tok_def n_def)
    qed
    then obtain new where new: "str_tokens_loop (ty, r) (drop (length r - 1) cs) n (acc @ [tok]) = (acc @ [tok]) @ new"
      "\<forall>t\<in>set new. token_at str t \<and> ct_type t = ty \<and> ct_text_repr t = r \<and> n \<le> ct_pos t"
      "sorted_wrt (\<lambda>t u. ct_pos t + tok_len t \<le> ct_pos u) new" by blast
    have "token_at str tok"
      using True "2.prems" by (simp add: token_at_def tok_def)
    then show ?thesis unfolding eq using new
      by (intro exI [of _ "tok # new"]) (auto simp: tok_def n_def tok_len_def)
  qed
qed

text \<open>A list of tokens that are all in the string, pairwise different and pairwise apart.\<close>

definition tokens_ok :: "string \<Rightarrow> sp_conf_token list \<Rightarrow> bool" where
  "tokens_ok str ts \<longleftrightarrow> (\<forall>t\<in>set ts. token_at str t) \<and> distinct ts
     \<and> (\<forall>t\<in>set ts. \<forall>u\<in>set ts. t \<noteq> u \<longrightarrow> tok_disjoint t u)"

lemma sorted_wrt_apart:
  assumes "sorted_wrt (\<lambda>t u. ct_pos t + tok_len t \<le> ct_pos u) ts" "\<forall>t\<in>set ts. token_at str t"
  shows "tokens_ok str ts"
  using assms
proof (induction ts)
  case (Cons a ts)
  then show ?case
    by (fastforce simp: tokens_ok_def tok_disjoint_def dest: token_at_len)
qed (simp add: tokens_ok_def)

lemma parse_str_tokens_ok:
  assumes "tokens_ok str acc" "(ty, r) \<in> set delimiter_list" "\<forall>t\<in>set acc. ct_type t \<noteq> ty"
  shows "tokens_ok str (parse_str_tokens str (ty, r) acc)"
    and "ct_type ` set (parse_str_tokens str (ty, r) acc) \<subseteq> insert ty (ct_type ` set acc)"
proof -
  obtain new where new: "parse_str_tokens str (ty, r) acc = acc @ new"
    "\<forall>t\<in>set new. token_at str t \<and> ct_type t = ty \<and> ct_text_repr t = r"
    "sorted_wrt (\<lambda>t u. ct_pos t + tok_len t \<le> ct_pos u) new"
    using str_tokens_loop_spec [of ty r 0 str str acc] assms(2) unfolding parse_str_tokens_def by auto
  have n: "tokens_ok str new" using sorted_wrt_apart new by blast
  have "tok_disjoint t u" if "t \<in> set acc" "u \<in> set new" for t u
    using that assms(1,3) new(2) by (metis tokens_disjoint_types tokens_ok_def)
  then show "tokens_ok str (parse_str_tokens str (ty, r) acc)"
    using n assms(1,3) new(2) unfolding new(1) tokens_ok_def
    by (auto intro: tok_disjoint_sym)
  show "ct_type ` set (parse_str_tokens str (ty, r) acc) \<subseteq> insert ty (ct_type ` set acc)"
    using new by auto
qed

lemma fold_parse_str_tokens_ok:
  assumes "tokens_ok str acc" "distinct (map fst ds)" "set ds \<subseteq> set delimiter_list"
    "ct_type ` set acc \<inter> fst ` set ds = {}"
  shows "tokens_ok str (fold (parse_str_tokens str) ds acc)"
  using assms
proof (induction ds arbitrary: acc)
  case (Cons d ds)
  obtain ty r where d: "d = (ty, r)" by (cases d)
  have "tokens_ok str (parse_str_tokens str d acc)"
    "ct_type ` set (parse_str_tokens str d acc) \<subseteq> insert ty (ct_type ` set acc)"
    using parse_str_tokens_ok [of str acc ty r] Cons.prems by (auto simp: d)
  moreover have "ty \<notin> fst ` set ds" "ct_type ` set acc \<inter> fst ` set ds = {}"
    using Cons.prems(2,4) by (auto simp: d)
  then have "ct_type ` set (parse_str_tokens str d acc) \<inter> fst ` set ds = {}"
    using calculation(2) by blast
  ultimately show ?case using Cons.IH Cons.prems by simp
qed simp

text \<open>The comparison orders by position as long as positions fit an \<open>int\<close>.\<close>

interpretation tok_sort: cmp_order cmp_tokens ct_pos "{t. ct_pos t < 2 ^ 31}"
proof
  fix x y :: sp_conf_token
  assume "x \<in> {t. ct_pos t < 2 ^ 31}" "y \<in> {t. ct_pos t < 2 ^ 31}"
  then have "- (2 ^ 31) < int (ct_pos x) - int (ct_pos y)" "int (ct_pos x) - int (ct_pos y) < 2 ^ 31"
    by auto
  moreover have "to_int32 (i mod 2 ^ 64) = to_int32 i" for i :: int
    unfolding to_int32_def take_bit_eq_mod [symmetric] by (simp add: signed_take_bit_take_bit)
  ultimately show "cmp_tokens x y < 0 \<longleftrightarrow> ct_pos x < ct_pos y"
    unfolding cmp_tokens_def by (simp add: to_int32_id)
qed

lemma var_tokens_ok:
  assumes "length str < 2 ^ 31"
  shows "tokens_ok str (var_tokens str)" "sorted (map ct_pos (var_tokens str))"
    "sorted_wrt (\<lambda>t u. ct_pos t + tok_len t \<le> ct_pos u) (var_tokens str)"
proof -
  let ?ts = "fold (parse_str_tokens str) delimiter_list []"
  have ok: "tokens_ok str ?ts"
    by (rule fold_parse_str_tokens_ok) (auto simp: tokens_ok_def delimiter_list_def)
  then have "ct_pos t < 2 ^ 31" if "t \<in> set ?ts" for t
    using assms token_at_end token_at_len that unfolding tokens_ok_def by fastforce
  then have carrier: "set ?ts \<subseteq> {t. ct_pos t < 2 ^ 31}" by auto
  show ok': "tokens_ok str (var_tokens str)"
    using ok mset_eq_imp_distinct_iff [OF mset_sp_list_sort, of cmp_tokens ?ts]
    by (auto simp: tokens_ok_def var_tokens_def)
  show s: "sorted (map ct_pos (var_tokens str))"
    unfolding var_tokens_def by (rule tok_sort.sp_list_sort_sorted) (fact carrier)
  have "sorted_wrt (\<lambda>t u. ct_pos t + tok_len t \<le> ct_pos u) ts"
    if "tokens_ok str ts" "sorted (map ct_pos ts)" for ts
    using that
  proof (induction ts)
    case (Cons a ts)
    moreover have "ct_pos a + tok_len a \<le> ct_pos u" if "u \<in> set ts" for u
      using that Cons.prems token_at_len [of str u]
      by (fastforce simp: tokens_ok_def tok_disjoint_def)
    ultimately show ?case by (auto simp: tokens_ok_def)
  qed simp
  then show "sorted_wrt (\<lambda>t u. ct_pos t + tok_len t \<le> ct_pos u) (var_tokens str)"
    using ok' s by blast
qed

section \<open>Memory safety, termination and well-formed results\<close>

text \<open>What holds between two tokens; \<open>L\<close> is where the last token ended.\<close>

definition ps_inv :: "string \<Rightarrow> int \<Rightarrow> parse_state \<Rightarrow> bool" where
  "ps_inv str L st \<longleftrightarrow> 0 \<le> ps_pos st \<and> ps_pos st \<le> L \<and> L \<le> int (length str) \<and> 0 \<le> ps_array_count st
     \<and> (ps_array_count st = 0 \<longrightarrow> ps_pos_idx_start st = -1)
     \<and> (0 < ps_array_count st \<longrightarrow>
          1 \<le> ps_pos_idx_start st \<and> ps_pos_idx_start st \<le> L \<and> ps_pos st \<le> ps_pos_idx_start st - 1)"

text \<open>
  The nodes of a finished tree: a type the evaluator knows, a value, and, but for quoted text
  and the empty path, a value the name check accepted.
\<close>

fun wf_node :: "(string \<Rightarrow> string \<Rightarrow> bool) \<Rightarrow> sp_node \<Rightarrow> bool" where
  "wf_node rx (Node ty v idx) \<longleftrightarrow>
     ty \<in> {OBJECT, ARRAY, INTERPRETED_STRING, CLASS, VAR, CONSTANT} \<and>
     (\<exists>n. v = Some n \<and> (ty = INTERPRETED_STRING \<or> n = [] \<or> is_var_name_valid rx n)) \<and>
     list_all (wf_node rx) idx"

definition wf_tree :: "(string \<Rightarrow> string \<Rightarrow> bool) \<Rightarrow> sp_tree \<Rightarrow> bool" where
  "wf_tree rx t \<longleftrightarrow> list_all (wf_node rx) t"

text \<open>The recursive parser, as far as strings shorter than \<open>str\<close> go.\<close>

definition good_parse :: "(string \<Rightarrow> string \<Rightarrow> bool) \<Rightarrow> string \<Rightarrow> (string option \<Rightarrow> sp_tree cres) \<Rightarrow> bool" where
  "good_parse rx str parse \<longleftrightarrow>
     (\<forall>i. (case i of None \<Rightarrow> True | Some s \<Rightarrow> length s < length str) \<longrightarrow>
        (\<exists>t. parse i = CVal t \<and> wf_tree rx t))"

definition ps_tree_ok :: "(string \<Rightarrow> string \<Rightarrow> bool) \<Rightarrow> sp_tree \<Rightarrow> bool" where
  "ps_tree_ok rx t \<longleftrightarrow> t = sp_tree_new \<or> (t \<noteq> [] \<and> wf_tree rx t)"

lemma ps_tree_ok_UNDEFINED:
  "ps_tree_ok rx t \<Longrightarrow> length t = 1 \<and> ntype (hd t) = UNDEFINED \<longleftrightarrow> t = sp_tree_new"
proof
  assume ok: "ps_tree_ok rx t" and u: "length t = 1 \<and> ntype (hd t) = UNDEFINED"
  then obtain n where n: "t = [n]" by (cases t) auto
  obtain ty v i where "n = Node ty v i" by (cases n)
  then show "t = sp_tree_new" using ok u n by (auto simp: ps_tree_ok_def wf_tree_def)
qed (simp add: sp_tree_new_def)

lemma create_var_safe:
  assumes "good_parse rx str parse" "ps_tree_ok rx tree"
    and "0 \<le> n" "n \<le> int (length value)"
    and "case idx of None \<Rightarrow> True | Some s \<Rightarrow> length s < length str"
    and "ty \<in> {OBJECT, ARRAY, INTERPRETED_STRING, CLASS, VAR, CONSTANT}"
  shows "\<exists>r. create_var parse rx tree value n ty idx = CVal r \<and>
    (\<forall>t. r = Some t \<longrightarrow> t \<noteq> [] \<and> wf_tree rx t)"
proof -
  obtain i where i: "parse idx = CVal i" "wf_tree rx i"
    using assms(1,5) unfolding good_parse_def by blast
  have "c_sub value 0 n = CVal (take (nat n) value)" using assms(3,4) by (simp add: c_sub_def)
  then show ?thesis
    using i assms(2,6) ps_tree_ok_UNDEFINED [OF assms(2)]
    by (auto simp: create_var_def Let_def wf_tree_def ps_tree_ok_def)
qed

lemma emit_var_safe:
  assumes parse: "good_parse rx str parse" and tree: "ps_tree_ok rx (ps_tree st)"
    and t: "token_at str t" and pos: "0 \<le> ps_pos st"
    and ty: "ty \<in> {OBJECT, ARRAY, INTERPRETED_STRING, CLASS, VAR, CONSTANT}"
    and c: "ps_pos_idx_start st \<le> 0 \<and> ty \<noteq> ARRAY \<and> ps_pos st \<le> int (ct_pos t)
      \<or> 1 \<le> ps_pos_idx_start st \<and> ps_pos_idx_start st \<le> int (ct_pos t)
        \<and> ps_pos st \<le> ps_pos_idx_start st - 1 \<and> ty = ARRAY \<and> tok_len t = 1"
  shows "\<exists>r. emit_var parse rx str t ty st = CVal r \<and>
    (\<forall>st'. r = Some st' \<longrightarrow> ps_pos st' = int (ct_pos t + tok_len t) \<and> ps_pos_idx_start st' = -1 \<and>
       ps_array_count st' = ps_array_count st \<and> ps_quote st' = ps_quote st \<and> ps_tree_ok rx (ps_tree st'))"
  using c
proof
  have e: "int (ct_pos t) + int (tok_len t) \<le> int (length str)" "0 < tok_len t"
    using token_at_end [OF t] token_at_len [OF t] by linarith+
  {
    assume c: "ps_pos_idx_start st \<le> 0 \<and> ty \<noteq> ARRAY \<and> ps_pos st \<le> int (ct_pos t)"
    let ?n = "int (ct_pos t) - ps_pos st"
    have p: "c_ptr str (ps_pos st) = CVal (drop (nat (ps_pos st)) str)"
      using c e pos by (simp add: c_ptr_def)
    have n: "?n \<le> int (length (drop (nat (ps_pos st)) str))" using c e pos by simp
    obtain r where r: "create_var parse rx (ps_tree st) (drop (nat (ps_pos st)) str) ?n ty None = CVal r"
      "\<forall>t. r = Some t \<longrightarrow> t \<noteq> [] \<and> wf_tree rx t"
      using create_var_safe [OF parse tree _ n, of None ty] c ty by auto
    then show ?thesis
      using c p by (auto simp: emit_var_def Let_def tok_len_def ps_tree_ok_def split: option.splits)
  }
  {
    assume c: "1 \<le> ps_pos_idx_start st \<and> ps_pos_idx_start st \<le> int (ct_pos t)
        \<and> ps_pos st \<le> ps_pos_idx_start st - 1 \<and> ty = ARRAY \<and> tok_len t = 1"
    let ?s = "ps_pos_idx_start st"
    let ?i = "take (nat (int (ct_pos t) - ?s)) (drop (nat ?s) str)"
    have i: "c_sub str ?s (int (ct_pos t) - ?s) = CVal ?i"
      using c e by (simp add: c_sub_def)
    have il: "length ?i < length str" using c e by auto
    have p: "c_ptr str (ps_pos st) = CVal (drop (nat (ps_pos st)) str)"
      using c e pos by (simp add: c_ptr_def)
    have n: "?s - 1 - ps_pos st \<le> int (length (drop (nat (ps_pos st)) str))"
      using c e pos unfolding length_drop by arith
    obtain r where r: "create_var parse rx (ps_tree st) (drop (nat (ps_pos st)) str) (?s - 1 - ps_pos st) ty (Some ?i) = CVal r"
      "\<forall>t. r = Some t \<longrightarrow> t \<noteq> [] \<and> wf_tree rx t"
      using create_var_safe [OF parse tree _ n, of "Some ?i" ty] c ty il by auto
    have l: "int (ct_pos t) - ps_pos st - int (length (ct_text_repr t)) - (int (ct_pos t) - ?s) = ?s - 1 - ps_pos st"
      using c by (simp add: tok_len_def)
    show ?thesis
      using c p i r l by (auto simp: emit_var_def Let_def tok_len_def ps_tree_ok_def split: option.splits)
  }
qed

lemma quote_step_cases:
  assumes "quote_step t st = (st1, ty1)"
  shows "ps_array_count st1 = ps_array_count st" "ps_pos_idx_start st1 = ps_pos_idx_start st"
    "ps_tree st1 = ps_tree st"
    "ps_pos st1 = ps_pos st \<or> ps_quote st = UNDEFINED \<and> ps_quote st1 = ct_type t
       \<and> (ct_type t = INTERPRETED_STRING \<or> ct_type t = LITERAL_STRING)
       \<and> ps_array_count st = 0 \<and> ps_pos st1 = ps_pos st + int (tok_len t)"
    "ty1 = (if ct_type t = INTERPRETED_STRING \<or> ct_type t = LITERAL_STRING then INTERPRETED_STRING else ct_type t)"
    "ct_type t \<noteq> INTERPRETED_STRING \<Longrightarrow> ct_type t \<noteq> LITERAL_STRING \<Longrightarrow> st1 = st"
  using assms by (auto simp: quote_step_def tok_len_def split: if_splits)

lemma token_at_type: "token_at str t \<Longrightarrow>
  ct_type t \<in> {OBJECT, ARRAY, ARRAY_END, INTERPRETED_STRING, LITERAL_STRING, CLASS}"
  by (auto simp: token_at_def delimiter_list_def)

lemma token_at_bracket: "token_at str t \<Longrightarrow> ct_type t = ARRAY_END \<or> ct_type t = ARRAY \<Longrightarrow> tok_len t = 1"
  by (auto simp: token_at_def delimiter_list_def tok_len_def token_texts)

lemma parse_token_safe:
  assumes parse: "good_parse rx str parse" and small: "length str < 2 ^ 31"
    and t: "token_at str t" and inv: "ps_inv str L st" and L: "L \<le> int (ct_pos t)"
    and tree: "ps_tree_ok rx (ps_tree st)"
  shows "\<exists>r. parse_token parse rx str t nx st = CVal r \<and>
    (\<forall>st'. r = Some st' \<longrightarrow> ps_inv str (int (ct_pos t + tok_len t)) st' \<and> ps_tree_ok rx (ps_tree st'))"
proof (cases "is_token_valid t nx (ps_quote st) (ps_array_count st) str (ps_pos st)")
  case False
  then show ?thesis by (simp add: parse_token_def)
next
  case valid: True
  have e: "int (ct_pos t) + int (tok_len t) \<le> int (length str)" "0 < tok_len t"
    using token_at_end [OF t] token_at_len [OF t] by linarith+
  have small': "to_int32 (int (ct_pos t) + int (tok_len t)) = int (ct_pos t) + int (tok_len t)"
    using e small by (intro to_int32_id) auto
  obtain st1 ty1 where q: "quote_step t st = (st1, ty1)" by (cases "quote_step t st")
  note qs = quote_step_cases [OF q]
  have inv1: "ps_inv str (int (ct_pos t + tok_len t)) st1"
    using inv L e qs(1,2,4) by (auto simp: ps_inv_def)
  obtain st2 ty2 where b: "bracket_step t ty1 st1 = (st2, ty2)" by (cases "bracket_step t ty1 st1")
  show ?thesis
  proof (cases "ps_quote st1 = UNDEFINED")
    case False
    then show ?thesis using valid q inv1 tree qs(3) by (simp add: parse_token_def)
  next
    case noquote: True
    have pos1: "ps_pos st1 = ps_pos st"
      using qs(4) noquote by auto
    have tree2: "ps_tree_ok rx (ps_tree st2)"
      using b qs(3) tree by (auto simp: bracket_step_def split: if_splits)
    have vnonneg: "ct_type t = ARRAY_END \<Longrightarrow> 1 \<le> ps_array_count st"
      using valid noquote qs(6) by (auto simp: is_token_valid_def split: if_splits)
    have nonneg: "0 \<le> ps_array_count st" using inv by (simp add: ps_inv_def)
    show ?thesis
    proof (cases "ps_array_count st2 = 0")
      case False
      have "1 \<le> int (ct_pos t) + int (length (ct_text_repr t))"
        "ps_pos st < int (ct_pos t) + int (length (ct_text_repr t))"
        using e inv L by (auto simp: tok_len_def ps_inv_def simp del: length_greater_0_conv)
      with False have "ps_inv str (int (ct_pos t + tok_len t)) st2"
        using b inv L e qs(1,2,5) pos1 small' nonneg vnonneg
        by (auto simp: bracket_step_def ps_inv_def tok_len_def split: if_splits)
      then show ?thesis using False valid q b noquote tree2 by (simp add: parse_token_def)
    next
      case zero: True
      have c: "ps_pos_idx_start st2 \<le> 0 \<and> ty2 \<noteq> ARRAY \<and> ps_pos st2 \<le> int (ct_pos t)
        \<or> 1 \<le> ps_pos_idx_start st2 \<and> ps_pos_idx_start st2 \<le> int (ct_pos t)
          \<and> ps_pos st2 \<le> ps_pos_idx_start st2 - 1 \<and> ty2 = ARRAY \<and> tok_len t = 1"
        using zero b inv L qs(1,2,5) pos1 nonneg vnonneg token_at_bracket [OF t]
        by (auto simp: bracket_step_def ps_inv_def split: if_splits)
      have ty: "ty2 \<in> {OBJECT, ARRAY, INTERPRETED_STRING, CLASS, VAR, CONSTANT}"
        using b qs(5) token_at_type [OF t] by (auto simp: bracket_step_def split: if_splits)
      have pos2: "0 \<le> ps_pos st2" using b pos1 inv by (auto simp: bracket_step_def ps_inv_def split: if_splits)
      from emit_var_safe [OF parse tree2 t pos2 ty c] show ?thesis
        using zero valid q b noquote e by (fastforce simp: parse_token_def ps_inv_def)
    qed
  qed
qed

lemma parse_loop_safe:
  assumes parse: "good_parse rx str parse" and small: "length str < 2 ^ 31"
    and "\<forall>t\<in>set ts. token_at str t" "sorted_wrt (\<lambda>t u. ct_pos t + tok_len t \<le> ct_pos u) ts"
    and "ps_inv str L st" "\<forall>t\<in>set ts. L \<le> int (ct_pos t)" "ps_tree_ok rx (ps_tree st)"
  shows "\<exists>r. parse_loop parse rx str ts st = CVal r \<and>
    (\<forall>st'. r = Some st' \<longrightarrow> (\<exists>L'. ps_inv str L' st') \<and> ps_tree_ok rx (ps_tree st'))"
  using assms(3-)
proof (induction ts arbitrary: L st)
  case (Cons t ts)
  let ?nx = "case ts of [] \<Rightarrow> None | n # _ \<Rightarrow> Some n"
  obtain r where r: "parse_token parse rx str t ?nx st = CVal r"
    "\<forall>st'. r = Some st' \<longrightarrow> ps_inv str (int (ct_pos t + tok_len t)) st' \<and> ps_tree_ok rx (ps_tree st')"
    using parse_token_safe [OF parse small, of t L st ?nx] Cons.prems by auto
  show ?case
  proof (cases r)
    case None
    then show ?thesis using r by simp
  next
    case (Some st')
    then have "\<exists>r. parse_loop parse rx str ts st' = CVal r \<and>
      (\<forall>st'. r = Some st' \<longrightarrow> (\<exists>L'. ps_inv str L' st') \<and> ps_tree_ok rx (ps_tree st'))"
      using Cons.prems(1,2) r(2) by (intro Cons.IH [of "int (ct_pos t + tok_len t)"]) auto
    then show ?thesis using r(1) Some by auto
  qed
qed auto

lemma parse_init_inv: "ps_inv str 0 parse_init"
  by (simp add: ps_inv_def parse_init_def)

lemma parse_tokens_safe:
  assumes parse: "good_parse rx str parse" and small: "length str < 2 ^ 31"
  shows "\<exists>r. parse_tokens parse rx str (var_tokens str) = CVal r \<and> (\<forall>t. r = Some t \<longrightarrow> ps_tree_ok rx t)"
proof -
  have toks: "\<forall>t\<in>set (var_tokens str). token_at str t"
    using var_tokens_ok(1) [OF small] by (simp add: tokens_ok_def)
  obtain r where r: "parse_loop parse rx str (var_tokens str) parse_init = CVal r"
    "\<forall>st. r = Some st \<longrightarrow> (\<exists>L'. ps_inv str L' st) \<and> ps_tree_ok rx (ps_tree st)"
    using parse_loop_safe [OF parse small toks var_tokens_ok(3) [OF small] parse_init_inv]
    by (auto simp: parse_init_def ps_tree_ok_def)
  show ?thesis
  proof (cases r)
    case None
    then show ?thesis using r by (simp add: parse_tokens_def)
  next
    case (Some st)
    with r obtain L where L: "ps_inv str L st" and tree: "ps_tree_ok rx (ps_tree st)" by auto
    have p: "c_ptr str (ps_pos st) = CVal (drop (nat (ps_pos st)) str)"
      using L by (auto simp: c_ptr_def ps_inv_def)
    have n: "0 \<le> int (length str) - ps_pos st"
      "int (length str) - ps_pos st \<le> int (length (drop (nat (ps_pos st)) str))"
      using L by (auto simp: ps_inv_def)
    obtain r' where "create_var parse rx (ps_tree st) (drop (nat (ps_pos st)) str)
        (int (length str) - ps_pos st) CONSTANT None = CVal r'"
      "\<forall>t. r' = Some t \<longrightarrow> t \<noteq> [] \<and> wf_tree rx t"
      using create_var_safe [OF parse tree n, of None CONSTANT] by auto
    then show ?thesis using r(1) Some p tree by (auto simp: parse_tokens_def ps_tree_ok_def)
  qed
qed

lemma sp_parse_var_fuel_enough:
  assumes "length line < n" "length line < 2 ^ 31"
  shows "\<exists>t. sp_parse_var_fuel n rx (Some line) = CVal t \<and> wf_tree rx t"
  using assms
proof (induction n arbitrary: line)
  case (Suc n)
  have "good_parse rx line (sp_parse_var_fuel n rx)"
    unfolding good_parse_def using Suc by (auto simp: wf_tree_def split: option.splits)
  from parse_tokens_safe [OF this Suc.prems(2)] obtain r where
    r: "parse_tokens (sp_parse_var_fuel n rx) rx line (var_tokens line) = CVal r"
    "\<forall>t. r = Some t \<longrightarrow> ps_tree_ok rx t" by blast
  show ?case
  proof (cases r)
    case None
    then show ?thesis using r by (simp add: wf_tree_def)
  next
    case (Some t)
    then have ok: "ps_tree_ok rx t" using r by simp
    show ?thesis
    proof (cases "t = sp_tree_new")
      case True
      then show ?thesis using r(1) Some by (simp add: wf_tree_def sp_tree_new_def)
    next
      case False
      then show ?thesis using r(1) Some ok ps_tree_ok_UNDEFINED [OF ok] by (auto simp: ps_tree_ok_def)
    qed
  qed
qed simp

text \<open>More fuel changes nothing: a result is kept.\<close>

definition parse_le :: "(string option \<Rightarrow> sp_tree cres) \<Rightarrow> (string option \<Rightarrow> sp_tree cres) \<Rightarrow> bool" where
  "parse_le p q \<longleftrightarrow> (\<forall>i. cres_le (p i) (q i))"

lemma create_var_mono:
  "parse_le p q \<Longrightarrow> cres_le (create_var p rx tree v n ty i) (create_var q rx tree v n ty i)"
  unfolding create_var_def Let_def parse_le_def by (intro cres_monos) auto

lemma emit_var_mono:
  "parse_le p q \<Longrightarrow> cres_le (emit_var p rx str t ty st) (emit_var q rx str t ty st)"
  unfolding emit_var_def Let_def by (intro cbind_mono cres_le_refl create_var_mono)

lemma parse_token_mono:
  "parse_le p q \<Longrightarrow> cres_le (parse_token p rx str t nx st) (parse_token q rx str t nx st)"
  unfolding parse_token_def Let_def by (intro cres_le_if cres_le_prod emit_var_mono cres_le_refl)

lemma parse_loop_mono:
  "parse_le p q \<Longrightarrow> cres_le (parse_loop p rx str ts st) (parse_loop q rx str ts st)"
proof (induction ts arbitrary: st)
  case (Cons t ts)
  then show ?case
    unfolding parse_loop.simps by (intro cbind_mono cres_le_option parse_token_mono cres_le_refl Cons.IH)
qed simp

lemma parse_tokens_mono:
  "parse_le p q \<Longrightarrow> cres_le (parse_tokens p rx str ts) (parse_tokens q rx str ts)"
  unfolding parse_tokens_def
  by (intro cbind_mono cres_le_option cres_le_if parse_loop_mono create_var_mono cres_le_refl)

lemma sp_parse_var_fuel_mono: "parse_le (sp_parse_var_fuel n rx) (sp_parse_var_fuel (Suc n) rx)"
proof (induction n)
  case 0
  have "cres_le (sp_parse_var_fuel 0 rx i) (sp_parse_var_fuel (Suc 0) rx i)" for i
    by (cases i) (auto simp: cres_le_def)
  then show ?case by (simp add: parse_le_def)
next
  case (Suc n)
  have "cres_le (sp_parse_var_fuel (Suc n) rx i) (sp_parse_var_fuel (Suc (Suc n)) rx i)" for i
  proof (cases i)
    case (Some line)
    then show ?thesis
      unfolding Some sp_parse_var_fuel.simps(3)
      by (intro cbind_mono cres_le_option parse_tokens_mono cres_le_refl Suc.IH)
  qed simp
  then show ?case by (simp add: parse_le_def)
qed

lemma sp_parse_var_fuel_le:
  "n \<le> m \<Longrightarrow> sp_parse_var_fuel n rx i = CVal t \<Longrightarrow> sp_parse_var_fuel m rx i = CVal t"
proof (induction rule: dec_induct)
  case (step m)
  have "cres_le (sp_parse_var_fuel m rx i) (sp_parse_var_fuel (Suc m) rx i)"
    using sp_parse_var_fuel_mono [of m rx] by (simp only: parse_le_def)
  then show ?case by (rule cres_leD) (fact step.IH [OF step.prems])
qed simp

text \<open>A whole string of name characters and no delimiter is one component.\<close>

definition delim_char :: "char \<Rightarrow> bool" where
  "delim_char c \<longleftrightarrow> (\<exists>d\<in>set delimiter_list. c = hd (snd d))"

lemma str_tokens_loop_none:
  "\<forall>c\<in>set s. c \<noteq> hd (snd d) \<Longrightarrow> str_tokens_loop d s off acc = acc"
  by (induction d s off acc rule: str_tokens_loop.induct) auto

lemma var_tokens_none:
  assumes "\<forall>c\<in>set s. \<not> delim_char c"
  shows "var_tokens s = []"
proof -
  have "fold (parse_str_tokens s) ds [] = []" if "set ds \<subseteq> set delimiter_list" for ds
    using that
  proof (induction ds)
    case (Cons d ds)
    then have "\<forall>c\<in>set s. c \<noteq> hd (snd d)" using assms by (auto simp: delim_char_def)
    then show ?case using Cons by (simp add: parse_str_tokens_def str_tokens_loop_none)
  qed simp
  then show ?thesis by (simp add: var_tokens_def)
qed

section \<open>Properties\<close>

lemma sp_parse_var_safe_aux:
  "length line < 2 ^ 31 \<Longrightarrow> \<exists>t. sp_parse_var rx line = CVal t \<and> wf_tree rx t"
  unfolding sp_parse_var_def by (rule sp_parse_var_fuel_enough) simp_all

text \<open>
  C30. \<open>sp_parse_var\<close> is memory safe and total: on any line shorter than \<open>2 ^ 31\<close> bytes
  no copy leaves the string, the recursion on indices ends, and the tree (empty on an error)
  has only known node types, a value in every node, and checked names outside quotes.
\<close>

theorem sp_parse_var_safe:
  assumes "length line < 2 ^ 31"
  shows "\<exists>t. sp_parse_var rx line = CVal t \<and> wf_tree rx t"
  using assms by (rule sp_parse_var_safe_aux)

theorem sp_parse_var_safe_witness:
  "\<exists>t. sp_parse_var (\<lambda>p s. s \<noteq> ''x-y'') ''$a[x-y]->b'' = CVal t \<and> wf_tree (\<lambda>p s. s \<noteq> ''x-y'') t"
  by (rule sp_parse_var_safe) simp

text \<open>
  The token sort of the parser is the stable sort by position: \<open>sp_list_sort\<close> with
  \<open>cmp_tokens\<close> agrees with the library's \<open>sort_key\<close> as long as positions fit an \<open>int\<close>.
\<close>

theorem token_sort_by_position:
  assumes "\<forall>t\<in>set ts. ct_pos t < 2 ^ 31"
  shows "sp_list_sort cmp_tokens ts = sort_key ct_pos ts"
  by (rule tok_sort.sp_list_sort_eq_sort_key) (use assms in blast)

theorem token_sort_by_position_witness:
  "let t = (\<lambda>n. \<lparr>ct_type = ARRAY, ct_text_repr = ''['', ct_pos = n\<rparr>)
   in sp_list_sort cmp_tokens [t 7, t 2, t 5] = sort_key ct_pos [t 7, t 2, t 5]"
  unfolding Let_def by (rule token_sort_by_position) simp

text \<open>
  The parser against its recursive reading: the tree of a line is what the token loop
  builds when every index is parsed by \<open>sp_parse_var\<close> itself, so the fuel of the model
  never shows.
\<close>

theorem sp_parse_var_unfold:
  assumes "length line < 2 ^ 31"
  shows "sp_parse_var rx line =
    cbind (parse_tokens (\<lambda>i. case i of None \<Rightarrow> CVal [] | Some s \<Rightarrow> sp_parse_var rx s) rx line (var_tokens line))
      (\<lambda>r. CVal (case r of None \<Rightarrow> []
         | Some tree \<Rightarrow> if length tree = 1 \<and> ntype (hd tree) = UNDEFINED
                        then [Node CONSTANT (Some []) (nidx (hd tree))] else tree))"
proof -
  let ?rec = "\<lambda>i. case i of None \<Rightarrow> CVal [] | Some s \<Rightarrow> sp_parse_var rx s"
  let ?n = "length line"
  have "?rec i = CVal t" if t: "sp_parse_var_fuel ?n rx i = CVal t" for i t
  proof (cases i)
    case (Some s)
    show ?thesis
    proof (cases "?n \<le> Suc (length s)")
      case True
      then show ?thesis
        using sp_parse_var_fuel_le [OF True] t Some by (simp add: sp_parse_var_def del: sp_parse_var_fuel.simps)
    next
      case False
      then obtain u where u: "sp_parse_var_fuel (Suc (length s)) rx i = CVal u"
        using sp_parse_var_fuel_enough [of s "Suc (length s)" rx] assms Some by auto
      have "sp_parse_var_fuel ?n rx i = CVal u"
        by (rule sp_parse_var_fuel_le [OF _ u]) (use False in simp)
      then show ?thesis using t u Some by (simp add: sp_parse_var_def del: sp_parse_var_fuel.simps)
    qed
  qed (use t in simp)
  then have le: "parse_le (sp_parse_var_fuel ?n rx) ?rec" by (simp add: parse_le_def cres_le_def)
  obtain t where "sp_parse_var rx line = CVal t" using sp_parse_var_safe_aux [OF assms] by blast
  then obtain r where r: "parse_tokens (sp_parse_var_fuel ?n rx) rx line (var_tokens line) = CVal r"
    by (auto simp: sp_parse_var_def)
  then have "parse_tokens ?rec rx line (var_tokens line) = CVal r"
    by (rule cres_leD [OF parse_tokens_mono [OF le]])
  then show ?thesis using r by (cases r) (simp_all add: sp_parse_var_def)
qed

theorem sp_parse_var_unfold_witness:
  "sp_parse_var (\<lambda>p s. True) ''$a'' =
    cbind (parse_tokens (\<lambda>i. case i of None \<Rightarrow> CVal [] | Some s \<Rightarrow> sp_parse_var (\<lambda>p s. True) s)
        (\<lambda>p s. True) ''$a'' (var_tokens ''$a''))
      (\<lambda>r. CVal (case r of None \<Rightarrow> []
         | Some tree \<Rightarrow> if length tree = 1 \<and> ntype (hd tree) = UNDEFINED
                        then [Node CONSTANT (Some []) (nidx (hd tree))] else tree))"
  by (rule sp_parse_var_unfold) simp

text \<open>
  A plain name: a non-empty line without delimiter characters whose name is valid is one
  node, a \<open>VAR\<close> when it starts with a dollar and a \<open>CONSTANT\<close> otherwise; an invalid
  name is an error (no tree).
\<close>

theorem sp_parse_var_plain:
  assumes "line \<noteq> []" "\<forall>c\<in>set line. \<not> delim_char c"
  shows "sp_parse_var rx line =
    (if is_var_name_valid rx line
     then CVal [Node (if hd line = VARIABLE_TOKEN then VAR else CONSTANT) (Some line) []] else CVal [])"
proof -
  obtain c cs where line: "line = c # cs" using assms(1) by (cases line) auto
  show ?thesis
    unfolding sp_parse_var_def sp_parse_var_fuel.simps parse_tokens_def var_tokens_none [OF assms(2)]
    by (auto simp: line parse_init_def c_ptr_def create_var_def c_sub_def sp_tree_new_def)
qed

theorem sp_parse_var_plain_witness:
  "sp_parse_var (\<lambda>p s. True) ''$foo'' =
    (if is_var_name_valid (\<lambda>p s. True) ''$foo''
     then CVal [Node (if hd ''$foo'' = VARIABLE_TOKEN then VAR else CONSTANT) (Some ''$foo'') []] else CVal [])"
  by (rule sp_parse_var_plain) (simp_all add: delim_char_def delimiter_list_def token_texts)

text \<open>
  The result of the recursive call for an index is not checked: a path whose index has an
  invalid name is accepted, with no index in its node.
\<close>

theorem invalid_index_accepted:
  "sp_parse_var (\<lambda>p s. s \<noteq> ''x-y'') ''x-y'' = CVal [] \<and>
   sp_parse_var (\<lambda>p s. s \<noteq> ''x-y'') ''$a[x-y]'' = CVal [Node ARRAY (Some ''$a'') []]"
  by code_simp

end
