(* ===== verification/Sp_Types.thy ===== *)
theory Sp_Types
  imports Php_Values Var_Parser Network_Utils
begin

text \<open>
  The extension's own data: the configuration structures of \<open>src/sp_config.h\<close> and the module
  globals of \<open>src/php_snuffleupagus.h\<close>. A NULL string or regular expression is \<open>None\<close>, a
  NULL list or tree the empty list. The functions \<open>sp_env\<close>, \<open>log_\<dots>\<close> give the logging of
  \<open>Sp_Log\<close> the settings the globals hold at the moment of the call.
\<close>

section \<open>Configuration structures\<close>

record sp_regexp =
  rx_pattern :: string

record sp_config_readonly_exec =
  ro_enable :: bool
  ro_simulation :: bool
  ro_extended_checks :: bool
  ro_dump :: "string option"
  ro_textual_representation :: "string option"

datatype samesite_type = samesite_unset | strict | lax

record sp_cookie =
  ck_samesite :: samesite_type
  ck_encrypt :: bool
  ck_name :: "string option"
  ck_name_r :: "sp_regexp option"
  ck_simulation :: bool

record sp_config_wrapper =
  wr_whitelist :: "string list"
  wr_php_stream_allowlist :: "string list"
  wr_enabled :: bool
  wr_num_wrapper :: nat

record sp_config_session =
  se_encrypt :: bool
  se_simulation :: bool
  se_sid_min_length :: nat
  se_sid_max_length :: nat

record sp_config_unserialize_noclass =
  un_enable :: bool
  un_textual_representation :: "string option"

record sp_config_unserialize =
  us_enable :: bool
  us_simulation :: bool
  us_dump :: "string option"
  us_textual_representation :: "string option"

record sp_disabled_function =
  df_textual_representation :: "string option"
  df_filename :: "string option"
  df_r_filename :: "sp_regexp option"
  df_function :: "string option"
  df_r_function :: "sp_regexp option"
  df_functions_list :: "string list"
  df_hash :: "string option"
  df_simulation :: bool
  df_param :: sp_tree
  df_r_param :: "sp_regexp option"
  df_param_type :: sp_php_type
  df_pos :: int
  df_line :: nat
  df_r_ret :: "sp_regexp option"
  df_ret :: "string option"
  df_ret_type :: sp_php_type
  df_r_value :: "sp_regexp option"
  df_value :: "string option"
  df_r_key :: "sp_regexp option"
  df_key :: "string option"
  df_dump :: "string option"
  df_alias :: "string option"
  df_allow :: bool
  df_var :: sp_tree
  df_cidr :: "sp_cidr option"

record sp_config_eval =
  ev_blacklist :: "string list"
  ev_whitelist :: "string list"
  ev_simulation :: bool
  ev_dump :: "string option"
  ev_textual_representation :: "string option"

record sp_config_upload_validation =
  up_script :: "string option"
  up_simulation :: bool
  up_enable :: bool

datatype on_modify = OnModify_Engine nat | OnModify_Sp

record sp_ini_entry =
  ie_key :: "string option"
  ie_access :: int
  ie_min :: "string option"
  ie_max :: "string option"
  ie_regexp :: "sp_regexp option"
  ie_msg :: "string option"
  ie_set :: "string option"
  ie_allow_null :: bool
  ie_simulation :: bool
  ie_drop :: bool
  ie_orig_onmodify :: "on_modify option"

record sp_config_ini =
  ini_enable :: bool
  ini_simulation :: bool
  ini_policy_readonly :: bool
  ini_policy_silent_ro :: bool
  ini_policy_silent_fail :: bool
  ini_policy_drop :: bool
  ini_entries :: "(string \<times> sp_ini_entry) list"

definition SP_INI_UNSET :: int where "SP_INI_UNSET = 0"
definition SP_INI_READONLY :: int where "SP_INI_READONLY = 1"
definition SP_INI_READWRITE :: int where "SP_INI_READWRITE = -1"

text \<open>What \<open>pecalloc\<close> returns: all members zero.\<close>

definition zero_disabled_function :: sp_disabled_function where
  "zero_disabled_function =
     \<lparr>df_textual_representation = None, df_filename = None, df_r_filename = None, df_function = None,
      df_r_function = None, df_functions_list = [], df_hash = None, df_simulation = False,
      df_param = [], df_r_param = None, df_param_type = SP_PHP_TYPE_UNDEF, df_pos = 0, df_line = 0,
      df_r_ret = None, df_ret = None, df_ret_type = SP_PHP_TYPE_UNDEF, df_r_value = None,
      df_value = None, df_r_key = None, df_key = None, df_dump = None, df_alias = None,
      df_allow = False, df_var = [], df_cidr = None\<rparr>"

definition zero_cookie :: sp_cookie where
  "zero_cookie = \<lparr>ck_samesite = samesite_unset, ck_encrypt = False, ck_name = None, ck_name_r = None, ck_simulation = False\<rparr>"

definition zero_ini_entry :: sp_ini_entry where
  "zero_ini_entry =
     \<lparr>ie_key = None, ie_access = 0, ie_min = None, ie_max = None, ie_regexp = None, ie_msg = None,
      ie_set = None, ie_allow_null = False, ie_simulation = False, ie_drop = False, ie_orig_onmodify = None\<rparr>"

section \<open>Module globals\<close>

text \<open>A native function's handler: the engine's own or one of the extension's.\<close>

datatype zif_handler = Zif_Engine string | Zif_Sp string

type_synonym df_table = "(hkey \<times> sp_disabled_function list) list"
type_synonym hook_table = "(string \<times> zif_handler) list"

record sp_globals =
  cfg_random_enable :: bool
  cfg_sloppy_enable :: bool
  cfg_unserialize :: sp_config_unserialize
  cfg_unserialize_noclass :: sp_config_unserialize_noclass
  cfg_readonly_exec :: sp_config_readonly_exec
  cfg_upload_validation :: sp_config_upload_validation
  cfg_cookies :: "sp_cookie list"
  cfg_auto_cookie_secure_enable :: bool
  cfg_global_strict_enable :: bool
  cfg_xxe_protection_enable :: bool
  cfg_eval :: sp_config_eval
  cfg_wrapper :: sp_config_wrapper
  cfg_session :: sp_config_session
  cfg_ini :: sp_config_ini
  cfg_log_media :: sp_config_log
  cfg_log_max_len :: int
  cfg_max_execution_depth :: nat
  cfg_server_encode :: bool
  cfg_server_strip :: bool
  cfg_encryption_key :: "string option"
  cfg_cookies_env_var :: "string option"
  cfg_disabled_functions :: df_table
  cfg_disabled_functions_hooked :: df_table
  cfg_disabled_functions_ret :: df_table
  cfg_disabled_functions_ret_hooked :: df_table
  cfg_disabled_functions_reg :: "sp_disabled_function list"
  cfg_disabled_functions_reg_ret :: "sp_disabled_function list"
  spg_hook_execute :: bool
  spg_allow_broken_configuration :: bool
  spg_is_config_valid :: int
  spg_config_filename :: "string option"
  spg_config_lineno :: nat
  spg_config_parsing :: bool
  spg_config_nonfatal :: bool
  spg_in_eval :: nat
  spg_execution_depth :: nat
  spg_disabled_functions_hook :: hook_table
  spg_sp_internal_functions_hook :: hook_table
  spg_sp_eval_blacklist_functions_hook :: hook_table
  spg_eval_source_string :: string

definition SP_CONFIG_VALID :: int where "SP_CONFIG_VALID = 1"
definition SP_CONFIG_INVALID :: int where "SP_CONFIG_INVALID = 0"
definition SP_CONFIG_NONE :: int where "SP_CONFIG_NONE = -1"

section \<open>Logging with the globals\<close>

definition sp_env :: "php \<Rightarrow> sp_globals \<Rightarrow> log_env" where
  "sp_env E g =
     \<lparr>le_media = cfg_log_media g, le_nonfatal = spg_config_nonfatal g,
      le_fatal_bails = e_fatal_bails E, le_asserts = e_asserts E,
      le_sapi_getenv = e_sapi_getenv E, le_getenv = e_getenv E,
      le_config_location =
        (case spg_config_filename g of
           Some f \<Rightarrow> if spg_config_parsing g then Some (f, spg_config_lineno g) else None
         | None \<Rightarrow> None),
      le_executed_filename = e_executed_filename E, le_executed_lineno = e_executed_lineno E,
      le_can_open = e_can_open E\<rparr>"

section \<open>Regular expressions\<close>

text \<open>
  \<open>sp_is_regexp_matching_len\<close> on the whole subject: PCRE's answer, and no match when PCRE
  gives an error (the line it logs then is left out). \<open>sp_is_regexp_matching\<close> passes a C
  string, \<open>sp_is_regexp_matching_zstr\<close> a \<open>zend_string\<close> with its length.
\<close>

definition sp_is_regexp_matching_len :: "php \<Rightarrow> string \<Rightarrow> string \<Rightarrow> bool" where
  "sp_is_regexp_matching_len E re str = e_rx E re str"

definition sp_is_regexp_matching_zstr :: "php \<Rightarrow> sp_regexp \<Rightarrow> string \<Rightarrow> bool" where
  "sp_is_regexp_matching_zstr E r zstr = sp_is_regexp_matching_len E (c_str (rx_pattern r)) zstr"

definition sp_is_regexp_matching :: "php \<Rightarrow> sp_regexp \<Rightarrow> string \<Rightarrow> bool" where
  "sp_is_regexp_matching E r str = sp_is_regexp_matching_len E (c_str (rx_pattern r)) (c_str str)"

text \<open>\<open>sp_regexp_compile\<close>: the compiler reads the pattern up to its first NUL.\<close>

definition sp_regexp_compile :: "php \<Rightarrow> sp_globals \<Rightarrow> string \<Rightarrow> sp_regexp option eff" where
  "sp_regexp_compile E g zstr =
     (if e_rx_valid E (c_str zstr) then ret (Some \<lparr>rx_pattern = zstr\<rparr>)
      else eseq (sp_log_err (sp_env E g) ''config'' (''Failed to compile '' @ quoted (c_str zstr) @ '': '' @ e_pcre_error E (c_str zstr) @ ''.'')) (ret None))"

end
