(* ===== verification/Sp_Utils.thy ===== *)
theory Sp_Utils
  imports Sp_Types
begin

text \<open>
  The shared helpers of \<open>src/sp_utils.c\<close>: values as strings, matching values and arrays
  against rules, the reports of a matched rule, request dumps, file hashes, and hooking native
  functions. The function table of the engine is an association list from names to the
  function's kind and handler.
\<close>

section \<open>Values as strings\<close>

definition zend_string_to_char :: "string \<Rightarrow> string" where
  "zend_string_to_char zs = map (\<lambda>c. if c = NUL then CHR ''0'' else c) zs"

definition sp_zval_to_zend_string :: "php \<Rightarrow> zval \<Rightarrow> string" where
  "sp_zval_to_zend_string E zv =
     (case zv of
        IS_LONG n \<Rightarrow> show_int n
      | IS_DOUBLE d \<Rightarrow> c_str (e_format_double E d)
      | IS_STRING s \<Rightarrow> s
      | IS_FALSE \<Rightarrow> ''FALSE''
      | IS_TRUE \<Rightarrow> ''TRUE''
      | IS_NULL \<Rightarrow> ''NULL''
      | IS_OBJECT c ps \<Rightarrow> ''OBJECT''
      | IS_ARRAY a \<Rightarrow> ''ARRAY''
      | IS_RESOURCE \<Rightarrow> ''RESOURCE''
      | _ \<Rightarrow> [])"

section \<open>Matching\<close>

definition sp_match_value :: "php \<Rightarrow> string \<Rightarrow> string option \<Rightarrow> sp_regexp option \<Rightarrow> bool" where
  "sp_match_value E value to_match rx =
     (case to_match of
        Some m \<Rightarrow> m = value
      | None \<Rightarrow> (case rx of Some r \<Rightarrow> sp_is_regexp_matching_zstr E r value | None \<Rightarrow> True))"

text \<open>An integer key is printed with \<open>ZEND_ULONG_FMT\<close>, as an unsigned 64-bit value.\<close>

fun sp_match_array_key :: "php \<Rightarrow> (hkey \<times> zval) list \<Rightarrow> string option \<Rightarrow> sp_regexp option \<Rightarrow> bool" where
  "sp_match_array_key E [] to_match rx = False"
| "sp_match_array_key E ((k, v) # arr) to_match rx =
     (let key = (case k of HStr s \<Rightarrow> s | HIdx i \<Rightarrow> show_nat (nat (i mod 2 ^ 64)))
      in if sp_match_value E key to_match rx then True else sp_match_array_key E arr to_match rx)"

fun sp_match_array_value :: "php \<Rightarrow> (hkey \<times> zval) list \<Rightarrow> string option \<Rightarrow> sp_regexp option \<Rightarrow> bool" where
  "sp_match_array_value E [] to_match rx = False"
| "sp_match_array_value E ((k, IS_ARRAY a) # arr) to_match rx =
     (if sp_match_array_value E a to_match rx then True else sp_match_array_value E arr to_match rx)"
| "sp_match_array_value E ((k, v) # arr) to_match rx =
     (if sp_match_value E (sp_zval_to_zend_string E v) to_match rx then True
      else sp_match_array_value E arr to_match rx)"

section \<open>Stack traces and request dumps\<close>

text \<open>\<open>get_complete_function_path\<close> of \<open>src/sp_disabled_functions.c\<close>, on the current frame.\<close>

definition get_complete_function_path :: "zend_execute_data option \<Rightarrow> string option" where
  "get_complete_function_path execute_data =
     (case execute_data of
        None \<Rightarrow> None
      | Some ex \<Rightarrow>
          (case ex_func ex of
             None \<Rightarrow> None
           | Some func \<Rightarrow>
               (case function_name func of
                  None \<Rightarrow> None
                | Some fname \<Rightarrow>
                    (case (fn_type func = ZEND_USER_FUNCTION \<or> fn_type func = ZEND_INTERNAL_FUNCTION, fn_scope func) of
                       (True, Some class_name) \<Rightarrow> Some (c_str class_name @ ''::'' @ c_str fname)
                     | _ \<Rightarrow> Some (c_str fname)))))"

definition hex_digit :: "nat \<Rightarrow> char" where
  "hex_digit n = (if n < 10 then char_of (48 + n) else char_of (87 + n))"

definition make_digest_ex :: "string \<Rightarrow> string" where
  "make_digest_ex bytes = concat (map (\<lambda>c. [hex_digit (byte c div 16), hex_digit (byte c mod 16)]) bytes)"

text \<open>\<open>compute_hash\<close>: \<open>None\<close> is FAILURE, and the caller's buffer is left as it was.\<close>

definition compute_hash :: "php \<Rightarrow> sp_globals \<Rightarrow> string \<Rightarrow> string option eff" where
  "compute_hash E g filename =
     (case e_read_file E filename of
        None \<Rightarrow> eseq (sp_log_err (sp_env E g) ''hash_computation''
                  (''Can not open the file '' @ filename @ '' to compute its hash'')) (ret None)
      | Some content \<Rightarrow> ret (Some (make_digest_ex (e_sha256 E content))))"

definition PATH_MAX :: nat where "PATH_MAX = 4096"

text \<open>The trace both passes walk: the named frames, each with the frames below it.\<close>

fun stack_paths :: "zend_execute_data list \<Rightarrow> (string \<times> zend_execute_data list) list" where
  "stack_paths [] = []"
| "stack_paths (ex # exs) =
     (case get_complete_function_path (Some ex) of
        Some p \<Rightarrow> [(p, ex # exs)]
      | None \<Rightarrow> []) @ stack_paths exs"

definition newline :: string where "newline = [CHR 0x0A]"

text \<open>One zone of the dump. The name of a variable is \<open>ZSTR_VAL\<close> of the key's string: there is
  none for an integer key, and the write reads through a NULL pointer.\<close>

fun dump_variables :: "php \<Rightarrow> (hkey \<times> zval) list \<Rightarrow> string cres" where
  "dump_variables E [] = CVal []"
| "dump_variables E ((HStr k, v) # vars) =
     cbind (dump_variables E vars) (\<lambda>s. CVal (c_str k @ ''='' @ c_str (e_var_export E v) @ '' '' @ s))"
| "dump_variables E ((HIdx i, v) # vars) = CFault"

definition dump_zones :: "string list" where
  "dump_zones = [''GET'', ''POST'', ''COOKIE'', ''SERVER'', ''ENV'']"

fun dump_globals :: "php \<Rightarrow> string list \<Rightarrow> string cres" where
  "dump_globals E [] = CVal []"
| "dump_globals E (z # zs) =
     (case e_http_globals E z of
        None \<Rightarrow> dump_globals E zs
      | Some ht \<Rightarrow> cbind (dump_variables E ht) (\<lambda>vars.
          cbind (dump_globals E zs) (\<lambda>rest. CVal (z @ '':'' @ vars @ newline @ rest))))"

definition dump_path :: "php \<Rightarrow> zend_execute_data list \<Rightarrow> string \<Rightarrow> string \<Rightarrow> string" where
  "dump_path E stack folder text_repr =
     c_str folder @ ''/sp_dump.'' @ make_digest_ex (e_sha256 E (text_repr @ concat (map fst (stack_paths stack))))"

definition dump_head :: "php \<Rightarrow> zend_execute_data list \<Rightarrow> string \<Rightarrow> string" where
  "dump_head E stack text_repr =
     ''RULE: '' @ c_str text_repr @ newline @
     ''FILE: '' @ e_executed_filename E @ '':'' @ show_nat (e_executed_lineno E) @ newline @
     concat (map (\<lambda>(p, fs). ''STACKTRACE: '' @ p @ '':'' @ show_nat (e_frame_lineno E fs) @ newline) (stack_paths stack))"

definition sp_log_request :: "php \<Rightarrow> sp_globals \<Rightarrow> zend_execute_data list \<Rightarrow> string \<Rightarrow> string \<Rightarrow> int eff" where
  "sp_log_request E g stack folder text_repr =
     (let L = sp_env E g; filename = dump_path E stack folder text_repr in
      if \<not> e_mkdir E (c_str folder) then
        eseq (sp_log_warn L ''request_logging'' (''Unable to create the folder '' @ quoted (c_str folder))) (ret (-1))
      else if PATH_MAX \<le> length filename then
        eseq (sp_log_warn L ''request_logging'' (''Unable to format filename of length '' @ show_nat (length folder + 9 + 64)))
          (ret (-1))
      else if \<not> e_open_dump E filename then
        eseq (sp_log_warn L ''request_logging'' (''Unable to open '' @ filename @ '': '' @ e_strerror E)) (ret (-1))
      else ebind (lift_cres (dump_globals E dump_zones)) (\<lambda>zones.
        let eval = (if spg_in_eval g \<noteq> 0 then ''EVAL_CODE: '' @ c_str (spg_eval_source_string g) @ newline else [])
        in eseq (emit (Ev_Dump filename (dump_head E stack text_repr @ zones @ eval))) (ret 0)))"

section \<open>Reporting a matched rule\<close>

text \<open>The value shown: URL-encoded, without NULs, cut at \<open>log_max_len\<close> (an \<open>int\<close> read as a \<open>size_t\<close>).\<close>

definition log_value :: "php \<Rightarrow> sp_globals \<Rightarrow> string option \<Rightarrow> string" where
  "log_value E g v =
     (case v of
        None \<Rightarrow> ''?''
      | Some s \<Rightarrow>
          let enc = e_raw_url_encode E s;
              max_len = min (length enc) (nat (cfg_log_max_len g mod 2 ^ 64))
          in take max_len (zend_string_to_char enc))"

definition dump_of ::
  "php \<Rightarrow> sp_globals \<Rightarrow> zend_execute_data list \<Rightarrow> string option \<Rightarrow> string option \<Rightarrow> unit eff" where
  "dump_of E g stack dump text_repr =
     (case dump of
        None \<Rightarrow> ret ()
      | Some folder \<Rightarrow>
          (case text_repr of
             None \<Rightarrow> crash
           | Some t \<Rightarrow> ebind (sp_log_request E g stack folder t) (\<lambda>_. ret ())))"

definition sp_log_disable ::
  "php \<Rightarrow> sp_globals \<Rightarrow> zend_execute_data list \<Rightarrow> string \<Rightarrow> string option \<Rightarrow> string option \<Rightarrow>
   sp_disabled_function \<Rightarrow> unit eff" where
  "sp_log_disable E g stack path arg_name arg_value config_node =
     eseq (dump_of E g stack (df_dump config_node) (df_textual_representation config_node))
       (sp_log_auto (sp_env E g) ''disabled_function'' (df_simulation config_node)
         (case (arg_name, df_alias config_node) of
            (Some a, Some al) \<Rightarrow> ''Aborted execution on call of the function '' @ quoted path @ '', because its argument '' @ quoted a
              @ '' content ('' @ log_value E g arg_value @ '') matched the rule '' @ quoted (c_str al)
          | (Some a, None) \<Rightarrow> ''Aborted execution on call of the function '' @ quoted path @ '', because its argument '' @ quoted a
              @ '' content ('' @ log_value E g arg_value @ '') matched a rule''
          | (None, Some al) \<Rightarrow> ''Aborted execution on call of the function '' @ quoted path @ '', because of the the rule '' @ quoted (c_str al)
          | (None, None) \<Rightarrow> ''Aborted execution on call of the function '' @ quoted path))"

definition sp_log_disable_ret ::
  "php \<Rightarrow> sp_globals \<Rightarrow> zend_execute_data list \<Rightarrow> string \<Rightarrow> string option \<Rightarrow> sp_disabled_function \<Rightarrow> unit eff" where
  "sp_log_disable_ret E g stack path ret_value config_node =
     eseq (dump_of E g stack (df_dump config_node) (df_textual_representation config_node))
       (sp_log_auto (sp_env E g) ''disabled_function'' (df_simulation config_node)
         (''Aborted execution on return of the function '' @ quoted path @ '', because the function returned ''
            @ quoted (log_value E g ret_value) @
          (case df_alias config_node of Some al \<Rightarrow> '', which matched the rule '' @ quoted (c_str al)
           | None \<Rightarrow> '', which matched a rule'')))"

section \<open>Hooking native functions\<close>

type_synonym function_table = "(string \<times> zend_function_type \<times> zif_handler) list"

definition hook_one :: "string \<Rightarrow> hook_table \<Rightarrow> zif_handler \<Rightarrow> function_table \<Rightarrow> bool \<times> hook_table \<times> function_table" where
  "hook_one original_name ht new_function ft =
     (case zh_find ft original_name of
        None \<Rightarrow> (False, ht, ft)
      | Some (ty, handler) \<Rightarrow>
          if ty \<noteq> ZEND_INTERNAL_FUNCTION then (False, ht, ft)
          else if handler = new_function then (True, ht, ft)
          else (True, ht @ [(original_name, handler)], zh_update ft original_name (ty, new_function)))"

text \<open>\<open>hook_function\<close>: \<open>mb_\<dots>\<close> and plain names are hooked together, depending on \<open>CG(multibyte)\<close>.\<close>

definition hook_function ::
  "bool \<Rightarrow> string \<Rightarrow> hook_table \<Rightarrow> zif_handler \<Rightarrow> function_table \<Rightarrow> bool \<times> hook_table \<times> function_table" where
  "hook_function multibyte original_name ht new_function ft =
     (let (r, ht1, ft1) = hook_one original_name ht new_function ft in
      if \<not> multibyte \<and> prefix ''mb_'' original_name then
        (let (_, ht2, ft2) = hook_one (drop 3 original_name) ht1 new_function ft1 in (r, ht2, ft2))
      else if multibyte then
        (let (_, ht2, ft2) = hook_one (''mb_'' @ original_name) ht1 new_function ft1 in (r, ht2, ft2))
      else (r, ht1, ft1))"

definition hook_regexp ::
  "php \<Rightarrow> bool \<Rightarrow> string \<Rightarrow> hook_table \<Rightarrow> zif_handler \<Rightarrow> function_table \<Rightarrow> hook_table \<times> function_table" where
  "hook_regexp E multibyte regexp ht new_function ft =
     fold (\<lambda>key (ht, ft).
         if sp_is_regexp_matching_len E regexp key
         then snd (hook_function multibyte (c_str key) ht new_function ft) else (ht, ft))
       (map fst ft) (ht, ft)"

definition unhook_one :: "string \<times> zif_handler \<Rightarrow> function_table \<Rightarrow> function_table" where
  "unhook_one e ft =
     (case zh_find ft (fst e) of
        Some (ty, handler) \<Rightarrow> if ty = ZEND_INTERNAL_FUNCTION then zh_update ft (fst e) (ty, snd e) else ft
      | None \<Rightarrow> ft)"

text \<open>The saved handlers are put back, the last one saved first.\<close>

definition unhook_functions :: "hook_table \<Rightarrow> function_table \<Rightarrow> function_table" where
  "unhook_functions ht ft = fold unhook_one (rev ht) ft"

section \<open>The eval whitelist\<close>

definition check_is_in_eval_whitelist :: "sp_globals \<Rightarrow> string \<Rightarrow> bool" where
  "check_is_in_eval_whitelist g fname \<longleftrightarrow> list_ex (\<lambda>w. w = fname) (ev_whitelist (cfg_eval g))"

section \<open>How reports end\<close>

lemma snd_sp_log_request_cases:
  "(\<exists>i. snd (sp_log_request E g stack folder t) = Done i) \<or> snd (sp_log_request E g stack folder t) = Crash"
proof (cases "dump_globals E dump_zones")
  case (CVal a)
  then show ?thesis by (simp add: sp_log_request_def Let_def eff_simps)
next
  case CFault
  then show ?thesis by (simp add: sp_log_request_def Let_def eff_simps)
qed

lemma snd_dump_of_cases: "snd (dump_of E g stack d t) = Done () \<or> snd (dump_of E g stack d t) = Crash"
  using snd_sp_log_request_cases [of E g stack "the d" "the t"]
  by (auto simp: dump_of_def eff_simps split: option.split)

text \<open>A dump that does not crash leaves the end to the log line.\<close>

lemma snd_sp_log_disable:
  "snd (sp_log_disable E g stack path a v cfg) \<noteq> Crash \<Longrightarrow>
   snd (sp_log_disable E g stack path a v cfg) = (if df_simulation cfg then Done () else Bailout)"
  using snd_dump_of_cases [of E g stack "df_dump cfg" "df_textual_representation cfg"]
  by (auto simp: sp_log_disable_def snd_eseq)

lemma snd_sp_log_disable_no_dump:
  "df_dump cfg = None \<Longrightarrow>
   snd (sp_log_disable E g stack path a v cfg) = (if df_simulation cfg then Done () else Bailout)"
  by (simp add: sp_log_disable_def dump_of_def snd_eseq)

lemma snd_sp_log_disable_ret:
  "snd (sp_log_disable_ret E g stack path v cfg) \<noteq> Crash \<Longrightarrow>
   snd (sp_log_disable_ret E g stack path v cfg) = (if df_simulation cfg then Done () else Bailout)"
  using snd_dump_of_cases [of E g stack "df_dump cfg" "df_textual_representation cfg"]
  by (auto simp: sp_log_disable_ret_def snd_eseq)

section \<open>Restoring handlers\<close>

lemma zh_update_twice: "zh_update (zh_update ht k v) k w = zh_update ht k w"
  by (induction ht k v rule: zh_update.induct) auto

lemma zh_update_same: "zh_find ht k = Some v \<Longrightarrow> zh_update ht k v = ht"
  by (induction ht) auto

lemma unhook_one_update:
  "zh_find ft k = Some (ZEND_INTERNAL_FUNCTION, old) \<Longrightarrow>
   unhook_one (k, old) (zh_update ft k (ZEND_INTERNAL_FUNCTION, new)) = ft"
  by (simp add: unhook_one_def zh_find_update zh_update_twice zh_update_same)

lemma unhook_functions_snoc: "unhook_functions (ht @ [e]) ft = unhook_functions ht (unhook_one e ft)"
  by (simp add: unhook_functions_def)

definition same_restored :: "hook_table \<times> function_table \<Rightarrow> hook_table \<times> function_table \<Rightarrow> bool" where
  "same_restored s s' \<longleftrightarrow> unhook_functions (fst s') (snd s') = unhook_functions (fst s) (snd s)"

lemma same_restored_refl [simp]: "same_restored s s"
  by (simp add: same_restored_def)

lemma same_restored_trans: "same_restored s t \<Longrightarrow> same_restored t u \<Longrightarrow> same_restored s u"
  by (simp add: same_restored_def)

lemma hook_one_restored: "same_restored (ht, ft) (snd (hook_one n ht new ft))"
  by (auto simp: same_restored_def hook_one_def unhook_functions_snoc unhook_one_update split: option.splits)

lemma hook_one_restored': "hook_one n ht new ft = (r, ht', ft') \<Longrightarrow> same_restored (ht, ft) (ht', ft')"
  using hook_one_restored [of ht ft n new] by simp

lemma hook_function_restored: "same_restored (ht, ft) (snd (hook_function mb n ht new ft))"
proof -
  obtain r ht1 ft1 where 1: "hook_one n ht new ft = (r, ht1, ft1)" by (metis surj_pair)
  obtain r2 ht2 ft2 where 2: "hook_one (drop 3 n) ht1 new ft1 = (r2, ht2, ft2)" by (metis surj_pair)
  obtain r3 ht3 ft3 where 3: "hook_one (''mb_'' @ n) ht1 new ft1 = (r3, ht3, ft3)" by (metis surj_pair)
  note r1 = hook_one_restored' [OF 1]
  note r2 = same_restored_trans [OF r1 hook_one_restored' [OF 2]]
  note r3 = same_restored_trans [OF r1 hook_one_restored' [OF 3]]
  show ?thesis using r1 r2 r3 2 3 by (simp add: hook_function_def 1)
qed

lemma fold_restored:
  assumes "\<And>x s. same_restored s (f x s)"
  shows "same_restored s (fold f xs s)"
proof (induction xs arbitrary: s)
  case (Cons x xs)
  show ?case using same_restored_trans [OF assms Cons] by simp
qed simp

lemma hook_regexp_restored: "same_restored (ht, ft) (hook_regexp E mb re ht new ft)"
  unfolding hook_regexp_def by (rule fold_restored) (auto simp: hook_function_restored split: prod.split)

lemma hook_one_installs:
  "hook_one n ht new ft = (r, ht', ft') \<Longrightarrow>
   (r \<longrightarrow> zh_find ft' n = Some (ZEND_INTERNAL_FUNCTION, new)) \<and> (\<not> r \<longrightarrow> ft' = ft \<and> ht' = ht) \<and>
   (\<forall>m. zh_find ft m = Some (ZEND_INTERNAL_FUNCTION, new) \<longrightarrow> zh_find ft' m = Some (ZEND_INTERNAL_FUNCTION, new))"
  by (auto simp: hook_one_def zh_find_update split: option.splits if_splits)

section \<open>Arrays as their leaves\<close>

text \<open>The values a rule is compared with: nested arrays are searched, all other values are not.\<close>

fun array_leaves :: "(hkey \<times> zval) list \<Rightarrow> zval list" where
  "array_leaves [] = []"
| "array_leaves ((k, IS_ARRAY a) # arr) = array_leaves a @ array_leaves arr"
| "array_leaves ((k, v) # arr) = v # array_leaves arr"

lemma sp_match_array_value_leaves:
  "sp_match_array_value E a tm rx \<longleftrightarrow>
   (\<exists>v\<in>set (array_leaves a). sp_match_value E (sp_zval_to_zend_string E v) tm rx)"
  by (induction E a tm rx rule: sp_match_array_value.induct) auto

section \<open>Dumps and integer keys\<close>

lemma dump_variables_fault: "dump_variables E vars = CFault \<longleftrightarrow> (\<exists>i v. (HIdx i, v) \<in> set vars)"
proof (induction E vars rule: dump_variables.induct)
  case (2 E k v vars)
  then show ?case by (cases "dump_variables E vars") auto
qed auto

definition has_int_key :: "php \<Rightarrow> string \<Rightarrow> bool" where
  "has_int_key E z \<longleftrightarrow> (\<exists>ht i v. e_http_globals E z = Some ht \<and> (HIdx i, v) \<in> set ht)"

lemma dump_globals_fault: "dump_globals E zs = CFault \<longleftrightarrow> (\<exists>z\<in>set zs. has_int_key E z)"
proof (induction zs)
  case (Cons z zs)
  show ?case
  proof (cases "e_http_globals E z")
    case None
    then show ?thesis using Cons by (simp add: has_int_key_def)
  next
    case (Some ht)
    then have z: "has_int_key E z \<longleftrightarrow> dump_variables E ht = CFault"
      by (simp add: has_int_key_def dump_variables_fault)
    have "dump_globals E (z # zs) = CFault \<longleftrightarrow> dump_variables E ht = CFault \<or> dump_globals E zs = CFault"
      using Some by (cases "dump_variables E ht"; cases "dump_globals E zs") simp_all
    then show ?thesis using Cons z by simp
  qed
qed simp

section \<open>Properties\<close>

text \<open>
  C36. Hooks are undone: whatever native functions were hooked, in whatever order and under
  whatever new handlers, by name or by regular expression, \<open>unhook_functions\<close> on the saved
  handlers gives back the engine's function table.
\<close>

theorem hook_unhook_roundtrip:
  "(let (ht', ft') = fold (\<lambda>(n, new) (ht, ft). snd (hook_function mb n ht new ft)) calls ([], ft)
    in unhook_functions ht' ft' = ft) \<and>
   (let (ht', ft') = hook_regexp E mb re [] new ft in unhook_functions ht' ft' = ft)"
proof -
  have "same_restored ([], ft) (fold (\<lambda>(n, new) (ht, ft). snd (hook_function mb n ht new ft)) calls ([], ft))"
    by (rule fold_restored) (auto simp: hook_function_restored split: prod.split)
  moreover have "same_restored ([], ft) (hook_regexp E mb re [] new ft)"
    by (rule hook_regexp_restored)
  ultimately show ?thesis
    by (auto simp: same_restored_def unhook_functions_def split: prod.splits)
qed

text \<open>
  A successful hook takes effect: when \<open>hook_function\<close> reports success, the engine calls
  the new handler for the name; when it fails for a name without the \<open>mb_\<close> variant in play,
  nothing changed.
\<close>

theorem hook_function_installs:
  assumes "hook_function mb n ht new ft = (r, ht', ft')"
  shows "(r \<longrightarrow> zh_find ft' n = Some (ZEND_INTERNAL_FUNCTION, new)) \<and>
    (\<not> r \<and> \<not> mb \<and> \<not> prefix ''mb_'' n \<longrightarrow> ht' = ht \<and> ft' = ft)"
proof -
  obtain r1 ht1 ft1 where 1: "hook_one n ht new ft = (r1, ht1, ft1)" by (metis surj_pair)
  obtain r2 ht2 ft2 where 2: "hook_one (drop 3 n) ht1 new ft1 = (r2, ht2, ft2)" by (metis surj_pair)
  obtain r3 ht3 ft3 where 3: "hook_one (''mb_'' @ n) ht1 new ft1 = (r3, ht3, ft3)" by (metis surj_pair)
  show ?thesis
    using assms hook_one_installs [OF 1] hook_one_installs [OF 2] hook_one_installs [OF 3] 2 3
    by (auto simp: hook_function_def 1 split: if_splits)
qed

theorem hook_function_installs_witness:
  "zh_find (snd (snd (hook_function False ''exec'' [] (Zif_Sp ''f'') [(''exec'', ZEND_INTERNAL_FUNCTION, Zif_Engine ''exec'')]))) ''exec'' =
     Some (ZEND_INTERNAL_FUNCTION, Zif_Sp ''f'')"
proof -
  have "hook_function False ''exec'' [] (Zif_Sp ''f'') [(''exec'', ZEND_INTERNAL_FUNCTION, Zif_Engine ''exec'')] =
    (True, [(''exec'', Zif_Engine ''exec'')], [(''exec'', ZEND_INTERNAL_FUNCTION, Zif_Sp ''f'')])"
    by code_simp
  from hook_function_installs [OF this] show ?thesis
    by (simp add: hook_function_def hook_one_def)
qed

text \<open>
  A rule on an array value looks at every leaf: \<open>sp_match_array_value\<close> holds exactly when
  some value that is not an array, at whatever depth, matches.
\<close>

theorem sp_match_array_value_spec:
  "sp_match_array_value E a to_match rx \<longleftrightarrow>
   (\<exists>v\<in>set (array_leaves a). sp_match_value E (sp_zval_to_zend_string E v) to_match rx)"
  by (rule sp_match_array_value_leaves)

text \<open>A dump that is asked for can be written: the rule has its text, and no request variable has an integer key.\<close>

definition dumpable :: "php \<Rightarrow> string option \<Rightarrow> string option \<Rightarrow> bool" where
  "dumpable E dump text_repr \<longleftrightarrow> dump = None \<or> text_repr \<noteq> None \<and> \<not> (\<exists>z\<in>set dump_zones. has_int_key E z)"

lemma snd_dump_of: "dumpable E dump text_repr \<Longrightarrow> snd (dump_of E g stack dump text_repr) = Done ()"
  using dump_globals_fault [of E dump_zones]
  by (cases "dump_globals E dump_zones")
    (auto simp: dumpable_def dump_of_def sp_log_request_def Let_def snd_ebind snd_eseq split: option.split)

lemma snd_sp_log_disable_dumpable:
  "dumpable E (df_dump cfg) (df_textual_representation cfg) \<Longrightarrow>
   snd (sp_log_disable E g stack path a v cfg) = (if df_simulation cfg then Done () else Bailout)"
  by (simp add: sp_log_disable_def snd_dump_of snd_eseq)

text \<open>
  Dumping a request reads through NULL for integer keys: when the folder and the file can be
  written, \<open>sp_log_request\<close> succeeds and writes one dump exactly when no request variable has an
  integer key, as \<open>?0=x\<close> gives it, and faults otherwise.
\<close>

theorem sp_log_request_int_key:
  assumes "e_mkdir E (c_str folder)" "length (dump_path E stack folder t) < PATH_MAX"
    "e_open_dump E (dump_path E stack folder t)"
  shows "snd (sp_log_request E g stack folder t) =
    (if \<exists>z\<in>set dump_zones. has_int_key E z then Crash else Done 0)"
  using assms dump_globals_fault [of E dump_zones]
  by (cases "dump_globals E dump_zones")
    (auto simp: sp_log_request_def Let_def snd_ebind snd_eseq)

definition sample_php :: php where
  "sample_php =
     \<lparr>e_executed_filename = ''/var/www/a.php'', e_executed_lineno = 3, e_sapi_getenv = (\<lambda>v. None),
      e_getenv = (\<lambda>v. Some ''127.0.0.1''), e_can_open = (\<lambda>p. True), e_fatal_bails = True,
      e_asserts = True, e_inet = sample_inet, e_rx = (\<lambda>p s. p = s), e_rx_valid = (\<lambda>p. True), e_format_double = (\<lambda>d. ''0.0''),
      e_raw_url_encode = (\<lambda>s. s), e_sha256 = (\<lambda>s. replicate 32 (CHR ''x'')), e_read_file = (\<lambda>f. Some f),
      e_file_exists = (\<lambda>f. True), e_mkdir = (\<lambda>d. True), e_open_dump = (\<lambda>f. True), e_var_export = (\<lambda>v. ''v''),
      e_frame_lineno = (\<lambda>fs. length fs),
      e_http_globals = (\<lambda>z. if z = ''GET'' then Some [(HIdx 0, IS_STRING ''x'')] else None),
      e_constant = (\<lambda>n. None), e_class_constants = (\<lambda>c. None), e_strerror = ''No such file or directory'', e_pcre_error = (\<lambda>p. ''error'')\<rparr>"

theorem sp_log_request_int_key_witness:
  "\<forall>g. snd (sp_log_request sample_php g [] ''/tmp'' ''rule'') = Crash"
proof
  fix g
  have "length (dump_path sample_php [] ''/tmp'' ''rule'') < PATH_MAX" by code_simp
  moreover have "has_int_key sample_php ''GET''" by (simp add: has_int_key_def sample_php_def)
  ultimately show "snd (sp_log_request sample_php g [] ''/tmp'' ''rule'') = Crash"
    by (subst sp_log_request_int_key) (auto simp: sample_php_def dump_zones_def)
qed

end
