(* ===== verification/Var_Value.thy ===== *)
theory Var_Value
  imports Sp_Utils
begin

text \<open>
  Looking up the variable a rule names, in a stack of call frames: \<open>src/sp_var_value.c\<close>. The
  walk follows the tree the parser of \<open>Var_Parser\<close> built; the current value is an optional
  zval, the current class its table of constants. Reads behind the slots of a frame or the
  declared arguments of a function are crashes.
\<close>

section \<open>Names\<close>

text \<open>The loop of \<open>get_param_var\<close> over the declared arguments, from \<open>i\<close>, \<open>n\<close> of them left.\<close>

fun param_loop ::
  "log_env \<Rightarrow> zend_execute_data \<Rightarrow> zend_function \<Rightarrow> string \<Rightarrow> bool \<Rightarrow> nat \<Rightarrow> nat \<Rightarrow> zval option eff" where
  "param_loop L ed f var_name print 0 i = ret None"
| "param_loop L ed f var_name print (Suc n) i =
     ebind (lift_cres (arg_info_at f i)) (\<lambda>(arg_name, variadic).
       if c_str arg_name = var_name then ebind (lift_cres (ZEND_CALL_VAR_NUM ed i)) (\<lambda>z. ret (Some z))
       else eseq (if print then sp_log_warn L ''config'' (''  - '' @ show_nat i @ '' parameter's name: '' @ quoted (c_str arg_name)) else ret ())
              (param_loop L ed f var_name print n (i + 1)))"

definition get_param_var :: "log_env \<Rightarrow> zend_execute_data \<Rightarrow> string \<Rightarrow> bool \<Rightarrow> zval option eff" where
  "get_param_var L ed var_name print =
     (case ex_func ed of
        None \<Rightarrow> crash
      | Some f \<Rightarrow> param_loop L ed f var_name print (num_args f) 0)"

text \<open>\<open>get_local_var\<close>: the innermost frame that has the variable; an \<open>IS_INDIRECT\<close> entry is followed once.\<close>

fun get_local_var :: "zend_execute_data list \<Rightarrow> string \<Rightarrow> zval option" where
  "get_local_var [] var_name = None"
| "get_local_var (ed # stack) var_name =
     (case ex_symtable ed of
        None \<Rightarrow> None
      | Some symtable \<Rightarrow>
          (case find (\<lambda>(key, value). c_str key = var_name) symtable of
             Some (key, IS_INDIRECT v) \<Rightarrow> Some v
           | Some (key, v) \<Rightarrow> Some v
           | None \<Rightarrow> get_local_var stack var_name))"

definition get_constant :: "php \<Rightarrow> string \<Rightarrow> zval option" where
  "get_constant E value = e_constant E (c_str value)"

definition get_var_value ::
  "php \<Rightarrow> log_env \<Rightarrow> zend_execute_data list \<Rightarrow> string option \<Rightarrow> bool \<Rightarrow> zval option eff" where
  "get_var_value E L stack var_name is_param =
     (case var_name of
        None \<Rightarrow> ret None
      | Some value \<Rightarrow> let v = c_str value in
          if nth_c v 0 \<noteq> VARIABLE_TOKEN then ret (get_constant E v)
          else if is_param then
            (case stack of
               [] \<Rightarrow> crash
             | ed # rest \<Rightarrow>
                 ebind (get_param_var L ed (tl v) False) (\<lambda>zvalue.
                   case zvalue of
                     Some z \<Rightarrow> ret (Some z)
                   | None \<Rightarrow>
                       eseq (sp_log_warn L ''config''
                          (''It seems that you are filtering on a parameter '' @ quoted (tl v) @ '' of the function ''
                             @ quoted (case get_complete_function_path (Some ed) of Some p \<Rightarrow> p | None \<Rightarrow> ''(null)'')
                             @ '', but the parameter does not exists.''))
                        (ebind (get_param_var L ed (tl v) True) (\<lambda>_. ret None))))
          else ret (get_local_var stack (tl v)))"

section \<open>Entries of arrays and objects\<close>

fun deref :: "zval \<Rightarrow> zval" where
  "deref (IS_INDIRECT z) = deref z"
| "deref (IS_PTR z) = deref z"
| "deref z = z"

text \<open>\<open>atol\<close> on a 64-bit \<open>long\<close>.\<close>

definition c_atol :: "string \<Rightarrow> int" where
  "c_atol s = strtoimax_value (c_str s)"

definition get_entry_hashtable :: "(hkey \<times> zval) list \<Rightarrow> string \<Rightarrow> zval option" where
  "get_entry_hashtable ht entry =
     map_option deref
       (case zh_find ht (HStr entry) of
          Some z \<Rightarrow> Some z
        | None \<Rightarrow> zh_find ht (HIdx (c_atol entry)))"

text \<open>\<open>get_array_value\<close>, given the value of the index.\<close>

definition get_array_value :: "php \<Rightarrow> zval option \<Rightarrow> zval option \<Rightarrow> zval option" where
  "get_array_value E zvalue idx_value =
     (case (zvalue, idx_value) of
        (Some (IS_ARRAY a), Some i) \<Rightarrow> get_entry_hashtable a (sp_zval_to_zend_string E i)
      | _ \<Rightarrow> None)"

text \<open>
  \<open>get_object_property\<close>: the property may itself be a variable holding its name; it is
  looked up as a public, a protected and a private one.
\<close>

definition object_entry :: "string \<Rightarrow> (hkey \<times> zval) list \<Rightarrow> string \<Rightarrow> zval option" where
  "object_entry class_name props property =
     (case get_entry_hashtable props property of
        Some z \<Rightarrow> Some z
      | None \<Rightarrow>
          (case get_entry_hashtable props (NUL # CHR ''*'' # NUL # property) of
             Some z \<Rightarrow> Some z
           | None \<Rightarrow> get_entry_hashtable props (NUL # c_str class_name @ NUL # property)))"

definition get_object_property ::
  "php \<Rightarrow> log_env \<Rightarrow> zend_execute_data list \<Rightarrow> zval \<Rightarrow> string option \<Rightarrow> bool \<Rightarrow> zval option eff" where
  "get_object_property E L stack object property is_param =
     (case (object, property) of
        (IS_OBJECT class_name props, Some p) \<Rightarrow>
          ebind (get_var_value E L stack property is_param) (\<lambda>property_val.
            case property_val of
              Some (IS_STRING s) \<Rightarrow> ret (object_entry class_name props (c_str s))
            | Some _ \<Rightarrow> ret None
            | None \<Rightarrow> ret (object_entry class_name props (c_str p)))
      | _ \<Rightarrow> crash)"

definition is_object :: "zval \<Rightarrow> bool" where
  "is_object z = (case z of IS_OBJECT _ _ \<Rightarrow> True | _ \<Rightarrow> False)"

definition class_entry :: "(hkey \<times> zval) list \<Rightarrow> string option \<Rightarrow> zval option eff" where
  "class_entry constants value = (case value of Some v \<Rightarrow> ret (get_entry_hashtable constants (c_str v)) | None \<Rightarrow> crash)"

definition get_unknown_type ::
  "php \<Rightarrow> log_env \<Rightarrow> zend_execute_data list \<Rightarrow> string option \<Rightarrow> zval option \<Rightarrow> (hkey \<times> zval) list option \<Rightarrow>
   elem_type \<Rightarrow> bool \<Rightarrow> zval option eff" where
  "get_unknown_type E L stack value zvalue ce ty is_param =
     (case ce of
        Some constants \<Rightarrow> class_entry constants value
      | None \<Rightarrow>
          (case zvalue of
             Some z \<Rightarrow> if is_object z then get_object_property E L stack z value is_param else ret None
           | None \<Rightarrow>
               (case value of
                  None \<Rightarrow> crash
                | Some v \<Rightarrow>
                    (case (if ty = CONSTANT then get_constant E v else None) of
                       Some z \<Rightarrow> ret (Some z)
                     | None \<Rightarrow> ret (Some (IS_STRING (c_str v)))))))"

section \<open>The walk\<close>

text \<open>
  One node's effect, before its index is applied: the new value and class, or \<open>None\<close> for the
  early \<open>return NULL\<close> of the \<open>OBJECT\<close> case.
\<close>

definition node_step ::
  "php \<Rightarrow> log_env \<Rightarrow> zend_execute_data list \<Rightarrow> elem_type \<Rightarrow> string option \<Rightarrow> bool \<Rightarrow> zval option \<Rightarrow>
   (hkey \<times> zval) list option \<Rightarrow> (zval option \<times> (hkey \<times> zval) list option) option eff" where
  "node_step E L stack ty value is_param zvalue ce =
     (if ty = ARRAY then
        (case ce of
           Some constants \<Rightarrow> ebind (class_entry constants value) (\<lambda>z. ret (Some (z, None)))
         | None \<Rightarrow>
             (case zvalue of
                None \<Rightarrow> ebind (get_var_value E L stack value is_param) (\<lambda>z. ret (Some (z, None)))
              | Some z \<Rightarrow>
                  if is_object z then ebind (get_object_property E L stack z value is_param) (\<lambda>z. ret (Some (z, None)))
                  else ret (Some (Some z, None))))
      else if ty = VAR then
        (case zvalue of
           Some z \<Rightarrow>
             if is_object z then ebind (get_object_property E L stack z value is_param) (\<lambda>z. ret (Some (z, ce)))
             else ebind (get_var_value E L stack value is_param) (\<lambda>z. ret (Some (z, ce)))
         | None \<Rightarrow> ebind (get_var_value E L stack value is_param) (\<lambda>z. ret (Some (z, ce))))
      else if ty = OBJECT then
        (case zvalue of
           None \<Rightarrow> ebind (get_var_value E L stack value is_param) (\<lambda>z. ret (Some (z, ce)))
         | Some z \<Rightarrow>
             if is_object z then
               (case value of
                  None \<Rightarrow> crash
                | Some v \<Rightarrow> if c_str v \<noteq> [] then ebind (get_object_property E L stack z value is_param) (\<lambda>z. ret (Some (z, ce)))
                            else ret (Some (Some z, ce)))
             else ret None)
      else if ty = CLASS then
        (case value of None \<Rightarrow> crash | Some v \<Rightarrow> ret (Some (None, e_class_constants E (c_str v))))
      else ebind (get_unknown_type E L stack value zvalue ce ty is_param) (\<lambda>z. ret (Some (z, None))))"

fun var_walk ::
  "php \<Rightarrow> log_env \<Rightarrow> zend_execute_data list \<Rightarrow> sp_tree \<Rightarrow> bool \<Rightarrow> zval option \<Rightarrow> (hkey \<times> zval) list option \<Rightarrow>
   zval option eff" where
  "var_walk E L stack [] is_param zvalue ce = ret zvalue"
| "var_walk E L stack (Node ty value idx # rest) is_param zvalue ce =
     ebind (node_step E L stack ty value is_param zvalue ce) (\<lambda>r.
       case r of
         None \<Rightarrow> ret None
       | Some (z, ce') \<Rightarrow>
           ebind (if ty = ARRAY
                  then ebind (var_walk E L stack idx False None None) (\<lambda>i. ret (get_array_value E z i))
                  else ret z) (\<lambda>z'.
             if z' = None \<and> ce' = None then ret None
             else var_walk E L stack rest is_param z' ce'))"

definition sp_get_var_value ::
  "php \<Rightarrow> log_env \<Rightarrow> zend_execute_data list \<Rightarrow> sp_tree \<Rightarrow> bool \<Rightarrow> zval option eff" where
  "sp_get_var_value E L stack tree is_param = var_walk E L stack tree is_param None None"

section \<open>No crash on trees of the parser\<close>

definition wf_frame :: "zend_execute_data \<Rightarrow> bool" where
  "wf_frame ed \<longleftrightarrow>
     (case ex_func ed of
        None \<Rightarrow> False
      | Some f \<Rightarrow> num_args f \<le> length (arg_info f) \<and> num_args f \<le> length (ex_slots ed))"

definition wf_stack :: "bool \<Rightarrow> zend_execute_data list \<Rightarrow> bool" where
  "wf_stack is_param stack \<longleftrightarrow> (is_param \<longrightarrow> (\<exists>ed rest. stack = ed # rest \<and> wf_frame ed))"

definition returns :: "'a eff \<Rightarrow> bool" where
  "returns m \<longleftrightarrow> (\<exists>a. snd m = Done a)"

lemma returns_ret [simp]: "returns (ret a)"
  by (simp add: returns_def)

lemma returns_ebind: "returns m \<Longrightarrow> (\<And>a. returns (f a)) \<Longrightarrow> returns (ebind m f)"
  by (auto simp: returns_def snd_ebind)

lemma returns_eseq: "returns m \<Longrightarrow> returns n \<Longrightarrow> returns (eseq m n)"
  by (auto simp: returns_def snd_eseq)

lemma returns_sp_log_warn [simp]: "returns (sp_log_warn L f m)"
  by (simp add: returns_def)

lemma returns_option: "returns a \<Longrightarrow> (\<And>x. returns (f x)) \<Longrightarrow> returns (case y of None \<Rightarrow> a | Some x \<Rightarrow> f x)"
  by (cases y) auto

lemma returns_if: "returns a \<Longrightarrow> returns b \<Longrightarrow> returns (if c then a else b)"
  by simp

lemmas returns_intros = returns_ebind returns_eseq returns_option returns_if returns_ret returns_sp_log_warn

lemma returns_param_loop:
  assumes "i + n \<le> length (arg_info f)" "i + n \<le> length (ex_slots ed)"
  shows "returns (param_loop L ed f v print n i)"
  using assms
proof (induction n arbitrary: i)
  case (Suc n)
  then have "i < length (arg_info f)" "i < length (ex_slots ed)"
    "returns (param_loop L ed f v print n (i + 1))"
    by auto
  then show ?case
    by (auto simp: arg_info_at_def ZEND_CALL_VAR_NUM_def split: prod.split intro!: returns_eseq)
qed simp

lemma returns_get_param_var: "wf_frame ed \<Longrightarrow> returns (get_param_var L ed v print)"
  by (auto simp: wf_frame_def get_param_var_def returns_param_loop split: option.splits)

lemma returns_get_var_value:
  assumes "wf_stack is_param stack"
  shows "returns (get_var_value E L stack value is_param)"
proof (cases "is_param")
  case True
  then obtain ed rest where "stack = ed # rest" "wf_frame ed" using assms by (auto simp: wf_stack_def)
  then show ?thesis
    using returns_get_param_var [of ed L]
    by (auto simp: get_var_value_def Let_def split: option.split intro!: returns_ebind returns_eseq)
next
  case False
  then show ?thesis by (auto simp: get_var_value_def Let_def split: option.split)
qed

lemma returns_get_object_property:
  assumes "wf_stack is_param stack" "is_object z"
  shows "returns (get_object_property E L stack z (Some v) is_param)"
  using assms returns_get_var_value [of is_param stack]
  by (auto simp: get_object_property_def is_object_def split: zval.splits option.splits intro!: returns_ebind)

lemma returns_class_entry [simp]: "returns (class_entry c (Some v))"
  by (simp add: class_entry_def)

lemma returns_get_unknown_type:
  assumes "wf_stack is_param stack"
  shows "returns (get_unknown_type E L stack (Some v) zvalue ce ty is_param)"
  using assms returns_get_object_property [of is_param stack]
  by (auto simp: get_unknown_type_def split: option.split)

lemma returns_node_step:
  assumes "wf_stack is_param stack"
  shows "returns (node_step E L stack ty (Some v) is_param zvalue ce)"
  unfolding node_step_def
  using returns_get_object_property [OF assms] returns_get_var_value [OF assms] returns_get_unknown_type [OF assms]
  by (auto split: option.split intro!: returns_ebind)

lemma returns_var_walk:
  assumes "wf_tree rx tree" "wf_stack is_param stack"
  shows "returns (var_walk E L stack tree is_param zvalue ce)"
  using assms
proof (induction E L stack tree is_param zvalue ce rule: var_walk.induct)
  case (2 E L stack ty vl idx rest is_param zvalue ce)
  from 2(3) obtain v where v: "vl = Some v" and sub: "wf_tree rx idx" "wf_tree rx rest"
    by (auto simp: wf_tree_def split: option.splits)
  show ?case
    unfolding var_walk.simps v
  proof (intro returns_ebind returns_node_step [OF 2(4)], goal_cases)
    case (1 r)
    show ?case
    proof (cases r)
      case (Some p)
      obtain z ce' where p: "p = (z, ce')" by (cases p)
      have idx: "returns (if ty = ARRAY then ebind (var_walk E L stack idx False None None)
          (\<lambda>i. ret (get_array_value E z i)) else ret z)"
        using 2(1) [OF _ sub(1)] by (auto simp: wf_stack_def intro!: returns_ebind)
      show ?thesis
        unfolding Some p option.case prod.case
        by (intro returns_ebind [OF idx]) (use 2(2) [OF _ sub(2) 2(4)] in auto)
    qed simp
  qed
qed simp

lemma param_loop_skip:
  assumes "\<forall>j<k. c_str (fst (arg_info f ! (i + j))) \<noteq> v" "i + k < length (arg_info f)"
    "fst (arg_info f ! (i + k)) = v" "c_str v = v" "i + k < i + n"
  shows "snd (param_loop L ed f v False n i) = snd (ebind (lift_cres (ZEND_CALL_VAR_NUM ed (i + k))) (\<lambda>z. ret (Some z)))"
  using assms
proof (induction k arbitrary: n i)
  case 0
  then obtain m where "n = Suc m" by (cases n) auto
  then show ?case using 0 by (cases "arg_info f ! i") (auto simp: arg_info_at_def)
next
  case (Suc k)
  then obtain m where n: "n = Suc m" by (cases n) auto
  have ne: "c_str (fst (arg_info f ! i)) \<noteq> v" using Suc.prems(1) by auto
  have "\<forall>j<k. c_str (fst (arg_info f ! (Suc i + j))) \<noteq> v"
    using Suc.prems(1) by (metis Suc_less_eq add_Suc add_Suc_right)
  then have "snd (param_loop L ed f v False m (Suc i)) =
      snd (ebind (lift_cres (ZEND_CALL_VAR_NUM ed (Suc i + k))) (\<lambda>z. ret (Some z)))"
    using Suc.prems n by (intro Suc.IH) auto
  then show ?case
    using ne Suc.prems(2) by (cases "arg_info f ! i") (auto simp: n arg_info_at_def)
qed

section \<open>Properties\<close>

text \<open>
  C31. Looking up a parsed variable never faults on a well-formed frame: for every tree
  \<open>sp_parse_var\<close> can return, \<open>sp_get_var_value\<close> reads no missing value, argument name or
  slot, and it ends with a value or NULL.
\<close>

theorem sp_get_var_value_safe:
  assumes "wf_tree rx tree" "wf_stack is_param stack"
  shows "\<exists>z. snd (sp_get_var_value E L stack tree is_param) = Done z"
  using returns_var_walk [OF assms] by (simp add: sp_get_var_value_def returns_def)

definition sample_function :: zend_function where
  "sample_function =
     \<lparr>fn_type = ZEND_INTERNAL_FUNCTION, function_name = Some ''exec'', fn_scope = None, fn_filename = [],
      arg_info = [(''command'', False), (''output'', False)], num_args = 2\<rparr>"

theorem sp_get_var_value_safe_witness:
  "\<exists>z. snd (sp_get_var_value sample_php sample_log_env
      [\<lparr>ex_func = Some sample_function, ex_num_args = 2, ex_slots = [IS_STRING ''ls'', IS_NULL], ex_symtable = None\<rparr>]
      [Node VAR (Some ''$command'') []] True) = Done z"
  by (rule sp_get_var_value_safe [where rx = "\<lambda>p s. True"])
    (simp_all add: wf_tree_def is_var_name_valid_def wf_stack_def wf_frame_def sample_function_def)

text \<open>
  A parameter that was not passed is read behind the frame: when a native function is called
  with fewer arguments than it declares, a rule on a missing one reads a slot the frame does not
  have.
\<close>

theorem missing_argument_faults:
  assumes "ex_func ed = Some f" "k < num_args f" "num_args f \<le> length (arg_info f)"
    "fst (arg_info f ! k) = v" "NUL \<notin> set v" "\<forall>j<k. c_str (fst (arg_info f ! j)) \<noteq> v"
    "length (ex_slots ed) \<le> k"
  shows "snd (sp_get_var_value E L (ed # stack) [Node VAR (Some (VARIABLE_TOKEN # v)) []] True) = Crash"
proof -
  have "snd (get_param_var L ed v False) = Crash"
    using assms param_loop_skip [of k f 0 v "num_args f" L ed]
    by (simp add: get_param_var_def ZEND_CALL_VAR_NUM_def)
  moreover have "c_str (VARIABLE_TOKEN # v) = VARIABLE_TOKEN # v"
    using assms(5) by (simp add: VARIABLE_TOKEN_def)
  ultimately show ?thesis
    by (simp add: sp_get_var_value_def node_step_def get_var_value_def Let_def nth_c_def snd_ebind)
qed

theorem missing_argument_faults_witness:
  "snd (sp_get_var_value sample_php sample_log_env
      [\<lparr>ex_func = Some sample_function, ex_num_args = 1, ex_slots = [IS_STRING ''ls''], ex_symtable = None\<rparr>]
      [Node VAR (Some (VARIABLE_TOKEN # ''output'')) []] True) = Crash"
  by (rule missing_argument_faults [where f = sample_function and k = 1])
    (simp_all add: sample_function_def)

text \<open>
  A missing key reads entry 0: for a rule on an element \<open>$a[k]\<close> of a local array, a key
  without leading digits that the array does not have is looked up as the number \<open>atol\<close> gives,
  so the value the rule is matched against is that of the element 0.
\<close>

theorem missing_key_reads_entry_0:
  assumes "get_local_var stack v = Some (IS_ARRAY a)" "NUL \<notin> set v"
    "e_constant E k = None" "NUL \<notin> set k" "nth_c k 0 \<noteq> VARIABLE_TOKEN"
    "zh_find a (HStr k) = None" "snd (c_sign_digits k) = []"
  shows "sp_get_var_value E L stack [Node ARRAY (Some (VARIABLE_TOKEN # v)) [Node CONSTANT (Some k) []]] False =
    ret (map_option deref (zh_find a (HIdx 0)))"
proof -
  have "c_str (VARIABLE_TOKEN # v) = VARIABLE_TOKEN # v" using assms(2) by (simp add: VARIABLE_TOKEN_def)
  moreover have "c_atol k = 0"
    using assms(4,7) by (cases "c_sign_digits k") (simp add: c_atol_def strtoimax_value_def dec_value_def)
  ultimately show ?thesis
    using assms
    by (simp add: sp_get_var_value_def node_step_def get_var_value_def Let_def nth_c_def get_unknown_type_def
        get_constant_def get_array_value_def get_entry_hashtable_def sp_zval_to_zend_string_def)
qed

theorem missing_key_reads_entry_0_witness:
  "sp_get_var_value sample_php sample_log_env
     [\<lparr>ex_func = None, ex_num_args = 0, ex_slots = [], ex_symtable = Some [(''a'', IS_ARRAY [(HIdx 0, IS_STRING ''x'')])]\<rparr>]
     [Node ARRAY (Some (VARIABLE_TOKEN # ''a'')) [Node CONSTANT (Some ''user'') []]] False =
   ret (map_option deref (zh_find [(HIdx 0, IS_STRING ''x'')] (HIdx 0)))"
  by (rule missing_key_reads_entry_0)
    (simp_all add: sample_php_def nth_c_def VARIABLE_TOKEN_def c_sign_digits_def is_space_def is_digit_def)

end
