(* ===== verification/Disabled_Functions.thy ===== *)
theory Disabled_Functions
  imports Var_Value
begin

text \<open>
  Virtual patching: \<open>src/sp_disabled_functions.c\<close>, and \<open>get_eval_filename\<close> of
  \<open>src/sp_execute.c\<close>. A call is checked against the rules of its name, in order; every filter
  of a rule is one definition, and \<open>rule_hit\<close> composes them in the order of the source. The
  buffer of the file's hash, filled by the first rule that needs it, is threaded through.
\<close>

section \<open>Filters\<close>

text \<open>\<open>is_functions_list_matching\<close>: the chain of callers, from the innermost frame.\<close>

fun is_functions_list_matching :: "zend_execute_data list \<Rightarrow> string list \<Rightarrow> bool" where
  "is_functions_list_matching [] it = False"
| "is_functions_list_matching (current # stack) [] = True"
| "is_functions_list_matching (current # stack) (f # fs) =
     (case get_complete_function_path (Some current) of
        None \<Rightarrow> False
      | Some p \<Rightarrow> is_functions_list_matching stack (if c_str f = p then fs else f # fs))"

definition match_zval :: "php \<Rightarrow> sp_disabled_function \<Rightarrow> zval \<Rightarrow> bool" where
  "match_zval E c z =
     (case z of
        IS_ARRAY a \<Rightarrow>
          if df_key c \<noteq> None \<or> df_r_key c \<noteq> None then sp_match_array_key E a (df_key c) (df_r_key c)
          else sp_match_array_value E a (df_value c) (df_r_value c)
      | _ \<Rightarrow> sp_match_value E (sp_zval_to_zend_string E z) (df_value c) (df_r_value c))"

definition is_local_var_matching ::
  "php \<Rightarrow> log_env \<Rightarrow> zend_execute_data list \<Rightarrow> sp_disabled_function \<Rightarrow> bool eff" where
  "is_local_var_matching E L stack c =
     ebind (sp_get_var_value E L stack (df_var c) False) (\<lambda>var_value.
       ret (case var_value of Some z \<Rightarrow> match_zval E c z | None \<Rightarrow> False))"

text \<open>
  The search of \<open>param_r\<close>: every passed argument's name is compared, the last match gives the
  value, and the name left behind is that of the last argument.
\<close>

fun r_param_loop ::
  "php \<Rightarrow> sp_regexp \<Rightarrow> zend_function \<Rightarrow> zend_execute_data \<Rightarrow> nat \<Rightarrow> nat \<Rightarrow> string option \<times> zval option \<Rightarrow>
   (string option \<times> zval option) cres" where
  "r_param_loop E r f ed 0 i acc = CVal acc"
| "r_param_loop E r f ed (Suc n) i (arg_name, arg_value) =
     cbind (arg_info_at f i) (\<lambda>(name, variadic).
       cbind (if sp_is_regexp_matching E r name then cbind (ZEND_CALL_VAR_NUM ed i) (\<lambda>z. CVal (Some z)) else CVal arg_value)
         (\<lambda>v. r_param_loop E r f ed n (i + 1) (Some name, v)))"

text \<open>Which argument the rule is about: its name for the log, and its value.\<close>

definition find_argument ::
  "php \<Rightarrow> log_env \<Rightarrow> zend_execute_data list \<Rightarrow> zend_execute_data \<Rightarrow> zend_function \<Rightarrow> sp_disabled_function \<Rightarrow>
   (string option \<times> zval option) eff" where
  "find_argument E L stack ed fn c =
     (if df_pos c > -1 then
        ebind (lift_cres (if df_pos c < int (num_args fn) then cbind (arg_info_at fn (nat (df_pos c))) (\<lambda>a. CVal (Some (fst a)))
                          else CVal None)) (\<lambda>name.
        ebind (lift_cres (ZEND_CALL_VAR_NUM ed (nat (df_pos c)))) (\<lambda>z. ret (name, Some z)))
      else (case df_param c of
              Node ty v idx # rest \<Rightarrow> ebind (sp_get_var_value E L stack (df_param c) True) (\<lambda>z. ret (v, z))
            | [] \<Rightarrow>
                (case df_r_param c of
                   Some r \<Rightarrow> lift_cres (r_param_loop E r fn ed (ex_num_args ed) 0 (None, None))
                 | None \<Rightarrow> ret (None, None))))"

text \<open>
  \<open>is_param_matching\<close>: \<open>None\<close> is no match, otherwise the argument's name and value as the
  report gets them.
\<close>

definition is_param_matching ::
  "php \<Rightarrow> log_env \<Rightarrow> zend_execute_data list \<Rightarrow> sp_disabled_function \<Rightarrow> string option \<Rightarrow> string option \<Rightarrow>
   (string option \<times> string option) option eff" where
  "is_param_matching E L stack c builtin_param builtin_param_name =
     (case builtin_param of
        Some bp \<Rightarrow>
          ret (if sp_match_value E bp (df_value c) (df_r_value c) then Some (builtin_param_name, Some bp) else None)
      | None \<Rightarrow>
          (case stack of
             [] \<Rightarrow> ret None
           | ed # _ \<Rightarrow>
               (case ex_func ed of
                  None \<Rightarrow> ret None
                | Some fn \<Rightarrow>
                    let call_num_args = int (ex_num_args ed); fn_num_args = int (num_args fn) in
                    if call_num_args = 0 then ret None
                    else if df_pos c > call_num_args - 1 \<or> df_pos c > fn_num_args then ret None
                    else ebind (find_argument E L stack ed fn c) (\<lambda>(arg_name, arg_value).
                      case arg_value of
                        None \<Rightarrow> ret None
                      | Some z \<Rightarrow>
                          if df_param_type c \<noteq> SP_PHP_TYPE_UNDEF \<and> Some (df_param_type c) \<noteq> z_type z then ret None
                          else if df_param_type c \<noteq> SP_PHP_TYPE_UNDEF \<and> df_key c = None \<and> df_r_key c = None
                               \<and> df_value c = None \<and> df_r_value c = None then ret (Some (arg_name, None))
                          else if match_zval E c z then ret (Some (arg_name, Some (sp_zval_to_zend_string E z)))
                          else ret None))))"

text \<open>\<open>is_file_matching\<close>: the current file, then that of the next frame of PHP code below.\<close>

fun next_user_frame :: "zend_execute_data list \<Rightarrow> zend_function option" where
  "next_user_frame [] = None"
| "next_user_frame (ex # stack) =
     (case ex_func ex of
        Some f \<Rightarrow> if ZEND_USER_CODE (fn_type f) then Some f else next_user_frame stack
      | None \<Rightarrow> next_user_frame stack)"

definition is_file_matching :: "php \<Rightarrow> zend_execute_data list \<Rightarrow> sp_disabled_function \<Rightarrow> string \<Rightarrow> bool" where
  "is_file_matching E stack c current_filename =
     (case df_filename c of
        Some fn \<Rightarrow>
          current_filename = fn \<or>
          (case next_user_frame (tl stack) of Some f \<Rightarrow> fn_filename f = fn | None \<Rightarrow> False)
      | None \<Rightarrow>
          (case df_r_filename c of
             Some r \<Rightarrow>
               sp_is_regexp_matching_zstr E r current_filename \<or>
               (case next_user_frame (tl stack) of Some f \<Rightarrow> sp_is_regexp_matching_zstr E r (fn_filename f) | None \<Rightarrow> False)
           | None \<Rightarrow> False))"

definition check_is_builtin_name :: "sp_disabled_function \<Rightarrow> bool" where
  "check_is_builtin_name c =
     (case (case df_functions_list c of f # _ \<Rightarrow> Some f | [] \<Rightarrow> df_function c) of
        Some name \<Rightarrow> c_str name \<in> {''include'', ''include_once'', ''require'', ''require_once'', ''echo''}
      | None \<Rightarrow> False)"

section \<open>One rule\<close>

definition function_matches :: "php \<Rightarrow> zend_execute_data list \<Rightarrow> string \<Rightarrow> sp_disabled_function \<Rightarrow> bool" where
  "function_matches E stack path c =
     (if df_functions_list c \<noteq> [] then is_functions_list_matching stack (df_functions_list c)
      else (case df_function c of
              Some f \<Rightarrow> c_str f = path
            | None \<Rightarrow> (case df_r_function c of
                         Some r \<Rightarrow> sp_is_regexp_matching E r path
                       | None \<Rightarrow> True)))"

definition SHA256_SIZE :: nat where "SHA256_SIZE = 32"

text \<open>
  The hash filter: the buffer is filled when it is empty, and the first \<open>SHA256_SIZE\<close>
  characters are compared. The result is the verdict and the buffer.
\<close>

definition hash_matches :: "php \<Rightarrow> sp_globals \<Rightarrow> string \<Rightarrow> string option \<Rightarrow> string \<Rightarrow> (bool \<times> string) eff" where
  "hash_matches E g filename h current_file_hash =
     (case h of
        None \<Rightarrow> ret (True, current_file_hash)
      | Some hash \<Rightarrow>
          ebind (if current_file_hash = []
                 then ebind (compute_hash E g filename) (\<lambda>r. ret (case r of Some d \<Rightarrow> d | None \<Rightarrow> current_file_hash))
                 else ret current_file_hash) (\<lambda>buf.
            ret (take SHA256_SIZE buf = take SHA256_SIZE (c_str hash), buf)))"

text \<open>Whether the first declared argument is variadic, which is all the code asks.\<close>

definition arg_is_variadic :: "zend_execute_data list \<Rightarrow> bool eff" where
  "arg_is_variadic stack =
     (case stack of
        ed # _ \<Rightarrow> (case ex_func ed of
                     Some f \<Rightarrow> ebind (lift_cres (arg_info_at f 0)) (\<lambda>a. ret (snd a))
                   | None \<Rightarrow> crash)
      | [] \<Rightarrow> crash)"

definition filters_on_param :: "sp_disabled_function \<Rightarrow> bool" where
  "filters_on_param c \<longleftrightarrow>
     df_param c \<noteq> [] \<or> df_r_param c \<noteq> None \<or> df_pos c \<noteq> -1 \<or>
     ((df_r_value c \<noteq> None \<or> df_value c \<noteq> None) \<and> df_var c = [])"

definition param_hit ::
  "php \<Rightarrow> sp_globals \<Rightarrow> zend_execute_data list \<Rightarrow> string option \<Rightarrow> string option \<Rightarrow> sp_disabled_function \<Rightarrow>
   (string option \<times> string option) option eff" where
  "param_hit E g stack builtin_param builtin_param_name c =
     (let L = sp_env E g in
      if filters_on_param c then
        ebind (if builtin_param = None then arg_is_variadic stack else ret False) (\<lambda>variadic.
          if variadic then
            eseq (sp_log_warn L ''disable_function'' (''Snuffleupagus doesn't support variadic functions yet, sorry. '' @
              ''Check https://github.com/jvoisin/snuffleupagus/issues/164 for details.''))
              (ret (Some (None, None)))
          else is_param_matching E L stack c builtin_param builtin_param_name)
      else ret (Some (None, None)))"

definition when_true :: "bool eff \<Rightarrow> 'a option eff \<Rightarrow> 'a option eff" where
  "when_true m n = ebind m (\<lambda>b. if b then n else ret None)"

definition cidr_matches :: "php \<Rightarrow> sp_globals \<Rightarrow> sp_disabled_function \<Rightarrow> bool eff" where
  "cidr_matches E g c =
     (case df_cidr c of
        None \<Rightarrow> ret True
      | Some cidr \<Rightarrow> let L = sp_env E g in cidr_match (e_inet E) L (client_ip L) cidr)"

text \<open>All filters of a rule, and the buffer after them.\<close>

definition rule_hit ::
  "php \<Rightarrow> sp_globals \<Rightarrow> zend_execute_data list \<Rightarrow> string \<Rightarrow> string option \<Rightarrow> string option \<Rightarrow> string \<Rightarrow>
   sp_disabled_function \<Rightarrow> string \<Rightarrow> ((string option \<times> string option) option \<times> string) eff" where
  "rule_hit E g stack path builtin_param builtin_param_name filename c buf =
     (if \<not> function_matches E stack path c then ret (None, buf)
      else if df_line c \<noteq> 0 \<and> df_line c \<noteq> e_executed_lineno E then ret (None, buf)
      else if (df_filename c \<noteq> None \<or> df_r_filename c \<noteq> None) \<and> \<not> is_file_matching E stack c filename then ret (None, buf)
      else ebind (cidr_matches E g c) (\<lambda>cidr_ok.
        if \<not> cidr_ok then ret (None, buf)
        else ebind (if df_var c \<noteq> [] then is_local_var_matching E (sp_env E g) stack c else ret True) (\<lambda>var_ok.
          if \<not> var_ok then ret (None, buf)
          else ebind (hash_matches E g filename (df_hash c) buf) (\<lambda>(hash_ok, buf').
            if \<not> hash_ok then ret (None, buf')
            else ebind (param_hit E g stack builtin_param builtin_param_name c) (\<lambda>hit. ret (hit, buf'))))))"

section \<open>The list of rules\<close>

text \<open>\<open>should_disable\<close>: an \<open>allow\<close> rule that hits ends the search; any other one is reported.\<close>

fun should_disable ::
  "php \<Rightarrow> sp_globals \<Rightarrow> zend_execute_data list \<Rightarrow> string \<Rightarrow> string option \<Rightarrow> string option \<Rightarrow> string \<Rightarrow>
   sp_disabled_function list \<Rightarrow> string \<Rightarrow> unit eff" where
  "should_disable E g stack path builtin_param builtin_param_name filename [] buf = ret ()"
| "should_disable E g stack path builtin_param builtin_param_name filename (c # cs) buf =
     ebind (rule_hit E g stack path builtin_param builtin_param_name filename c buf) (\<lambda>(hit, buf').
       case hit of
         None \<Rightarrow> should_disable E g stack path builtin_param builtin_param_name filename cs buf'
       | Some (arg_name, arg_value) \<Rightarrow>
           if df_allow c then ret ()
           else eseq (sp_log_disable E g stack
                        (if df_functions_list c \<noteq> [] then (case df_function c of Some f \<Rightarrow> c_str f | None \<Rightarrow> []) else path)
                        arg_name arg_value c)
                  (should_disable E g stack path builtin_param builtin_param_name filename cs buf'))"

text \<open>
  \<open>get_eval_filename\<close>: cut at the second opening parenthesis from the end, so that
  \<open>a.php(1) : eval()'d code\<close> becomes \<open>a.php\<close>.
\<close>

fun eval_filename_loop :: "string \<Rightarrow> nat \<Rightarrow> nat \<Rightarrow> string" where
  "eval_filename_loop s cnt 0 = (if nth_c s 0 = CHR ''('' \<and> cnt = 1 then [] else s)"
| "eval_filename_loop s cnt (Suc i) =
     (if nth_c s (Suc i) = CHR ''('' then
        (if cnt = 1 then take (Suc i) s else eval_filename_loop s (cnt + 1) i)
      else eval_filename_loop s cnt i)"

definition get_eval_filename :: "string \<Rightarrow> string" where
  "get_eval_filename filename = eval_filename_loop filename 0 (length filename)"

definition should_disable_ht ::
  "php \<Rightarrow> sp_globals \<Rightarrow> zend_execute_data list \<Rightarrow> string \<Rightarrow> string option \<Rightarrow> string option \<Rightarrow>
   sp_disabled_function list \<Rightarrow> df_table \<Rightarrow> unit eff" where
  "should_disable_ht E g stack fname builtin_param builtin_param_name config ht =
     (if stack = [] then ret ()
      else
        let ht_entry = zh_find ht (HStr fname);
            filename = (if builtin_param \<noteq> None \<and> fname = ''eval'' then get_eval_filename (e_executed_filename E)
                        else e_executed_filename E)
        in case ht_entry of
             Some rules \<Rightarrow> should_disable E g stack fname builtin_param builtin_param_name filename rules []
           | None \<Rightarrow> should_disable E g stack fname builtin_param builtin_param_name filename config [])"

section \<open>Return values\<close>

definition ret_hit :: "php \<Rightarrow> zval option \<Rightarrow> sp_disabled_function \<Rightarrow> bool" where
  "ret_hit E return_value c =
     (let ret_type = (case return_value of Some z \<Rightarrow> z_type z | None \<Rightarrow> Some SP_PHP_TYPE_NULL);
          match_type = (df_ret_type c \<noteq> SP_PHP_TYPE_UNDEF \<and> Some (df_ret_type c) = ret_type);
          match_value = (case return_value of
                           Some z \<Rightarrow> (df_ret c \<noteq> None \<or> df_r_ret c \<noteq> None) \<and>
                             sp_match_value E (sp_zval_to_zend_string E z) (df_ret c) (df_r_ret c)
                         | None \<Rightarrow> False)
      in match_type \<or> match_value)"

definition ret_file_matches :: "php \<Rightarrow> sp_disabled_function \<Rightarrow> bool" where
  "ret_file_matches E c =
     (case df_filename c of
        Some f \<Rightarrow> e_executed_filename E = c_str f
      | None \<Rightarrow> (case df_r_filename c of
                   Some r \<Rightarrow> sp_is_regexp_matching E r (e_executed_filename E)
                 | None \<Rightarrow> True))"

fun should_drop_on_ret ::
  "php \<Rightarrow> sp_globals \<Rightarrow> zend_execute_data list \<Rightarrow> string \<Rightarrow> zval option \<Rightarrow> sp_disabled_function list \<Rightarrow> string \<Rightarrow>
   unit eff" where
  "should_drop_on_ret E g stack path return_value [] buf = ret ()"
| "should_drop_on_ret E g stack path return_value (c # cs) buf =
     eseq (c_assert (sp_env E g) (df_function c \<noteq> None \<or> df_r_function c \<noteq> None))
       (if \<not> function_matches E stack path c then should_drop_on_ret E g stack path return_value cs buf
        else if \<not> ret_file_matches E c then should_drop_on_ret E g stack path return_value cs buf
        else ebind (hash_matches E g (e_executed_filename E) (df_hash c) buf) (\<lambda>(hash_ok, buf').
          if \<not> hash_ok then should_drop_on_ret E g stack path return_value cs buf'
          else if ret_hit E return_value c then
            (if df_allow c then ret ()
             else eseq (sp_log_disable_ret E g stack path (map_option (sp_zval_to_zend_string E) return_value) c)
                    (should_drop_on_ret E g stack path return_value cs buf'))
          else should_drop_on_ret E g stack path return_value cs buf'))"

definition should_drop_on_ret_ht ::
  "php \<Rightarrow> sp_globals \<Rightarrow> zend_execute_data list \<Rightarrow> string option \<Rightarrow> zval option \<Rightarrow>
   sp_disabled_function list \<Rightarrow> df_table \<Rightarrow> unit eff" where
  "should_drop_on_ret_ht E g stack fname return_value config ht =
     (case fname of
        None \<Rightarrow> ret ()
      | Some n \<Rightarrow>
          (case zh_find ht (HStr n) of
             Some rules \<Rightarrow> should_drop_on_ret E g stack n return_value rules []
           | None \<Rightarrow> should_drop_on_ret E g stack n return_value config []))"

section \<open>Handlers and hooks\<close>

text \<open>
  \<open>zend_symtable_\<dots>\<close> stores a key that is a canonical decimal number as that number;
  \<open>\<dots>_add_new\<close> appends without looking for the key.
\<close>

definition symtable_key :: "string \<Rightarrow> hkey" where
  "symtable_key s = (if strtoimax_ok s \<and> show_int (strtoimax_value s) = s then HIdx (strtoimax_value s) else HStr s)"

definition check_disabled_function_handler :: zif_handler where
  "check_disabled_function_handler = Zif_Sp ''check_disabled_function''"

definition eval_blacklist_handler :: zif_handler where
  "eval_blacklist_handler = Zif_Sp ''eval_blacklist_callback''"

text \<open>The native function behind a handler is a parameter: \<open>orig\<close> gives its effect and value.\<close>

definition check_disabled_function ::
  "php \<Rightarrow> sp_globals \<Rightarrow> (zif_handler \<Rightarrow> zval option eff) \<Rightarrow> zend_execute_data list \<Rightarrow> string \<Rightarrow> zval option eff" where
  "check_disabled_function E g orig stack current_function_name =
     eseq (should_disable_ht E g stack current_function_name None None
             (cfg_disabled_functions_reg g) (cfg_disabled_functions_hooked g))
       (case zh_find (spg_disabled_functions_hook g) current_function_name of
          None \<Rightarrow> crash
        | Some orig_handler \<Rightarrow>
            ebind (orig orig_handler) (\<lambda>return_value.
              eseq (should_drop_on_ret_ht E g stack (Some current_function_name) return_value
                      (cfg_disabled_functions_reg_ret g) (cfg_disabled_functions_ret_hooked g))
                (ret return_value)))"

definition eval_blacklist_callback ::
  "php \<Rightarrow> sp_globals \<Rightarrow> (zif_handler \<Rightarrow> zval option eff) \<Rightarrow> zend_execute_data list \<Rightarrow> zval option eff" where
  "eval_blacklist_callback E g orig stack =
     (case get_complete_function_path (case stack of [] \<Rightarrow> None | ed # _ \<Rightarrow> Some ed) of
        None \<Rightarrow> ret None
      | Some current_function_name \<Rightarrow>
          eseq (if check_is_in_eval_whitelist g current_function_name then ret ()
                else if spg_in_eval g > 0 then
                  eseq (dump_of E g stack (ev_dump (cfg_eval g)) (ev_textual_representation (cfg_eval g)))
                    (if ev_simulation (cfg_eval g)
                     then sp_log_simulation (sp_env E g) ''eval''
                            (''A call to '' @ quoted current_function_name @ '' was tried in eval. logging it.'')
                     else sp_log_drop (sp_env E g) ''eval''
                            (''A call to '' @ quoted current_function_name @ '' was tried in eval. dropping it.''))
                else ret ())
            (case zh_find (spg_sp_eval_blacklist_functions_hook g) current_function_name of
               None \<Rightarrow> crash
             | Some orig_handler \<Rightarrow> orig orig_handler))"

text \<open>\<open>hook_echo\<close>: the rules of \<open>echo\<close>, then the engine's writer.\<close>

definition hook_echo :: "php \<Rightarrow> sp_globals \<Rightarrow> zend_execute_data list \<Rightarrow> string \<Rightarrow> unit eff" where
  "hook_echo E g stack str =
     eseq (should_disable_ht E g stack ''echo'' (Some str) None
             (cfg_disabled_functions_reg g) (cfg_disabled_functions_hooked g))
       (emit (Ev_Call ''zend_write_default'' [str]))"

fun key_text :: "hkey \<Rightarrow> string" where
  "key_text (HStr s) = s"
| "key_text (HIdx i) = show_int i"

text \<open>
  \<open>hook_functions\<close>: the rules of every function that could be hooked, or that is a language
  construct with a hook of its own, move to the table of hooked functions.
\<close>

definition hook_functions_step ::
  "bool \<Rightarrow> hkey \<times> sp_disabled_function list \<Rightarrow> df_table \<times> df_table \<times> hook_table \<times> function_table \<Rightarrow>
   df_table \<times> df_table \<times> hook_table \<times> function_table" where
  "hook_functions_step mb e st =
     (let (to_hook, hooked_ht, ht, ft) = st;
          (hooked, ht', ft') = hook_function mb (c_str (key_text (fst e))) ht check_disabled_function_handler ft;
          is_builtin = (case snd e of c # _ \<Rightarrow> check_is_builtin_name c | [] \<Rightarrow> False)
      in if hooked \<or> is_builtin
         then (zh_del to_hook (fst e), hooked_ht @ [(symtable_key (key_text (fst e)), snd e)], ht', ft')
         else (to_hook, hooked_ht, ht', ft'))"

definition hook_functions ::
  "bool \<Rightarrow> df_table \<Rightarrow> df_table \<Rightarrow> hook_table \<Rightarrow> function_table \<Rightarrow> df_table \<times> df_table \<times> hook_table \<times> function_table" where
  "hook_functions mb to_hook hooked_ht ht ft = fold (hook_functions_step mb) to_hook (to_hook, hooked_ht, ht, ft)"

fun hook_functions_regexp ::
  "php \<Rightarrow> log_env \<Rightarrow> bool \<Rightarrow> sp_disabled_function list \<Rightarrow> hook_table \<times> function_table \<Rightarrow> (hook_table \<times> function_table) eff" where
  "hook_functions_regexp E L mb [] st = ret st"
| "hook_functions_regexp E L mb (c # cs) (ht, ft) =
     eseq (c_assert L (df_function c \<noteq> None \<or> df_r_function c \<noteq> None))
       (case df_function c of
          Some f \<Rightarrow> hook_functions_regexp E L mb cs (snd (hook_function mb (c_str f) ht check_disabled_function_handler ft))
        | None \<Rightarrow>
            (case df_r_function c of
               Some r \<Rightarrow> hook_functions_regexp E L mb cs
                           (hook_regexp E mb (c_str (rx_pattern r)) ht check_disabled_function_handler ft)
             | None \<Rightarrow> crash))"

definition hook_disabled_functions ::
  "php \<Rightarrow> bool \<Rightarrow> sp_globals \<Rightarrow> function_table \<Rightarrow> (sp_globals \<times> function_table) eff" where
  "hook_disabled_functions E mb g ft =
     (let (to1, hooked1, ht1, ft1) = hook_functions mb (cfg_disabled_functions g) (cfg_disabled_functions_hooked g)
                                       (spg_disabled_functions_hook g) ft;
          (to2, hooked2, ht2, ft2) = hook_functions mb (cfg_disabled_functions_ret g) (cfg_disabled_functions_ret_hooked g) ht1 ft1
      in ebind (hook_functions_regexp E (sp_env E g) mb (cfg_disabled_functions_reg g) (ht2, ft2)) (\<lambda>st3.
         ebind (hook_functions_regexp E (sp_env E g) mb (cfg_disabled_functions_reg_ret g) st3) (\<lambda>(ht4, ft4).
           let (eht, ft5) = fold (\<lambda>f (eht, ft). snd (hook_function mb (c_str f) eht eval_blacklist_handler ft))
                              (ev_blacklist (cfg_eval g)) (spg_sp_eval_blacklist_functions_hook g, ft4)
           in ret (g\<lparr>cfg_disabled_functions := to1, cfg_disabled_functions_hooked := hooked1,
                     cfg_disabled_functions_ret := to2, cfg_disabled_functions_ret_hooked := hooked2,
                     spg_disabled_functions_hook := ht4, spg_sp_eval_blacklist_functions_hook := eht\<rparr>, ft5))))"

section \<open>The verdict of a list of rules\<close>

text \<open>
  What the loop makes of the rules that hit: \<open>hit\<close> says which do; the result is whether the call is
  dropped. An \<open>allow\<close> rule ends the evaluation in simulation too.
\<close>

fun dropped :: "(sp_disabled_function \<Rightarrow> bool) \<Rightarrow> sp_disabled_function list \<Rightarrow> bool" where
  "dropped hit [] = False"
| "dropped hit (c # cs) =
     (if hit c then (if df_allow c then False else if df_simulation c then dropped hit cs else True)
      else dropped hit cs)"

text \<open>
  The documented policy: of the rules that are not in simulation the first one that hits decides.
\<close>

definition policy_drops :: "(sp_disabled_function \<Rightarrow> bool) \<Rightarrow> sp_disabled_function list \<Rightarrow> bool" where
  "policy_drops hit cs \<longleftrightarrow>
     (case find (\<lambda>c. \<not> df_simulation c \<and> hit c) cs of Some c \<Rightarrow> \<not> df_allow c | None \<Rightarrow> False)"

text \<open>It is what the loop does, unless an \<open>allow\<close> rule is in simulation.\<close>

lemma dropped_policy:
  assumes "\<forall>c\<in>set cs. \<not> (df_allow c \<and> df_simulation c)"
  shows "dropped hit cs \<longleftrightarrow> policy_drops hit cs"
  using assms by (induction cs) (auto simp: policy_drops_def)

definition rule_hits ::
  "php \<Rightarrow> sp_globals \<Rightarrow> zend_execute_data list \<Rightarrow> string \<Rightarrow> string option \<Rightarrow> string option \<Rightarrow> string \<Rightarrow>
   sp_disabled_function \<Rightarrow> bool" where
  "rule_hits E g stack path bp bpn fname c \<longleftrightarrow>
     (case snd (rule_hit E g stack path bp bpn fname c []) of Done (Some h, b) \<Rightarrow> True | _ \<Rightarrow> False)"

text \<open>
  The filters of a rule give a verdict, the file whose hash it asks for can be read, and so can the
  request be dumped if it asks for that.
\<close>

definition rule_decided ::
  "php \<Rightarrow> sp_globals \<Rightarrow> zend_execute_data list \<Rightarrow> string \<Rightarrow> string option \<Rightarrow> string option \<Rightarrow> string \<Rightarrow>
   sp_disabled_function \<Rightarrow> bool" where
  "rule_decided E g stack path bp bpn fname c \<longleftrightarrow>
     dumpable E (df_dump c) (df_textual_representation c) \<and> (df_hash c \<noteq> None \<longrightarrow> e_read_file E fname \<noteq> None) \<and>
     (\<exists>r. snd (rule_hit E g stack path bp bpn fname c []) = Done r)"

definition file_digest :: "php \<Rightarrow> string \<Rightarrow> string" where
  "file_digest E fname = make_digest_ex (e_sha256 E (the (e_read_file E fname)))"

definition buf_ok :: "php \<Rightarrow> string \<Rightarrow> string \<Rightarrow> bool" where
  "buf_ok E fname b \<longleftrightarrow> b = [] \<or> b = file_digest E fname"

definition hash_ok :: "php \<Rightarrow> string \<Rightarrow> string option \<Rightarrow> bool" where
  "hash_ok E fname h = (case h of None \<Rightarrow> True | Some x \<Rightarrow> take SHA256_SIZE (file_digest E fname) = take SHA256_SIZE (c_str x))"

lemma hash_matches_readable:
  assumes "h \<noteq> None \<longrightarrow> e_read_file E fname \<noteq> None" "buf_ok E fname b"
  shows "hash_matches E g fname h b = ret (hash_ok E fname h, if h = None then b else file_digest E fname)"
  using assms
  by (auto simp: hash_matches_def compute_hash_def hash_ok_def buf_ok_def file_digest_def split: option.splits)

lemma buf_ok_simps [simp]: "buf_ok E fname []" "buf_ok E fname (file_digest E fname)"
  by (simp_all add: buf_ok_def)

text \<open>Once the file can be read, what the buffer holds does not matter.\<close>

lemma filters_buffer:
  assumes "snd (ebind C (\<lambda>ok. if \<not> ok then ret (None, b1) else ebind V (\<lambda>v. if \<not> v then ret (None, b1)
      else ebind (ret (hk, d1)) (\<lambda>(hk', b'). if \<not> hk' then ret (None, b') else ebind P (\<lambda>hit. ret (hit, b')))))) =
    Done (h, b0)"
  shows "\<exists>b'. b' \<in> {b2, d2} \<and>
    snd (ebind C (\<lambda>ok. if \<not> ok then ret (None, b2) else ebind V (\<lambda>v. if \<not> v then ret (None, b2)
      else ebind (ret (hk, d2)) (\<lambda>(hk', b'). if \<not> hk' then ret (None, b') else ebind P (\<lambda>hit. ret (hit, b')))))) =
    Done (h, b')"
  using assms by (cases "snd C"; cases "snd V"; cases "snd P") (simp_all add: snd_ebind split: if_splits)

lemma rule_hit_buffer:
  assumes "df_hash c \<noteq> None \<longrightarrow> e_read_file E fname \<noteq> None" "buf_ok E fname b"
    "snd (rule_hit E g stack path bp bpn fname c []) = Done (h, b0)"
  shows "\<exists>b'. buf_ok E fname b' \<and> snd (rule_hit E g stack path bp bpn fname c b) = Done (h, b')"
proof (cases "\<not> function_matches E stack path c \<or> df_line c \<noteq> 0 \<and> df_line c \<noteq> e_executed_lineno E \<or>
    (df_filename c \<noteq> None \<or> df_r_filename c \<noteq> None) \<and> \<not> is_file_matching E stack c fname")
  case True
  then have "rule_hit E g stack path bp bpn fname c x = ret (None, x)" for x
    unfolding rule_hit_def by auto
  then show ?thesis using assms(2,3) by simp
next
  case False
  let ?d = "\<lambda>b. if df_hash c = None then b else file_digest E fname"
  have eq: "rule_hit E g stack path bp bpn fname c x =
      ebind (cidr_matches E g c) (\<lambda>ok. if \<not> ok then ret (None, x)
        else ebind (if df_var c \<noteq> [] then is_local_var_matching E (sp_env E g) stack c else ret True) (\<lambda>v.
          if \<not> v then ret (None, x)
          else ebind (ret (hash_ok E fname (df_hash c), ?d x)) (\<lambda>(hk, b'). if \<not> hk then ret (None, b')
            else ebind (param_hit E g stack bp bpn c) (\<lambda>hit. ret (hit, b')))))"
    if "buf_ok E fname x" for x
    unfolding rule_hit_def hash_matches_readable [OF assms(1) that]
    using False by (simp only: if_False de_Morgan_disj de_Morgan_conj not_not simp_thms) auto
  obtain b' where "b' \<in> {b, ?d b}" "snd (rule_hit E g stack path bp bpn fname c b) = Done (h, b')"
    using filters_buffer [OF assms(3) [unfolded eq [OF buf_ok_simps(1)]], of b "?d b"]
    unfolding eq [OF assms(2), symmetric] by blast
  moreover from this have "buf_ok E fname b'" using assms(2) by (auto split: if_splits)
  ultimately show ?thesis by blast
qed

lemma should_disable_verdict_aux:
  assumes "\<forall>c\<in>set cs. rule_decided E g stack path bp bpn fname c" "buf_ok E fname b"
  shows "snd (should_disable E g stack path bp bpn fname cs b) =
    (if dropped (rule_hits E g stack path bp bpn fname) cs then Bailout else Done ())"
  using assms
proof (induction cs arbitrary: b)
  case (Cons c cs)
  then obtain h b0 where h: "snd (rule_hit E g stack path bp bpn fname c []) = Done (h, b0)"
    and dump: "dumpable E (df_dump c) (df_textual_representation c)" and readable: "df_hash c \<noteq> None \<longrightarrow> e_read_file E fname \<noteq> None"
    by (auto simp: rule_decided_def)
  obtain b' where b': "buf_ok E fname b'" "snd (rule_hit E g stack path bp bpn fname c b) = Done (h, b')"
    using rule_hit_buffer [OF readable Cons.prems(2) h] by blast
  have IH: "snd (should_disable E g stack path bp bpn fname cs b') =
      (if dropped (rule_hits E g stack path bp bpn fname) cs then Bailout else Done ())"
    using Cons b' by auto
  have hit: "rule_hits E g stack path bp bpn fname c \<longleftrightarrow> h \<noteq> None"
    using h by (auto simp: rule_hits_def split: option.splits)
  show ?case
    using b'(2) IH dump hit
    by (cases h) (auto simp: snd_ebind snd_eseq snd_sp_log_disable_dumpable)
qed simp

section \<open>Chains of functions\<close>



section \<open>File names of evaluated code\<close>

lemma eval_loop_skip:
  "\<forall>j. i < j \<and> j \<le> i + k \<longrightarrow> nth_c s j \<noteq> CHR ''('' \<Longrightarrow> eval_filename_loop s cnt (i + k) = eval_filename_loop s cnt i"
  by (induction k) auto

lemma nth_c_append: "nth_c (xs @ ys) (length xs + j) = nth_c ys j"
  by (simp add: nth_c_def nth_append)

lemma nth_c_no_paren: "CHR ''('' \<notin> set w \<Longrightarrow> nth_c w j \<noteq> CHR ''(''"
  by (simp add: nth_c_def) (metis nth_mem)

lemma eval_loop_step: "nth_c s i = CHR ''('' \<Longrightarrow> eval_filename_loop s 0 i = (if i = 0 then s else eval_filename_loop s 1 (i - 1))"
  by (cases i) auto

lemma eval_loop_cut: "nth_c s i = CHR ''('' \<Longrightarrow> eval_filename_loop s 1 i = take i s"
  by (cases i) auto

lemma get_eval_filename_aux:
  assumes "CHR ''('' \<notin> set a" "CHR ''('' \<notin> set b"
  shows "get_eval_filename (f @ ''('' @ a @ ''('' @ b) = f"
proof -
  let ?s = "f @ ''('' @ a @ ''('' @ b"
  let ?i = "length f"
  let ?j = "?i + Suc (length a)"
  have sb: "?s = (f @ ''('' @ a) @ (''('' @ b)" by simp
  have sa: "?s = f @ (''('' @ a @ ''('' @ b)" by simp
  have "eval_filename_loop ?s 0 (?j + Suc (length b)) = eval_filename_loop ?s 0 ?j"
  proof (rule eval_loop_skip, intro allI impI, elim conjE)
    fix j assume "?j < j" "j \<le> ?j + Suc (length b)"
    then obtain m where "j = Suc (?j + m)" using less_imp_Suc_add by blast
    then have m: "j = length (f @ ''('' @ a) + Suc m" by simp
    show "nth_c ?s j \<noteq> CHR ''(''"
      unfolding m sb nth_c_append using nth_c_no_paren [OF assms(2), of m] by (simp add: nth_c_def split: if_splits)
  qed
  moreover have "nth_c ?s ?j = CHR ''(''"
    using nth_c_append [of "f @ ''('' @ a" "''('' @ b" 0] by (simp add: nth_c_def)
  then have "eval_filename_loop ?s 0 ?j = eval_filename_loop ?s 1 (?i + length a)"
    by (simp add: eval_loop_step)
  moreover have "eval_filename_loop ?s 1 (?i + length a) = eval_filename_loop ?s 1 ?i"
  proof (rule eval_loop_skip, intro allI impI, elim conjE)
    fix j assume j: "?i < j" "j \<le> ?i + length a"
    then obtain m where "j = Suc (?i + m)" using less_imp_Suc_add by blast
    then have m: "j = length f + Suc m" "m < length a" using j by simp_all
    have "nth_c (''('' @ a @ ''('' @ b) (Suc m) = a ! m" using m(2) by (simp add: nth_c_def nth_append)
    moreover have "a ! m \<noteq> CHR ''(''" using assms(1) m(2) nth_mem by metis
    ultimately show "nth_c ?s j \<noteq> CHR ''(''" unfolding m(1) nth_c_append by simp
  qed
  moreover have "nth_c ?s ?i = CHR ''(''"
    using nth_c_append [of f "''('' @ a @ ''('' @ b" 0] by (simp add: nth_c_def)
  then have "eval_filename_loop ?s 1 ?i = f" by (subst eval_loop_cut) simp_all
  moreover have "length ?s = ?j + Suc (length b)" by simp
  ultimately show ?thesis by (simp only: get_eval_filename_def)
qed

section \<open>No rule is lost when functions are hooked\<close>

lemma set_zh_del_other: "(k', v') \<in> set ht \<Longrightarrow> k' \<noteq> k \<Longrightarrow> (k', v') \<in> set (zh_del ht k)"
  by (induction ht k rule: zh_del.induct) auto

lemma zh_wf_same_value: "zh_wf ht \<Longrightarrow> (k, v) \<in> set ht \<Longrightarrow> (k, w) \<in> set ht \<Longrightarrow> v = w"
  unfolding zh_wf_def by (metis eq_key_imp_eq_value)

definition rules_builtin :: "sp_disabled_function list \<Rightarrow> bool" where
  "rules_builtin rules = (case rules of c # _ \<Rightarrow> check_is_builtin_name c | [] \<Rightarrow> False)"

definition hooked_by :: "function_table \<Rightarrow> string \<Rightarrow> bool" where
  "hooked_by ft n \<longleftrightarrow> zh_find ft n = Some (ZEND_INTERNAL_FUNCTION, check_disabled_function_handler)"

lemma hook_function_keeps:
  assumes "hook_function mb n ht new ft = (r, ht', ft')"
  shows "r \<longrightarrow> zh_find ft' n = Some (ZEND_INTERNAL_FUNCTION, new)"
    "zh_find ft m = Some (ZEND_INTERNAL_FUNCTION, new) \<longrightarrow> zh_find ft' m = Some (ZEND_INTERNAL_FUNCTION, new)"
proof -
  obtain r1 ht1 ft1 where 1: "hook_one n ht new ft = (r1, ht1, ft1)" by (metis surj_pair)
  obtain r2 ht2 ft2 where 2: "hook_one (drop 3 n) ht1 new ft1 = (r2, ht2, ft2)" by (metis surj_pair)
  obtain r3 ht3 ft3 where 3: "hook_one (''mb_'' @ n) ht1 new ft1 = (r3, ht3, ft3)" by (metis surj_pair)
  note installs = hook_one_installs [OF 1] hook_one_installs [OF 2] hook_one_installs [OF 3]
  show "r \<longrightarrow> zh_find ft' n = Some (ZEND_INTERNAL_FUNCTION, new)"
    "zh_find ft m = Some (ZEND_INTERNAL_FUNCTION, new) \<longrightarrow> zh_find ft' m = Some (ZEND_INTERNAL_FUNCTION, new)"
    using assms installs 2 3 by (auto simp: hook_function_def 1 split: if_splits)
qed

text \<open>Where the rules of an entry of the original table are, and that they are enforced.\<close>

definition entry_kept ::
  "df_table \<times> df_table \<times> hook_table \<times> function_table \<Rightarrow> hkey \<times> sp_disabled_function list \<Rightarrow> bool" where
  "entry_kept st e =
     (case st of (to, hooked, ht, ft) \<Rightarrow>
        e \<in> set to \<or>
        (symtable_key (key_text (fst e)), snd e) \<in> set hooked \<and>
        (rules_builtin (snd e) \<or> hooked_by ft (c_str (key_text (fst e)))))"

lemma hook_functions_step_keeps:
  assumes "zh_wf ht0" "x \<in> set ht0" "e \<in> set ht0" "entry_kept st e"
  shows "entry_kept (hook_functions_step mb x st) e"
proof -
  obtain to hooked ht ft where st: "st = (to, hooked, ht, ft)" by (metis surj_pair)
  obtain r ht' ft' where h: "hook_function mb (c_str (key_text (fst x))) ht check_disabled_function_handler ft = (r, ht', ft')"
    by (metis surj_pair)
  note keeps = hook_function_keeps [OF h]
  have old: "hooked_by ft m \<Longrightarrow> hooked_by ft' m" for m using keeps(2) by (simp add: hooked_by_def)
  have new: "r \<Longrightarrow> hooked_by ft' (c_str (key_text (fst x)))" using keeps(1) by (simp add: hooked_by_def)
  have same: "e = x" if "fst e = fst x"
    using zh_wf_same_value [OF assms(1)] assms(2,3) that by (metis prod.collapse)
  have del: "e \<in> set (zh_del to (fst x))" if "e \<in> set to" "e \<noteq> x"
    using that same set_zh_del_other [of "fst e" "snd e" to "fst x"] by auto
  show ?thesis
    using assms(4) old new del
    by (cases "e = x") (auto simp: hook_functions_step_def st h Let_def entry_kept_def rules_builtin_def)
qed

lemma hook_functions_fold_keeps:
  assumes "zh_wf ht0" "set xs \<subseteq> set ht0" "e \<in> set ht0" "entry_kept st e"
  shows "entry_kept (fold (hook_functions_step mb) xs st) e"
  using assms(2,4)
proof (induction xs arbitrary: st)
  case (Cons x xs)
  then have "entry_kept (hook_functions_step mb x st) e"
    by (intro hook_functions_step_keeps [OF assms(1) _ assms(3)]) simp_all
  then show ?case using Cons by simp
qed simp

section \<open>Properties\<close>

text \<open>
  C1. The documented policy: when every rule of the list has a verdict (its filters meet no fault or
  error, the file it asks a hash of can be read, the request it dumps has no integer key), and no
  \<open>allow\<close> rule is in simulation, \<open>should_disable\<close> ends the request exactly when, of the rules that are
  not in simulation, the first whose filters all match is a \<open>drop\<close> rule; it returns otherwise. The file
  hash is computed at most once and never changes a verdict.
\<close>

theorem should_disable_first_match:
  assumes "\<forall>c\<in>set cs. rule_decided E g stack path bp bpn fname c" "\<forall>c\<in>set cs. \<not> (df_allow c \<and> df_simulation c)"
  shows "snd (should_disable E g stack path bp bpn fname cs []) =
    (if policy_drops (rule_hits E g stack path bp bpn fname) cs then Bailout else Done ())"
  using should_disable_verdict_aux [OF assms(1) buf_ok_simps(1)] by (simp add: dropped_policy [OF assms(2)])

definition system_function :: zend_function where
  "system_function =
     \<lparr>fn_type = ZEND_INTERNAL_FUNCTION, function_name = Some ''system'', fn_scope = None, fn_filename = [],
      arg_info = [(''cmd'', False)], num_args = 1\<rparr>"

definition system_call :: "string \<Rightarrow> zend_execute_data" where
  "system_call cmd =
     \<lparr>ex_func = Some system_function, ex_num_args = 1, ex_slots = [IS_STRING cmd], ex_symtable = None\<rparr>"

definition system_rule :: sp_disabled_function where
  "system_rule = zero_disabled_function\<lparr>df_function := Some ''system'', df_pos := -1,
     df_param := [Node VAR (Some ''$cmd'') []]\<rparr>"

definition system_rules :: "sp_disabled_function list" where
  "system_rules =
     [system_rule\<lparr>df_value := Some ''id'', df_allow := True\<rparr>,
      system_rule\<lparr>df_value := Some ''ping'', df_simulation := True\<rparr>,
      system_rule]"

lemmas system_simps = system_rules_def system_rule_def system_call_def system_function_def
  zero_disabled_function_def rule_hit_def function_matches_def cidr_matches_def hash_matches_def param_hit_def
  filters_on_param_def arg_is_variadic_def arg_info_at_def is_param_matching_def find_argument_def
  sp_get_var_value_def node_step_def get_var_value_def nth_c_def VARIABLE_TOKEN_def get_param_var_def
  ZEND_CALL_VAR_NUM_def match_zval_def sp_match_value_def sp_zval_to_zend_string_def is_object_def

theorem should_disable_first_match_witness:
  "\<forall>g. snd (should_disable sample_php g [system_call ''ping''] ''system'' None None ''/a.php'' system_rules []) = Bailout"
proof
  fix g
  have "\<forall>c\<in>set system_rules. rule_decided sample_php g [system_call ''ping''] ''system'' None None ''/a.php'' c"
    by (simp add: rule_decided_def dumpable_def system_simps)
  moreover have "policy_drops (rule_hits sample_php g [system_call ''ping''] ''system'' None None ''/a.php'') system_rules"
    by (simp add: policy_drops_def rule_hits_def system_simps)
  moreover have "\<forall>c\<in>set system_rules. \<not> (df_allow c \<and> df_simulation c)" by (simp add: system_simps)
  ultimately show "snd (should_disable sample_php g [system_call ''ping''] ''system'' None None ''/a.php'' system_rules []) = Bailout"
    by (subst should_disable_first_match) simp_all
qed

text \<open>
  A simulated \<open>allow\<close> rule is not only logged: it ends the evaluation like any other, so that the drop
  rule behind it does not drop the call.
\<close>

theorem simulated_allow_ends_evaluation:
  "\<forall>g. snd (should_disable sample_php g [system_call ''id''] ''system'' None None ''/a.php''
      [system_rule\<lparr>df_allow := True, df_simulation := True\<rparr>, system_rule] []) = Done () \<and>
    policy_drops (rule_hits sample_php g [system_call ''id''] ''system'' None None ''/a.php'')
      [system_rule\<lparr>df_allow := True, df_simulation := True\<rparr>, system_rule]"
  by (simp add: policy_drops_def rule_hits_def system_simps snd_ebind)

text \<open>
  The rules that are consulted for a call of a hooked function: those by its name, and only if there
  are none those by regular expression.
\<close>

definition consulted_rules :: "sp_globals \<Rightarrow> string \<Rightarrow> sp_disabled_function list" where
  "consulted_rules g n =
     (case zh_find (cfg_disabled_functions_hooked g) (HStr n) of Some cs \<Rightarrow> cs | None \<Rightarrow> cfg_disabled_functions_reg g)"

text \<open>
  C4. A dropped call is never made: when the rules consulted for a hooked native function (those by its
  name, or those by regular expression if there are none by name) drop the call, the handler ends
  the request with the same log lines whatever the original function would do, so the original
  is not called. The rules have a verdict each and no \<open>allow\<close> rule is in simulation, as above.
\<close>

theorem dropped_call_not_made:
  assumes "stack \<noteq> []"
    "\<forall>c\<in>set (consulted_rules g n). rule_decided E g stack n None None (e_executed_filename E) c"
    "\<forall>c\<in>set (consulted_rules g n). \<not> (df_allow c \<and> df_simulation c)"
    "policy_drops (rule_hits E g stack n None None (e_executed_filename E)) (consulted_rules g n)"
  shows "snd (check_disabled_function E g orig stack n) = Bailout \<and>
    fst (check_disabled_function E g orig stack n) = fst (check_disabled_function E g orig' stack n)"
proof -
  have "snd (should_disable E g stack n None None (e_executed_filename E) (consulted_rules g n) []) = Bailout"
    using should_disable_verdict_aux [OF assms(2) buf_ok_simps(1)] assms(4) by (simp add: dropped_policy [OF assms(3)])
  moreover have "should_disable_ht E g stack n None None (cfg_disabled_functions_reg g) (cfg_disabled_functions_hooked g) =
      should_disable E g stack n None None (e_executed_filename E) (consulted_rules g n) []"
    using assms(1) by (simp add: should_disable_ht_def consulted_rules_def split: option.split)
  ultimately show ?thesis by (simp add: check_disabled_function_def snd_eseq fst_eseq)
qed

definition sample_globals :: sp_globals where
  "sample_globals =
     \<lparr>cfg_random_enable = False, cfg_sloppy_enable = False,
      cfg_unserialize = \<lparr>us_enable = False, us_simulation = False, us_dump = None, us_textual_representation = None\<rparr>,
      cfg_unserialize_noclass = \<lparr>un_enable = False, un_textual_representation = None\<rparr>,
      cfg_readonly_exec = \<lparr>ro_enable = False, ro_simulation = False, ro_extended_checks = False, ro_dump = None,
        ro_textual_representation = None\<rparr>,
      cfg_upload_validation = \<lparr>up_script = None, up_simulation = False, up_enable = False\<rparr>,
      cfg_cookies = [], cfg_auto_cookie_secure_enable = False, cfg_global_strict_enable = False,
      cfg_xxe_protection_enable = False,
      cfg_eval = \<lparr>ev_blacklist = [], ev_whitelist = [], ev_simulation = False, ev_dump = None,
        ev_textual_representation = None\<rparr>,
      cfg_wrapper = \<lparr>wr_whitelist = [], wr_php_stream_allowlist = [], wr_enabled = False, wr_num_wrapper = 0\<rparr>,
      cfg_session = \<lparr>se_encrypt = False, se_simulation = False, se_sid_min_length = 0, se_sid_max_length = 0\<rparr>,
      cfg_ini = \<lparr>ini_enable = False, ini_simulation = False, ini_policy_readonly = False,
        ini_policy_silent_ro = False, ini_policy_silent_fail = False, ini_policy_drop = False, ini_entries = []\<rparr>,
      cfg_log_media = \<lparr>log_type = SP_LOG_ZEND, log_path = None\<rparr>, cfg_log_max_len = 255,
      cfg_max_execution_depth = 0, cfg_server_encode = False, cfg_server_strip = False,
      cfg_encryption_key = None, cfg_cookies_env_var = None, cfg_disabled_functions = [],
      cfg_disabled_functions_hooked = [(HStr ''system'', system_rules)],
      cfg_disabled_functions_ret = [], cfg_disabled_functions_ret_hooked = [],
      cfg_disabled_functions_reg = [], cfg_disabled_functions_reg_ret = [],
      spg_hook_execute = False, spg_allow_broken_configuration = False, spg_is_config_valid = SP_CONFIG_VALID,
      spg_config_filename = None, spg_config_lineno = 0, spg_config_parsing = False, spg_config_nonfatal = False,
      spg_in_eval = 0, spg_execution_depth = 0, spg_disabled_functions_hook = [],
      spg_sp_internal_functions_hook = [], spg_sp_eval_blacklist_functions_hook = [], spg_eval_source_string = []\<rparr>"

theorem dropped_call_not_made_witness:
  "snd (check_disabled_function sample_php sample_globals (\<lambda>_. ret None) [system_call ''ls''] ''system'') = Bailout"
proof -
  have cs: "consulted_rules sample_globals ''system'' = system_rules" by (simp add: consulted_rules_def sample_globals_def)
  have "\<forall>c\<in>set system_rules. rule_decided sample_php sample_globals [system_call ''ls''] ''system'' None None ''/var/www/a.php'' c"
    by (simp add: rule_decided_def dumpable_def system_simps)
  moreover have "policy_drops (rule_hits sample_php sample_globals [system_call ''ls''] ''system'' None None ''/var/www/a.php'') system_rules"
    by (simp add: policy_drops_def rule_hits_def system_simps)
  moreover have "\<forall>c\<in>set system_rules. \<not> (df_allow c \<and> df_simulation c)" by (simp add: system_simps)
  moreover have "e_executed_filename sample_php = ''/var/www/a.php''" by (simp add: sample_php_def)
  ultimately show ?thesis
    using dropped_call_not_made [of "[system_call ''ls'']" sample_globals "''system''" sample_php "\<lambda>_. ret None" "\<lambda>_. ret None"]
    by (simp add: cs)
qed




text \<open>
  The hash filter compares half of the digest: with the file's digest at hand, a rule whose
  hash has the same first 32 characters matches, whatever follows them; the 64 characters of a
  SHA-256 sum are not compared to the end.
\<close>

theorem hash_filter_compares_half:
  assumes "e_read_file E fname \<noteq> None" "c_str h = take SHA256_SIZE (file_digest E fname) @ other"
    "SHA256_SIZE \<le> length (file_digest E fname)"
  shows "hash_matches E g fname (Some h) [] = ret (True, file_digest E fname)"
  using assms by (simp add: hash_matches_readable hash_ok_def)

theorem hash_filter_compares_half_witness:
  "hash_matches sample_php sample_globals ''/a.php'' (Some (take 32 (file_digest sample_php ''/a.php'') @ ''0'')) [] =
     ret (True, file_digest sample_php ''/a.php'') \<and>
   take 32 (file_digest sample_php ''/a.php'') @ ''0'' \<noteq> file_digest sample_php ''/a.php''"
proof
  have d: "file_digest sample_php ''/a.php'' = concat (replicate 32 ''78'')"
    by code_simp
  have "length (concat (replicate 32 ''78'')) = 64" by code_simp
  then have "NUL \<notin> set (take 32 (file_digest sample_php ''/a.php''))" "length (file_digest sample_php ''/a.php'') = 64"
    by (auto simp: d dest: in_set_takeD)
  then show "hash_matches sample_php sample_globals ''/a.php'' (Some (take 32 (file_digest sample_php ''/a.php'') @ ''0'')) [] =
     ret (True, file_digest sample_php ''/a.php'')"
    by (intro hash_filter_compares_half [where other = "''0''"]) (simp_all add: sample_php_def SHA256_SIZE_def)
  show "take 32 (file_digest sample_php ''/a.php'') @ ''0'' \<noteq> file_digest sample_php ''/a.php''"
    unfolding d by code_simp
qed

text \<open>
  Hooking loses no rule and enforces what it moves: after \<open>hook_functions\<close>, the rules of
  every function of the table are still in it, or they are in the table of hooked functions and
  the function is a language construct with a hook of its own or the engine calls the
  extension's handler for it.
\<close>

theorem hook_functions_keeps_rules:
  assumes "zh_wf to_hook" "(k, rules) \<in> set to_hook" "hook_functions mb to_hook hooked ht ft = (to', hooked', ht', ft')"
  shows "(k, rules) \<in> set to' \<or>
    (symtable_key (key_text k), rules) \<in> set hooked' \<and> (rules_builtin rules \<or> hooked_by ft' (c_str (key_text k)))"
  using hook_functions_fold_keeps [OF assms(1) subset_refl assms(2), of "(to_hook, hooked, ht, ft)" mb] assms
  by (simp add: hook_functions_def entry_kept_def)

theorem hook_functions_keeps_rules_witness:
  "\<exists>to' hooked' ht' ft'.
     hook_functions False [(HStr ''system'', system_rules)] [] [] [(''system'', ZEND_INTERNAL_FUNCTION, Zif_Engine ''system'')] =
       (to', hooked', ht', ft') \<and>
     ((HStr ''system'', system_rules) \<in> set to' \<or>
      (symtable_key ''system'', system_rules) \<in> set hooked' \<and> (rules_builtin system_rules \<or> hooked_by ft' ''system''))"
proof -
  obtain to' hooked' ht' ft' where h: "hook_functions False [(HStr ''system'', system_rules)] [] []
      [(''system'', ZEND_INTERNAL_FUNCTION, Zif_Engine ''system'')] = (to', hooked', ht', ft')"
    by (metis surj_pair)
  show ?thesis
    using hook_functions_keeps_rules [OF _ _ h, of "HStr ''system''" system_rules] h
    by (simp add: zh_wf_def)
qed

text \<open>
  A \<open>param_r\<close> rule reads behind the declared arguments: when a call passes more arguments
  than the function declares, the search for the argument's name goes through the argument count
  of the call, and reads argument information that does not exist.
\<close>

theorem param_r_excess_arguments_fault:
  assumes "df_pos c = -1" "df_param c = []" "df_r_param c = Some r" "ex_func ed = Some f"
    "length (arg_info f) < ex_num_args ed" "ex_num_args ed \<le> length (ex_slots ed)"
  shows "snd (is_param_matching E L (ed # stack) c None bpn) = Crash"
proof -
  have "r_param_loop E r f ed n i acc = CFault"
    if "i \<le> length (arg_info f)" "length (arg_info f) < i + n" "i + n \<le> length (ex_slots ed)" for n i acc
    using that
  proof (induction n arbitrary: i acc)
    case (Suc n)
    obtain a v where acc: "acc = (a, v)" by (cases acc)
    show ?case
    proof (cases "i = length (arg_info f)")
      case True
      then show ?thesis by (simp add: acc arg_info_at_def)
    next
      case False
      then have i: "i < length (arg_info f)" "i < length (ex_slots ed)" using Suc.prems by auto
      have "r_param_loop E r f ed n (Suc i) acc' = CFault" for acc'
        using Suc.prems i by (intro Suc.IH) auto
      then show ?thesis using i by (simp add: acc arg_info_at_def ZEND_CALL_VAR_NUM_def split: prod.split)
    qed
  qed simp
  from this [of 0 "ex_num_args ed"] show ?thesis
    using assms by (simp add: is_param_matching_def find_argument_def Let_def)
qed

theorem param_r_excess_arguments_fault_witness:
  "snd (is_param_matching sample_php sample_log_env
     [(system_call ''id'')\<lparr>ex_num_args := 2, ex_slots := [IS_STRING ''id'', IS_NULL]\<rparr>]
     (zero_disabled_function\<lparr>df_pos := -1, df_r_param := Some \<lparr>rx_pattern = ''.*''\<rparr>\<rparr>) None None) = Crash"
  by (rule param_r_excess_arguments_fault [where f = system_function])
    (simp_all add: zero_disabled_function_def system_call_def system_function_def)

text \<open>
  A rule that filters on an argument, on the two kinds of functions it cannot filter: a
  function that declares no argument makes it read argument information that does not exist, and
  a function whose first argument is variadic matches whatever it is called with.
\<close>

theorem param_filter_edge_cases:
  assumes "filters_on_param c" "ex_func ed = Some f"
  shows "(arg_info f = [] \<longrightarrow> snd (param_hit E g (ed # stack) None bpn c) = Crash) \<and>
    (\<forall>n infos. arg_info f = (n, True) # infos \<longrightarrow> snd (param_hit E g (ed # stack) None bpn c) = Done (Some (None, None)))"
  using assms by (auto simp: param_hit_def arg_is_variadic_def arg_info_at_def Let_def snd_ebind snd_eseq)

theorem param_filter_edge_cases_witness:
  "snd (param_hit sample_php sample_globals
     [(system_call ''id'')\<lparr>ex_func := Some (system_function\<lparr>arg_info := [], num_args := 0\<rparr>)\<rparr>] None None system_rule) = Crash"
proof -
  have "filters_on_param system_rule" by (simp add: filters_on_param_def system_rule_def)
  from param_filter_edge_cases [OF this, of
      "(system_call ''id'')\<lparr>ex_func := Some (system_function\<lparr>arg_info := [], num_args := 0\<rparr>)\<rparr>"
      "system_function\<lparr>arg_info := [], num_args := 0\<rparr>"]
  show ?thesis by simp
qed

text \<open>
  Rules by name hide rules by regular expression: a call that a regular-expression rule
  drops is let through as soon as any rule by name exists for the function, even one that does
  not hit, although the rules are documented to be evaluated in the order they are written.
\<close>

theorem named_rule_hides_regexp_rule:
  "\<forall>g. let drop_all = zero_disabled_function\<lparr>df_r_function := Some \<lparr>rx_pattern = ''system''\<rparr>, df_pos := -1\<rparr>;
           drop_rm = system_rule\<lparr>df_value := Some ''rm''\<rparr>
       in snd (should_disable_ht sample_php g [system_call ''ls''] ''system'' None None [drop_all] []) = Bailout \<and>
          snd (should_disable_ht sample_php g [system_call ''ls''] ''system'' None None [drop_all]
                 [(HStr ''system'', [drop_rm])]) = Done ()"
  by (simp add: Let_def should_disable_ht_def system_simps sp_is_regexp_matching_def
      sp_is_regexp_matching_len_def sample_php_def snd_ebind snd_eseq snd_sp_log_disable_no_dump)

text \<open>
  The file of evaluated code: of a name as the engine gives it to code under \<open>eval\<close>,
  \<open>get_eval_filename\<close> keeps exactly the file that called \<open>eval\<close>, whatever its name.
\<close>

theorem get_eval_filename_strips:
  "get_eval_filename (f @ ''('' @ show_nat line @ '') : eval()'d code'') = f"
proof -
  have "CHR ''('' \<notin> set (show_nat line @ '') : eval'')"
    using show_nat_digits [of "CHR ''(''" line] by (auto simp: is_digit_def)
  moreover have "CHR ''('' \<notin> set '')'d code''" by simp
  ultimately show ?thesis
    using get_eval_filename_aux [of "show_nat line @ '') : eval''" "'')'d code''" f] by simp
qed

end
