(* ===== verification/Config_Parse.thy ===== *)
theory Config_Parse
  imports Disabled_Functions
begin

text \<open>
  The rule engine of \<open>src/sp_config.c\<close>, \<open>src/sp_config_utils.c\<close> and the argument helpers at
  the start of \<open>src/sp_config_scanner.re\<close>. A parsed rule is the list of its keywords. A keyword table pairs tokens with
  handlers; a handler gets its keyword, the rest of the rule, and the state: the module globals
  and the parsing function's own variables, into which the table's \<open>retval\<close> pointers point.
  Every error logs its message and gives \<open>SP_PARSER_ERROR\<close>, with the state as it is then.
\<close>

section \<open>Parsed keywords\<close>

datatype sp_argtype = SP_ARGTYPE_UNKNOWN | SP_ARGTYPE_NONE | SP_ARGTYPE_EMPTY | SP_ARGTYPE_STR

record sp_parsed_keyword =
  kw_kw :: string
  kw_arg :: "string option"
  kw_argtype :: sp_argtype
  kw_lineno :: nat
  kw_filename :: string

definition kw_arglen :: "sp_parsed_keyword \<Rightarrow> nat" where
  "kw_arglen kw = (case kw_arg kw of Some a \<Rightarrow> length a | None \<Rightarrow> 0)"

text \<open>
  \<open>sp_get_arg_string\<close> drops the backslash of every escape; behind a trailing one it reads the
  terminator.
\<close>

fun unescape :: "string \<Rightarrow> string" where
  "unescape [] = []"
| "unescape (c # cs) =
     (if c = CHR 0x5C then (case cs of [] \<Rightarrow> [NUL] | d # ds \<Rightarrow> d # unescape ds) else c # unescape cs)"

definition sp_get_arg_string :: "sp_parsed_keyword \<Rightarrow> string option" where
  "sp_get_arg_string kw = map_option unescape (kw_arg kw)"

text \<open>\<open>sp_get_textual_representation\<close>: the length it allocates, and what it writes.\<close>

definition kw_text_len :: "sp_parsed_keyword \<Rightarrow> nat" where
  "kw_text_len kw =
     1 + length (kw_kw kw) +
     (if kw_argtype kw = SP_ARGTYPE_EMPTY then 2
      else if kw_argtype kw = SP_ARGTYPE_STR then 2 + kw_arglen kw + 2 else 0)"

definition kw_text :: "sp_parsed_keyword \<Rightarrow> string" where
  "kw_text kw =
     ''.'' @ kw_kw kw @
     (let has_parens = (kw_argtype kw \<noteq> SP_ARGTYPE_NONE)
      in (if has_parens then ''('' else []) @
         (if kw_argtype kw = SP_ARGTYPE_STR
          then (case kw_arg kw of Some a \<Rightarrow> [CHR 0x22] @ a @ [CHR 0x22] | None \<Rightarrow> []) else []) @
         (if has_parens then '')'' else []))"

definition text_len :: "sp_parsed_keyword list \<Rightarrow> nat" where
  "text_len rule = 3 + sum_list (map kw_text_len rule)"

definition sp_get_textual_representation :: "sp_parsed_keyword list \<Rightarrow> string" where
  "sp_get_textual_representation rule = ''sp'' @ concat (map kw_text rule) @ '';''"

section \<open>Handlers and tables\<close>

datatype parse_result = SP_PARSER_SUCCESS | SP_PARSER_ERROR | SP_PARSER_STOP
datatype zend_result = SUCCESS | FAILURE

type_synonym 'l pstate = "sp_globals \<times> 'l"
type_synonym 'l parsed = "('l pstate \<times> parse_result) eff"
type_synonym 'l handler = "string \<Rightarrow> sp_parsed_keyword \<Rightarrow> sp_parsed_keyword list \<Rightarrow> 'l pstate \<Rightarrow> 'l parsed"
type_synonym 'l ktable = "(string \<times> 'l handler) list"

definition parse_err :: "php \<Rightarrow> string \<Rightarrow> 'l pstate \<Rightarrow> 'l parsed" where
  "parse_err E msg st = eseq (sp_log_err (sp_env E (fst st)) ''config'' msg) (ret (st, SP_PARSER_ERROR))"

text \<open>How the messages name a keyword's or rule's place, and how they quote.\<close>

definition in_file :: "sp_parsed_keyword \<Rightarrow> string" where
  "in_file kw = '' in '' @ c_str (kw_filename kw) @ '':'' @ show_nat (kw_lineno kw)"

definition on_line :: "sp_parsed_keyword \<Rightarrow> string" where
  "on_line kw = '' on line '' @ show_nat (kw_lineno kw)"

definition success :: "'l pstate \<Rightarrow> 'l parsed" where
  "success st = ret (st, SP_PARSER_SUCCESS)"

definition stop :: "'l pstate \<Rightarrow> 'l parsed" where
  "stop st = ret (st, SP_PARSER_STOP)"

definition set_lineno :: "nat \<Rightarrow> 'l pstate \<Rightarrow> 'l pstate" where
  "set_lineno n st = ((fst st)\<lparr>spg_config_lineno := n mod 2 ^ 32\<rparr>, snd st)"

fun find_keyword :: "'l ktable \<Rightarrow> string \<Rightarrow> (string \<times> 'l handler) option" where
  "find_keyword [] k = None"
| "find_keyword ((token, h) # table) k = (if k = token then Some (token, h) else find_keyword table k)"

fun sp_process_rule ::
  "php \<Rightarrow> 'l ktable \<Rightarrow> sp_parsed_keyword list \<Rightarrow> 'l pstate \<Rightarrow> ('l pstate \<times> zend_result) eff" where
  "sp_process_rule E table [] st = ret (st, SUCCESS)"
| "sp_process_rule E table (kw # rest) st =
     (let st1 = set_lineno (kw_lineno kw) st in
      case find_keyword table (kw_kw kw) of
        None \<Rightarrow>
          eseq (sp_log_err (sp_env E (fst st1)) ''config''
                  (''Unexpected keyword '' @ quoted (c_str (kw_kw kw)) @ in_file kw))
            (ret (st1, FAILURE))
      | Some (token, h) \<Rightarrow>
          ebind (h token kw rest st1) (\<lambda>(st2, r).
            case r of
              SP_PARSER_SUCCESS \<Rightarrow> sp_process_rule E table rest st2
            | SP_PARSER_ERROR \<Rightarrow> ret (st2, FAILURE)
            | SP_PARSER_STOP \<Rightarrow> ret (st2, SUCCESS)))"

section \<open>Arguments\<close>

definition with_arg :: "php \<Rightarrow> string \<Rightarrow> sp_parsed_keyword \<Rightarrow> 'l pstate \<Rightarrow> (string \<Rightarrow> 'l parsed) \<Rightarrow> 'l parsed" where
  "with_arg E token kw st f =
     (case sp_get_arg_string kw of
        None \<Rightarrow> parse_err E (''Missing argument to keyword '' @ quoted token @ '' - it should be '' @
          quoted (token @ ''('' @ [CHR 0x22] @ ''...'' @ [CHR 0x22] @ '')'') @ on_line kw) st
      | Some v \<Rightarrow> f v)"

definition no_duplicate :: "php \<Rightarrow> string \<Rightarrow> sp_parsed_keyword \<Rightarrow> bool \<Rightarrow> 'l pstate \<Rightarrow> 'l parsed \<Rightarrow> 'l parsed" where
  "no_duplicate E token kw present st m = (if present then parse_err E (''duplicate keyword '' @ quoted token @ in_file kw) st else m)"

definition parse_empty :: "php \<Rightarrow> ('l pstate \<Rightarrow> 'l pstate) \<Rightarrow> 'l handler" where
  "parse_empty E put token kw rest st =
     (if kw_arglen kw \<noteq> 0 then parse_err E (''Unexpected argument for keyword '' @ quoted token @ '' - it should be '' @ quoted (token @ ''()'') @ in_file kw) st
      else if kw_argtype kw \<noteq> SP_ARGTYPE_EMPTY then parse_err E (''Missing parenthesis for keyword '' @ quoted token @ '' - it should be '' @ quoted (token @ ''()'') @ in_file kw) st
      else success (put st))"

text \<open>\<open>strsep\<close> on commas: every comma separates, empty pieces are kept.\<close>

fun strsep_all :: "char \<Rightarrow> string \<Rightarrow> string list" where
  "strsep_all sep [] = [[]]"
| "strsep_all sep (c # cs) =
     (if c = sep then [] # strsep_all sep cs
      else (case strsep_all sep cs of [] \<Rightarrow> [[c]] | t # ts \<Rightarrow> (c # t) # ts))"

definition parse_list ::
  "php \<Rightarrow> ('l pstate \<Rightarrow> string list) \<Rightarrow> (string list \<Rightarrow> 'l pstate \<Rightarrow> 'l pstate) \<Rightarrow> 'l handler" where
  "parse_list E get put token kw rest st =
     no_duplicate E token kw (get st \<noteq> []) st
       (with_arg E token kw st (\<lambda>v. success (put (fold (\<lambda>t l. sp_list_insert l t) (strsep_all (CHR '','') (c_str v)) (get st)) st)))"

definition php_types :: "(string \<times> sp_php_type) list" where
  "php_types =
     [(''undef'', SP_PHP_TYPE_UNDEF), (''null'', SP_PHP_TYPE_NULL), (''true'', SP_PHP_TYPE_TRUE),
      (''false'', SP_PHP_TYPE_FALSE), (''long'', SP_PHP_TYPE_LONG), (''double'', SP_PHP_TYPE_DOUBLE),
      (''string'', SP_PHP_TYPE_STRING), (''array'', SP_PHP_TYPE_ARRAY), (''object'', SP_PHP_TYPE_OBJECT),
      (''resource'', SP_PHP_TYPE_RESOURCE), (''reference'', SP_PHP_TYPE_REFERENCE)]"

definition parse_php_type :: "php \<Rightarrow> (sp_php_type \<Rightarrow> 'l pstate \<Rightarrow> 'l pstate) \<Rightarrow> 'l handler" where
  "parse_php_type E put token kw rest st =
     with_arg E token kw st (\<lambda>v.
       case find (\<lambda>(n, ty). equals_ci v n) php_types of
         Some (n, ty) \<Rightarrow> success (put ty st)
       | None \<Rightarrow> eseq (sp_log_err (sp_env E (fst st)) ''error'' (''.'' @ token @ ''() is expecting a valid php type ('' @ quoted ''false'' @ '', '' @ quoted ''true'' @ '', '' @
                     quoted ''array'' @ ''. '' @ quoted ''object'' @ '', '' @ quoted ''long'' @ '', '' @ quoted ''double'' @ '', '' @
                     quoted ''null'' @ '', '' @ quoted ''resource'' @ '', '' @ quoted ''reference'' @ '', '' @ quoted ''undef'' @ '')'' @
                     in_file kw))
                   (ret (st, SP_PARSER_ERROR)))"

definition parse_str ::
  "php \<Rightarrow> ('l pstate \<Rightarrow> string option) \<Rightarrow> (string option \<Rightarrow> 'l pstate \<Rightarrow> 'l pstate) \<Rightarrow> 'l handler" where
  "parse_str E get put token kw rest st =
     no_duplicate E token kw (get st \<noteq> None) st (with_arg E token kw st (\<lambda>v. success (put (Some v) st)))"

text \<open>The number parsers store what they read also when they report an error.\<close>

definition parse_number :: "php \<Rightarrow> (string \<Rightarrow> bool) \<Rightarrow> (string \<Rightarrow> 'n) \<Rightarrow> ('n \<Rightarrow> 'l pstate \<Rightarrow> 'l pstate) \<Rightarrow> 'l handler" where
  "parse_number E valid read put token kw rest st =
     with_arg E token kw st (\<lambda>v.
       let s = c_str v; st1 = put (read s) st
       in if valid s then success st1 else parse_err E (''Failed to parse arg '' @ quoted s @ '' of `'' @ token @ ''`'' @ in_file kw) st1)"

definition parse_int :: "php \<Rightarrow> (int \<Rightarrow> 'l pstate \<Rightarrow> 'l pstate) \<Rightarrow> 'l handler" where
  "parse_int E put = parse_number E strtoimax_ok (\<lambda>s. to_int32 (strtoimax_value s)) put"

definition parse_uint :: "php \<Rightarrow> (nat \<Rightarrow> 'l pstate \<Rightarrow> 'l pstate) \<Rightarrow> 'l handler" where
  "parse_uint E put = parse_number E strtoul_ok (\<lambda>s. strtoul_value s mod 2 ^ 32) put"

definition parse_ulong :: "php \<Rightarrow> (nat \<Rightarrow> 'l pstate \<Rightarrow> 'l pstate) \<Rightarrow> 'l handler" where
  "parse_ulong E put = parse_number E strtoul_ok strtoul_value put"

definition zero_cidr :: sp_cidr where
  "zero_cidr = \<lparr>ip_version = 0, cidr_ip = IPv4 0, cidr_mask = 0\<rparr>"

definition parse_cidr ::
  "php \<Rightarrow> ('l pstate \<Rightarrow> sp_cidr option) \<Rightarrow> (sp_cidr option \<Rightarrow> 'l pstate \<Rightarrow> 'l pstate) \<Rightarrow> 'l handler" where
  "parse_cidr E get put token kw rest st =
     no_duplicate E token kw (get st \<noteq> None) st
       (with_arg E token kw st (\<lambda>v.
         ebind (get_ip_and_cidr (e_inet E) (sp_env E (fst st)) (c_str v) zero_cidr) (\<lambda>(buf, cidr, r).
           if r \<noteq> 0 then ret (put None st, SP_PARSER_ERROR) else success (put (Some cidr) st))))"

definition parse_regexp ::
  "php \<Rightarrow> ('l pstate \<Rightarrow> sp_regexp option) \<Rightarrow> (sp_regexp option \<Rightarrow> 'l pstate \<Rightarrow> 'l pstate) \<Rightarrow> 'l handler" where
  "parse_regexp E get put token kw rest st =
     no_duplicate E token kw (get st \<noteq> None) st
       (with_arg E token kw st (\<lambda>v.
         ebind (sp_regexp_compile E (fst st) v) (\<lambda>re.
           case re of
             None \<Rightarrow> parse_err E (''Invalid regexp '' @ quoted (c_str v) @ '' for '' @ quoted (''.'' @ token @ ''()'') @ in_file kw) st
           | Some r \<Rightarrow> success (put (Some r) st))))"

text \<open>\<open>strtok_r\<close> skips empty pieces; the list is built by prepending.\<close>

definition parse_functions_list :: "string \<Rightarrow> string list" where
  "parse_functions_list value =
     (if CHR ''>'' \<notin> set value then []
      else fold (\<lambda>f l. sp_list_prepend l f) (filter (\<lambda>t. t \<noteq> []) (strsep_all (CHR ''>'') value)) [])"

section \<open>Facts about the pieces\<close>

lemma strsep_all_nonempty [simp]: "strsep_all sep s \<noteq> []"
  by (induction s) (auto split: list.split)

lemma fold_insert_append: "fold (\<lambda>t l. sp_list_insert l t) ts l = l @ ts"
  by (induction ts arbitrary: l) auto

lemma fold_prepend_rev: "fold (\<lambda>f l. sp_list_prepend l f) ts l = rev ts @ l"
  by (induction ts arbitrary: l) auto

lemma parse_functions_list_rev:
  "parse_functions_list v = (if CHR ''>'' \<in> set v then rev (filter (\<lambda>t. t \<noteq> []) (strsep_all (CHR ''>'') v)) else [])"
  unfolding parse_functions_list_def fold_prepend_rev by simp

lemma strsep_all_none: "sep \<notin> set s \<Longrightarrow> strsep_all sep s = [s]"
  by (induction s) auto

lemma strsep_all_append: "sep \<notin> set s \<Longrightarrow> strsep_all sep (s @ sep # t) = s # strsep_all sep t"
  by (induction s) auto

end
