(* ===== verification/Config_Lexer.thy ===== *)
theory Config_Lexer
  imports Prelude
begin

text \<open>
  The lexical grammar of the configuration language: the regular expressions of
  \<open>src/sp_config_scanner.re\<close>, of which \<open>src/sp_config_scanner.cached.c\<close> is the automaton. A rule of the
  grammar is a function from the text at the cursor to the token and the text behind it; the longest
  match wins, and the default rule \<open>*\<close> takes one byte when nothing else matches. The tags
  \<open>t1\<close> to \<open>t4\<close> are the arguments of the token. The text ends with its terminator.
\<close>

section \<open>Tokens\<close>

datatype yycond = YY_init | YY_cond | YY_cond_op | YY_rule

datatype token =
    T_nonascii char
  | T_any
  | T_blank
  | T_comment
  | T_newline
  | T_sp
  | T_end
  | T_set string string
  | T_condition
  | T_end_condition
  | T_info string
  | T_warning string
  | T_error string
  | T_call string "string option"
  | T_variable string
  | T_number string
  | T_open_op char
  | T_op string
  | T_close
  | T_semicolon
  | T_keyword string "string option"

type_synonym lexer = "string \<Rightarrow> (token \<times> string) option"

section \<open>Pieces of the grammar\<close>

abbreviation DQUOTE :: char where "DQUOTE \<equiv> CHR 0x22"
abbreviation BACKSLASH :: char where "BACKSLASH \<equiv> CHR 0x5C"
abbreviation LF :: char where "LF \<equiv> CHR 0x0A"
abbreviation CR :: char where "CR \<equiv> CHR 0x0D"

definition is_blank :: "char \<Rightarrow> bool" where
  "is_blank c \<longleftrightarrow> c = CHR '' '' \<or> c = CHR 0x09"

definition is_alpha :: "char \<Rightarrow> bool" where
  "is_alpha c \<longleftrightarrow> is_upper c \<or> is_lower c"

definition is_word :: "char \<Rightarrow> bool" where
  "is_word c \<longleftrightarrow> is_alnum c \<or> c = CHR ''_''"

definition is_nonascii :: "char \<Rightarrow> bool" where
  "is_nonascii c \<longleftrightarrow> 128 \<le> byte c"

definition line_end :: "char \<Rightarrow> bool" where
  "line_end c \<longleftrightarrow> c = CR \<or> c = LF \<or> c = NUL"

definition lit :: "string \<Rightarrow> string \<Rightarrow> string option" where
  "lit p s = (if prefix p s then Some (drop (length p) s) else None)"

definition lex_blanks :: "string \<Rightarrow> string option" where
  "lex_blanks s = (case s of c # s' \<Rightarrow> if is_blank c then Some (dropWhile is_blank s') else None | [] \<Rightarrow> None)"

definition lex_newline :: "string \<Rightarrow> string option" where
  "lex_newline s = (case lit [CR] s of Some s' \<Rightarrow> lit [LF] s' | None \<Rightarrow> lit [LF] s)"

definition lex_name :: "string \<Rightarrow> (string \<times> string) option" where
  "lex_name s = (case s of c # s' \<Rightarrow> if is_alpha c then Some (c # takeWhile is_word s', dropWhile is_word s') else None
     | [] \<Rightarrow> None)"

text \<open>
  A quoted string: a quote behind a backslash may end it or be part of it, so that one opening quote
  has several ends. \<open>string_ends\<close> gets the text behind the opening quote and gives, for every
  end, what is between the quotes and what follows, the nearest end first. Its first argument is whether a backslash
  was just passed.
\<close>

fun string_ends :: "bool \<Rightarrow> string \<Rightarrow> (string \<times> string) list" where
  "string_ends b [] = []"
| "string_ends b (c # s) =
     (if c = DQUOTE then ([], s) # (if b then map (\<lambda>(t, r). (c # t, r)) (string_ends False s) else [])
      else if line_end c then []
      else map (\<lambda>(t, r). (c # t, r)) (string_ends (c = BACKSLASH) s))"

text \<open>A string and what the rule wants behind it: the longest match takes the furthest end that has it.\<close>

definition lex_string :: "(string \<Rightarrow> string option) \<Rightarrow> string \<Rightarrow> (string \<times> string) option" where
  "lex_string follow s =
     (case s of
        c # s' \<Rightarrow>
          if c = DQUOTE
          then (case filter (\<lambda>(t, r). follow r \<noteq> None) (string_ends False s') of
                  [] \<Rightarrow> None
                | ms \<Rightarrow> (let (t, r) = last ms in Some (t, the (follow r))))
          else None
      | [] \<Rightarrow> None)"

section \<open>The rules of the four conditions\<close>

definition token_if :: "token \<Rightarrow> string option \<Rightarrow> (token \<times> string) option" where
  "token_if t = map_option (\<lambda>r. (t, r))"

text \<open>The rules of a condition exclude each other, but for the default rule and where the order below says so.\<close>

fun try_lex :: "lexer list \<Rightarrow> lexer" where
  "try_lex [] s = None"
| "try_lex (f # fs) s = (case f s of None \<Rightarrow> try_lex fs s | Some r \<Rightarrow> Some r)"

definition lex_nonascii :: lexer where
  "lex_nonascii s = (case s of c # s' \<Rightarrow> if is_nonascii c then Some (T_nonascii c, s') else None | [] \<Rightarrow> None)"

definition lex_any :: lexer where
  "lex_any s = (case s of c # s' \<Rightarrow> Some (T_any, s') | [] \<Rightarrow> None)"

definition lex_blank :: lexer where
  "lex_blank s = token_if T_blank (lex_blanks s)"

definition lex_comment :: lexer where
  "lex_comment s =
     (case s of c # s' \<Rightarrow> if c = CHR '';'' \<or> c = CHR ''#'' then Some (T_comment, dropWhile (\<lambda>c. \<not> line_end c) s') else None
      | [] \<Rightarrow> None)"

definition lex_set :: lexer where
  "lex_set s =
     Option.bind (lit ''set'' (case lit ''@'' s of Some s' \<Rightarrow> s' | None \<Rightarrow> s)) (\<lambda>s1.
     Option.bind (lex_blanks s1) (\<lambda>s2.
     Option.bind (lex_name s2) (\<lambda>(key, s3).
     Option.bind (lex_blanks s3) (\<lambda>s4.
     Option.bind (lex_string (\<lambda>r. lit '';'' (dropWhile is_blank r)) s4) (\<lambda>(v, r).
     Some (T_set key v, r))))))"

definition lex_condition :: lexer where
  "lex_condition s = token_if T_condition (Option.bind (lit ''@condition'' s) lex_blanks)"

definition lex_end_condition :: lexer where
  "lex_end_condition s =
     token_if T_end_condition (Option.bind (lit ''@end_condition'' s) (\<lambda>r. lit '';'' (dropWhile is_blank r)))"

definition lex_message :: "string \<Rightarrow> (string \<Rightarrow> token) \<Rightarrow> lexer" where
  "lex_message name mk s =
     Option.bind (lit name s) (\<lambda>s1.
     Option.bind (lex_blanks s1) (\<lambda>s2.
     Option.bind (lex_string (lit '';'') s2) (\<lambda>(m, r).
     Some (mk m, r))))"

definition lex_init :: lexer where
  "lex_init = try_lex
     [lex_nonascii, lex_blank, lex_comment, \<lambda>s. token_if T_newline (lex_newline s), \<lambda>s. token_if T_sp (lit ''sp'' s),
      \<lambda>s. token_if T_end (lit [NUL] s), lex_set, lex_condition, lex_end_condition,
      lex_message ''@log'' T_info, lex_message ''@info'' T_info, lex_message ''@warn'' T_warning,
      lex_message ''@warning'' T_warning, lex_message ''@err'' T_error, lex_message ''@error'' T_error, lex_any]"

text \<open>A name with an argument list is longer than the name alone.\<close>

definition lex_call :: lexer where
  "lex_call s =
     Option.bind (lex_name s) (\<lambda>(f, s1).
     Option.bind (lit ''('' s1) (\<lambda>s2.
     case lit '')'' s2 of
       Some r \<Rightarrow> Some (T_call f None, r)
     | None \<Rightarrow> map_option (\<lambda>(a, r). (T_call f (Some a), r)) (lex_string (lit '')'') s2)))"

definition lex_variable :: lexer where
  "lex_variable s = map_option (\<lambda>(x, r). (T_variable x, r)) (lex_name s)"

definition lex_number :: lexer where
  "lex_number s =
     (case s of c # s' \<Rightarrow> if is_digit c then Some (T_number (c # takeWhile is_digit s'), dropWhile is_digit s') else None
      | [] \<Rightarrow> None)"

definition lex_cond :: lexer where
  "lex_cond = try_lex
     [lex_blank, \<lambda>s. token_if T_newline (lex_newline s), lex_call, lex_variable, lex_number,
      \<lambda>s. token_if (T_open_op (CHR ''!'')) (lit ''!'' s), \<lambda>s. token_if (T_open_op (CHR ''('')) (lit ''('' s), lex_any]"

definition lex_op :: "string \<Rightarrow> lexer" where
  "lex_op op s = token_if (T_op op) (lit op s)"

definition lex_cond_op :: lexer where
  "lex_cond_op = try_lex
     [lex_blank, \<lambda>s. token_if T_newline (lex_newline s), lex_op ''&&'', lex_op ''||'', lex_op ''<='', lex_op ''>='',
      lex_op ''=='', lex_op ''<'', lex_op ''>'', \<lambda>s. token_if T_close (lit '')'' s), \<lambda>s. token_if T_semicolon (lit '';'' s), lex_any]"

text \<open>What a newline inside a rule must be followed by: line ends, blanks, and the dot of another keyword.\<close>

fun dot_ahead :: "string \<Rightarrow> bool" where
  "dot_ahead [] = False"
| "dot_ahead (c # s) =
     (if c = CHR ''.'' then True
      else if is_blank c \<or> c = LF then dot_ahead s
      else if c = CR then (case s of d # s' \<Rightarrow> d = LF \<and> dot_ahead s' | [] \<Rightarrow> False)
      else False)"

definition lex_rule_newline :: lexer where
  "lex_rule_newline s = token_if T_newline (Option.bind (lex_newline s) (\<lambda>r. if dot_ahead r then Some r else None))"

text \<open>An argument is kept as it is written, with its quotes; \<open>None\<close> is a keyword without parentheses.\<close>

definition lex_args :: "string \<Rightarrow> (string \<times> string) option" where
  "lex_args s =
     Option.bind (lit ''('' s) (\<lambda>s1.
     case lit '')'' s1 of
       Some r \<Rightarrow> Some ([], r)
     | None \<Rightarrow>
         (case lex_string (lit '')'') s1 of
            Some (a, r) \<Rightarrow> Some ([DQUOTE] @ a @ [DQUOTE], r)
          | None \<Rightarrow> Option.bind (lex_name s1) (\<lambda>(v, s2). map_option (Pair v) (lit '')'' s2))))"

definition lex_keyword :: lexer where
  "lex_keyword s =
     Option.bind (lit ''.'' s) (\<lambda>s1.
     Option.bind (lex_name s1) (\<lambda>(k, s2).
     case lex_args s2 of
       Some (a, r) \<Rightarrow> Some (T_keyword k (Some a), r)
     | None \<Rightarrow> Some (T_keyword k None, s2)))"

definition lex_rule :: lexer where
  "lex_rule = try_lex
     [lex_blank, lex_rule_newline, lex_keyword, \<lambda>s. token_if T_semicolon (lit '';'' s), lex_nonascii, lex_any]"

definition lex_token :: "yycond \<Rightarrow> lexer" where
  "lex_token c = (case c of YY_init \<Rightarrow> lex_init | YY_cond \<Rightarrow> lex_cond | YY_cond_op \<Rightarrow> lex_cond_op | YY_rule \<Rightarrow> lex_rule)"

section \<open>Quoted strings\<close>

text \<open>The ends of a string, as the regular expression has them.\<close>

fun in_string :: "bool \<Rightarrow> string \<Rightarrow> bool" where
  "in_string b [] = True"
| "in_string b (c # t) = (if c = DQUOTE then b \<and> in_string False t else \<not> line_end c \<and> in_string (c = BACKSLASH) t)"

lemma mem_cons_ends: "(d # t, r) \<in> (\<lambda>(t, r). (c # t, r)) ` M \<longleftrightarrow> d = c \<and> (t, r) \<in> M"
  by force

lemma set_string_ends: "(t, r) \<in> set (string_ends b s) \<longleftrightarrow> s = t @ DQUOTE # r \<and> in_string b t"
proof (induction b s arbitrary: t rule: string_ends.induct)
  case (2 b c s)
  show ?case
  proof (cases t)
    case Nil
    then show ?thesis by auto
  next
    case (Cons d t')
    then show ?thesis using 2 by (auto simp: mem_cons_ends line_end_def)
  qed
qed simp

text \<open>\<open>string = ["] (\\" | [^"\r\n\x00])* ["]\<close>: what is between the quotes.\<close>

inductive string_body :: "string \<Rightarrow> bool" where
  Empty: "string_body []"
| Escaped: "string_body t \<Longrightarrow> string_body (BACKSLASH # DQUOTE # t)"
| Plain: "c \<noteq> DQUOTE \<Longrightarrow> \<not> line_end c \<Longrightarrow> string_body t \<Longrightarrow> string_body (c # t)"

lemma string_body_in_string: "string_body t \<Longrightarrow> in_string b t"
proof (induction arbitrary: b rule: string_body.induct)
  case (Escaped t)
  then show ?case by (simp add: line_end_def)
qed simp_all

lemma in_string_body: "in_string b t \<Longrightarrow> string_body (if b then BACKSLASH # t else t)"
proof (induction b t rule: in_string.induct)
  case (1 b)
  show ?case by (auto simp: line_end_def intro: string_body.intros)
next
  case (2 b c t)
  show ?case
  proof (cases "c = DQUOTE")
    case True
    then show ?thesis using 2 by (auto intro: string_body.intros)
  next
    case False
    then have "string_body (c # t)"
      using 2 by (cases "c = BACKSLASH") (auto intro: string_body.intros)
    then show ?thesis by (auto simp: line_end_def intro: string_body.intros)
  qed
qed

lemma in_string_iff: "in_string False t \<longleftrightarrow> string_body t"
  using in_string_body [of False t] string_body_in_string by auto

lemma string_ends_sorted: "sorted_wrt (\<lambda>x y. length (fst x) < length (fst y)) (string_ends b s)"
  by (induction b s rule: string_ends.induct) (auto simp: sorted_wrt_map split_beta)

lemma sorted_wrt_last: "sorted_wrt R xs \<Longrightarrow> x \<in> set xs \<Longrightarrow> x = last xs \<or> R x (last xs)"
  by (induction xs) auto

lemma lex_string_sound:
  assumes "lex_string follow s = Some (t, r)"
  shows "\<exists>r0. s = DQUOTE # t @ DQUOTE # r0 \<and> string_body t \<and> follow r0 = Some r \<and>
    (\<forall>t' r'. s = DQUOTE # t' @ DQUOTE # r' \<and> string_body t' \<and> follow r' \<noteq> None \<longrightarrow> length t' \<le> length t)"
proof -
  obtain s' where s: "s = DQUOTE # s'" using assms by (auto simp: lex_string_def split: list.splits if_splits)
  let ?ms = "filter (\<lambda>(t, r). follow r \<noteq> None) (string_ends False s')"
  have ms: "?ms \<noteq> []" using assms by (auto simp: lex_string_def s)
  obtain r0 where l: "last ?ms = (t, r0)" "r = the (follow r0)"
    using assms ms by (cases "last ?ms") (auto simp: lex_string_def s split: list.splits)
  have "(t, r0) \<in> set ?ms" using last_in_set [OF ms] unfolding l(1) .
  then have mem: "(t, r0) \<in> set (string_ends False s')" "follow r0 \<noteq> None" by auto
  have "length t' \<le> length t" if "s' = t' @ DQUOTE # r'" "string_body t'" "follow r' \<noteq> None" for t' r'
  proof -
    have "(t', r') \<in> set ?ms" using that set_string_ends [of t' r' False s'] by (simp add: in_string_iff)
    with sorted_wrt_filter [OF string_ends_sorted] have "(t', r') = last ?ms \<or> length (fst (t', r')) < length (fst (last ?ms))"
      by (rule sorted_wrt_last)
    then show ?thesis using l by auto
  qed
  with mem l show ?thesis by (intro exI [of _ r0]) (auto simp: s set_string_ends in_string_iff)
qed

lemma lex_string_None:
  "lex_string follow (DQUOTE # s) = None \<longleftrightarrow> (\<forall>t r. s = t @ DQUOTE # r \<and> string_body t \<longrightarrow> follow r = None)"
proof -
  let ?ms = "filter (\<lambda>(t, r). follow r \<noteq> None) (string_ends False s)"
  have "lex_string follow (DQUOTE # s) = None \<longleftrightarrow> ?ms = []" by (auto simp: lex_string_def split: list.split prod.split)
  also have "\<dots> \<longleftrightarrow> (\<forall>(t, r)\<in>set (string_ends False s). follow r = None)" by (auto simp: filter_empty_conv)
  finally show ?thesis by (auto simp: set_string_ends in_string_iff)
qed

section \<open>What a token takes\<close>

text \<open>The text is what was taken, up to a byte with a property, and the rest.\<close>

definition took :: "string \<Rightarrow> (char \<Rightarrow> bool) \<Rightarrow> string \<Rightarrow> bool" where
  "took s P r \<longleftrightarrow> (\<exists>p x. s = p @ x # r \<and> P x)"

lemma took_mono: "took s P r \<Longrightarrow> (\<And>x. P x \<Longrightarrow> Q x) \<Longrightarrow> took s Q r"
  by (auto simp: took_def)

lemma took_trans: "took s Q s1 \<Longrightarrow> took s1 P r \<Longrightarrow> took s P r"
  unfolding took_def by (metis append.assoc append_Cons)

lemma took_append: "took s P r \<Longrightarrow> took (p @ s) P r"
  unfolding took_def by (metis append.assoc)

lemma took_length: "took s P r \<Longrightarrow> length r < length s"
  by (auto simp: took_def)

lemma took_Cons: "P c \<Longrightarrow> took (c # s) P s"
  unfolding took_def by (metis append_Nil)

lemma took_while: "P c \<Longrightarrow> (\<And>x. Q x \<Longrightarrow> P x) \<Longrightarrow> took (c # s) P (dropWhile Q s)"
proof -
  assume P: "P c" "\<And>x. Q x \<Longrightarrow> P x"
  show ?thesis
  proof (cases "takeWhile Q s" rule: rev_cases)
    case Nil
    then have "dropWhile Q s = s" by (metis append_Nil takeWhile_dropWhile_id)
    then show ?thesis using P(1) by (simp add: took_Cons)
  next
    case (snoc p x)
    then have "Q x" by (metis in_set_conv_decomp set_takeWhileD)
    moreover have "c # s = (c # p) @ x # dropWhile Q s"
      using snoc takeWhile_dropWhile_id [of Q s] by simp
    ultimately show ?thesis unfolding took_def using P(2) by blast
  qed
qed

lemma lit_took: "lit (c # p) s = Some r \<Longrightarrow> took s (\<lambda>x. x = last (c # p)) r"
proof -
  assume "lit (c # p) s = Some r"
  then have "s = (c # p) @ r" by (auto simp: lit_def prefix_def split: if_splits)
  then have "s = butlast (c # p) @ last (c # p) # r" by (metis append.assoc append_Cons append_Nil append_butlast_last_id list.distinct(1))
  then show ?thesis unfolding took_def by blast
qed

lemma lex_blanks_took: "lex_blanks s = Some r \<Longrightarrow> took s is_blank r"
  by (cases s) (auto simp: lex_blanks_def intro: took_while split: if_splits)

lemma lex_newline_took: "lex_newline s = Some r \<Longrightarrow> took s (\<lambda>x. x = LF) r"
  by (auto simp: lex_newline_def split: option.splits dest!: lit_took intro: took_trans)

lemma is_alpha_word: "is_alpha c \<Longrightarrow> is_word c"
  by (auto simp: is_alpha_def is_word_def is_alnum_def)

lemma lex_name_took: "lex_name s = Some (n, r) \<Longrightarrow> took s is_word r"
  by (cases s) (auto simp: lex_name_def is_alpha_word intro: took_while split: if_splits)

lemma lex_string_took:
  assumes "lex_string follow s = Some (t, r)" "\<And>r0. follow r0 = Some r \<Longrightarrow> took r0 P r"
  shows "took s P r"
proof -
  obtain r0 where "s = (DQUOTE # t @ [DQUOTE]) @ r0" "follow r0 = Some r" using lex_string_sound [OF assms(1)] by auto
  then show ?thesis using assms(2) took_append by metis
qed

lemma blanks_then_took: "lit (c # p) (dropWhile is_blank r) = Some r' \<Longrightarrow> took r (\<lambda>x. x = last (c # p)) r'"
  using took_append [OF lit_took] takeWhile_dropWhile_id by metis

text \<open>The last byte of a token: what the default rule and the end take aside, never the terminator.\<close>

fun token_end :: "token \<Rightarrow> char \<Rightarrow> bool" where
  "token_end T_any x = True"
| "token_end T_end x = True"
| "token_end T_blank x = is_blank x"
| "token_end T_newline x = (x = LF)"
| "token_end T_sp x = (x = CHR ''p'')"
| "token_end (T_keyword k a) x = (is_word x \<or> x = CHR '')'')"
| "token_end _ x = (x \<noteq> NUL)"

lemma token_end_eqs [simp]: "token_end T_blank = is_blank" "token_end T_newline = (\<lambda>x. x = LF)"
  by (rule ext, simp)+

definition consuming :: "lexer \<Rightarrow> bool" where
  "consuming f \<longleftrightarrow> (\<forall>s t r. f s = Some (t, r) \<longrightarrow> took s (token_end t) r)"

lemma consumingI: "(\<And>s t r. f s = Some (t, r) \<Longrightarrow> took s (token_end t) r) \<Longrightarrow> consuming f"
  by (simp add: consuming_def)

lemma consuming_try_lex: "(\<And>f. f \<in> set fs \<Longrightarrow> consuming f) \<Longrightarrow> consuming (try_lex fs)"
proof (induction fs)
  case (Cons f fs)
  then have "consuming f" "consuming (try_lex fs)" by simp_all
  then show ?case by (auto simp: consuming_def split: option.splits)
qed (simp add: consuming_def)

lemma consuming_token_if: "(\<And>s r. f s = Some r \<Longrightarrow> took s (token_end t) r) \<Longrightarrow> consuming (\<lambda>s. token_if t (f s))"
  by (auto simp: consuming_def token_if_def)

lemma consuming_lit: "token_end t (last (c # p)) \<Longrightarrow> consuming (\<lambda>s. token_if t (lit (c # p) s))"
  by (rule consuming_token_if) (auto dest!: lit_took elim!: took_mono)

lemma consuming_lex_set: "consuming lex_set"
proof (rule consumingI)
  fix s t r
  assume h: "lex_set s = Some (t, r)"
  let ?s0 = "case lit ''@'' s of Some s' \<Rightarrow> s' | None \<Rightarrow> s"
  obtain s1 s2 key s3 s4 v where l: "lit ''set'' ?s0 = Some s1" "lex_blanks s1 = Some s2" "lex_name s2 = Some (key, s3)"
      "lex_blanks s3 = Some s4" "lex_string (\<lambda>r. lit '';'' (dropWhile is_blank r)) s4 = Some (v, r)" "t = T_set key v"
    using h by (auto simp: lex_set_def bind_eq_Some_conv)
  have "took r0 (\<lambda>x. x = CHR '';'') r" if "lit '';'' (dropWhile is_blank r0) = Some r" for r0
    using blanks_then_took [OF that] by simp
  then have 4: "took s4 (\<lambda>x. x = CHR '';'') r" by (rule lex_string_took [OF l(5)])
  have "took ?s0 (\<lambda>x. x = CHR '';'') r"
    by (rule took_trans [OF lit_took [OF l(1)] took_trans [OF lex_blanks_took [OF l(2)]
          took_trans [OF lex_name_took [OF l(3)] took_trans [OF lex_blanks_took [OF l(4)] 4]]]])
  then have "took s (\<lambda>x. x = CHR '';'') r" by (auto split: option.splits dest: lit_took intro: took_trans)
  then show "took s (token_end t) r" by (auto simp: l(6) elim: took_mono)
qed

lemma consuming_lex_message:
  assumes "\<And>m x. token_end (mk m) x = (x \<noteq> NUL)"
  shows "consuming (lex_message (c # name) mk)"
proof (rule consumingI)
  fix s t r
  assume h: "lex_message (c # name) mk s = Some (t, r)"
  obtain s1 s2 m where l: "lit (c # name) s = Some s1" "lex_blanks s1 = Some s2" "lex_string (lit '';'') s2 = Some (m, r)" "t = mk m"
    using h unfolding lex_message_def bind_eq_Some_conv by (auto split: prod.splits)
  have "took r0 (\<lambda>x. x = CHR '';'') r" if "lit '';'' r0 = Some r" for r0 using lit_took [OF that] by simp
  then have 2: "took s2 (\<lambda>x. x = CHR '';'') r" by (rule lex_string_took [OF l(3)])
  have "took s (\<lambda>x. x = CHR '';'') r" by (rule took_trans [OF lit_took [OF l(1)] took_trans [OF lex_blanks_took [OF l(2)] 2]])
  then show "took s (token_end t) r" by (rule took_mono) (simp add: l(4) assms)
qed

lemma closing_took:
  "lit '')'' s = Some r \<Longrightarrow> took s (\<lambda>x. x = CHR '')'') r"
  "lex_string (lit '')'') s = Some (a, r) \<Longrightarrow> took s (\<lambda>x. x = CHR '')'') r"
proof -
  have 1: "took s (\<lambda>x. x = CHR '')'') r" if "lit '')'' s = Some r" for s using lit_took [OF that] by simp
  show "lit '')'' s = Some r \<Longrightarrow> took s (\<lambda>x. x = CHR '')'') r" by (rule 1)
  show "took s (\<lambda>x. x = CHR '')'') r" if "lex_string (lit '')'') s = Some (a, r)" by (rule lex_string_took [OF that 1])
qed

lemma consuming_lex_call: "consuming lex_call"
proof (rule consumingI)
  fix s t r
  assume h: "lex_call s = Some (t, r)"
  then obtain f s1 s2 where l: "lex_name s = Some (f, s1)" "lit ''('' s1 = Some s2"
      "lit '')'' s2 = Some r \<or> (\<exists>a. lex_string (lit '')'') s2 = Some (a, r))" "\<exists>a. t = T_call f a"
    by (auto simp: lex_call_def bind_eq_Some_conv split: option.splits)
  have 2: "took s2 (\<lambda>x. x = CHR '')'') r" using l(3) closing_took by blast
  have "took s (\<lambda>x. x = CHR '')'') r" by (rule took_trans [OF lex_name_took [OF l(1)] took_trans [OF lit_took [OF l(2)] 2]])
  then show "took s (token_end t) r" using l(4) by (auto elim: took_mono)
qed

lemma lex_args_took: "lex_args s = Some (a, r) \<Longrightarrow> took s (\<lambda>x. x = CHR '')'') r"
proof -
  assume "lex_args s = Some (a, r)"
  then obtain s1 where l: "lit ''('' s = Some s1"
      "lit '')'' s1 = Some r \<or> (\<exists>a. lex_string (lit '')'') s1 = Some (a, r)) \<or> (\<exists>v s2. lex_name s1 = Some (v, s2) \<and> lit '')'' s2 = Some r)"
    by (auto simp: lex_args_def bind_eq_Some_conv split: option.splits)
  then have "took s1 (\<lambda>x. x = CHR '')'') r" using closing_took took_trans [OF lex_name_took] by blast
  then show ?thesis by (rule took_trans [OF lit_took [OF l(1)]])
qed

lemma consuming_lex_keyword: "consuming lex_keyword"
proof (rule consumingI)
  fix s t r
  assume h: "lex_keyword s = Some (t, r)"
  then obtain s1 k s2 where l: "lit ''.'' s = Some s1" "lex_name s1 = Some (k, s2)"
      "r = s2 \<or> (\<exists>a. lex_args s2 = Some (a, r))" "\<exists>a. t = T_keyword k a"
    by (auto simp: lex_keyword_def bind_eq_Some_conv split: option.splits)
  let ?P = "\<lambda>x. is_word x \<or> x = CHR '')''"
  have 2: "took s1 ?P s2" using lex_name_took [OF l(2)] by (rule took_mono) simp
  have "took s1 ?P r"
    using l(3)
  proof
    assume "\<exists>a. lex_args s2 = Some (a, r)"
    then have "took s2 ?P r" by (auto elim: took_mono dest!: lex_args_took)
    then show ?thesis by (rule took_trans [OF 2])
  qed (use 2 in simp)
  then have "took s ?P r" by (rule took_trans [OF lit_took [OF l(1)]])
  then show "took s (token_end t) r" using l(4) by (auto elim: took_mono)
qed

lemma word_not_NUL: "is_word x \<Longrightarrow> x \<noteq> NUL" "is_digit x \<Longrightarrow> x \<noteq> NUL" "is_blank x \<Longrightarrow> x \<noteq> NUL" "is_nonascii x \<Longrightarrow> x \<noteq> NUL"
  by (auto simp: is_nonascii_def is_word_def is_alnum_def is_digit_def is_upper_def is_lower_def is_blank_def)

lemma consuming_first:
  "consuming lex_nonascii" "consuming lex_any" "consuming lex_comment" "consuming lex_number"
  by (auto simp: consuming_def lex_nonascii_def lex_any_def lex_comment_def lex_number_def line_end_def
      word_not_NUL intro: took_Cons took_while split: list.splits if_splits)

lemma consuming_others:
  "consuming lex_blank" "consuming lex_variable" "consuming lex_condition" "consuming lex_end_condition" "consuming lex_rule_newline"
proof -
  show "consuming lex_blank" unfolding lex_blank_def by (rule consuming_token_if) (simp add: lex_blanks_took)
  show "consuming lex_variable"
    by (auto simp: consuming_def lex_variable_def word_not_NUL elim: took_mono dest!: lex_name_took)
  show "consuming lex_condition"
    unfolding lex_condition_def
    by (rule consuming_token_if)
      (auto simp: bind_eq_Some_conv word_not_NUL dest!: lit_took lex_blanks_took
        elim: took_trans [THEN took_mono])
  show "consuming lex_end_condition"
    unfolding lex_end_condition_def
    by (rule consuming_token_if) (auto simp: bind_eq_Some_conv intro: took_trans took_mono dest!: lit_took blanks_then_took)
  show "consuming lex_rule_newline"
    by (auto simp: consuming_def lex_rule_newline_def token_if_def bind_eq_Some_conv dest!: lex_newline_took split: if_splits)
qed

lemma consuming_lex_token: "consuming (lex_token c)"
proof -
  have "consuming (\<lambda>s. token_if T_newline (lex_newline s))"
    by (rule consuming_token_if) (simp add: lex_newline_took)
  moreover have "consuming (lex_op (d # op))" if "last (d # op) \<noteq> NUL" for d op
    using that unfolding lex_op_def by (intro consuming_lit) simp
  ultimately show ?thesis
    unfolding lex_token_def
    by (cases c) (auto simp: lex_init_def lex_cond_def lex_cond_op_def lex_rule_def consuming_first consuming_others
        consuming_lex_set consuming_lex_call consuming_lex_keyword
        intro!: consuming_try_lex consuming_lex_message consuming_lit)
qed

lemma lex_token_took: "lex_token c s = Some (t, r) \<Longrightarrow> took s (token_end t) r"
  using consuming_lex_token by (auto simp: consuming_def)

lemma lex_token_length: "lex_token c s = Some (t, r) \<Longrightarrow> length r < length s"
  by (rule took_length [OF lex_token_took])

lemma try_lex_any: "lex_any \<in> set fs \<Longrightarrow> try_lex fs (d # s) \<noteq> None"
  by (induction fs) (auto simp: lex_any_def split: option.split)

lemma lex_token_total: "lex_token c s = None \<longleftrightarrow> s = []"
proof
  assume "lex_token c s = None"
  then show "s = []"
    by (cases s; cases c) (simp_all add: lex_token_def lex_init_def lex_cond_def lex_cond_op_def lex_rule_def try_lex_any del: try_lex.simps)
next
  assume "s = []"
  then show "lex_token c s = None" using lex_token_length [of c s] by (cases "lex_token c s") auto
qed

section \<open>Arguments are pieces of the text\<close>

text \<open>The length of the text a token hands on to a rule.\<close>

fun token_size :: "token \<Rightarrow> nat" where
  "token_size (T_set key v) = length v"
| "token_size (T_keyword k (Some a)) = length a"
| "token_size _ = 0"

definition sized :: "lexer \<Rightarrow> bool" where
  "sized f \<longleftrightarrow> (\<forall>s t r. f s = Some (t, r) \<longrightarrow> token_size t \<le> length s)"

lemma sized_try_lex: "(\<And>f. f \<in> set fs \<Longrightarrow> sized f) \<Longrightarrow> sized (try_lex fs)"
proof (induction fs)
  case (Cons f fs)
  then have "sized f" "sized (try_lex fs)" by simp_all
  then show ?case by (auto simp: sized_def split: option.splits)
qed (simp add: sized_def)

lemma lit_length: "lit p s = Some r \<Longrightarrow> length s = length p + length r"
  by (auto simp: lit_def split: if_splits dest: prefix_length_le)

lemma lex_string_length: "lex_string follow s = Some (t, r) \<Longrightarrow> length t + 2 \<le> length s"
  by (drule lex_string_sound) auto

lemma lex_name_length: "lex_name s = Some (n, r) \<Longrightarrow> length n + length r = length s"
  by (cases s) (auto simp: lex_name_def simp flip: length_append split: if_splits)

lemma sized_lex_set: "sized lex_set"
proof -
  have "length v \<le> length s" if h: "lex_set s = Some (T_set key v, r)" for s key v r
  proof -
    let ?s0 = "case lit ''@'' s of Some s' \<Rightarrow> s' | None \<Rightarrow> s"
    obtain s1 s2 s3 s4 where "lit ''set'' ?s0 = Some s1" "lex_blanks s1 = Some s2" "lex_name s2 = Some (key, s3)"
        "lex_blanks s3 = Some s4" "lex_string (\<lambda>r. lit '';'' (dropWhile is_blank r)) s4 = Some (v, r)"
      using h by (auto simp: lex_set_def bind_eq_Some_conv)
    moreover have "length ?s0 \<le> length s" by (auto dest: lit_length split: option.split)
    ultimately show ?thesis
      by (auto dest!: lit_length lex_blanks_took took_length lex_name_length lex_string_length)
  qed
  then show ?thesis by (auto simp: sized_def lex_set_def bind_eq_Some_conv)
qed

lemma lex_args_length: "lex_args s = Some (a, r) \<Longrightarrow> length a \<le> length s"
proof -
  assume "lex_args s = Some (a, r)"
  then obtain s1 where "lit ''('' s = Some s1"
      "a = [] \<or> (\<exists>b. a = [DQUOTE] @ b @ [DQUOTE] \<and> lex_string (lit '')'') s1 = Some (b, r)) \<or> (\<exists>s2. lex_name s1 = Some (a, s2))"
    by (auto simp: lex_args_def bind_eq_Some_conv split: option.splits)
  then show ?thesis by (auto dest!: lit_length lex_string_length lex_name_length)
qed

lemma sized_lex_keyword: "sized lex_keyword"
proof -
  have "length a \<le> length s" if h: "lex_keyword s = Some (T_keyword k (Some a), r)" for s k a r
  proof -
    obtain s1 s2 where "lit ''.'' s = Some s1" "lex_name s1 = Some (k, s2)" "lex_args s2 = Some (a, r)"
      using h by (auto simp: lex_keyword_def bind_eq_Some_conv split: option.splits)
    then show ?thesis by (auto dest!: lit_length lex_name_length lex_args_length)
  qed
  then show ?thesis by (auto simp: sized_def lex_keyword_def bind_eq_Some_conv split: option.splits)
qed

lemma sized_others:
  "token_size t = 0 \<Longrightarrow> sized (\<lambda>s. token_if t (f s))"
  "sized lex_nonascii" "sized lex_any" "sized lex_comment" "sized lex_number" "sized lex_blank" "sized lex_variable"
  "sized lex_condition" "sized lex_end_condition" "sized (lex_op op)" "sized lex_call" "sized lex_rule_newline"
  "(\<And>m. token_size (mk m) = 0) \<Longrightarrow> sized (lex_message name mk)"
  by (auto simp: sized_def token_if_def lex_nonascii_def lex_any_def lex_comment_def lex_number_def lex_blank_def
      lex_variable_def lex_condition_def lex_end_condition_def lex_op_def lex_call_def lex_rule_newline_def
      lex_message_def bind_eq_Some_conv split: list.splits if_splits option.splits)

lemma lex_token_size: "lex_token c s = Some (t, r) \<Longrightarrow> token_size t \<le> length s"
proof -
  have "sized (lex_token c)"
    unfolding lex_token_def
    by (cases c) (auto simp: lex_init_def lex_cond_def lex_cond_op_def lex_rule_def sized_lex_set sized_lex_keyword
        intro!: sized_try_lex sized_others)
  then show "lex_token c s = Some (t, r) \<Longrightarrow> token_size t \<le> length s" by (auto simp: sized_def)
qed

text \<open>The default rule and the end take one byte.\<close>

definition bytewise :: "lexer \<Rightarrow> bool" where
  "bytewise f \<longleftrightarrow> (\<forall>s t r. f s = Some (t, r) \<longrightarrow> t = T_any \<or> t = T_end \<longrightarrow> length s = Suc (length r))"

lemma bytewise_try_lex: "(\<And>f. f \<in> set fs \<Longrightarrow> bytewise f) \<Longrightarrow> bytewise (try_lex fs)"
proof (induction fs)
  case (Cons f fs)
  then have "bytewise f" "bytewise (try_lex fs)" by simp_all
  then show ?case by (auto simp: bytewise_def split: option.splits)
qed (simp add: bytewise_def)

lemma bytewise_others:
  "t \<noteq> T_any \<Longrightarrow> t \<noteq> T_end \<Longrightarrow> bytewise (\<lambda>s. token_if t (f s))" "bytewise (\<lambda>s. token_if T_end (lit [c] s))"
  "bytewise lex_nonascii" "bytewise lex_any" "bytewise lex_comment" "bytewise lex_number" "bytewise lex_blank" "bytewise lex_variable"
  "bytewise lex_condition" "bytewise lex_end_condition" "bytewise (lex_op op)" "bytewise lex_call" "bytewise lex_rule_newline"
  "bytewise lex_set" "bytewise lex_keyword" "(\<And>m. mk m \<noteq> T_any \<and> mk m \<noteq> T_end) \<Longrightarrow> bytewise (lex_message name mk)"
  by (auto simp: bytewise_def token_if_def lex_nonascii_def lex_any_def lex_comment_def lex_number_def lex_blank_def
      lex_variable_def lex_condition_def lex_end_condition_def lex_op_def lex_call_def lex_rule_newline_def lex_set_def
      lex_keyword_def lex_message_def bind_eq_Some_conv dest: lit_length split: list.splits if_splits option.splits)

lemma lex_token_bytewise: "lex_token c s = Some (t, r) \<Longrightarrow> t = T_any \<or> t = T_end \<Longrightarrow> length s = Suc (length r)"
proof -
  have "bytewise (lex_token c)"
    unfolding lex_token_def
    by (cases c) (auto simp: lex_init_def lex_cond_def lex_cond_op_def lex_rule_def intro!: bytewise_try_lex bytewise_others)
  then show "lex_token c s = Some (t, r) \<Longrightarrow> t = T_any \<or> t = T_end \<Longrightarrow> length s = Suc (length r)" by (auto simp: bytewise_def)
qed

lemma token_end_NUL: "token_end t NUL \<Longrightarrow> t = T_any \<or> t = T_end"
  by (cases "(t, NUL)" rule: token_end.cases) (auto simp: word_not_NUL is_blank_def is_word_def is_alnum_def is_digit_def is_upper_def is_lower_def)

text \<open>A newline inside a rule is not the last byte of the text.\<close>

lemma dot_ahead_length: "dot_ahead s \<Longrightarrow> s \<noteq> [NUL]"
  by (auto simp: is_blank_def)

end
