(* ===== verification/Config_Scanner.thy ===== *)
theory Config_Scanner
  imports Config_Parse Config_Lexer
begin

text \<open>
  The scanner of the configuration files, \<open>sp_config_scan\<close> in \<open>src/sp_config_scanner.cached.c\<close>: an automaton with
  four conditions, its variables, the two stacks of the shunting yard that evaluates \<open>@condition\<close>,
  and the rule that is being collected, which it hands to \<open>process_rule\<close> when it ends. A label
  \<open>yyc_\<close> is the next condition; \<open>out\<close> ends the scan. The text is given with its terminator; reading on
  behind that is a \<open>Crash\<close>.
\<close>

section \<open>State\<close>

abbreviation MAX_CONDITIONS :: nat where "MAX_CONDITIONS \<equiv> 100"
abbreviation MAX_KEYWORDS :: nat where "MAX_KEYWORDS \<equiv> 16"

text \<open>
  The part of \<open>cond_res\<close> below \<open>cond_res_i\<close>, and of \<open>cond_op\<close> below \<open>cond_op_i\<close>, as stacks with their
  top in front, and the element \<open>cond_res[0]\<close>, which stays when the stack is emptied.
\<close>

record scan_state =
  sc_cond :: yycond
  sc_lineno :: nat
  sc_rule :: "sp_parsed_keyword list"
  sc_vars :: "string \<rightharpoonup> string"
  sc_res :: "int list"
  sc_res0 :: int
  sc_ops :: "char list"
  sc_active :: bool

text \<open>What the scan takes from outside: the files, the registry of modules and the version of the engine.\<close>

record config_source =
  cs_read :: "string \<Rightarrow> string + string"
  cs_module_loaded :: "string \<Rightarrow> bool"
  cs_version :: string

definition scan_start :: "config_source \<Rightarrow> scan_state" where
  "scan_start C =
     \<lparr>sc_cond = YY_init, sc_lineno = 1, sc_rule = [], sc_vars = [''PHP_VERSION_ID'' \<mapsto> cs_version C],
      sc_res = [], sc_res0 = 1, sc_ops = [], sc_active = False\<rparr>"

definition goto_yyc :: "yycond \<Rightarrow> scan_state \<Rightarrow> scan_state" where
  "goto_yyc c st = st\<lparr>sc_cond := c\<rparr>"

section \<open>The shunting yard\<close>

definition sy_op_precedence :: "char \<Rightarrow> nat" where
  "sy_op_precedence op =
     (if op = CHR ''!'' then 120
      else if op \<in> {CHR ''<'', CHR ''>'', CHR ''L'', CHR ''G''} then 90
      else if op = CHR ''&'' then 70
      else if op = CHR ''|'' then 60
      else if op = CHR ''='' then 20 else 0)"

definition sy_op_is_left_assoc :: "char \<Rightarrow> bool" where
  "sy_op_is_left_assoc op \<longleftrightarrow> op \<noteq> CHR ''!''"

definition sy_apply_op :: "char \<Rightarrow> int \<Rightarrow> int \<Rightarrow> int" where
  "sy_apply_op op a b =
     of_bool (if op = CHR ''!'' then a = 0
      else if op = CHR ''&'' then b \<noteq> 0 \<and> a \<noteq> 0
      else if op = CHR ''|'' then b \<noteq> 0 \<or> a \<noteq> 0
      else if op = CHR ''<'' then b < a
      else if op = CHR ''L'' then b \<le> a
      else if op = CHR ''G'' then b \<ge> a
      else if op = CHR ''>'' then b > a
      else if op = CHR ''='' then b = a else False)"

text \<open>A push or an application gives the new state, or the text of the error.\<close>

definition sy_res_push :: "int \<Rightarrow> scan_state \<Rightarrow> string + scan_state" where
  "sy_res_push v st =
     (if length (sc_res st) \<ge> MAX_CONDITIONS then Inl ''condition too complex''
      else Inr (st\<lparr>sc_res := v # sc_res st, sc_res0 := (if sc_res st = [] then v else sc_res0 st)\<rparr>))"

definition sy_op_push :: "char \<Rightarrow> scan_state \<Rightarrow> string + scan_state" where
  "sy_op_push op st =
     (if length (sc_ops st) \<ge> MAX_CONDITIONS then Inl ''condition too complex''
      else Inr (st\<lparr>sc_ops := op # sc_ops st\<rparr>))"

definition sy_apply_from_stack :: "char \<Rightarrow> scan_state \<Rightarrow> string + scan_state" where
  "sy_apply_from_stack op st =
     (let unary = (op = CHR ''!'') in
      if length (sc_res st) < (if unary then 1 else 2) then Inl ''not enough input''
      else if unary then sy_res_push (sy_apply_op op (hd (sc_res st)) 0) (st\<lparr>sc_res := tl (sc_res st)\<rparr>)
      else sy_res_push (sy_apply_op op (hd (sc_res st)) (hd (tl (sc_res st)))) (st\<lparr>sc_res := tl (tl (sc_res st))\<rparr>))"

text \<open>The loops: operators are taken from the stack and applied up to one that stops them.\<close>

fun sy_unwind :: "(char \<Rightarrow> bool) \<Rightarrow> char list \<Rightarrow> scan_state \<Rightarrow> string + scan_state" where
  "sy_unwind halts [] st = Inr (st\<lparr>sc_ops := []\<rparr>)"
| "sy_unwind halts (op # ops) st =
     (if halts op then Inr (st\<lparr>sc_ops := op # ops\<rparr>)
      else case sy_apply_from_stack op st of Inl e \<Rightarrow> Inl e | Inr st' \<Rightarrow> sy_unwind halts ops st')"

definition stops_binary :: "char \<Rightarrow> char \<Rightarrow> bool" where
  "stops_binary op1 op \<longleftrightarrow> op = CHR ''('' \<or> sy_op_precedence op < sy_op_precedence op1 \<or>
     sy_op_precedence op = sy_op_precedence op1 \<and> \<not> sy_op_is_left_assoc op1"

definition stops_paren :: "char \<Rightarrow> bool" where
  "stops_paren op \<longleftrightarrow> op = CHR ''(''"

definition op_char :: "string \<Rightarrow> char" where
  "op_char s =
     (if length s = 2 then (if hd s = CHR ''<'' then CHR ''L'' else if hd s = CHR ''>'' then CHR ''G'' else hd s) else hd s)"

section \<open>Messages and results\<close>

definition cs_log :: "php \<Rightarrow> log_level \<Rightarrow> nat \<Rightarrow> string \<Rightarrow> sp_globals \<Rightarrow> sp_globals eff" where
  "cs_log E level lineno msg g =
     (let g1 = g\<lparr>spg_config_lineno := lineno mod 2 ^ 32\<rparr>
      in eseq (sp_log_msgf (sp_env E g1) ''config'' level SP_TYPE_LOG msg) (ret g1))"

datatype scan_result = Scan_goto scan_state | Scan_out zend_result

type_synonym scan_effect = "(scan_result \<times> sp_globals) eff"

definition place :: "string \<Rightarrow> scan_state \<Rightarrow> string" where
  "place filename st = c_str filename @ '':'' @ show_nat (sc_lineno st)"

definition scan_error :: "php \<Rightarrow> string \<Rightarrow> string \<Rightarrow> scan_state \<Rightarrow> sp_globals \<Rightarrow> scan_effect" where
  "scan_error E filename msg st g =
     ebind (cs_log E E_ERROR (sc_lineno st) (msg @ '' in '' @ place filename st) g) (\<lambda>g'. ret (Scan_out FAILURE, g'))"

definition goto :: "yycond \<Rightarrow> scan_state \<Rightarrow> sp_globals \<Rightarrow> scan_effect" where
  "goto c st g = ret (Scan_goto (goto_yyc c st), g)"

definition goto_or_error :: "php \<Rightarrow> string \<Rightarrow> scan_state \<Rightarrow> sp_globals \<Rightarrow> yycond \<Rightarrow> string + scan_state \<Rightarrow> scan_effect" where
  "goto_or_error E filename st g c r =
     (case r of Inl msg \<Rightarrow> scan_error E filename msg st g | Inr st' \<Rightarrow> goto c st' g)"

definition hex_digit :: "nat \<Rightarrow> char" where
  "hex_digit n = char_of (if n < 10 then 48 + n else 55 + n)"

definition nonascii_message :: "char \<Rightarrow> string" where
  "nonascii_message c = ''non-ASCII character (0x'' @ [hex_digit (byte c div 16), hex_digit (byte c mod 16)] @ '')''"

text \<open>\<open>TMPSTR\<close>: a message of the configuration is cut to the buffer.\<close>

definition tmpstr :: "string \<Rightarrow> string" where
  "tmpstr s = take 1023 s"

definition user_message :: "string \<Rightarrow> scan_state \<Rightarrow> string \<Rightarrow> string" where
  "user_message filename st m = ''['' @ place filename st @ '']: '' @ tmpstr m"

section \<open>Actions\<close>

definition next_line :: "scan_state \<Rightarrow> scan_state" where
  "next_line st = st\<lparr>sc_lineno := sc_lineno st + 1\<rparr>"

fun init_action :: "php \<Rightarrow> string \<Rightarrow> token \<Rightarrow> scan_state \<Rightarrow> sp_globals \<Rightarrow> scan_effect" where
  "init_action E filename (T_nonascii c) st g = scan_error E filename (nonascii_message c) st g"
| "init_action E filename T_newline st g = goto YY_init (next_line st) g"
| "init_action E filename T_sp st g = goto YY_rule (st\<lparr>sc_rule := []\<rparr>) g"
| "init_action E filename T_end st g = ret (Scan_out SUCCESS, g)"
| "init_action E filename (T_set key v) st g =
     goto YY_init (if sc_res0 st = 0 then st else st\<lparr>sc_vars := (sc_vars st)(key \<mapsto> v)\<rparr>) g"
| "init_action E filename T_condition st g =
     (if sc_active st then scan_error E filename ''nested conditions are not supported'' st g
      else goto YY_cond (st\<lparr>sc_active := True, sc_res := []\<rparr>) g)"
| "init_action E filename T_end_condition st g =
     goto YY_init (st\<lparr>sc_res0 := 1, sc_res := [], sc_active := False\<rparr>) g"
| "init_action E filename (T_info m) st g =
     (if sc_res0 st = 0 then goto YY_init st g
      else ebind (cs_log E E_NOTICE (sc_lineno st) (user_message filename st m) g) (goto YY_init st))"
| "init_action E filename (T_warning m) st g =
     (if sc_res0 st = 0 then goto YY_init st g
      else ebind (cs_log E E_WARNING (sc_lineno st) (user_message filename st m) g) (goto YY_init st))"
| "init_action E filename (T_error m) st g =
     (if sc_res0 st = 0 then goto YY_init st g
      else ebind (cs_log E E_ERROR (sc_lineno st) (user_message filename st m) g) (\<lambda>g'. ret (Scan_out FAILURE, g')))"
| "init_action E filename T_any st g = scan_error E filename ''parser error'' st g"
| "init_action E filename _ st g = goto YY_init st g"

fun cond_action :: "php \<Rightarrow> config_source \<Rightarrow> string \<Rightarrow> token \<Rightarrow> scan_state \<Rightarrow> sp_globals \<Rightarrow> scan_effect" where
  "cond_action E C filename T_newline st g = goto YY_cond (next_line st) g"
| "cond_action E C filename (T_call f arg) st g =
     (case arg of
        Some a \<Rightarrow>
          if f = ''extension_loaded''
          then goto_or_error E filename st g YY_cond_op (sy_res_push (of_bool (cs_module_loaded C a)) st)
          else scan_error E filename ''unknown function in condition'' st g
      | None \<Rightarrow> scan_error E filename ''unknown function in condition'' st g)"
| "cond_action E C filename (T_variable x) st g =
     (case sc_vars st x of
        None \<Rightarrow> scan_error E filename ''unknown variable in condition'' st g
      | Some v \<Rightarrow> goto_or_error E filename st g YY_cond_op (sy_res_push (c_atoi (c_str v)) st))"
| "cond_action E C filename (T_number ds) st g = goto_or_error E filename st g YY_cond_op (sy_res_push (c_atoi ds) st)"
| "cond_action E C filename (T_open_op op) st g = goto_or_error E filename st g YY_cond (sy_op_push op st)"
| "cond_action E C filename T_any st g = scan_error E filename ''syntax error in condition'' st g"
| "cond_action E C filename _ st g = goto YY_cond st g"

text \<open>The rest of the actions for an operator, a parenthesis and the end, behind their loops.\<close>

definition close_paren :: "scan_state \<Rightarrow> string + scan_state" where
  "close_paren st = (case sc_ops st of op # ops \<Rightarrow> if op = CHR ''('' then Inr (st\<lparr>sc_ops := ops\<rparr>) else Inl ''unbalanced parenthesis''
     | [] \<Rightarrow> Inl ''unbalanced parenthesis'')"

definition end_of_condition :: "scan_state \<Rightarrow> string + scan_state" where
  "end_of_condition st =
     (if sc_ops st \<noteq> [] then Inl ''unbalanced parenthesis''
      else if length (sc_res st) > 1 then Inl ''invalid condition'' else Inr st)"

definition then_sum :: "'e + 'a \<Rightarrow> ('a \<Rightarrow> 'e + 'b) \<Rightarrow> 'e + 'b" where
  "then_sum m f = (case m of Inl e \<Rightarrow> Inl e | Inr a \<Rightarrow> f a)"

fun cond_op_action :: "php \<Rightarrow> string \<Rightarrow> token \<Rightarrow> scan_state \<Rightarrow> sp_globals \<Rightarrow> scan_effect" where
  "cond_op_action E filename T_newline st g = goto YY_cond_op (next_line st) g"
| "cond_op_action E filename (T_op s) st g =
     goto_or_error E filename st g YY_cond
       (then_sum (sy_unwind (stops_binary (op_char s)) (sc_ops st) st) (sy_op_push (op_char s)))"
| "cond_op_action E filename T_close st g =
     goto_or_error E filename st g YY_cond_op (then_sum (sy_unwind stops_paren (sc_ops st) st) close_paren)"
| "cond_op_action E filename T_semicolon st g =
     goto_or_error E filename st g YY_init (then_sum (sy_unwind stops_paren (sc_ops st) st) end_of_condition)"
| "cond_op_action E filename T_any st g = scan_error E filename ''syntax error in condition'' st g"
| "cond_op_action E filename _ st g = goto YY_cond_op st g"

text \<open>The keyword a rule gets, or the error in its argument, with what is between the parentheses as it is written.\<close>

definition scanned_keyword :: "string \<Rightarrow> scan_state \<Rightarrow> string \<Rightarrow> string option \<Rightarrow> string + sp_parsed_keyword" where
  "scanned_keyword filename st k arg =
     (let kw = \<lparr>kw_kw = k, kw_arg = arg, kw_argtype = SP_ARGTYPE_UNKNOWN, kw_lineno = sc_lineno st, kw_filename = filename\<rparr> in
      case arg of
        None \<Rightarrow> Inr (kw\<lparr>kw_argtype := SP_ARGTYPE_NONE\<rparr>)
      | Some a \<Rightarrow>
          (case find is_nonascii a of
             Some c \<Rightarrow> Inl (nonascii_message c)
           | None \<Rightarrow>
               if a = [] then Inr (kw\<lparr>kw_argtype := SP_ARGTYPE_EMPTY\<rparr>)
               else if length a \<ge> 2 \<and> hd a = DQUOTE
               then Inr (kw\<lparr>kw_arg := Some (butlast (tl a)), kw_argtype := SP_ARGTYPE_STR\<rparr>)
               else (case sc_vars st a of
                       None \<Rightarrow> Inl ''unknown variable''
                     | Some v \<Rightarrow> Inr (kw\<lparr>kw_arg := Some v, kw_argtype := SP_ARGTYPE_STR\<rparr>))))"

type_synonym rule_processor = "sp_parsed_keyword list \<Rightarrow> sp_globals \<Rightarrow> (sp_globals \<times> zend_result) eff"

definition end_of_rule :: "rule_processor \<Rightarrow> scan_state \<Rightarrow> sp_globals \<Rightarrow> scan_effect" where
  "end_of_rule process_rule st g =
     (if sc_res0 st = 0 then goto YY_init st g
      else ebind (process_rule (sc_rule st) g) (\<lambda>(g', r).
        if r = SUCCESS then goto YY_init st g' else ret (Scan_out FAILURE, g')))"

fun rule_action :: "php \<Rightarrow> string \<Rightarrow> rule_processor \<Rightarrow> token \<Rightarrow> scan_state \<Rightarrow> sp_globals \<Rightarrow> scan_effect" where
  "rule_action E filename process_rule T_newline st g = goto YY_rule (next_line st) g"
| "rule_action E filename process_rule (T_keyword k arg) st g =
     (if sc_res0 st = 0 then goto YY_rule st g
      else if length (sc_rule st) = MAX_KEYWORDS
      then scan_error E filename (''too many keywords in rule (more than '' @ show_nat MAX_KEYWORDS @ '')'') st g
      else goto_or_error E filename st g YY_rule
        (map_sum id (\<lambda>kw. st\<lparr>sc_rule := sc_rule st @ [kw]\<rparr>) (scanned_keyword filename st k arg)))"
| "rule_action E filename process_rule T_semicolon st g = end_of_rule process_rule st g"
| "rule_action E filename process_rule (T_nonascii c) st g = scan_error E filename (nonascii_message c) st g"
| "rule_action E filename process_rule T_any st g = end_of_rule process_rule st g"
| "rule_action E filename process_rule _ st g = goto YY_rule st g"

definition scan_action ::
  "php \<Rightarrow> config_source \<Rightarrow> string \<Rightarrow> rule_processor \<Rightarrow> token \<Rightarrow> scan_state \<Rightarrow> sp_globals \<Rightarrow> scan_effect" where
  "scan_action E C filename process_rule t st =
     (case sc_cond st of
        YY_init \<Rightarrow> init_action E filename t st
      | YY_cond \<Rightarrow> cond_action E C filename t st
      | YY_cond_op \<Rightarrow> cond_op_action E filename t st
      | YY_rule \<Rightarrow> rule_action E filename process_rule t st)"

section \<open>The scan\<close>

function scan_from ::
  "php \<Rightarrow> config_source \<Rightarrow> string \<Rightarrow> rule_processor \<Rightarrow> scan_state \<Rightarrow> string \<Rightarrow> sp_globals \<Rightarrow> (sp_globals \<times> zend_result) eff" where
  "scan_from E C filename process_rule st data g =
     (case lex_token (sc_cond st) data of
        None \<Rightarrow> crash
      | Some (t, rest) \<Rightarrow>
          ebind (scan_action E C filename process_rule t st g) (\<lambda>(r, g').
            case r of
              Scan_out z \<Rightarrow> ret (g', z)
            | Scan_goto st' \<Rightarrow> scan_from E C filename process_rule st' rest g'))"
  by pat_completeness auto
termination
  by (relation "measure (\<lambda>(E, C, filename, process_rule, st, data, g). length data)") (auto dest: lex_token_length)

declare scan_from.simps [simp del]

definition sp_config_scan ::
  "php \<Rightarrow> config_source \<Rightarrow> string \<Rightarrow> rule_processor \<Rightarrow> string \<Rightarrow> sp_globals \<Rightarrow> (sp_globals \<times> zend_result) eff" where
  "sp_config_scan E C data process_rule filename g = scan_from E C filename process_rule (scan_start C) (data @ [NUL]) g"

section \<open>What a scan keeps\<close>

lemma snd_cs_log: "snd (cs_log E level n msg g) = Done g' \<Longrightarrow> g' = g\<lparr>spg_config_lineno := n mod 2 ^ 32\<rparr>"
  by (auto simp: cs_log_def Let_def eseq_Done_iff)

lemma scan_error_Done:
  "snd (scan_error E f msg st g) = Done (r, g') \<Longrightarrow> r = Scan_out FAILURE \<and> g' = g\<lparr>spg_config_lineno := sc_lineno st mod 2 ^ 32\<rparr>"
  by (auto simp: scan_error_def ebind_Done_iff dest: snd_cs_log)

text \<open>The stacks do not touch the rule and the variables.\<close>

definition sc_text :: "scan_state \<Rightarrow> sp_parsed_keyword list \<times> (string \<rightharpoonup> string)" where
  "sc_text st = (sc_rule st, sc_vars st)"

lemma sy_push_text:
  "sy_res_push v st = Inr st' \<Longrightarrow> sc_text st' = sc_text st"
  "sy_op_push op st = Inr st' \<Longrightarrow> sc_text st' = sc_text st"
  by (auto simp: sy_res_push_def sy_op_push_def sc_text_def split: if_splits)

lemma sy_apply_text: "sy_apply_from_stack op st = Inr st' \<Longrightarrow> sc_text st' = sc_text st"
  by (auto simp: sy_apply_from_stack_def Let_def split: if_splits dest!: sy_push_text) (simp_all add: sc_text_def)

lemma sy_unwind_text: "sy_unwind halts ops st = Inr st' \<Longrightarrow> sc_text st' = sc_text st"
  by (induction halts ops st rule: sy_unwind.induct)
    (auto simp: sc_text_def split: if_splits sum.splits dest!: sy_apply_text)

lemma then_sum_Inr: "then_sum m f = Inr b \<longleftrightarrow> (\<exists>a. m = Inr a \<and> f a = Inr b)"
  by (cases m) (simp_all add: then_sum_def)

lemma close_text:
  "close_paren st = Inr st' \<Longrightarrow> sc_text st' = sc_text st"
  "end_of_condition st = Inr st' \<Longrightarrow> sc_text st' = sc_text st"
  by (auto simp: close_paren_def end_of_condition_def sc_text_def split: list.splits if_splits)

definition small_text :: "nat \<Rightarrow> scan_state \<Rightarrow> bool" where
  "small_text N st \<longleftrightarrow> (\<forall>kw\<in>set (sc_rule st). kw_arglen kw \<le> N) \<and> (\<forall>x v. sc_vars st x = Some v \<longrightarrow> length v \<le> N)"

lemma small_text_cong: "sc_text st' = sc_text st \<Longrightarrow> small_text N st' = small_text N st"
  by (simp add: small_text_def sc_text_def)

lemma scanned_keyword_small:
  assumes "scanned_keyword f st k arg = Inr kw" "small_text N st" "token_size (T_keyword k arg) \<le> N"
  shows "kw_arglen kw \<le> N"
  using assms
  by (auto simp: scanned_keyword_def Let_def kw_arglen_def small_text_def split: option.splits if_splits)

lemma goto_Done: "snd (goto c st g) = Done (r, g') \<longleftrightarrow> r = Scan_goto (goto_yyc c st) \<and> g' = g"
  by (auto simp: goto_def)

lemma small_text_updates [simp]:
  "small_text N (goto_yyc c st) = small_text N st" "small_text N (next_line st) = small_text N st"
  "small_text N (st\<lparr>sc_active := b, sc_res := vs\<rparr>) = small_text N st"
  "small_text N (st\<lparr>sc_res0 := v, sc_res := vs, sc_active := b\<rparr>) = small_text N st"
  by (simp_all add: small_text_def goto_yyc_def next_line_def)

lemma small_text_rule: "small_text N st \<Longrightarrow> \<forall>kw\<in>set kws. kw_arglen kw \<le> N \<Longrightarrow> small_text N (st\<lparr>sc_rule := kws\<rparr>)"
  by (simp add: small_text_def)

lemma small_text_var: "small_text N st \<Longrightarrow> length v \<le> N \<Longrightarrow> small_text N (st\<lparr>sc_vars := (sc_vars st)(key \<mapsto> v)\<rparr>)"
  by (simp add: small_text_def)

text \<open>An action that keeps a property of the globals, and the bound on what the state holds of the text.\<close>

definition action_keeps :: "(sp_globals \<Rightarrow> bool) \<Rightarrow> nat \<Rightarrow> scan_effect \<Rightarrow> bool" where
  "action_keeps I N a \<longleftrightarrow> (\<forall>r g'. snd a = Done (r, g') \<longrightarrow> I g' \<and> (\<forall>st'. r = Scan_goto st' \<longrightarrow> small_text N st'))"

definition any_line :: "(sp_globals \<Rightarrow> bool) \<Rightarrow> bool" where
  "any_line I \<longleftrightarrow> (\<forall>g n. I g \<longrightarrow> I (g\<lparr>spg_config_lineno := n\<rparr>))"

lemma keeps_goto: "I g \<Longrightarrow> small_text N st \<Longrightarrow> action_keeps I N (goto c st g)"
  by (auto simp: action_keeps_def goto_Done)

lemma keeps_out: "I g \<Longrightarrow> action_keeps I N (ret (Scan_out z, g))"
  by (auto simp: action_keeps_def)

lemma keeps_error: "any_line I \<Longrightarrow> I g \<Longrightarrow> action_keeps I N (scan_error E f msg st g)"
  by (auto simp: action_keeps_def any_line_def dest!: scan_error_Done)

lemma keeps_log: "any_line I \<Longrightarrow> I g \<Longrightarrow> (\<And>g'. I g' \<Longrightarrow> action_keeps I N (k g')) \<Longrightarrow> action_keeps I N (ebind (cs_log E level n msg g) k)"
  unfolding action_keeps_def any_line_def ebind_Done_iff by (metis snd_cs_log)

lemma keeps_goto_or_error:
  assumes "any_line I" "I g" "small_text N st" "\<And>st'. m = Inr st' \<Longrightarrow> small_text N st'"
  shows "action_keeps I N (goto_or_error E f st g c m)"
  using assms keeps_error keeps_goto by (cases m) (auto simp: goto_or_error_def)

lemma keeps_init: "any_line I \<Longrightarrow> I g \<Longrightarrow> small_text N st \<Longrightarrow> token_size t \<le> N \<Longrightarrow> action_keeps I N (init_action E f t st g)"
  by (cases t) (auto intro!: keeps_goto keeps_out keeps_error keeps_log small_text_rule small_text_var)

lemma keeps_cond: "any_line I \<Longrightarrow> I g \<Longrightarrow> small_text N st \<Longrightarrow> action_keeps I N (cond_action E C f t st g)"
  by (cases t) (auto intro!: keeps_goto keeps_error keeps_goto_or_error dest: sy_push_text small_text_cong split: option.split)

lemma keeps_cond_op: "any_line I \<Longrightarrow> I g \<Longrightarrow> small_text N st \<Longrightarrow> action_keeps I N (cond_op_action E f t st g)"
  by (cases t) (auto simp: then_sum_Inr intro!: keeps_goto keeps_error keeps_goto_or_error
      dest!: sy_push_text sy_unwind_text close_text small_text_cong [of _ _ N])

lemma keeps_end_of_rule:
  assumes "I g" "small_text N st"
    and "\<And>rule g' r. \<forall>kw\<in>set rule. kw_arglen kw \<le> N \<Longrightarrow> snd (pr rule g) = Done (g', r) \<Longrightarrow> I g'"
  shows "action_keeps I N (end_of_rule pr st g)"
proof (cases "sc_res0 st = 0")
  case True
  then show ?thesis using assms(1,2) by (simp add: end_of_rule_def keeps_goto)
next
  case False
  have "\<forall>kw\<in>set (sc_rule st). kw_arglen kw \<le> N" using assms(2) by (simp add: small_text_def)
  from assms(3) [OF this] show ?thesis using False assms(2)
    by (auto simp: end_of_rule_def action_keeps_def goto_Done ebind_Done_iff split: if_splits)
qed

lemma keeps_rule:
  assumes "any_line I" "I g" "small_text N st" "token_size t \<le> N"
    and "\<And>rule g' r. \<forall>kw\<in>set rule. kw_arglen kw \<le> N \<Longrightarrow> snd (pr rule g) = Done (g', r) \<Longrightarrow> I g'"
  shows "action_keeps I N (rule_action E f pr t st g)"
proof (cases t)
  case (T_keyword k arg)
  have "small_text N (st\<lparr>sc_rule := sc_rule st @ [kw]\<rparr>)" if "scanned_keyword f st k arg = Inr kw" for kw
    using scanned_keyword_small [OF that assms(3)] assms(3,4) T_keyword
    by (intro small_text_rule) (auto simp: small_text_def)
  then show ?thesis using assms(1-3)
    by (cases "scanned_keyword f st k arg") (auto simp: T_keyword intro!: keeps_goto keeps_error keeps_goto_or_error)
qed (use assms in \<open>auto intro!: keeps_goto keeps_error keeps_end_of_rule\<close>)

lemma keeps_scan_action:
  assumes "any_line I" "I g" "small_text N st" "token_size t \<le> N"
    and "\<And>rule g' r. \<forall>kw\<in>set rule. kw_arglen kw \<le> N \<Longrightarrow> snd (pr rule g) = Done (g', r) \<Longrightarrow> I g'"
  shows "action_keeps I N (scan_action E C f pr t st g)"
  using keeps_init [OF assms(1-4)] keeps_cond [OF assms(1-3)] keeps_cond_op [OF assms(1-3)] keeps_rule [OF assms]
  by (simp add: scan_action_def split: yycond.split)

lemma scan_from_keeps:
  assumes "any_line I"
    and "\<And>rule g g' r. I g \<Longrightarrow> \<forall>kw\<in>set rule. kw_arglen kw \<le> N \<Longrightarrow> snd (pr rule g) = Done (g', r) \<Longrightarrow> I g'"
  shows "small_text N st \<Longrightarrow> length data \<le> N \<Longrightarrow> I g \<Longrightarrow> snd (scan_from E C f pr st data g) = Done (g', r) \<Longrightarrow> I g'"
proof (induction data arbitrary: st g rule: length_induct)
  case (1 data)
  obtain t rest a g1 where s: "lex_token (sc_cond st) data = Some (t, rest)"
      "snd (scan_action E C f pr t st g) = Done (a, g1)"
      "snd (case a of Scan_out z \<Rightarrow> ret (g1, z) | Scan_goto st' \<Rightarrow> scan_from E C f pr st' rest g1) = Done (g', r)"
    using "1.prems"(4) by (subst (asm) scan_from.simps) (auto simp: ebind_Done_iff split: option.splits)
  have "action_keeps I N (scan_action E C f pr t st g)"
    using keeps_scan_action [OF assms(1) "1.prems"(3,1)] lex_token_size [OF s(1)] "1.prems"(2,3) assms(2) by fastforce
  then have k: "I g1" "\<And>st'. a = Scan_goto st' \<Longrightarrow> small_text N st'" using s(2) by (auto simp: action_keeps_def)
  show ?case
  proof (cases a)
    case (Scan_goto st')
    have "length rest < length data" using lex_token_length [OF s(1)] .
    then show ?thesis using "1.IH" [rule_format, of rest st' g1] "1.prems"(2) s(3) k Scan_goto by simp
  next
    case (Scan_out z)
    then show ?thesis using s(3) k by simp
  qed
qed

lemma sp_config_scan_keeps:
  assumes "any_line I"
    and "\<And>rule g g' r. I g \<Longrightarrow> \<forall>kw\<in>set rule. kw_arglen kw \<le> N \<Longrightarrow> snd (pr rule g) = Done (g', r) \<Longrightarrow> I g'"
    and "length data < N" "length (cs_version C) \<le> N" "I g" "snd (sp_config_scan E C data pr f g) = Done (g', r)"
  shows "I g'"
proof (rule scan_from_keeps [OF assms(1), of N pr])
  show "small_text N (scan_start C)" using assms(4) by (simp add: scan_start_def small_text_def)
  show "snd (scan_from E C f pr (scan_start C) (data @ [NUL]) g) = Done (g', r)" using assms(6) by (simp add: sp_config_scan_def)
qed (use assms(2,3,5) in auto)

end
