(* ===== verification/Scan_Rules.thy ===== *)
theory Scan_Rules
  imports Config_Scanner
begin

text \<open>
  What the scanner makes of rules: the text of a rule, as \<open>sp_get_textual_representation\<close> writes it, is scanned
  to that rule; and where the text must end for the scan to stop at its terminator.
\<close>

section \<open>Steps of the scan\<close>

lemma scan_from_step:
  "lex_token (sc_cond st) data = Some (t, rest) \<Longrightarrow>
   scan_from E C f pr st data g =
     ebind (scan_action E C f pr t st g) (\<lambda>(r, g').
       case r of Scan_out z \<Rightarrow> ret (g', z) | Scan_goto st' \<Rightarrow> scan_from E C f pr st' rest g')"
  by (subst scan_from.simps) simp

lemma scan_from_goto:
  assumes "lex_token (sc_cond st) data = Some (t, rest)" "scan_action E C f pr t st g = ret (Scan_goto st', g')"
  shows "scan_from E C f pr st data g = scan_from E C f pr st' rest g'"
  by (simp add: scan_from_step [OF assms(1)] assms(2))

lemma scan_from_out:
  assumes "lex_token (sc_cond st) data = Some (t, rest)" "scan_action E C f pr t st g = ret (Scan_out z, g')"
  shows "scan_from E C f pr st data g = ret (g', z)"
  by (simp add: scan_from_step [OF assms(1)] assms(2))

lemma lex_token_simps [simp]:
  "lex_token YY_init = lex_init" "lex_token YY_cond = lex_cond" "lex_token YY_cond_op = lex_cond_op" "lex_token YY_rule = lex_rule"
  by (simp_all add: lex_token_def)

text \<open>Where the first byte decides.\<close>

lemma lit_Cons [simp]: "lit (c # p) (d # s) = (if c = d then lit p s else None)" "lit [] s = Some s" "lit (c # p) [] = None"
  by (auto simp: lit_def)

lemma lex_blanks_Cons [simp]: "lex_blanks (c # s) = (if is_blank c then Some (dropWhile is_blank s) else None)"
  by (simp add: lex_blanks_def)

lemma lex_newline_LF [simp]: "c \<noteq> CR \<Longrightarrow> lex_newline (c # s) = (if c = LF then Some s else None)"
  by (simp add: lex_newline_def)

lemma lex_init_NUL: "lex_init (NUL # s) = Some (T_end, s)"
  by (simp add: lex_init_def lex_nonascii_def is_nonascii_def lex_blank_def is_blank_def lex_comment_def token_if_def)

lemma lex_init_LF: "lex_init (LF # s) = Some (T_newline, s)"
  by (simp add: lex_init_def lex_nonascii_def is_nonascii_def lex_blank_def is_blank_def lex_comment_def token_if_def)

lemma lex_init_sp: "lex_init (''sp'' @ s) = Some (T_sp, s)"
  by (simp add: lex_init_def lex_nonascii_def is_nonascii_def lex_blank_def is_blank_def lex_comment_def token_if_def)

lemma lex_rule_semicolon: "lex_rule (CHR '';'' # s) = Some (T_semicolon, s)"
  by (simp add: lex_rule_def lex_blank_def is_blank_def lex_rule_newline_def lex_keyword_def token_if_def)


lemma sc_cond_goto_yyc [simp]: "sc_cond (goto_yyc c st) = c"
  by (simp add: goto_yyc_def)

lemma goto_yyc_same [simp]: "sc_cond st = c \<Longrightarrow> goto_yyc c st = st"
  by (simp add: goto_yyc_def)

lemma scan_from_NUL: "sc_cond st = YY_init \<Longrightarrow> scan_from E C f pr st (NUL # s) g = ret (g, SUCCESS)"
  by (rule scan_from_out [where t = T_end and rest = s]) (simp_all add: lex_init_NUL scan_action_def)

lemma scan_from_LF: "sc_cond st = YY_init \<Longrightarrow> scan_from E C f pr st (LF # s) g = scan_from E C f pr (next_line st) s g"
  by (rule scan_from_goto [where t = T_newline]) (simp_all add: lex_init_LF scan_action_def goto_def next_line_def)

lemma sp_config_scan_empty [simp]: "sp_config_scan E C [] pr f g = ret (g, SUCCESS)"
  by (simp add: sp_config_scan_def scan_from_NUL scan_start_def)

section \<open>Keywords and their arguments\<close>

definition is_name :: "string \<Rightarrow> bool" where
  "is_name n \<longleftrightarrow> (\<exists>c s. n = c # s \<and> is_alpha c \<and> list_all is_word s)"

definition plain_arg :: "string \<Rightarrow> bool" where
  "plain_arg a \<longleftrightarrow> string_body a \<and> (a = [] \<or> last a \<noteq> BACKSLASH)"

text \<open>
  A keyword as the scanner makes them: a name, and no argument, an empty one, or a string that its closing
  quote ends, in ASCII.
\<close>

definition scannable :: "sp_parsed_keyword \<Rightarrow> bool" where
  "scannable kw \<longleftrightarrow> is_name (kw_kw kw) \<and>
     (case kw_argtype kw of
        SP_ARGTYPE_UNKNOWN \<Rightarrow> False
      | SP_ARGTYPE_NONE \<Rightarrow> kw_arg kw = None
      | SP_ARGTYPE_EMPTY \<Rightarrow> kw_arg kw = Some []
      | SP_ARGTYPE_STR \<Rightarrow> (\<exists>a. kw_arg kw = Some a \<and> plain_arg a \<and> list_all (\<lambda>c. \<not> is_nonascii c) a))"

definition located :: "string \<Rightarrow> nat \<Rightarrow> sp_parsed_keyword \<Rightarrow> bool" where
  "located f n kw \<longleftrightarrow> kw_filename kw = f \<and> kw_lineno kw = n"

lemma lex_name_append:
  assumes "is_name n" "\<not> is_word c"
  shows "lex_name (n @ c # r) = Some (n, c # r)"
proof -
  obtain d s where n: "n = d # s" "is_alpha d" "list_all is_word s" using assms(1) by (auto simp: is_name_def)
  then have "takeWhile is_word (s @ c # r) = s" "dropWhile is_word (s @ c # r) = c # r"
    using assms(2) by (simp_all add: takeWhile_append2 dropWhile_append2 list_all_iff)
  then show ?thesis using n by (simp add: lex_name_def)
qed

lemma string_ends_last:
  "in_string b a \<Longrightarrow> (if a = [] then \<not> b else last a \<noteq> BACKSLASH) \<Longrightarrow>
   \<exists>xs. string_ends b (a @ DQUOTE # r) = xs @ [(a, r)]"
proof (induction a arbitrary: b)
  case (Cons c a)
  show ?case
  proof (cases "c = DQUOTE")
    case True
    then obtain xs where "string_ends False (a @ DQUOTE # r) = xs @ [(a, r)]"
      using Cons.IH [of False] Cons.prems by (auto split: if_splits)
    then show ?thesis using True Cons.prems
      by (auto intro: exI [of _ "([], a @ DQUOTE # r) # map (\<lambda>(t, r). (c # t, r)) xs"])
  next
    case False
    then obtain xs where "string_ends (c = BACKSLASH) (a @ DQUOTE # r) = xs @ [(a, r)]"
      using Cons.IH [of "c = BACKSLASH"] Cons.prems by (auto split: if_splits)
    then show ?thesis using False Cons.prems
      by (auto intro: exI [of _ "map (\<lambda>(t, r). (c # t, r)) xs"])
  qed
qed simp

lemma lex_string_plain:
  assumes "plain_arg a" "follow r = Some r'"
  shows "lex_string follow (DQUOTE # a @ DQUOTE # r) = Some (a, r')"
proof -
  obtain xs where "string_ends False (a @ DQUOTE # r) = xs @ [(a, r)]"
    using string_ends_last [of False a r] assms(1) by (cases "a = []") (auto simp: plain_arg_def in_string_iff)
  then show ?thesis using assms(2)
    by (cases "filter (\<lambda>(t, r). \<exists>y. follow r = Some y) xs") (simp_all add: lex_string_def)
qed

lemma lex_string_other [simp]: "c \<noteq> DQUOTE \<Longrightarrow> lex_string follow (c # s) = None"
  by (simp add: lex_string_def)

text \<open>The argument of a keyword, as it is written.\<close>

definition raw_arg :: "sp_parsed_keyword \<Rightarrow> string option" where
  "raw_arg kw = (if kw_argtype kw = SP_ARGTYPE_STR then map_option (\<lambda>a. [DQUOTE] @ a @ [DQUOTE]) (kw_arg kw) else kw_arg kw)"

lemma separators_not_word: "\<not> is_word (CHR ''.'')" "\<not> is_word (CHR '';'')" "\<not> is_word (CHR ''('')" "\<not> is_word NUL"
  by (simp_all add: is_word_def is_alnum_def is_digit_def is_upper_def is_lower_def)

lemma lex_args_text:
  assumes "scannable kw" "c \<noteq> CHR ''(''" "\<not> is_word c"
  shows "lex_keyword (kw_text kw @ c # r) = Some (T_keyword (kw_kw kw) (raw_arg kw), c # r)"
proof (cases "kw_argtype kw")
  case SP_ARGTYPE_UNKNOWN
  then show ?thesis using assms(1) by (simp add: scannable_def)
next
  case SP_ARGTYPE_NONE
  then show ?thesis using assms
    by (simp add: scannable_def kw_text_def lex_keyword_def lex_name_append lex_args_def raw_arg_def)
next
  case SP_ARGTYPE_EMPTY
  then show ?thesis using assms(1)
    by (simp add: scannable_def kw_text_def lex_keyword_def lex_name_append separators_not_word lex_args_def raw_arg_def)
next
  case SP_ARGTYPE_STR
  then obtain a where a: "kw_arg kw = Some a" "plain_arg a" "is_name (kw_kw kw)" using assms(1) by (auto simp: scannable_def)
  have "lex_string (lit '')'') (DQUOTE # a @ DQUOTE # CHR '')'' # c # r) = Some (a, c # r)"
    by (rule lex_string_plain [OF a(2)]) simp
  then show ?thesis using a SP_ARGTYPE_STR
    by (simp add: kw_text_def lex_keyword_def lex_name_append separators_not_word lex_args_def raw_arg_def)
qed

lemma lex_rule_text:
  assumes "scannable kw" "c \<noteq> CHR ''(''" "\<not> is_word c"
  shows "lex_rule (kw_text kw @ c # r) = Some (T_keyword (kw_kw kw) (raw_arg kw), c # r)"
proof -
  obtain s where s: "kw_text kw = CHR ''.'' # s" by (auto simp: kw_text_def)
  have "lex_blank (kw_text kw @ c # r) = None" "lex_rule_newline (kw_text kw @ c # r) = None"
    by (simp_all add: s lex_blank_def is_blank_def token_if_def lex_rule_newline_def)
  then show ?thesis using lex_args_text [OF assms] by (simp add: lex_rule_def)
qed

lemma is_nonascii_DQUOTE [simp]: "\<not> is_nonascii DQUOTE"
  by (simp add: is_nonascii_def)

lemma scanned_keyword_text:
  assumes "scannable kw" "located f (sc_lineno st) kw"
  shows "scanned_keyword f st (kw_kw kw) (raw_arg kw) = Inr kw"
proof -
  have find: "find is_nonascii (DQUOTE # a @ [DQUOTE]) = None" if "list_all (\<lambda>c. \<not> is_nonascii c) a" for a
    using that by (auto simp: find_None_iff list_all_iff)
  show ?thesis using assms find
    by (cases kw; cases "kw_argtype kw") (auto simp: scannable_def located_def scanned_keyword_def raw_arg_def Let_def)
qed

lemma scan_keyword:
  assumes "sc_cond st = YY_rule" "sc_res0 st \<noteq> 0" "length (sc_rule st) < MAX_KEYWORDS" "scannable kw"
    and "located f (sc_lineno st) kw" "c \<noteq> CHR ''(''" "\<not> is_word c"
  shows "scan_from E C f pr st (kw_text kw @ c # r) g = scan_from E C f pr (st\<lparr>sc_rule := sc_rule st @ [kw]\<rparr>) (c # r) g"
  by (rule scan_from_goto [where t = "T_keyword (kw_kw kw) (raw_arg kw)"])
    (use assms in \<open>simp_all add: lex_rule_text scan_action_def scanned_keyword_text goto_or_error_def goto_def\<close>)

text \<open>All keywords, up to what ends the rule.\<close>

lemma scan_keywords:
  assumes "sc_cond st = YY_rule" "sc_res0 st \<noteq> 0" "length (sc_rule st) + length kws \<le> MAX_KEYWORDS"
    and "\<forall>kw\<in>set kws. scannable kw \<and> located f (sc_lineno st) kw" "c \<noteq> CHR ''(''" "\<not> is_word c"
  shows "scan_from E C f pr st (concat (map kw_text kws) @ c # r) g =
    scan_from E C f pr (st\<lparr>sc_rule := sc_rule st @ kws\<rparr>) (c # r) g"
  using assms(1-4)
proof (induction kws arbitrary: st)
  case (Cons kw kws)
  obtain d r' where d: "concat (map kw_text kws) @ c # r = d # r'" "d \<noteq> CHR ''(''" "\<not> is_word d"
    using assms(5,6) separators_not_word(1) by (cases kws) (auto simp: kw_text_def)
  have "scan_from E C f pr st (kw_text kw @ d # r') g = scan_from E C f pr (st\<lparr>sc_rule := sc_rule st @ [kw]\<rparr>) (d # r') g"
    using Cons.prems d(2,3) by (intro scan_keyword) auto
  then show ?case
    using Cons.IH [of "st\<lparr>sc_rule := sc_rule st @ [kw]\<rparr>"] Cons.prems by (simp flip: d(1))
qed simp

section \<open>Rules and files of rules\<close>

lemma scan_rule:
  assumes "sc_cond st = YY_init" "sc_res0 st \<noteq> 0" "length rule \<le> MAX_KEYWORDS"
    and "\<forall>kw\<in>set rule. scannable kw \<and> located f (sc_lineno st) kw"
  shows "scan_from E C f pr st (sp_get_textual_representation rule @ r) g =
    ebind (pr rule g) (\<lambda>(g', z). if z = SUCCESS then scan_from E C f pr (st\<lparr>sc_rule := rule\<rparr>) r g' else ret (g', FAILURE))"
proof -
  let ?st = "goto_yyc YY_rule (st\<lparr>sc_rule := []\<rparr>)"
  have "scan_from E C f pr st (sp_get_textual_representation rule @ r) g =
      scan_from E C f pr ?st (concat (map kw_text rule) @ CHR '';'' # r) g"
    by (rule scan_from_goto [where t = T_sp])
      (use assms(1) lex_init_sp in \<open>auto simp: sp_get_textual_representation_def scan_action_def goto_def goto_yyc_def\<close>)
  also have "\<dots> = scan_from E C f pr (?st\<lparr>sc_rule := rule\<rparr>) (CHR '';'' # r) g"
    using scan_keywords [of ?st rule f "CHR '';''"] assms separators_not_word by (simp add: goto_yyc_def)
  also have "\<dots> = ebind (pr rule g) (\<lambda>(g', z). if z = SUCCESS then scan_from E C f pr (st\<lparr>sc_rule := rule\<rparr>) r g' else ret (g', FAILURE))"
  proof -
    have "st\<lparr>sc_rule := rule, sc_cond := YY_init\<rparr> = st\<lparr>sc_rule := rule\<rparr>" using assms(1) by simp
    then show ?thesis using assms(2)
      by (subst scan_from_step [where t = T_semicolon and rest = r])
        (auto simp: lex_rule_semicolon scan_action_def end_of_rule_def ebind_assoc goto_def goto_yyc_def
            intro!: arg_cong [of _ _ "ebind (pr rule g)"] ext)
  qed
  finally show ?thesis .
qed

text \<open>
  A file of rules: each on its own line, so that the keywords of the \<open>n\<close>-th rule are on line \<open>n\<close>. What the
  scan is to do with it: process the rules in their order, until one fails.
\<close>

definition config_text :: "sp_parsed_keyword list list \<Rightarrow> string" where
  "config_text rules = concat (map (\<lambda>rule. sp_get_textual_representation rule @ [LF]) rules)"

fun scannable_rules :: "string \<Rightarrow> nat \<Rightarrow> sp_parsed_keyword list list \<Rightarrow> bool" where
  "scannable_rules f n [] = True"
| "scannable_rules f n (rule # rules) =
     (length rule \<le> MAX_KEYWORDS \<and> (\<forall>kw\<in>set rule. scannable kw \<and> located f n kw) \<and> scannable_rules f (n + 1) rules)"

fun process_rules :: "rule_processor \<Rightarrow> sp_parsed_keyword list list \<Rightarrow> sp_globals \<Rightarrow> (sp_globals \<times> zend_result) eff" where
  "process_rules pr [] g = ret (g, SUCCESS)"
| "process_rules pr (rule # rules) g =
     ebind (pr rule g) (\<lambda>(g', r). if r = SUCCESS then process_rules pr rules g' else ret (g', FAILURE))"

lemma scan_rules:
  "sc_cond st = YY_init \<Longrightarrow> sc_res0 st \<noteq> 0 \<Longrightarrow> scannable_rules f (sc_lineno st) rules \<Longrightarrow>
   scan_from E C f pr st (config_text rules @ [NUL]) g = process_rules pr rules g"
proof (induction rules arbitrary: st g)
  case Nil
  then show ?case by (simp add: config_text_def scan_from_NUL)
next
  case (Cons rule rules)
  let ?st = "st\<lparr>sc_rule := rule\<rparr>"
  have "scan_from E C f pr ?st (LF # config_text rules @ [NUL]) g' = process_rules pr rules g'" for g'
    using Cons.prems Cons.IH [of "next_line ?st"] by (simp add: scan_from_LF next_line_def)
  then show ?case using Cons.prems scan_rule [of st rule f E C pr "LF # config_text rules @ [NUL]" g]
    by (simp add: config_text_def cong: if_cong)
qed

text \<open>
  C8. The configuration language round-trips: the text of a list of rules, as
  \<open>sp_get_textual_representation\<close> writes them, one on a line, is scanned to those rules, which are
  processed in their order until one fails. The keywords are names, with no argument, an empty
  one, or an ASCII string whose quotes are escaped and which does not end with a backslash, 16
  to a rule at most.
\<close>

theorem config_text_roundtrip:
  assumes "scannable_rules f 1 rules"
  shows "sp_config_scan E C (config_text rules) pr f g = process_rules pr rules g"
  using scan_rules [of "scan_start C" f rules] assms by (simp add: sp_config_scan_def scan_start_def)

definition sample_source :: "(string \<Rightarrow> string + string) \<Rightarrow> config_source" where
  "sample_source files = \<lparr>cs_read = files, cs_module_loaded = (\<lambda>m. m = ''session''), cs_version = ''80300''\<rparr>"

definition bare_kw :: "nat \<Rightarrow> string \<Rightarrow> sp_parsed_keyword" where
  "bare_kw n k = \<lparr>kw_kw = k, kw_arg = None, kw_argtype = SP_ARGTYPE_NONE, kw_lineno = n, kw_filename = ''sp.rules''\<rparr>"

definition plain_kw :: "nat \<Rightarrow> string \<Rightarrow> sp_parsed_keyword" where
  "plain_kw n k = \<lparr>kw_kw = k, kw_arg = Some [], kw_argtype = SP_ARGTYPE_EMPTY, kw_lineno = n, kw_filename = ''sp.rules''\<rparr>"

definition arg_kw :: "nat \<Rightarrow> string \<Rightarrow> string \<Rightarrow> sp_parsed_keyword" where
  "arg_kw n k a = \<lparr>kw_kw = k, kw_arg = Some a, kw_argtype = SP_ARGTYPE_STR, kw_lineno = n, kw_filename = ''sp.rules''\<rparr>"

lemma scannable_plain_kw [simp]: "scannable (plain_kw n k) = is_name k" "scannable (bare_kw n k) = is_name k"
  by (simp_all add: scannable_def plain_kw_def bare_kw_def)

lemma scannable_arg_kw [simp]:
  "scannable (arg_kw n k a) \<longleftrightarrow> is_name k \<and> plain_arg a \<and> list_all (\<lambda>c. \<not> is_nonascii c) a"
  by (simp add: scannable_def arg_kw_def)

lemma located_samples [simp]:
  "located ''sp.rules'' m (bare_kw n k) \<longleftrightarrow> n = m" "located ''sp.rules'' m (plain_kw n k) \<longleftrightarrow> n = m"
  "located ''sp.rules'' m (arg_kw n k a) \<longleftrightarrow> n = m"
  by (simp_all add: located_def bare_kw_def plain_kw_def arg_kw_def)

lemma is_name_eval: "is_name (c # s) \<longleftrightarrow> is_alpha c \<and> list_all is_word s"
  by (auto simp: is_name_def)

lemmas char_classes = is_alpha_def is_word_def is_alnum_def is_digit_def is_upper_def is_lower_def

lemma plain_arg_eval: "plain_arg a \<longleftrightarrow> in_string False a \<and> (a = [] \<or> last a \<noteq> BACKSLASH)"
  by (simp add: plain_arg_def in_string_iff)

theorem config_text_roundtrip_witness:
  "sp_config_scan sample_php (sample_source (\<lambda>_. Inl []))
      (''sp.global.secret_key('' @ [DQUOTE] @ ''a'' @ [BACKSLASH, DQUOTE] @ ''b'' @ [DQUOTE] @ '');'' @ [LF] @ ''sp.xxe_protection.enable();'' @ [LF])
      (\<lambda>rule g. ([Ev_Call (kw_kw (hd rule)) (map kw_kw (tl rule))], Done (g, SUCCESS))) ''sp.rules'' sample_globals =
    ([Ev_Call ''global'' [''secret_key''], Ev_Call ''xxe_protection'' [''enable'']], Done (sample_globals, SUCCESS))"
proof -
  let ?rules = "[[bare_kw 1 ''global'', arg_kw 1 ''secret_key'' (''a'' @ [BACKSLASH, DQUOTE] @ ''b'')],
    [bare_kw 2 ''xxe_protection'', plain_kw 2 ''enable'']]"
  have "scannable_rules ''sp.rules'' 1 ?rules"
    by (simp add: is_name_eval char_classes plain_arg_eval line_end_def is_nonascii_def)
  moreover have "config_text ?rules = ''sp.global.secret_key('' @ [DQUOTE] @ ''a'' @ [BACKSLASH, DQUOTE] @ ''b'' @ [DQUOTE] @ '');'' @ [LF] @
      ''sp.xxe_protection.enable();'' @ [LF]"
    by (simp add: config_text_def sp_get_textual_representation_def kw_text_def bare_kw_def plain_kw_def arg_kw_def)
  ultimately show ?thesis using config_text_roundtrip [of "''sp.rules''" ?rules sample_php "sample_source (\<lambda>_. Inl [])"
        "\<lambda>rule g. ([Ev_Call (kw_kw (hd rule)) (map kw_kw (tl rule))], Done (g, SUCCESS))" sample_globals]
    by (simp add: bare_kw_def plain_kw_def arg_kw_def ret_def)
qed

section \<open>Where the scan ends\<close>



lemma snd_cs_log_Crash [simp]: "snd (cs_log E level n msg g) \<noteq> Crash"
proof -
  have "snd (sp_log_msgf L feature level SP_TYPE_LOG msg) \<noteq> Crash" for L feature
    using snd_sp_log_msgf_cases [of SP_TYPE_LOG L feature level msg] by auto
  then show ?thesis by (simp add: cs_log_def Let_def snd_eseq split: outcome.split)
qed

lemma snd_scan_error_Crash [simp]: "snd (scan_error E f msg st g) \<noteq> Crash"
  by (simp add: scan_error_def snd_ebind split: outcome.split prod.split)

lemma snd_goto_Crash [simp]: "snd (goto c st g) \<noteq> Crash"
  by (simp add: goto_def)

lemma snd_goto_or_error_Crash [simp]: "snd (goto_or_error E f st g c m) \<noteq> Crash"
  by (cases m) (simp_all add: goto_or_error_def)

lemma scan_action_no_Crash:
  assumes "\<And>rule g. snd (pr rule g) \<noteq> Crash"
  shows "snd (scan_action E C f pr t st g) \<noteq> Crash"
proof -
  have "snd (ebind (cs_log E level n msg g) k) \<noteq> Crash" if "\<And>g'. snd (k g') \<noteq> Crash" for level n msg g and k :: "sp_globals \<Rightarrow> scan_effect"
    using that by (simp add: snd_ebind split: outcome.split)
  moreover have "snd (end_of_rule pr st g) \<noteq> Crash"
    using assms by (auto simp: end_of_rule_def snd_ebind split: outcome.split)
  ultimately show ?thesis
    by (cases "sc_cond st"; cases t) (auto simp: scan_action_def split: option.split)
qed

text \<open>What is left of a text whose last byte ends a rule: more of it, or the terminator outside of rules.\<close>

definition ends_rules :: "char \<Rightarrow> scan_state \<Rightarrow> string \<Rightarrow> bool" where
  "ends_rules c st s \<longleftrightarrow> (\<exists>p. s = p @ [c, NUL]) \<or> s = [NUL] \<and> sc_cond st \<noteq> YY_rule"

lemma lex_rule_tokens:
  "lex_rule s = Some (t, r) \<Longrightarrow>
   t = T_blank \<or> t = T_newline \<and> dot_ahead r \<or> (\<exists>k a. t = T_keyword k a) \<or> t = T_semicolon \<or> (\<exists>c. t = T_nonascii c) \<or> t = T_any"
  by (auto simp: lex_rule_def lex_blank_def lex_rule_newline_def lex_keyword_def lex_nonascii_def lex_any_def token_if_def
      bind_eq_Some_conv split: option.splits list.splits if_splits)

lemma scan_goto_rule:
  assumes "snd (scan_action E C f pr t st g) = Done (Scan_goto st', g')" "sc_cond st' = YY_rule"
  shows "sc_cond st = YY_init \<and> t = T_sp \<or> sc_cond st = YY_rule \<and> t \<noteq> T_any \<and> t \<noteq> T_semicolon \<and> (\<forall>c. t \<noteq> T_nonascii c)"
proof -
  have err: "snd (scan_error E f msg st g) \<noteq> Done (Scan_goto st', g')" for msg by (auto dest: scan_error_Done)
  have rule: "snd (goto c st1 g1) = Done (Scan_goto st', g') \<Longrightarrow> c = YY_rule" for c st1 g1 using assms(2) by (auto simp: goto_Done)
  have or: "snd (goto_or_error E f st g c m) = Done (Scan_goto st', g') \<Longrightarrow> c = YY_rule" for c m
    using err rule by (cases m) (auto simp: goto_or_error_def)
  have er: "snd (end_of_rule pr st g) \<noteq> Done (Scan_goto st', g')"
    using rule by (fastforce simp: end_of_rule_def ebind_Done_iff split: if_splits)
  show ?thesis
  proof (cases "sc_cond st")
    case YY_init
    then show ?thesis using assms(1) err rule
      by (cases t) (fastforce simp: scan_action_def ebind_Done_iff split: if_splits)+
  next
    case YY_cond
    then show ?thesis using assms(1) err rule or
      by (cases t) (fastforce simp: scan_action_def split: if_splits option.splits)+
  next
    case YY_cond_op
    then show ?thesis using assms(1) err rule or by (cases t) (fastforce simp: scan_action_def)+
  next
    case YY_rule
    then show ?thesis using assms(1) err er by (cases t) (auto simp: scan_action_def)
  qed
qed

lemma ends_rules_step:
  assumes "ends_rules c st s" "c = CHR '';'' \<or> c = LF" and l: "lex_token (sc_cond st) s = Some (t, rest)"
    and a: "snd (scan_action E C f pr t st g) = Done (Scan_goto st', g')"
  shows "ends_rules c st' rest"
proof -
  obtain p x where s: "s = p @ x # rest" "token_end t x" using lex_token_took [OF l] by (auto simp: took_def)
  show ?thesis
  proof (cases "\<exists>q. s = q @ [c, NUL]")
    case True
    then obtain q where q: "p @ x # rest = q @ [c, NUL]" using s(1) by auto
    then consider "rest = []" "x = NUL" | "rest = [NUL]" "x = c" | p' where "rest = p' @ [c, NUL]"
      by (cases rest rule: rev_cases; cases "butlast rest" rule: rev_cases) auto
    then show ?thesis
    proof cases
      case 1
      then have "length s = 1" using lex_token_bytewise [OF l] token_end_NUL s(2) by simp
      moreover have "length s = length q + 2" using q s(1) by simp
      ultimately show ?thesis by simp
    next
      case 2
      have "sc_cond st' \<noteq> YY_rule"
      proof
        assume "sc_cond st' = YY_rule"
        from scan_goto_rule [OF a this] show False
        proof
          assume "sc_cond st = YY_init \<and> t = T_sp"
          then show False using s(2) 2 assms(2) by auto
        next
          assume r: "sc_cond st = YY_rule \<and> t \<noteq> T_any \<and> t \<noteq> T_semicolon \<and> (\<forall>c. t \<noteq> T_nonascii c)"
          then have "t = T_blank \<or> (\<exists>k a. t = T_keyword k a)"
            using lex_rule_tokens [of s t rest] l 2(1) dot_ahead_length [of rest] by auto
          then show False using s(2) 2 assms(2) by (auto simp: char_classes is_blank_def)
        qed
      qed
      then show ?thesis using 2 by (simp add: ends_rules_def)
    qed (simp add: ends_rules_def)
  next
    case False
    then have n: "s = [NUL]" "sc_cond st \<noteq> YY_rule" using assms(1) by (auto simp: ends_rules_def)
    then have "sc_cond st = YY_init \<and> t = T_end \<or> sc_cond st \<noteq> YY_init \<and> t = T_any"
      using l by (cases "sc_cond st") (auto simp: lex_init_NUL lex_cond_def lex_cond_op_def lex_blank_def is_blank_def token_if_def
          lex_call_def lex_name_def lex_variable_def lex_number_def lex_any_def lex_op_def char_classes)
    then show ?thesis using a n(2) by (cases "sc_cond st") (auto simp: scan_action_def dest: scan_error_Done)
  qed
qed

text \<open>
  C13. Where the scan stops: in a file whose last byte is a semicolon or a newline, or which is empty, the
  scanner never reads behind the terminator, whatever the file holds.
\<close>

theorem scan_stays_in_text:
  assumes "data = [] \<or> last data = CHR '';'' \<or> last data = LF" "\<And>rule g. snd (pr rule g) \<noteq> Crash"
  shows "snd (sp_config_scan E C data pr f g) \<noteq> Crash"
proof -
  have main: "ends_rules c st s \<Longrightarrow> c = CHR '';'' \<or> c = LF \<Longrightarrow> snd (scan_from E C f pr st s g) \<noteq> Crash" for c st s g
  proof (induction s arbitrary: st g rule: length_induct)
    case (1 s)
    then obtain t rest where l: "lex_token (sc_cond st) s = Some (t, rest)"
      using lex_token_total [of "sc_cond st" s] by (cases "lex_token (sc_cond st) s") (auto simp: ends_rules_def)
    have "snd (scan_from E C f pr st' rest g') \<noteq> Crash" if "snd (scan_action E C f pr t st g) = Done (Scan_goto st', g')" for st' g'
      using "1.IH" lex_token_length [OF l] ends_rules_step [OF "1.prems"(1,2) l that] "1.prems"(2) by blast
    then show ?case using scan_action_no_Crash [OF assms(2)]
      by (subst scan_from_step [OF l]) (auto simp: snd_ebind split: outcome.split scan_result.split)
  qed
  let ?c = "if data = [] then LF else last data"
  have "ends_rules ?c (scan_start C) (data @ [NUL])"
    by (cases data rule: rev_cases) (auto simp: ends_rules_def scan_start_def)
  moreover have "?c = CHR '';'' \<or> ?c = LF" using assms(1) by auto
  ultimately show ?thesis unfolding sp_config_scan_def by (rule main)
qed

theorem scan_stays_in_text_witness:
  "snd (sp_config_scan sample_php (sample_source (\<lambda>_. Inl [])) (''sp.enable()'' @ [LF]) (\<lambda>rule g. ret (g, SUCCESS)) ''sp.rules'' sample_globals) \<noteq> Crash"
  by (rule scan_stays_in_text) simp_all

end
