(* ===== verification/Scan_Conditions.thy ===== *)
theory Scan_Conditions
  imports Scan_Rules
begin

text \<open>
  Conditions in configuration files: the shunting yard of the scanner evaluates an expression as its
  syntax tree says, with the precedences of the source, and the rules between \<open>@condition\<close> and
  \<open>@end_condition\<close> are processed or skipped as a whole.
\<close>

section \<open>Expressions\<close>

datatype cexpr =
    Number string
  | Variable string
  | Extension_loaded string
  | Negation cexpr
  | Binary string cexpr cexpr

definition binary_ops :: "string set" where
  "binary_ops = {''&&'', ''||'', ''<'', ''>'', ''=='', ''<='', ''>=''}"

text \<open>The value of an expression: 0 and 1 are the truth values.\<close>

fun cvalue :: "config_source \<Rightarrow> (string \<rightharpoonup> string) \<Rightarrow> cexpr \<Rightarrow> int" where
  "cvalue C vars (Number ds) = c_atoi ds"
| "cvalue C vars (Variable x) = (case vars x of Some v \<Rightarrow> c_atoi (c_str v) | None \<Rightarrow> 0)"
| "cvalue C vars (Extension_loaded m) = of_bool (cs_module_loaded C m)"
| "cvalue C vars (Negation e) = of_bool (cvalue C vars e = 0)"
| "cvalue C vars (Binary op a b) =
     (let x = cvalue C vars a; y = cvalue C vars b in
      of_bool (if op = ''&&'' then x \<noteq> 0 \<and> y \<noteq> 0
        else if op = ''||'' then x \<noteq> 0 \<or> y \<noteq> 0
        else if op = ''<'' then x < y
        else if op = ''>'' then x > y
        else if op = ''<='' then x \<le> y
        else if op = ''>='' then x \<ge> y
        else x = y))"

text \<open>
  Its text, where an operator of precedence \<open>p\<close> or above is expected: parentheses only where they
  are needed, a blank behind every token.
\<close>

definition op_prec :: "string \<Rightarrow> nat" where
  "op_prec op =
     (if op \<in> {''<'', ''>'', ''<='', ''>=''} then 90 else if op = ''&&'' then 70 else if op = ''||'' then 60 else 20)"

fun ctext :: "nat \<Rightarrow> cexpr \<Rightarrow> string" where
  "ctext p (Number ds) = ds @ '' ''"
| "ctext p (Variable x) = x @ '' ''"
| "ctext p (Extension_loaded m) = ''extension_loaded('' @ [DQUOTE] @ m @ [DQUOTE] @ '') ''"
| "ctext p (Negation e) = ''! '' @ ctext 121 e"
| "ctext p (Binary op a b) =
     (let body = ctext (op_prec op) a @ op @ '' '' @ ctext (op_prec op + 1) b
      in if op_prec op < p then ''( '' @ body @ '') '' else body)"

fun wf_cexpr :: "(string \<rightharpoonup> string) \<Rightarrow> cexpr \<Rightarrow> bool" where
  "wf_cexpr vars (Number ds) \<longleftrightarrow> ds \<noteq> [] \<and> list_all is_digit ds"
| "wf_cexpr vars (Variable x) \<longleftrightarrow> is_name x \<and> x \<in> dom vars"
| "wf_cexpr vars (Extension_loaded m) \<longleftrightarrow> plain_arg m"
| "wf_cexpr vars (Negation e) \<longleftrightarrow> wf_cexpr vars e"
| "wf_cexpr vars (Binary op a b) \<longleftrightarrow> op \<in> binary_ops \<and> wf_cexpr vars a \<and> wf_cexpr vars b"

text \<open>An upper bound of what an expression needs of the stacks.\<close>

fun csize :: "cexpr \<Rightarrow> nat" where
  "csize (Negation e) = 1 + csize e"
| "csize (Binary op a b) = 2 + csize a + csize b"
| "csize _ = 1"

section \<open>Tokens of expressions\<close>

lemma is_digit_classes: "is_digit c \<Longrightarrow> \<not> is_alpha c \<and> \<not> is_blank c \<and> c \<noteq> LF \<and> c \<noteq> CR"
  by (auto simp: is_digit_def is_alpha_def is_upper_def is_lower_def is_blank_def)

lemma is_alpha_classes: "is_alpha c \<Longrightarrow> \<not> is_blank c \<and> c \<noteq> LF \<and> c \<noteq> CR"
  by (auto simp: is_alpha_def is_upper_def is_lower_def is_blank_def)

lemma lex_name_Cons [simp]: "\<not> is_alpha c \<Longrightarrow> lex_name (c # s) = None"
  by (simp add: lex_name_def)

lemma lex_newline_Cons [simp]: "c \<noteq> CR \<Longrightarrow> c \<noteq> LF \<Longrightarrow> lex_newline (c # s) = None"
  by simp

lemma blank_not_word: "\<not> is_word (CHR '' '')" "\<not> is_digit (CHR '' '')"
  by (simp_all add: is_word_def is_alnum_def is_digit_def is_upper_def is_lower_def)

lemma lex_cond_number:
  assumes "ds \<noteq> []" "list_all is_digit ds"
  shows "lex_cond (ds @ CHR '' '' # r) = Some (T_number ds, CHR '' '' # r)"
proof -
  obtain c s where ds: "ds = c # s" "is_digit c" "list_all is_digit s" using assms by (cases ds) auto
  then have "takeWhile is_digit (s @ CHR '' '' # r) = s" "dropWhile is_digit (s @ CHR '' '' # r) = CHR '' '' # r"
    using blank_not_word(2) by (simp_all add: takeWhile_append2 dropWhile_append2 list_all_iff)
  then show ?thesis using ds is_digit_classes [OF ds(2)]
    by (simp add: lex_cond_def lex_blank_def token_if_def lex_call_def lex_variable_def lex_number_def)
qed

lemma lex_cond_variable:
  assumes "is_name x"
  shows "lex_cond (x @ CHR '' '' # r) = Some (T_variable x, CHR '' '' # r)"
proof -
  obtain c s where x: "x = c # s" "is_alpha c" using assms by (auto simp: is_name_def)
  have n: "lex_name (x @ CHR '' '' # r) = Some (x, CHR '' '' # r)" using assms blank_not_word(1) by (rule lex_name_append)
  have "lex_blank (x @ CHR '' '' # r) = None" "token_if T_newline (lex_newline (x @ CHR '' '' # r)) = None"
    using x is_alpha_classes [OF x(2)] by (simp_all add: lex_blank_def token_if_def)
  then show ?thesis by (simp add: lex_cond_def lex_call_def n lex_variable_def)
qed

lemma lex_cond_loaded:
  assumes "plain_arg m"
  shows "lex_cond (''extension_loaded('' @ DQUOTE # m @ DQUOTE # CHR '')'' # r) = Some (T_call ''extension_loaded'' (Some m), r)"
proof -
  have "lex_name (''extension_loaded'' @ CHR ''('' # s) = Some (''extension_loaded'', CHR ''('' # s)" for s
    by (rule lex_name_append) (simp_all add: is_name_eval char_classes)
  then have n: "lex_name (''extension_loaded('' @ s) = Some (''extension_loaded'', CHR ''('' # s)" for s by simp
  have s: "lex_string (lit '')'') (DQUOTE # m @ DQUOTE # CHR '')'' # r) = Some (m, r)"
    by (rule lex_string_plain [OF assms]) simp
  have "lex_call (''extension_loaded('' @ DQUOTE # m @ DQUOTE # CHR '')'' # r) = Some (T_call ''extension_loaded'' (Some m), r)"
    unfolding lex_call_def n by (simp add: s)
  then show ?thesis by (simp add: lex_cond_def lex_blank_def token_if_def is_blank_def)
qed

lemma lex_cond_open:
  "lex_cond (CHR ''!'' # r) = Some (T_open_op (CHR ''!''), r)" "lex_cond (CHR ''('' # r) = Some (T_open_op (CHR ''(''), r)"
  by (simp_all add: lex_cond_def lex_blank_def token_if_def is_blank_def lex_call_def lex_variable_def lex_number_def char_classes)

lemma lex_cond_op_op: "op \<in> binary_ops \<Longrightarrow> lex_cond_op (op @ CHR '' '' # r) = Some (T_op op, CHR '' '' # r)"
  by (auto simp: binary_ops_def lex_cond_op_def lex_blank_def token_if_def is_blank_def lex_op_def)

lemma lex_cond_op_close:
  "lex_cond_op (CHR '')'' # r) = Some (T_close, r)" "lex_cond_op (CHR '';'' # r) = Some (T_semicolon, r)"
  by (simp_all add: lex_cond_op_def lex_blank_def token_if_def is_blank_def lex_op_def)

text \<open>Blanks between tokens.\<close>

lemma scan_blanks:
  assumes "sc_cond st = YY_cond \<or> sc_cond st = YY_cond_op"
  shows "scan_from E C f pr st (dropWhile is_blank s) g = scan_from E C f pr st s g"
proof (cases s)
  case (Cons c r)
  have "scan_from E C f pr st (c # r) g = scan_from E C f pr st (dropWhile is_blank r) g" if "is_blank c"
    by (rule scan_from_goto [where t = T_blank])
      (use that assms in \<open>auto simp: lex_cond_def lex_cond_op_def lex_blank_def token_if_def scan_action_def goto_def\<close>)
  then show ?thesis using Cons by simp
qed simp

lemma scan_blank:
  "sc_cond st = YY_cond \<or> sc_cond st = YY_cond_op \<Longrightarrow> scan_from E C f pr st (CHR '' '' # s) g = scan_from E C f pr st s g"
  using scan_blanks [of st E C f pr "CHR '' '' # s" g] scan_blanks [of st E C f pr s g] by (simp add: is_blank_def)

section \<open>The shunting yard\<close>

definition pushed :: "int \<Rightarrow> scan_state \<Rightarrow> scan_state" where
  "pushed v st = st\<lparr>sc_res := v # sc_res st, sc_res0 := (if sc_res st = [] then v else sc_res0 st)\<rparr>"

lemma pushed_simps [simp]:
  "sc_cond (pushed v st) = sc_cond st" "sc_ops (pushed v st) = sc_ops st" "sc_res (pushed v st) = v # sc_res st"
  "sc_vars (pushed v st) = sc_vars st"
  by (simp_all add: pushed_def)

lemma goto_yyc_simps [simp]:
  "sc_ops (goto_yyc c st) = sc_ops st" "sc_res (goto_yyc c st) = sc_res st" "sc_vars (goto_yyc c st) = sc_vars st"
  "goto_yyc c (goto_yyc d st) = goto_yyc c st" "goto_yyc c (pushed v st) = pushed v (goto_yyc c st)"
  by (simp_all add: goto_yyc_def pushed_def)

lemma sy_res_push_pushed: "length (sc_res st) < MAX_CONDITIONS \<Longrightarrow> sy_res_push v st = Inr (pushed v st)"
  by (simp add: sy_res_push_def pushed_def)

lemma sy_apply_binary:
  "op \<noteq> CHR ''!'' \<Longrightarrow> length (sc_res st) < MAX_CONDITIONS \<Longrightarrow>
   sy_apply_from_stack op (pushed b (pushed a st)) = Inr (pushed (sy_apply_op op b a) st)"
  by (simp add: sy_apply_from_stack_def Let_def sy_res_push_def pushed_def)

lemma sy_apply_not:
  "length (sc_res st) < MAX_CONDITIONS \<Longrightarrow>
   sy_apply_from_stack (CHR ''!'') (pushed a st) = Inr (pushed (of_bool (a = 0)) st)"
  by (simp add: sy_apply_from_stack_def Let_def sy_res_push_def pushed_def sy_apply_op_def)

lemma op_char_binary: "op \<in> binary_ops \<Longrightarrow> op_char op \<noteq> CHR ''!'' \<and> op_char op \<noteq> CHR ''('' \<and> 20 \<le> op_prec op \<and> op_prec op \<le> 90"
  unfolding binary_ops_def by (elim insertE emptyE) (simp_all add: op_char_def op_prec_def)

lemma op_prec_char: "op \<in> binary_ops \<Longrightarrow> sy_op_precedence (op_char op) = op_prec op"
  unfolding binary_ops_def by (elim insertE emptyE) (simp_all add: op_char_def op_prec_def sy_op_precedence_def)

lemma sy_apply_op_value:
  "op \<in> binary_ops \<Longrightarrow> sy_apply_op (op_char op) (cvalue C vars b) (cvalue C vars a) = cvalue C vars (Binary op a b)"
  unfolding binary_ops_def by (elim insertE emptyE) (simp_all add: op_char_def sy_apply_op_def Let_def)

text \<open>Loops that run through every operator of a precedence of at least \<open>p\<close>.\<close>

definition passes :: "nat \<Rightarrow> (char \<Rightarrow> bool) \<Rightarrow> bool" where
  "passes p halts \<longleftrightarrow> (\<forall>op. p \<le> sy_op_precedence op \<or> 120 \<le> sy_op_precedence op \<longrightarrow> \<not> halts op)"

lemma passes_stops_binary: "op \<in> binary_ops \<Longrightarrow> passes (op_prec op) (stops_binary (op_char op))"
  using op_char_binary [of op] op_prec_char [of op]
  by (auto simp: passes_def stops_binary_def sy_op_is_left_assoc_def sy_op_precedence_def [of "CHR ''(''"])

lemma passes_stops_paren: "0 < p \<Longrightarrow> passes p stops_paren"
  by (auto simp: passes_def stops_paren_def sy_op_precedence_def)

lemma passes_mono: "passes p halts \<Longrightarrow> p \<le> q \<Longrightarrow> passes q halts"
  by (auto simp: passes_def)

definition low_top :: "nat \<Rightarrow> char list \<Rightarrow> bool" where
  "low_top p ops \<longleftrightarrow> ops = [] \<or> sy_op_precedence (hd ops) < p"

lemma unwind_stops:
  assumes "op \<in> binary_ops" "low_top (op_prec op) (sc_ops st)"
  shows "sy_unwind (stops_binary (op_char op)) (sc_ops st) st = Inr st"
  using assms by (cases "sc_ops st") (auto simp: low_top_def stops_binary_def op_prec_char)

lemma unwind_ops_irrelevant: "sy_unwind halts ops (st\<lparr>sc_ops := x\<rparr>) = sy_unwind halts ops st"
proof -
  have app: "sy_apply_from_stack op (st\<lparr>sc_ops := x\<rparr>) = map_sum id (\<lambda>s. s\<lparr>sc_ops := x\<rparr>) (sy_apply_from_stack op st)" for op st
    by (simp add: sy_apply_from_stack_def sy_res_push_def Let_def)
  show ?thesis
    by (induction halts ops st rule: sy_unwind.induct) (auto simp: app split: sum.split)
qed

lemma pushed_sc_ops [simp]: "pushed v (st\<lparr>sc_ops := x\<rparr>) = (pushed v st)\<lparr>sc_ops := x\<rparr>"
  by (simp add: pushed_def)

lemma goto_sc_ops [simp]: "goto_yyc c (st\<lparr>sc_ops := x\<rparr>) = (goto_yyc c st)\<lparr>sc_ops := x\<rparr>"
  by (simp add: goto_yyc_def)

text \<open>
  What the scan of an expression does: behind its text the automaton expects an operator, and for
  every loop that runs through the operators of the expression, the stacks are as good as if its value had been pushed.
\<close>

definition evaluates :: "(scan_state \<Rightarrow> string \<Rightarrow> sp_globals \<Rightarrow> (sp_globals \<times> zend_result) eff) \<Rightarrow> nat \<Rightarrow> scan_state \<Rightarrow> string \<Rightarrow> int \<Rightarrow> bool" where
  "evaluates scans p st s v \<longleftrightarrow>
     (\<exists>st'. sc_cond st' = YY_cond_op \<and> (\<forall>r g. scans st (s @ r) g = scans st' r g) \<and>
       (\<forall>halts. passes p halts \<longrightarrow>
          sy_unwind halts (sc_ops st') st' = sy_unwind halts (sc_ops st) (pushed v (goto_yyc YY_cond_op st))))"

lemma evaluates_atom:
  assumes "sc_cond st = YY_cond" "length (sc_res st) < MAX_CONDITIONS"
    and "\<And>r. lex_cond (s @ CHR '' '' # r) = Some (t, CHR '' '' # r)"
    and "\<And>g. cond_action E C f t st g = goto_or_error E f st g YY_cond_op (sy_res_push v st)"
  shows "evaluates (scan_from E C f pr) p st (s @ '' '') v"
proof -
  have "scan_from E C f pr st ((s @ '' '') @ r) g = scan_from E C f pr (pushed v (goto_yyc YY_cond_op st)) r g" for r g
  proof -
    have "scan_from E C f pr st (s @ CHR '' '' # r) g = scan_from E C f pr (pushed v (goto_yyc YY_cond_op st)) (CHR '' '' # r) g"
      by (rule scan_from_goto [where t = t])
        (use assms in \<open>simp_all add: scan_action_def goto_or_error_def sy_res_push_pushed goto_def\<close>)
    then show ?thesis by (simp add: scan_blank)
  qed
  then show ?thesis unfolding evaluates_def by (intro exI [of _ "pushed v (goto_yyc YY_cond_op st)"]) simp
qed

lemma scan_open_op:
  assumes "sc_cond st = YY_cond" "length (sc_ops st) < MAX_CONDITIONS" "op = CHR ''!'' \<or> op = CHR ''(''"
  shows "scan_from E C f pr st (op # CHR '' '' # r) g = scan_from E C f pr (st\<lparr>sc_ops := op # sc_ops st\<rparr>) r g"
proof -
  have "scan_from E C f pr st (op # CHR '' '' # r) g = scan_from E C f pr (st\<lparr>sc_ops := op # sc_ops st\<rparr>) (CHR '' '' # r) g"
    by (rule scan_from_goto [where t = "T_open_op op"])
      (use assms lex_cond_open in \<open>auto simp: scan_action_def goto_or_error_def sy_op_push_def goto_def\<close>)
  then show ?thesis using assms(1) by (simp add: scan_blank)
qed

lemma evaluates_not:
  assumes "sc_cond st = YY_cond" "length (sc_ops st) < MAX_CONDITIONS" "length (sc_res st) < MAX_CONDITIONS"
    and e: "evaluates (scan_from E C f pr) 121 (st\<lparr>sc_ops := CHR ''!'' # sc_ops st\<rparr>) s v"
  shows "evaluates (scan_from E C f pr) p st (''! '' @ s) (of_bool (v = 0))"
proof -
  let ?st1 = "st\<lparr>sc_ops := CHR ''!'' # sc_ops st\<rparr>"
  obtain st' where st': "sc_cond st' = YY_cond_op" "\<And>r g. scan_from E C f pr ?st1 (s @ r) g = scan_from E C f pr st' r g"
      "\<And>halts. passes 121 halts \<Longrightarrow> sy_unwind halts (sc_ops st') st' = sy_unwind halts (sc_ops ?st1) (pushed v (goto_yyc YY_cond_op ?st1))"
    using e unfolding evaluates_def by blast
  have "sy_unwind halts (sc_ops st') st' = sy_unwind halts (sc_ops st) (pushed (of_bool (v = 0)) (goto_yyc YY_cond_op st))"
    if p: "passes p halts" for halts
  proof -
    have "passes 121 halts" "\<not> halts (CHR ''!'')" using p by (auto simp: passes_def sy_op_precedence_def)
    moreover have "sy_apply_from_stack (CHR ''!'') (pushed v (goto_yyc YY_cond_op st)) =
        Inr (pushed (of_bool (v = 0)) (goto_yyc YY_cond_op st))"
      using sy_apply_not [of "goto_yyc YY_cond_op st" v] assms(3) by simp
    ultimately show ?thesis using st'(3) [of halts] by (simp add: unwind_ops_irrelevant)
  qed
  moreover have "scan_from E C f pr st ((''! '' @ s) @ r) g = scan_from E C f pr st' r g" for r g
    using scan_open_op [OF assms(1,2)] st'(2) by simp
  ultimately show ?thesis using st'(1) unfolding evaluates_def by blast
qed

lemma scan_binary_op:
  assumes "op \<in> binary_ops" "low_top (op_prec op) (sc_ops st)" "length (sc_ops st) < MAX_CONDITIONS"
    and e: "evaluates (scan_from E C f pr) (op_prec op) st s v"
  shows "scan_from E C f pr st (s @ op @ CHR '' '' # r) g =
    scan_from E C f pr (goto_yyc YY_cond (pushed v (st\<lparr>sc_ops := op_char op # sc_ops st\<rparr>))) r g"
proof -
  obtain st' where st': "sc_cond st' = YY_cond_op" "\<And>r g. scan_from E C f pr st (s @ r) g = scan_from E C f pr st' r g"
      "\<And>halts. passes (op_prec op) halts \<Longrightarrow> sy_unwind halts (sc_ops st') st' = sy_unwind halts (sc_ops st) (pushed v (goto_yyc YY_cond_op st))"
    using e unfolding evaluates_def by blast
  let ?st = "pushed v (goto_yyc YY_cond_op st)"
  have "sy_unwind (stops_binary (op_char op)) (sc_ops st') st' = Inr ?st"
    using st'(3) [OF passes_stops_binary [OF assms(1)]] unwind_stops [OF assms(1), of ?st] assms(2) by simp
  then have "cond_op_action E f (T_op op) st' g = ret (Scan_goto (goto_yyc YY_cond (?st\<lparr>sc_ops := op_char op # sc_ops st\<rparr>)), g)" for g
    using assms(3) by (simp add: then_sum_def sy_op_push_def goto_or_error_def goto_def)
  then have "scan_from E C f pr st' (op @ CHR '' '' # r) g =
      scan_from E C f pr (goto_yyc YY_cond (?st\<lparr>sc_ops := op_char op # sc_ops st\<rparr>)) (CHR '' '' # r) g"
    by (intro scan_from_goto [where t = "T_op op"]) (simp_all add: st'(1) lex_cond_op_op [OF assms(1)] scan_action_def)
  then show ?thesis using st'(2) [of "op @ CHR '' '' # r" g] by (simp add: scan_blank)
qed

lemma evaluates_binary:
  assumes op: "op \<in> binary_ops" and p: "p \<le> op_prec op" and low: "low_top (op_prec op) (sc_ops st)"
    and "length (sc_ops st) < MAX_CONDITIONS" "length (sc_res st) < MAX_CONDITIONS"
    and a: "evaluates (scan_from E C f pr) (op_prec op) st s x"
    and b: "evaluates (scan_from E C f pr) (op_prec op + 1) (goto_yyc YY_cond (pushed x (st\<lparr>sc_ops := op_char op # sc_ops st\<rparr>))) t y"
  shows "evaluates (scan_from E C f pr) p st (s @ op @ '' '' @ t) (sy_apply_op (op_char op) y x)"
proof -
  let ?c = "op_char op" and ?st0 = "goto_yyc YY_cond_op st"
  let ?st2 = "goto_yyc YY_cond (pushed x (st\<lparr>sc_ops := op_char op # sc_ops st\<rparr>))"
  obtain st' where st': "sc_cond st' = YY_cond_op" "\<And>r g. scan_from E C f pr ?st2 (t @ r) g = scan_from E C f pr st' r g"
      "\<And>halts. passes (op_prec op + 1) halts \<Longrightarrow> sy_unwind halts (sc_ops st') st' = sy_unwind halts (sc_ops ?st2) (pushed y (goto_yyc YY_cond_op ?st2))"
    using b unfolding evaluates_def by blast
  have "sy_unwind halts (sc_ops st') st' = sy_unwind halts (sc_ops st) (pushed (sy_apply_op ?c y x) ?st0)"
    if "passes p halts" for halts
  proof -
    have "passes (op_prec op + 1) halts" "\<not> halts ?c"
      using passes_mono [OF that, of "op_prec op + 1"] that p op_prec_char [OF op] by (auto simp: passes_def)
    moreover have "sy_apply_from_stack ?c (pushed y (pushed x ?st0)) = Inr (pushed (sy_apply_op ?c y x) ?st0)"
      using sy_apply_binary [of ?c ?st0 y x] op_char_binary [OF op] assms(5) by simp
    ultimately show ?thesis using st'(3) [of halts] by (simp add: unwind_ops_irrelevant)
  qed
  moreover have "scan_from E C f pr st ((s @ op @ '' '' @ t) @ r) g = scan_from E C f pr st' r g" for r g
    using scan_binary_op [OF op low assms(4) a] st'(2) by simp
  ultimately show ?thesis using st'(1) unfolding evaluates_def by blast
qed

lemma evaluates_paren:
  assumes "sc_cond st = YY_cond" "length (sc_ops st) < MAX_CONDITIONS" "0 < q"
    and e: "evaluates (scan_from E C f pr) q (st\<lparr>sc_ops := CHR ''('' # sc_ops st\<rparr>) s v"
  shows "evaluates (scan_from E C f pr) p st (''( '' @ s @ '') '') v"
proof -
  let ?st1 = "st\<lparr>sc_ops := CHR ''('' # sc_ops st\<rparr>" and ?st2 = "pushed v (goto_yyc YY_cond_op st)"
  obtain st' where st': "sc_cond st' = YY_cond_op" "\<And>r g. scan_from E C f pr ?st1 (s @ r) g = scan_from E C f pr st' r g"
      "\<And>halts. passes q halts \<Longrightarrow> sy_unwind halts (sc_ops st') st' = sy_unwind halts (sc_ops ?st1) (pushed v (goto_yyc YY_cond_op ?st1))"
    using e unfolding evaluates_def by blast
  have "sy_unwind stops_paren (sc_ops st') st' = Inr (?st2\<lparr>sc_ops := CHR ''('' # sc_ops st\<rparr>)"
    using st'(3) [OF passes_stops_paren [OF assms(3)]] by (simp add: stops_paren_def)
  then have "cond_op_action E f T_close st' g = ret (Scan_goto (?st2\<lparr>sc_ops := sc_ops st\<rparr>), g)" for g
    by (simp add: then_sum_def close_paren_def goto_or_error_def goto_def)
  moreover have "?st2\<lparr>sc_ops := sc_ops st\<rparr> = ?st2" by (simp add: pushed_def goto_yyc_def)
  ultimately have "scan_from E C f pr st' (CHR '')'' # CHR '' '' # r) g = scan_from E C f pr ?st2 (CHR '' '' # r) g" for r g
    by (intro scan_from_goto [where t = T_close]) (simp_all add: st'(1) lex_cond_op_close scan_action_def)
  then have "scan_from E C f pr st ((''( '' @ s @ '') '') @ r) g = scan_from E C f pr ?st2 r g" for r g
    using scan_open_op [OF assms(1,2)] st'(2) by (simp add: scan_blank)
  then show ?thesis unfolding evaluates_def by (intro exI [of _ ?st2]) simp
qed

lemma low_top_mono: "low_top p ops \<Longrightarrow> p \<le> q \<Longrightarrow> low_top q ops"
  by (auto simp: low_top_def)

lemma csize_pos: "0 < csize e"
  by (cases e) simp_all

lemma ctext_evaluates:
  "sc_cond st = YY_cond \<Longrightarrow> wf_cexpr (sc_vars st) e \<Longrightarrow> 0 < p \<Longrightarrow> low_top p (sc_ops st) \<Longrightarrow>
   length (sc_ops st) + csize e \<le> MAX_CONDITIONS \<Longrightarrow> length (sc_res st) + csize e \<le> MAX_CONDITIONS \<Longrightarrow>
   evaluates (scan_from E C f pr) p st (ctext p e) (cvalue C (sc_vars st) e)"
proof (induction e arbitrary: p st)
  case (Number ds)
  then show ?case
    by (auto intro!: evaluates_atom [where t = "T_number ds"] lex_cond_number)
next
  case (Variable x)
  then obtain v where "sc_vars st x = Some v" by auto
  then show ?case using Variable
    by (auto intro!: evaluates_atom [where t = "T_variable x"] lex_cond_variable)
next
  case (Extension_loaded m)
  have "evaluates (scan_from E C f pr) p st ((''extension_loaded('' @ [DQUOTE] @ m @ [DQUOTE] @ '')'') @ '' '') (of_bool (cs_module_loaded C m))"
    using Extension_loaded lex_cond_loaded
    by (intro evaluates_atom [where t = "T_call ''extension_loaded'' (Some m)"]) auto
  then show ?case by simp
next
  case (Negation e)
  have "evaluates (scan_from E C f pr) 121 (st\<lparr>sc_ops := CHR ''!'' # sc_ops st\<rparr>) (ctext 121 e) (cvalue C (sc_vars st) e)"
    using Negation.IH [of "st\<lparr>sc_ops := CHR ''!'' # sc_ops st\<rparr>" 121] Negation.prems
    by (simp add: low_top_def sy_op_precedence_def)
  then show ?case using evaluates_not [of st E C f pr] Negation.prems csize_pos [of e] by simp
next
  case (Binary op a b)
  let ?q = "op_prec op"
  let ?body = "ctext ?q a @ op @ '' '' @ ctext (?q + 1) b"
  have op: "op \<in> binary_ops" using Binary.prems by simp
  have q: "0 < ?q" using op_char_binary [OF op] by simp
  have body: "evaluates (scan_from E C f pr) r st ?body (cvalue C (sc_vars st) (Binary op a b))"
    if st: "sc_cond st = YY_cond" "wf_cexpr (sc_vars st) (Binary op a b)" "low_top ?q (sc_ops st)" "r \<le> ?q"
      "length (sc_ops st) + 1 + csize a + csize b \<le> MAX_CONDITIONS" "length (sc_res st) + 1 + csize a + csize b \<le> MAX_CONDITIONS" for st r
  proof -
    let ?x = "cvalue C (sc_vars st) a"
    let ?st2 = "goto_yyc YY_cond (pushed ?x (st\<lparr>sc_ops := op_char op # sc_ops st\<rparr>))"
    have a: "evaluates (scan_from E C f pr) ?q st (ctext ?q a) ?x"
      by (rule Binary.IH(1)) (use st q in auto)
    have b: "evaluates (scan_from E C f pr) (?q + 1) ?st2 (ctext (?q + 1) b) (cvalue C (sc_vars ?st2) b)"
      by (rule Binary.IH(2)) (use st csize_pos [of a] in \<open>auto simp: low_top_def op_prec_char [OF op]\<close>)
    have "evaluates (scan_from E C f pr) r st ?body (sy_apply_op (op_char op) (cvalue C (sc_vars st) b) ?x)"
      by (rule evaluates_binary [OF op st(4,3) _ _ a]) (use b st csize_pos [of a] in auto)
    then show ?thesis unfolding sy_apply_op_value [OF op] .
  qed
  show ?case
  proof (cases "?q < p")
    case True
    have "evaluates (scan_from E C f pr) ?q (st\<lparr>sc_ops := CHR ''('' # sc_ops st\<rparr>) ?body (cvalue C (sc_vars st) (Binary op a b))"
      using body [of "st\<lparr>sc_ops := CHR ''('' # sc_ops st\<rparr>" ?q] Binary.prems q by (simp add: low_top_def sy_op_precedence_def)
    from evaluates_paren [OF Binary.prems(1) _ q this, of p] show ?thesis using True Binary.prems by (simp add: Let_def)
  next
    case False
    then show ?thesis using body [of st p] Binary.prems low_top_mono [of p "sc_ops st" ?q] by (simp add: Let_def)
  qed
qed

section \<open>Conditional parts of a file\<close>

lemma lex_init_condition: "lex_init (''@condition '' @ s) = Some (T_condition, dropWhile is_blank s)"
  by (simp add: lex_init_def lex_nonascii_def is_nonascii_def lex_blank_def is_blank_def lex_comment_def token_if_def
      lex_set_def lex_condition_def)

lemma lex_init_end_condition: "lex_init (''@end_condition;'' @ s) = Some (T_end_condition, s)"
  by (simp add: lex_init_def lex_nonascii_def is_nonascii_def lex_blank_def is_blank_def lex_comment_def token_if_def
      lex_set_def lex_condition_def lex_end_condition_def)

text \<open>The state behind a condition, and behind the end of the conditional part.\<close>

definition under_condition :: "int \<Rightarrow> scan_state \<Rightarrow> scan_state" where
  "under_condition v st = st\<lparr>sc_active := True, sc_res := [v], sc_res0 := v\<rparr>"

definition condition_over :: "scan_state \<Rightarrow> scan_state" where
  "condition_over st = st\<lparr>sc_res0 := 1, sc_res := [], sc_active := False\<rparr>"

lemma scan_condition:
  assumes "sc_cond st = YY_init" "\<not> sc_active st" "sc_ops st = []" "wf_cexpr (sc_vars st) e" "csize e \<le> MAX_CONDITIONS"
  shows "scan_from E C f pr st (''@condition '' @ ctext 1 e @ '';'' @ r) g =
    scan_from E C f pr (under_condition (cvalue C (sc_vars st) e) st) r g"
proof -
  let ?st1 = "goto_yyc YY_cond (st\<lparr>sc_active := True, sc_res := []\<rparr>)" and ?v = "cvalue C (sc_vars st) e"
  have "evaluates (scan_from E C f pr) 1 ?st1 (ctext 1 e) (cvalue C (sc_vars ?st1) e)"
    by (rule ctext_evaluates) (use assms in \<open>simp_all add: goto_yyc_def low_top_def\<close>)
  moreover have "sc_vars ?st1 = sc_vars st" "sc_ops ?st1 = []" using assms(3) by (simp_all add: goto_yyc_def)
  ultimately obtain st' where st': "sc_cond st' = YY_cond_op" "\<And>r g. scan_from E C f pr ?st1 (ctext 1 e @ r) g = scan_from E C f pr st' r g"
      "\<And>halts. passes 1 halts \<Longrightarrow> sy_unwind halts (sc_ops st') st' = sy_unwind halts [] (pushed ?v (goto_yyc YY_cond_op ?st1))"
    unfolding evaluates_def by metis
  have "scan_from E C f pr st (''@condition '' @ ctext 1 e @ '';'' @ r) g =
      scan_from E C f pr ?st1 (dropWhile is_blank (ctext 1 e @ '';'' @ r)) g"
    by (rule scan_from_goto [where t = T_condition])
      (use assms(1,2) lex_init_condition in \<open>simp_all add: scan_action_def goto_def\<close>)
  also have "\<dots> = scan_from E C f pr ?st1 (ctext 1 e @ '';'' @ r) g" by (rule scan_blanks) simp
  also have "\<dots> = scan_from E C f pr st' (CHR '';'' # r) g" using st'(2) by simp
  also have "\<dots> = scan_from E C f pr (under_condition ?v st) r g"
  proof (rule scan_from_goto [where t = T_semicolon])
    have "goto_yyc YY_init ((pushed ?v (goto_yyc YY_cond_op ?st1))\<lparr>sc_ops := []\<rparr>) = under_condition ?v st"
      using assms(1,3) by (intro scan_state.equality) (simp_all add: goto_yyc_def pushed_def under_condition_def)
    moreover have "sy_unwind stops_paren (sc_ops st') st' = Inr ((pushed ?v (goto_yyc YY_cond_op ?st1))\<lparr>sc_ops := []\<rparr>)"
      using st'(3) [OF passes_stops_paren [of 1]] by simp
    ultimately show "scan_action E C f pr T_semicolon st' g = ret (Scan_goto (under_condition ?v st), g)"
      by (simp add: scan_action_def st'(1) then_sum_def end_of_condition_def goto_yyc_def pushed_def goto_or_error_def goto_def)
  qed (simp add: st'(1) lex_cond_op_close)
  finally show ?thesis .
qed

lemma scan_keywords_skipped:
  "sc_cond st = YY_rule \<Longrightarrow> sc_res0 st = 0 \<Longrightarrow> \<forall>kw\<in>set kws. scannable kw \<Longrightarrow>
   scan_from E C f pr st (concat (map kw_text kws) @ CHR '';'' # r) g = scan_from E C f pr st (CHR '';'' # r) g"
proof (induction kws)
  case (Cons kw kws)
  obtain d r' where d: "concat (map kw_text kws) @ CHR '';'' # r = d # r'" "d \<noteq> CHR ''(''" "\<not> is_word d"
    using separators_not_word by (cases kws) (auto simp: kw_text_def)
  have "scan_from E C f pr st (kw_text kw @ d # r') g = scan_from E C f pr st (d # r') g"
    by (rule scan_from_goto [where t = "T_keyword (kw_kw kw) (raw_arg kw)"])
      (use Cons.prems d(2,3) in \<open>simp_all add: lex_rule_text scan_action_def goto_def\<close>)
  then show ?case using Cons by (simp flip: d(1))
qed simp

lemma scan_rule_skipped:
  assumes "sc_cond st = YY_init" "sc_res0 st = 0" "\<forall>kw\<in>set rule. scannable kw"
  shows "scan_from E C f pr st (sp_get_textual_representation rule @ r) g = scan_from E C f pr (st\<lparr>sc_rule := []\<rparr>) r g"
proof -
  let ?st = "goto_yyc YY_rule (st\<lparr>sc_rule := []\<rparr>)"
  have "scan_from E C f pr st (sp_get_textual_representation rule @ r) g =
      scan_from E C f pr ?st (concat (map kw_text rule) @ CHR '';'' # r) g"
    by (rule scan_from_goto [where t = T_sp])
      (use assms(1) lex_init_sp in \<open>auto simp: sp_get_textual_representation_def scan_action_def goto_def\<close>)
  also have "\<dots> = scan_from E C f pr ?st (CHR '';'' # r) g"
    by (rule scan_keywords_skipped) (use assms in \<open>simp_all add: goto_yyc_def\<close>)
  finally have skipped: "scan_from E C f pr st (sp_get_textual_representation rule @ r) g = scan_from E C f pr ?st (CHR '';'' # r) g" .
  have st: "st\<lparr>sc_rule := [], sc_cond := YY_init\<rparr> = st\<lparr>sc_rule := []\<rparr>" using assms(1) by simp
  have "scan_from E C f pr ?st (CHR '';'' # r) g = scan_from E C f pr (st\<lparr>sc_rule := []\<rparr>) r g"
    by (intro scan_from_goto [where t = T_semicolon])
      (use assms in \<open>simp_all add: lex_rule_semicolon scan_action_def end_of_rule_def goto_def goto_yyc_def st\<close>)
  with skipped show ?thesis by simp
qed

lemma next_line_simps [simp]:
  "sc_cond (next_line st) = sc_cond st" "sc_res0 (next_line st) = sc_res0 st" "sc_lineno (next_line st) = sc_lineno st + 1"
  by (simp_all add: next_line_def)

text \<open>Lines of rules in the middle of a file: processed, or skipped.\<close>

definition past_rules :: "sp_parsed_keyword list list \<Rightarrow> scan_state \<Rightarrow> scan_state" where
  "past_rules rules st = st\<lparr>sc_lineno := sc_lineno st + length rules,
     sc_rule := (if rules = [] then sc_rule st else if sc_res0 st = 0 then [] else last rules)\<rparr>"

lemma past_rules_Cons:
  "past_rules rules (next_line (st\<lparr>sc_rule := (if sc_res0 st = 0 then [] else rule)\<rparr>)) = past_rules (rule # rules) st"
  by (simp add: past_rules_def next_line_def)

lemma scan_rules_processed:
  "sc_cond st = YY_init \<Longrightarrow> sc_res0 st \<noteq> 0 \<Longrightarrow> scannable_rules f (sc_lineno st) rules \<Longrightarrow>
   scan_from E C f pr st (config_text rules @ r) g =
     ebind (process_rules pr rules g) (\<lambda>(g', z). if z = SUCCESS then scan_from E C f pr (past_rules rules st) r g' else ret (g', FAILURE))"
proof (induction rules arbitrary: st g)
  case Nil
  then show ?case by (simp add: config_text_def past_rules_def)
next
  case (Cons rule rules)
  let ?st = "st\<lparr>sc_rule := rule\<rparr>"
  have past: "past_rules rules (next_line ?st) = past_rules (rule # rules) st"
    using past_rules_Cons [of rules st rule] Cons.prems(2) by simp
  have "scan_from E C f pr ?st (LF # config_text rules @ r) g' =
      ebind (process_rules pr rules g') (\<lambda>(g', z). if z = SUCCESS then scan_from E C f pr (past_rules (rule # rules) st) r g' else ret (g', FAILURE))" for g'
    using Cons.prems Cons.IH [of "next_line ?st"] by (simp add: scan_from_LF past cong: if_cong)
  then show ?case using Cons.prems scan_rule [of st rule f E C pr "LF # config_text rules @ r" g]
    by (auto simp: config_text_def ebind_assoc intro!: arg_cong [of _ _ "ebind (pr rule g)"] ext)
qed

lemma scan_rules_skipped:
  "sc_cond st = YY_init \<Longrightarrow> sc_res0 st = 0 \<Longrightarrow> scannable_rules f n rules \<Longrightarrow>
   scan_from E C f pr st (config_text rules @ r) g = scan_from E C f pr (past_rules rules st) r g"
proof (induction rules arbitrary: st n)
  case Nil
  then show ?case by (simp add: config_text_def past_rules_def)
next
  case (Cons rule rules)
  let ?st = "st\<lparr>sc_rule := []\<rparr>"
  have past: "past_rules rules (next_line ?st) = past_rules (rule # rules) st"
    using past_rules_Cons [of rules st rule] Cons.prems(2) by simp
  have "scan_from E C f pr st (sp_get_textual_representation rule @ LF # config_text rules @ r) g =
      scan_from E C f pr ?st (LF # config_text rules @ r) g"
    using Cons.prems by (intro scan_rule_skipped) auto
  also have "\<dots> = scan_from E C f pr (next_line ?st) (config_text rules @ r) g"
    using Cons.prems(1) by (simp add: scan_from_LF)
  also have "\<dots> = scan_from E C f pr (past_rules (rule # rules) st) r g"
    using Cons.prems Cons.IH [of "next_line ?st" "n + 1"] by (simp add: past)
  finally show ?case by (simp add: config_text_def)
qed

lemma scan_end_condition:
  assumes "sc_cond st = YY_init"
  shows "scan_from E C f pr st (''@end_condition;'' @ r) g = scan_from E C f pr (condition_over st) r g"
  by (rule scan_from_goto [where t = T_end_condition])
    (use assms lex_init_end_condition in \<open>simp_all add: scan_action_def goto_def condition_over_def\<close>)

text \<open>
  C6. Conditional configuration: a condition, written with the parentheses that the precedences of the
  source need (\<open>!\<close> above comparisons, those above \<open>&&\<close>, that above \<open>||\<close>, and \<open>==\<close> below all of
  them), has the value of its syntax tree, and the rules behind it, up to \<open>@end_condition\<close>, are
  processed when the value is not 0, and skipped otherwise; so long as the expression fits the stacks.
\<close>

theorem conditional_rules:
  assumes "wf_cexpr [''PHP_VERSION_ID'' \<mapsto> cs_version C] e" "csize e \<le> MAX_CONDITIONS" "scannable_rules f 2 rules"
  shows "sp_config_scan E C (''@condition '' @ ctext 1 e @ '';'' @ [LF] @ config_text rules @ ''@end_condition;'' @ [LF]) pr f g =
    (if cvalue C [''PHP_VERSION_ID'' \<mapsto> cs_version C] e \<noteq> 0 then process_rules pr rules g else ret (g, SUCCESS))"
proof -
  let ?v = "cvalue C [''PHP_VERSION_ID'' \<mapsto> cs_version C] e"
  let ?st = "next_line (under_condition ?v (scan_start C))"
  let ?close = "''@end_condition;'' @ [LF, NUL]"
  have "sp_config_scan E C (''@condition '' @ ctext 1 e @ '';'' @ [LF] @ config_text rules @ ''@end_condition;'' @ [LF]) pr f g =
      scan_from E C f pr (scan_start C) (''@condition '' @ ctext 1 e @ '';'' @ (LF # config_text rules @ ?close)) g"
    by (simp add: sp_config_scan_def)
  also have "\<dots> = scan_from E C f pr (under_condition ?v (scan_start C)) (LF # config_text rules @ ?close) g"
    using scan_condition [of "scan_start C" e E C f pr] assms by (simp add: scan_start_def)
  also have "\<dots> = scan_from E C f pr ?st (config_text rules @ ?close) g"
    by (rule scan_from_LF) (simp add: under_condition_def scan_start_def)
  finally have start: "sp_config_scan E C (''@condition '' @ ctext 1 e @ '';'' @ [LF] @ config_text rules @ ''@end_condition;'' @ [LF]) pr f g =
      scan_from E C f pr ?st (config_text rules @ ?close) g" .
  have over: "scan_from E C f pr (past_rules rules ?st) ?close g' = ret (g', SUCCESS)" for g'
    by (subst scan_end_condition)
      (simp_all add: past_rules_def next_line_def under_condition_def scan_start_def condition_over_def scan_from_LF scan_from_NUL)
  have st: "sc_cond ?st = YY_init" "sc_lineno ?st = 2" "sc_res0 ?st = ?v"
    by (simp_all add: next_line_def under_condition_def scan_start_def)
  show ?thesis
  proof (cases "?v = 0")
    case True
    have "scan_from E C f pr ?st (config_text rules @ ?close) g = scan_from E C f pr (past_rules rules ?st) ?close g"
      by (rule scan_rules_skipped [OF st(1) trans [OF st(3) True] assms(3)])
    then show ?thesis unfolding start over using True by simp
  next
    case False
    have "scan_from E C f pr ?st (config_text rules @ ?close) g =
        ebind (process_rules pr rules g) (\<lambda>(g', z). if z = SUCCESS then scan_from E C f pr (past_rules rules ?st) ?close g' else ret (g', FAILURE))"
      by (rule scan_rules_processed) (simp_all only: st False not_False_eq_True assms(3))
    also have "\<dots> = ebind (process_rules pr rules g) (\<lambda>(g', z). if z = SUCCESS then ret (g', SUCCESS) else ret (g', FAILURE))"
      by (simp only: over)
    also have "(\<lambda>(g', z). if z = SUCCESS then ret (g', SUCCESS) else ret (g', FAILURE)) = ret"
      by (rule ext) (auto split: prod.split, metis zend_result.exhaust)
    finally have "scan_from E C f pr ?st (config_text rules @ ?close) g = process_rules pr rules g" unfolding ebind_ret_right .
    then show ?thesis unfolding if_P [OF False] start .
  qed
qed

text \<open>PHP 8.0 or newer, and no Xdebug.\<close>

definition sample_condition :: cexpr where
  "sample_condition = Binary ''&&'' (Binary ''>='' (Variable ''PHP_VERSION_ID'') (Number ''80000'')) (Negation (Extension_loaded ''xdebug''))"

theorem conditional_rules_witness:
  "sp_config_scan sample_php (sample_source (\<lambda>_. Inl []))
     (''@condition PHP_VERSION_ID >= 80000 && ! extension_loaded('' @ [DQUOTE] @ ''xdebug'' @ [DQUOTE] @ '') ;'' @ [LF] @
      ''sp.xxe_protection.enable();'' @ [LF] @ ''@end_condition;'' @ [LF])
     (\<lambda>rule g. ([Ev_Call (kw_kw (hd rule)) (map kw_kw (tl rule))], Done (g, SUCCESS))) ''sp.rules'' sample_globals =
   ([Ev_Call ''xxe_protection'' [''enable'']], Done (sample_globals, SUCCESS))"
proof -
  let ?C = "sample_source (\<lambda>_. Inl [])" and ?rules = "[[bare_kw 2 ''xxe_protection'', plain_kw 2 ''enable'']]"
  have "wf_cexpr [''PHP_VERSION_ID'' \<mapsto> cs_version ?C] sample_condition" "csize sample_condition \<le> MAX_CONDITIONS"
    by (simp_all add: sample_condition_def is_name_eval char_classes plain_arg_eval line_end_def binary_ops_def)
  moreover have "scannable_rules ''sp.rules'' 2 ?rules"
    by (simp add: is_name_eval char_classes)
  moreover have "cvalue ?C [''PHP_VERSION_ID'' \<mapsto> cs_version ?C] sample_condition = 1"
  proof -
    have "c_atoi (c_str ''80300'') = 80300" "c_atoi ''80000'' = 80000"
      by (simp_all add: c_atoi_def strtoimax_value_def to_int32_def c_sign_digits_def dec_value_def digit_val_def is_digit_def is_space_def)
    then show ?thesis by (simp add: sample_condition_def sample_source_def)
  qed
  ultimately have "sp_config_scan sample_php ?C (''@condition '' @ ctext 1 sample_condition @ '';'' @ [LF] @ config_text ?rules @ ''@end_condition;'' @ [LF])
      (\<lambda>rule g. ([Ev_Call (kw_kw (hd rule)) (map kw_kw (tl rule))], Done (g, SUCCESS))) ''sp.rules'' sample_globals =
    process_rules (\<lambda>rule g. ([Ev_Call (kw_kw (hd rule)) (map kw_kw (tl rule))], Done (g, SUCCESS))) ?rules sample_globals"
    using conditional_rules [of ?C sample_condition "''sp.rules''" ?rules] by simp
  then show ?thesis
    by (simp add: sample_condition_def op_prec_def Let_def config_text_def
        sp_get_textual_representation_def kw_text_def bare_kw_def plain_kw_def ret_def)
qed

end
