(* ===== verification/Scan_Invariant.thy ===== *)
theory Scan_Invariant
  imports Scan_Conditions
begin

text \<open>
  The scanner as a step relation: how long it can run, and what holds of its arrays in every state it reaches.
\<close>

section \<open>Steps\<close>

type_synonym scan_config = "scan_state \<times> string \<times> sp_globals"

inductive scan_step :: "php \<Rightarrow> config_source \<Rightarrow> string \<Rightarrow> rule_processor \<Rightarrow> scan_config \<Rightarrow> scan_config \<Rightarrow> bool"
  for E C f pr where
  Goto: "lex_token (sc_cond st) data = Some (t, rest) \<Longrightarrow>
    snd (scan_action E C f pr t st g) = Done (Scan_goto st', g') \<Longrightarrow> scan_step E C f pr (st, data, g) (st', rest, g')"

inductive_cases scan_stepE: "scan_step E C f pr (st, data, g) (st', rest, g')"

text \<open>A run that has a result or crashes is a chain of steps, with an end, or the edge of the text, behind them.\<close>

lemma scan_from_steps:
  assumes "snd (scan_from E C f pr st data g) = Done (g', z)"
  shows "\<exists>st1 data1 g1 t rest. (scan_step E C f pr)\<^sup>*\<^sup>* (st, data, g) (st1, data1, g1) \<and>
    lex_token (sc_cond st1) data1 = Some (t, rest) \<and> snd (scan_action E C f pr t st1 g1) = Done (Scan_out z, g')"
  using assms
proof (induction data arbitrary: st g rule: length_induct)
  case (1 data)
  obtain t rest a g1 where s: "lex_token (sc_cond st) data = Some (t, rest)"
      "snd (scan_action E C f pr t st g) = Done (a, g1)"
      "snd (case a of Scan_out z \<Rightarrow> ret (g1, z) | Scan_goto st' \<Rightarrow> scan_from E C f pr st' rest g1) = Done (g', z)"
    using "1.prems" by (subst (asm) scan_from.simps) (auto simp: ebind_Done_iff split: option.splits)
  show ?case
  proof (cases a)
    case (Scan_goto st')
    then have "scan_step E C f pr (st, data, g) (st', rest, g1)" using s by (auto intro: Goto)
    then show ?thesis
      using "1.IH" [rule_format, OF lex_token_length [OF s(1)], of st' g1] s(3) Scan_goto
      by simp (meson converse_rtranclp_into_rtranclp)
  next
    case (Scan_out y)
    then have "y = z" "g1 = g'" using s(3) by simp_all
    with s(1,2) Scan_out show ?thesis by blast
  qed
qed

text \<open>
  C39. The scan ends: every step takes a byte of the text, so that the loop of the automaton is gone through at
  most once for each byte of the file and its terminator.
\<close>

theorem scan_terminates:
  assumes "(scan_step E C f pr ^^ n) (scan_start C, data @ [NUL], g) (st, rest, g')"
  shows "n + length rest \<le> length data + 1"
proof -
  have "n + length (fst (snd c')) \<le> length (fst (snd c))" if "(scan_step E C f pr ^^ n) c c'" for c c' n
    using that
  proof (induction n arbitrary: c')
    case (Suc n)
    then obtain c1 where c1: "(scan_step E C f pr ^^ n) c c1" "scan_step E C f pr c1 c'" by auto
    have "length (fst (snd c')) < length (fst (snd c1))"
      using c1(2) by cases (auto dest: lex_token_length)
    then show ?case using Suc.IH [OF c1(1)] by simp
  qed simp
  from this [OF assms] show ?thesis by simp
qed

theorem scan_terminates_witness:
  "\<exists>st. (scan_step sample_php (sample_source (\<lambda>_. Inl [])) ''sp.rules'' (\<lambda>rule g. ret (g, SUCCESS)) ^^ 1)
     (scan_start (sample_source (\<lambda>_. Inl [])), ''sp'' @ [NUL], sample_globals) (st, [NUL], sample_globals) \<and>
   1 + length [NUL] \<le> length ''sp'' + 1"
proof -
  let ?C = "sample_source (\<lambda>_. Inl [])" and ?st = "goto_yyc YY_rule (scan_start (sample_source (\<lambda>_. Inl [])))"
  have "(scan_step sample_php ?C ''sp.rules'' (\<lambda>rule g. ret (g, SUCCESS)) ^^ 1) (scan_start ?C, ''sp'' @ [NUL], sample_globals) (?st, [NUL], sample_globals)"
    unfolding relpowp_1
    by (rule scan_step.Goto [where t = T_sp])
      (use lex_init_sp [of "[NUL]"] in \<open>auto simp: scan_start_def scan_action_def goto_def goto_yyc_def\<close>)
  from scan_terminates [OF this] this show ?thesis by blast
qed

section \<open>The stacks and the rule\<close>

definition binops :: "char list \<Rightarrow> nat" where
  "binops ops = length (filter (\<lambda>op. op \<noteq> CHR ''!'' \<and> op \<noteq> CHR ''('') ops)"

text \<open>The arrays are within their bounds, and \<open>cond_res\<close> has the operands of the operators in \<open>cond_op\<close>.\<close>

definition stacks_ok :: "scan_state \<Rightarrow> bool" where
  "stacks_ok st \<longleftrightarrow> length (sc_res st) \<le> MAX_CONDITIONS \<and> length (sc_ops st) \<le> MAX_CONDITIONS \<and>
     (sc_res st \<noteq> [] \<longrightarrow> sc_res0 st = last (sc_res st))"

definition scan_ok :: "scan_state \<Rightarrow> bool" where
  "scan_ok st \<longleftrightarrow> stacks_ok st \<and> length (sc_rule st) \<le> MAX_KEYWORDS \<and>
     (case sc_cond st of
        YY_cond \<Rightarrow> length (sc_res st) = binops (sc_ops st)
      | YY_cond_op \<Rightarrow> length (sc_res st) = Suc (binops (sc_ops st))
      | _ \<Rightarrow> sc_ops st = [] \<and> length (sc_res st) \<le> 1)"

lemma binops_simps [simp]:
  "binops [] = 0" "binops (op # ops) = (if op = CHR ''!'' \<or> op = CHR ''('' then binops ops else Suc (binops ops))"
  by (simp_all add: binops_def)

lemma sy_apply_ok:
  assumes "stacks_ok st" "length (sc_res st) = Suc (binops (op # ops))" "op \<noteq> CHR ''(''"
  shows "\<exists>st'. sy_apply_from_stack op st = Inr st' \<and> stacks_ok st' \<and> length (sc_res st') = Suc (binops ops) \<and>
    sc_rule st' = sc_rule st \<and> sc_cond st' = sc_cond st \<and> sc_ops st' = sc_ops st"
proof -
  obtain a res where a: "sc_res st = a # res" using assms(2) by (cases "sc_res st") auto
  show ?thesis
  proof (cases "op = CHR ''!''")
    case True
    then show ?thesis using assms a
      by (cases res) (auto simp: sy_apply_from_stack_def Let_def sy_res_push_def stacks_ok_def)
  next
    case False
    then obtain b res' where "res = b # res'" using assms a by (cases res) auto
    then show ?thesis using False assms a
      by (cases res') (auto simp: sy_apply_from_stack_def Let_def sy_res_push_def stacks_ok_def)
  qed
qed

lemma sy_unwind_ok:
  "stacks_ok st \<Longrightarrow> length (sc_res st) = Suc (binops ops) \<Longrightarrow> length ops \<le> MAX_CONDITIONS \<Longrightarrow> halts (CHR ''('') \<Longrightarrow>
   \<exists>st'. sy_unwind halts ops st = Inr st' \<and> stacks_ok st' \<and> length (sc_res st') = Suc (binops (sc_ops st')) \<and>
     sc_rule st' = sc_rule st \<and> suffix (sc_ops st') ops"
proof (induction ops arbitrary: st)
  case Nil
  then show ?case by (simp add: stacks_ok_def)
next
  case (Cons op ops)
  show ?case
  proof (cases "halts op")
    case True
    then show ?thesis using Cons.prems by (simp add: stacks_ok_def)
  next
    case False
    then have "op \<noteq> CHR ''(''" using Cons.prems(4) by auto
    from sy_apply_ok [OF Cons.prems(1,2) this] obtain st1 where
      st1: "sy_apply_from_stack op st = Inr st1" "stacks_ok st1" "length (sc_res st1) = Suc (binops ops)" "sc_rule st1 = sc_rule st" by auto
    then show ?thesis using Cons.IH [OF st1(2,3) _ Cons.prems(4)] Cons.prems(3) False
      by (auto intro: suffix_ConsI)
  qed
qed

lemma stops_at_paren: "stops_binary c (CHR ''('')" "stops_paren (CHR ''('')"
  by (simp_all add: stops_binary_def stops_paren_def)

section \<open>Actions keep the state well-formed\<close>

definition action_ok :: "scan_effect \<Rightarrow> bool" where
  "action_ok a \<longleftrightarrow> (\<forall>st g. snd a = Done (Scan_goto st, g) \<longrightarrow> scan_ok st)"

lemma ok_goto: "scan_ok (goto_yyc c st) \<Longrightarrow> action_ok (goto c st g)"
  by (simp add: action_ok_def goto_Done)

lemma ok_error [simp]: "action_ok (scan_error E f msg st g)" "action_ok (ret (Scan_out z, g))"
  by (auto simp: action_ok_def dest: scan_error_Done)

lemma ok_log: "(\<And>g'. action_ok (k g')) \<Longrightarrow> action_ok (ebind m k)"
  by (auto simp: action_ok_def ebind_Done_iff)

lemma ok_goto_or_error: "(\<And>st'. m = Inr st' \<Longrightarrow> scan_ok (goto_yyc c st')) \<Longrightarrow> action_ok (goto_or_error E f st g c m)"
  by (cases m) (auto simp: goto_or_error_def intro: ok_goto)

lemma scan_ok_init: "sc_cond st = YY_init \<or> sc_cond st = YY_rule \<Longrightarrow>
  scan_ok st \<longleftrightarrow> stacks_ok st \<and> length (sc_rule st) \<le> MAX_KEYWORDS \<and> sc_ops st = [] \<and> length (sc_res st) \<le> 1"
  by (auto simp: scan_ok_def)

lemma ok_init_action:
  assumes "scan_ok st" "sc_cond st = YY_init"
  shows "action_ok (init_action E f t st g)"
proof -
  have "stacks_ok st" "length (sc_rule st) \<le> MAX_KEYWORDS" "sc_ops st = []" "length (sc_res st) \<le> 1"
    using assms by (auto simp: scan_ok_init)
  then show ?thesis
    by (cases t) (auto simp: scan_ok_def stacks_ok_def goto_yyc_def next_line_def intro!: ok_goto ok_log)
qed

lemma lex_cond_open_ops: "lex_cond s = Some (T_open_op op, r) \<Longrightarrow> op = CHR ''!'' \<or> op = CHR ''(''"
  by (auto simp: lex_cond_def lex_blank_def token_if_def lex_call_def lex_variable_def lex_number_def lex_any_def
      bind_eq_Some_conv split: option.splits list.splits if_splits)

lemma lex_cond_op_ops: "lex_cond_op s = Some (T_op op, r) \<Longrightarrow> op \<in> binary_ops"
  by (auto simp: lex_cond_op_def lex_blank_def token_if_def lex_op_def lex_any_def binary_ops_def
      split: option.splits list.splits)

lemma ok_res_push:
  assumes "scan_ok st" "sc_cond st = YY_cond" "sy_res_push v st = Inr st'"
  shows "scan_ok (goto_yyc YY_cond_op st')"
  using assms by (auto simp: scan_ok_def stacks_ok_def sy_res_push_def goto_yyc_def split: if_splits)

lemma ok_cond_action:
  assumes "scan_ok st" "sc_cond st = YY_cond" "lex_cond s = Some (t, r)"
  shows "action_ok (cond_action E C f t st g)"
proof -
  have same: "scan_ok (goto_yyc YY_cond st)" "scan_ok (goto_yyc YY_cond (next_line st))"
    using assms(1,2) by (simp_all add: scan_ok_def stacks_ok_def goto_yyc_def next_line_def)
  show ?thesis
  proof (cases t)
    case (T_open_op op)
    then have "op = CHR ''!'' \<or> op = CHR ''(''" using assms(3) lex_cond_open_ops by blast
    then show ?thesis using assms(1,2) T_open_op
      by (auto simp: sy_op_push_def scan_ok_def stacks_ok_def goto_yyc_def intro!: ok_goto_or_error split: if_splits)
  qed (use assms(1,2) same ok_res_push in \<open>auto intro!: ok_goto ok_goto_or_error split: option.split\<close>)
qed

lemma ok_cond_op_action:
  assumes "scan_ok st" "sc_cond st = YY_cond_op" "lex_cond_op s = Some (t, r)"
  shows "action_ok (cond_op_action E f t st g)"
proof -
  have same: "scan_ok (goto_yyc YY_cond_op st)" "scan_ok (goto_yyc YY_cond_op (next_line st))"
    using assms(1,2) by (simp_all add: scan_ok_def stacks_ok_def goto_yyc_def next_line_def)
  have st: "stacks_ok st" "length (sc_res st) = Suc (binops (sc_ops st))" "length (sc_ops st) \<le> MAX_CONDITIONS"
      "length (sc_rule st) \<le> MAX_KEYWORDS" using assms(1,2) by (simp_all add: scan_ok_def stacks_ok_def)
  obtain st1 where st1: "sy_unwind stops_paren (sc_ops st) st = Inr st1" "stacks_ok st1"
      "length (sc_res st1) = Suc (binops (sc_ops st1))" "sc_rule st1 = sc_rule st"
    using sy_unwind_ok [where halts = stops_paren, OF st(1-3) stops_at_paren(2)] by auto
  show ?thesis
  proof (cases t)
    case (T_op op)
    then have op: "op_char op \<noteq> CHR ''!'' \<and> op_char op \<noteq> CHR ''(''" using assms(3) lex_cond_op_ops op_char_binary by blast
    obtain st2 where st2: "sy_unwind (stops_binary (op_char op)) (sc_ops st) st = Inr st2" "stacks_ok st2"
        "length (sc_res st2) = Suc (binops (sc_ops st2))" "sc_rule st2 = sc_rule st"
      using sy_unwind_ok [where halts = "stops_binary (op_char op)", OF st(1-3) stops_at_paren(1)] by auto
    have "scan_ok (goto_yyc YY_cond st')" if "sy_op_push (op_char op) st2 = Inr st'" for st'
      using that st2 st(4) op by (auto simp: sy_op_push_def scan_ok_def stacks_ok_def goto_yyc_def split: if_splits)
    then show ?thesis using T_op st2(1) by (auto simp: then_sum_def intro!: ok_goto_or_error)
  next
    case T_close
    have "scan_ok (goto_yyc YY_cond_op st')" if "close_paren st1 = Inr st'" for st'
      using that st1 st(4)
      by (cases "sc_ops st1") (auto simp: close_paren_def scan_ok_def stacks_ok_def goto_yyc_def split: if_splits)
    then show ?thesis using T_close st1(1) by (auto simp: then_sum_def intro!: ok_goto_or_error)
  next
    case T_semicolon
    have "scan_ok (goto_yyc YY_init st')" if "end_of_condition st1 = Inr st'" for st'
      using that st1 st(4) by (auto simp: end_of_condition_def scan_ok_def stacks_ok_def goto_yyc_def split: if_splits)
    then show ?thesis using T_semicolon st1(1) by (auto simp: then_sum_def intro!: ok_goto_or_error)
  qed (use same in \<open>auto intro!: ok_goto\<close>)
qed

lemma ok_rule_action:
  assumes "scan_ok st" "sc_cond st = YY_rule"
  shows "action_ok (rule_action E f pr t st g)"
proof -
  have st: "stacks_ok st" "length (sc_rule st) \<le> MAX_KEYWORDS" "sc_ops st = []" "length (sc_res st) \<le> 1"
    using assms by (auto simp: scan_ok_init)
  have "action_ok (end_of_rule pr st g)"
    using st by (auto simp: end_of_rule_def scan_ok_def stacks_ok_def goto_yyc_def intro!: ok_goto ok_log)
  moreover have "action_ok (rule_action E f pr (T_keyword k a) st g)" for k a
    using st by (cases "scanned_keyword f st k a")
      (auto simp: scan_ok_def stacks_ok_def goto_yyc_def intro!: ok_goto ok_goto_or_error)
  ultimately show ?thesis using st
    by (cases t) (auto simp: scan_ok_def stacks_ok_def goto_yyc_def next_line_def simp del: rule_action.simps(2) intro!: ok_goto)
qed

lemma scan_step_ok:
  assumes "scan_step E C f pr (st, data, g) (st', rest, g')" "scan_ok st"
  shows "scan_ok st'"
  using assms(1)
proof (rule scan_stepE)
  fix t
  assume l: "lex_token (sc_cond st) data = Some (t, rest)" and a: "snd (scan_action E C f pr t st g) = Done (Scan_goto st', g')"
  have "action_ok (scan_action E C f pr t st g)"
    using l assms(2) by (cases "sc_cond st")
      (simp_all add: scan_action_def ok_init_action ok_cond_action ok_cond_op_action ok_rule_action)
  then show "scan_ok st'" using a by (simp add: action_ok_def)
qed

text \<open>
  C14. The scanner stays in its arrays: in every state that the scan of a file reaches, the rule has at most 16
  keywords, so that its end marker fits, both stacks have at most 100 elements, and the stack of values holds exactly the
  operands of the operators: the errors \<open>not enough input\<close> and \<open>invalid condition\<close> cannot happen.
\<close>

theorem scan_arrays_in_bounds:
  assumes "(scan_step E C f pr)\<^sup>*\<^sup>* (scan_start C, data @ [NUL], g) (st, rest, g')"
  shows "length (sc_rule st) \<le> MAX_KEYWORDS \<and> length (sc_res st) \<le> MAX_CONDITIONS \<and> length (sc_ops st) \<le> MAX_CONDITIONS \<and>
    (sc_cond st = YY_cond_op \<longrightarrow>
       then_sum (sy_unwind (stops_binary op) (sc_ops st) st) (sy_op_push op) \<noteq> Inl ''not enough input'' \<and>
       then_sum (sy_unwind stops_paren (sc_ops st) st) end_of_condition \<notin> {Inl ''not enough input'', Inl ''invalid condition''})"
proof -
  have "scan_ok (fst c')" if "(scan_step E C f pr)\<^sup>*\<^sup>* c c'" "scan_ok (fst c)" for c c'
    using that
  proof (induction rule: rtranclp_induct)
    case (step y z)
    then show ?case using scan_step_ok [of E C f pr "fst y" "fst (snd y)" "snd (snd y)" "fst z" "fst (snd z)" "snd (snd z)"] by simp
  qed
  from this [OF assms] have ok: "scan_ok st" by (simp add: scan_ok_def stacks_ok_def scan_start_def)
  then have st: "length (sc_rule st) \<le> MAX_KEYWORDS" "length (sc_res st) \<le> MAX_CONDITIONS" "length (sc_ops st) \<le> MAX_CONDITIONS"
    "stacks_ok st" by (auto simp: scan_ok_def stacks_ok_def)
  moreover have "then_sum (sy_unwind (stops_binary op) (sc_ops st) st) (sy_op_push op) \<noteq> Inl ''not enough input'' \<and>
       then_sum (sy_unwind stops_paren (sc_ops st) st) end_of_condition \<notin> {Inl ''not enough input'', Inl ''invalid condition''}"
    if "sc_cond st = YY_cond_op"
  proof -
    have n: "length (sc_res st) = Suc (binops (sc_ops st))" using ok that by (simp add: scan_ok_def)
    obtain st1 st2 where "sy_unwind (stops_binary op) (sc_ops st) st = Inr st1" "sy_unwind stops_paren (sc_ops st) st = Inr st2"
        "length (sc_res st2) = Suc (binops (sc_ops st2))"
      using sy_unwind_ok [where halts = "stops_binary op", OF st(4) n st(3) stops_at_paren(1)]
        sy_unwind_ok [where halts = stops_paren, OF st(4) n st(3) stops_at_paren(2)] by blast
    then show ?thesis by (auto simp: then_sum_def sy_op_push_def end_of_condition_def)
  qed
  ultimately show ?thesis by blast
qed

theorem scan_arrays_in_bounds_witness:
  "\<exists>st. (scan_step sample_php (sample_source (\<lambda>_. Inl [])) ''sp.rules'' (\<lambda>rule g. ret (g, SUCCESS)))\<^sup>*\<^sup>*
     (scan_start (sample_source (\<lambda>_. Inl [])), ''@condition 1 < 2;'' @ [NUL], sample_globals) (st, '' < 2;'' @ [NUL], sample_globals) \<and>
   sc_res st = [1] \<and> length (sc_res st) \<le> MAX_CONDITIONS"
proof -
  let ?C = "sample_source (\<lambda>_. Inl [])"
  let ?step = "scan_step sample_php ?C ''sp.rules'' (\<lambda>rule g. ret (g, SUCCESS))"
  let ?st1 = "goto_yyc YY_cond ((scan_start ?C)\<lparr>sc_active := True\<rparr>)"
  let ?st2 = "pushed 1 (goto_yyc YY_cond_op ?st1)"
  have "?step (scan_start ?C, ''@condition 1 < 2;'' @ [NUL], sample_globals) (?st1, ''1 < 2;'' @ [NUL], sample_globals)"
    by (rule scan_step.Goto [where t = T_condition])
      (use lex_init_condition [of "''1 < 2;'' @ [NUL]"] in \<open>auto simp: scan_start_def scan_action_def goto_def goto_yyc_def is_blank_def\<close>)
  moreover have "?step (?st1, ''1 < 2;'' @ [NUL], sample_globals) (?st2, '' < 2;'' @ [NUL], sample_globals)"
  proof (rule scan_step.Goto [where t = "T_number ''1''"])
    show "lex_token (sc_cond ?st1) (''1 < 2;'' @ [NUL]) = Some (T_number ''1'', '' < 2;'' @ [NUL])"
      using lex_cond_number [of "''1''" "''< 2;'' @ [NUL]"] by (simp add: is_digit_def)
    have "c_atoi ''1'' = 1"
      by (simp add: c_atoi_def strtoimax_value_def to_int32_def c_sign_digits_def dec_value_def digit_val_def is_digit_def is_space_def)
    then show "snd (scan_action sample_php ?C ''sp.rules'' (\<lambda>rule g. ret (g, SUCCESS)) (T_number ''1'') ?st1 sample_globals) =
        Done (Scan_goto ?st2, sample_globals)"
      by (simp add: scan_action_def goto_or_error_def sy_res_push_def goto_def scan_start_def goto_yyc_def pushed_def)
  qed
  ultimately have "?step\<^sup>*\<^sup>* (scan_start ?C, ''@condition 1 < 2;'' @ [NUL], sample_globals) (?st2, '' < 2;'' @ [NUL], sample_globals)"
    by (meson converse_rtranclp_into_rtranclp rtranclp.rtrancl_refl)
  from scan_arrays_in_bounds [OF this] this show ?thesis
    by (intro exI [of _ ?st2]) (simp add: scan_start_def goto_yyc_def)
qed

end
