(* ===== verification/Automaton_Init.thy ===== *)
theory Automaton_Init
  imports Config_Lexer
begin

text \<open>
  The automaton that scans configuration files, as \<open>src/sp_config_scanner.cached.c\<close> has it: its registers, its
  tables, and the labels of the condition \<open>init\<close>. A label is a function of the registers and of \<open>data\<close>; a
  \<open>goto\<close> is a tail call, and a loop of labels is a recursion on the text. A pointer into the text is the
  text from there on, \<open>*++data\<close> the head of the tail, and \<open>None\<close> a read behind the end. Where an action
  begins, a label ends with its token, which holds what the action is given by the tags.
\<close>

unbundle bit_operations_syntax

section \<open>Registers\<close>

record yy_regs =
  yy_accept :: nat
  yy_marker :: string
  yyt1 :: "string option"
  yyt2 :: "string option"
  yyt3 :: "string option"
  yyt4 :: "string option"
  yyt5 :: "string option"

text \<open>The difference of two pointers, the text between a tag and a later pointer, and a string without its quotes.\<close>

definition ptr_diff :: "string \<Rightarrow> string \<Rightarrow> nat" where
  "ptr_diff p q = length q - length p"

definition tag_text :: "string option \<Rightarrow> string \<Rightarrow> string" where
  "tag_text t p = take (ptr_diff p (the t)) (the t)"

definition unquoted :: "string \<Rightarrow> nat \<Rightarrow> string" where
  "unquoted t n = take (n - 2) (tl t)"

text \<open>The tokens from the tags: \<open>TMPSTR(tmpstr, t2, t1)\<close>, and the pointers of the other actions.\<close>

definition message_token :: "(string \<Rightarrow> token) \<Rightarrow> yy_regs \<Rightarrow> string \<Rightarrow> token" where
  "message_token mk r data =
     (let t1 = the (yyt1 r); n = ptr_diff data t1 - 1
      in mk (unquoted t1 n))"

definition set_token :: "yy_regs \<Rightarrow> token" where
  "set_token r =
     (let t1 = the (yyt1 r); t2 = the (yyt2 r); t3 = the (yyt3 r); t4 = the (yyt4 r)
      in T_set (take (ptr_diff t2 t1) t1) (unquoted t3 (ptr_diff t4 t3)))"

definition call_token :: "yy_regs \<Rightarrow> string \<Rightarrow> token" where
  "call_token r data =
     (let t1 = the (yyt1 r); t3 = the (yyt2 r); name_len = ptr_diff t3 t1 - 1; arg_len = ptr_diff data t3 - 1
      in T_call (take name_len t1) (if arg_len \<ge> 2 then Some (unquoted t3 arg_len) else None))"

definition keyword_token :: "yy_regs \<Rightarrow> token" where
  "keyword_token r =
     T_keyword (tag_text (yyt1 r) (the (yyt2 r)))
       (case (yyt3 r, yyt4 r) of (Some t3, Some t4) \<Rightarrow> Some (take (ptr_diff t4 t3) t3) | _ \<Rightarrow> None)"

section \<open>Tables\<close>

definition yybm_init :: "nat list" where
  "yybm_init =
  [0, 80, 80, 80, 80, 80, 80, 80, 80, 88, 0, 80, 80, 0, 80, 80,
  80, 80, 80, 80, 80, 80, 80, 80, 80, 80, 80, 80, 80, 80, 80, 80,
  88, 80, 16, 80, 80, 80, 80, 80, 80, 80, 80, 80, 80, 80, 80, 80,
  112, 112, 112, 112, 112, 112, 112, 112, 112, 112, 80, 80, 80, 80, 80, 80,
  80, 112, 112, 112, 112, 112, 112, 112, 112, 112, 112, 112, 112, 112, 112, 112,
  112, 112, 112, 112, 112, 112, 112, 112, 112, 112, 112, 80, 144, 80, 80, 112,
  80, 112, 112, 112, 112, 112, 112, 112, 112, 112, 112, 112, 112, 112, 112, 112,
  112, 112, 112, 112, 112, 112, 112, 112, 112, 112, 112, 80, 80, 80, 80, 80,
  80, 80, 80, 80, 80, 80, 80, 80, 80, 80, 80, 80, 80, 80, 80, 80,
  80, 80, 80, 80, 80, 80, 80, 80, 80, 80, 80, 80, 80, 80, 80, 80,
  80, 80, 80, 80, 80, 80, 80, 80, 80, 80, 80, 80, 80, 80, 80, 80,
  80, 80, 80, 80, 80, 80, 80, 80, 80, 80, 80, 80, 80, 80, 80, 80,
  80, 80, 80, 80, 80, 80, 80, 80, 80, 80, 80, 80, 80, 80, 80, 80,
  80, 80, 80, 80, 80, 80, 80, 80, 80, 80, 80, 80, 80, 80, 80, 80,
  80, 80, 80, 80, 80, 80, 80, 80, 80, 80, 80, 80, 80, 80, 80, 80,
  80, 80, 80, 80, 80, 80, 80, 80, 80, 80, 80, 80, 80, 80, 80, 80]"

definition yybm_cond :: "nat list" where
  "yybm_cond =
  [0, 64, 64, 64, 64, 64, 64, 64, 64, 72, 0, 64, 64, 0, 64, 64,
  64, 64, 64, 64, 64, 64, 64, 64, 64, 64, 64, 64, 64, 64, 64, 64,
  72, 64, 0, 64, 64, 64, 64, 64, 64, 64, 64, 64, 64, 64, 64, 64,
  112, 112, 112, 112, 112, 112, 112, 112, 112, 112, 64, 64, 64, 64, 64, 64,
  64, 96, 96, 96, 96, 96, 96, 96, 96, 96, 96, 96, 96, 96, 96, 96,
  96, 96, 96, 96, 96, 96, 96, 96, 96, 96, 96, 64, 128, 64, 64, 96,
  64, 96, 96, 96, 96, 96, 96, 96, 96, 96, 96, 96, 96, 96, 96, 96,
  96, 96, 96, 96, 96, 96, 96, 96, 96, 96, 96, 64, 64, 64, 64, 64,
  64, 64, 64, 64, 64, 64, 64, 64, 64, 64, 64, 64, 64, 64, 64, 64,
  64, 64, 64, 64, 64, 64, 64, 64, 64, 64, 64, 64, 64, 64, 64, 64,
  64, 64, 64, 64, 64, 64, 64, 64, 64, 64, 64, 64, 64, 64, 64, 64,
  64, 64, 64, 64, 64, 64, 64, 64, 64, 64, 64, 64, 64, 64, 64, 64,
  64, 64, 64, 64, 64, 64, 64, 64, 64, 64, 64, 64, 64, 64, 64, 64,
  64, 64, 64, 64, 64, 64, 64, 64, 64, 64, 64, 64, 64, 64, 64, 64,
  64, 64, 64, 64, 64, 64, 64, 64, 64, 64, 64, 64, 64, 64, 64, 64,
  64, 64, 64, 64, 64, 64, 64, 64, 64, 64, 64, 64, 64, 64, 64, 64]"

definition yybm_cond_op :: "nat list" where
  "yybm_cond_op =
  [0, 0, 0, 0, 0, 0, 0, 0, 0, 128, 0, 0, 0, 0, 0, 0,
  0, 0, 0, 0, 0, 0, 0, 0, 0, 0, 0, 0, 0, 0, 0, 0,
  128, 0, 0, 0, 0, 0, 0, 0, 0, 0, 0, 0, 0, 0, 0, 0,
  0, 0, 0, 0, 0, 0, 0, 0, 0, 0, 0, 0, 0, 0, 0, 0,
  0, 0, 0, 0, 0, 0, 0, 0, 0, 0, 0, 0, 0, 0, 0, 0,
  0, 0, 0, 0, 0, 0, 0, 0, 0, 0, 0, 0, 0, 0, 0, 0,
  0, 0, 0, 0, 0, 0, 0, 0, 0, 0, 0, 0, 0, 0, 0, 0,
  0, 0, 0, 0, 0, 0, 0, 0, 0, 0, 0, 0, 0, 0, 0, 0,
  0, 0, 0, 0, 0, 0, 0, 0, 0, 0, 0, 0, 0, 0, 0, 0,
  0, 0, 0, 0, 0, 0, 0, 0, 0, 0, 0, 0, 0, 0, 0, 0,
  0, 0, 0, 0, 0, 0, 0, 0, 0, 0, 0, 0, 0, 0, 0, 0,
  0, 0, 0, 0, 0, 0, 0, 0, 0, 0, 0, 0, 0, 0, 0, 0,
  0, 0, 0, 0, 0, 0, 0, 0, 0, 0, 0, 0, 0, 0, 0, 0,
  0, 0, 0, 0, 0, 0, 0, 0, 0, 0, 0, 0, 0, 0, 0, 0,
  0, 0, 0, 0, 0, 0, 0, 0, 0, 0, 0, 0, 0, 0, 0, 0,
  0, 0, 0, 0, 0, 0, 0, 0, 0, 0, 0, 0, 0, 0, 0, 0]"

definition yybm_rule :: "nat list" where
  "yybm_rule =
  [0, 64, 64, 64, 64, 64, 64, 64, 64, 88, 16, 64, 64, 0, 64, 64,
  64, 64, 64, 64, 64, 64, 64, 64, 64, 64, 64, 64, 64, 64, 64, 64,
  88, 64, 0, 64, 64, 64, 64, 64, 64, 64, 64, 64, 64, 64, 64, 64,
  96, 96, 96, 96, 96, 96, 96, 96, 96, 96, 64, 64, 64, 64, 64, 64,
  64, 96, 96, 96, 96, 96, 96, 96, 96, 96, 96, 96, 96, 96, 96, 96,
  96, 96, 96, 96, 96, 96, 96, 96, 96, 96, 96, 64, 128, 64, 64, 96,
  64, 96, 96, 96, 96, 96, 96, 96, 96, 96, 96, 96, 96, 96, 96, 96,
  96, 96, 96, 96, 96, 96, 96, 96, 96, 96, 96, 64, 64, 64, 64, 64,
  64, 64, 64, 64, 64, 64, 64, 64, 64, 64, 64, 64, 64, 64, 64, 64,
  64, 64, 64, 64, 64, 64, 64, 64, 64, 64, 64, 64, 64, 64, 64, 64,
  64, 64, 64, 64, 64, 64, 64, 64, 64, 64, 64, 64, 64, 64, 64, 64,
  64, 64, 64, 64, 64, 64, 64, 64, 64, 64, 64, 64, 64, 64, 64, 64,
  64, 64, 64, 64, 64, 64, 64, 64, 64, 64, 64, 64, 64, 64, 64, 64,
  64, 64, 64, 64, 64, 64, 64, 64, 64, 64, 64, 64, 64, 64, 64, 64,
  64, 64, 64, 64, 64, 64, 64, 64, 64, 64, 64, 64, 64, 64, 64, 64,
  64, 64, 64, 64, 64, 64, 64, 64, 64, 64, 64, 64, 64, 64, 64, 64]"

section \<open>The labels of \<open>init\<close>\<close>

fun yy1 :: "yy_regs \<Rightarrow> lexer" where
  "yy1 r (_ # data) = Some (T_end, data)"
| "yy1 r [] = None"

definition yy3 :: "yy_regs \<Rightarrow> lexer" where
  "yy3 r data = Some (T_any, data)"

fun yy2 :: "yy_regs \<Rightarrow> lexer" where
  "yy2 r (_ # data) = yy3 r data"
| "yy2 r [] = None"

fun yy4 :: "yy_regs \<Rightarrow> lexer" where
  "yy4 r (_ # yych # data) =
   (if yybm_init ! byte yych AND 8 \<noteq> 0 then yy4 r (yych # data) else Some (T_blank, yych # data))"
| "yy4 r _ = None"

fun yy5 :: "yy_regs \<Rightarrow> lexer" where
  "yy5 r (_ # data) = Some (T_newline, data)"
| "yy5 r [] = None"

fun yy6 :: "yy_regs \<Rightarrow> lexer" where
  "yy6 r (_ # yych # data) =
   (if yych = LF then yy5 r (yych # data) else yy3 r (yych # data))"
| "yy6 r _ = None"

fun yy7 :: "yy_regs \<Rightarrow> lexer" where
  "yy7 r (_ # yych # data) =
   (if yybm_init ! byte yych AND 16 \<noteq> 0 then yy7 r (yych # data) else Some (T_comment, yych # data))"
| "yy7 r _ = None"

definition yy64 :: "yy_regs \<Rightarrow> lexer" where
  "yy64 r data = Some (message_token T_error r data, data)"

definition yy67 :: "yy_regs \<Rightarrow> lexer" where
  "yy67 r data = Some (message_token T_info r data, data)"

definition yy79 :: "yy_regs \<Rightarrow> lexer" where
  "yy79 r data = Some (message_token T_warning r data, data)"

definition yy83 :: "yy_regs \<Rightarrow> lexer" where
  "yy83 r data = Some (set_token r, data)"

definition yy12 :: "yy_regs \<Rightarrow> lexer" where
  "yy12 r data =
     (if yy_accept r \<le> 2 then
       (if yy_accept r \<le> 1 then (if yy_accept r = 0 then yy3 r (yy_marker r) else yy64 r (yy_marker r))
       else yy67 r (yy_marker r))
     else if yy_accept r = 3 then yy79 r (yy_marker r) else yy83 r (yy_marker r))"

fun yy90 :: "yy_regs \<Rightarrow> lexer" where
  "yy90 r (_ # yych # data) =
   (if yych = CHR 0x09 then yy90 r (yych # data)
   else if yych = CHR '' '' then yy90 r (yych # data) else Some (T_condition, yych # data))"
| "yy90 r _ = None"

fun yy85 :: "yy_regs \<Rightarrow> lexer" where
  "yy85 r (_ # yych # data) =
   (if yych = CHR 0x09 then yy90 r (yych # data)
   else if yych = CHR '' '' then yy90 r (yych # data) else yy12 r (yych # data))"
| "yy85 r _ = None"

fun yy74 :: "yy_regs \<Rightarrow> lexer" where
  "yy74 r (_ # yych # data) =
   (if yych = CHR ''n'' then yy85 r (yych # data) else yy12 r (yych # data))"
| "yy74 r _ = None"

fun yy61 :: "yy_regs \<Rightarrow> lexer" where
  "yy61 r (_ # yych # data) =
   (if yych = CHR ''o'' then yy74 r (yych # data) else yy12 r (yych # data))"
| "yy61 r _ = None"

fun yy52 :: "yy_regs \<Rightarrow> lexer" where
  "yy52 r (_ # yych # data) =
   (if yych = CHR ''i'' then yy61 r (yych # data) else yy12 r (yych # data))"
| "yy52 r _ = None"

fun yy43 :: "yy_regs \<Rightarrow> lexer" where
  "yy43 r (_ # yych # data) =
   (if yych = CHR ''t'' then yy52 r (yych # data) else yy12 r (yych # data))"
| "yy43 r _ = None"

fun yy34 :: "yy_regs \<Rightarrow> lexer" where
  "yy34 r (_ # yych # data) =
   (if yych = CHR ''i'' then yy43 r (yych # data) else yy12 r (yych # data))"
| "yy34 r _ = None"

fun yy27 :: "yy_regs \<Rightarrow> lexer" where
  "yy27 r (_ # yych # data) =
   (if yych = CHR ''d'' then yy34 r (yych # data) else yy12 r (yych # data))"
| "yy27 r _ = None"

fun yy20 :: "yy_regs \<Rightarrow> lexer" where
  "yy20 r (_ # yych # data) =
   (if yych = CHR ''n'' then yy27 r (yych # data) else yy12 r (yych # data))"
| "yy20 r _ = None"

fun yy11 :: "yy_regs \<Rightarrow> lexer" where
  "yy11 r (_ # yych # data) =
   (if yych = CHR ''o'' then yy20 r (yych # data) else yy12 r (yych # data))"
| "yy11 r _ = None"

fun yy92 :: "yy_regs \<Rightarrow> lexer" where
  "yy92 r (_ # yych # data) =
   (if byte yych \<le> 0x1F then (if yych = CHR 0x09 then yy92 r (yych # data) else yy12 r (yych # data))
   else if byte yych \<le> 0x20 then yy92 r (yych # data)
   else if yych \<noteq> CHR '';'' then yy12 r (yych # data) else Some (T_end_condition, data))"
| "yy92 r _ = None"

fun yy91 :: "yy_regs \<Rightarrow> lexer" where
  "yy91 r (_ # yych # data) =
   (if yych \<noteq> CHR ''i'' then yy12 r (yych # data)
   else (case data of [] \<Rightarrow> None | yych1 # data1 \<Rightarrow>
     if yych1 \<noteq> CHR ''o'' then yy12 r (yych1 # data1)
     else (case data1 of [] \<Rightarrow> None | yych2 # data2 \<Rightarrow>
       if yych2 \<noteq> CHR ''n'' then yy12 r (yych2 # data2) else yy92 r (yych2 # data2))))"
| "yy91 r _ = None"

fun yy86 :: "yy_regs \<Rightarrow> lexer" where
  "yy86 r (_ # yych # data) =
   (if yych = CHR ''t'' then yy91 r (yych # data) else yy12 r (yych # data))"
| "yy86 r _ = None"

fun yy75 :: "yy_regs \<Rightarrow> lexer" where
  "yy75 r (_ # yych # data) =
   (if yych = CHR ''i'' then yy86 r (yych # data) else yy12 r (yych # data))"
| "yy75 r _ = None"

fun yy62 :: "yy_regs \<Rightarrow> lexer" where
  "yy62 r (_ # yych # data) =
   (if yych = CHR ''d'' then yy75 r (yych # data) else yy12 r (yych # data))"
| "yy62 r _ = None"

fun yy53 :: "yy_regs \<Rightarrow> lexer" where
  "yy53 r (_ # yych # data) =
   (if yych = CHR ''n'' then yy62 r (yych # data) else yy12 r (yych # data))"
| "yy53 r _ = None"

fun yy44 :: "yy_regs \<Rightarrow> lexer" where
  "yy44 r (_ # yych # data) =
   (if yych = CHR ''o'' then yy53 r (yych # data) else yy12 r (yych # data))"
| "yy44 r _ = None"

fun yy35 :: "yy_regs \<Rightarrow> lexer" where
  "yy35 r (_ # yych # data) =
   (if yych = CHR ''c'' then yy44 r (yych # data) else yy12 r (yych # data))"
| "yy35 r _ = None"

fun yy28 :: "yy_regs \<Rightarrow> lexer" where
  "yy28 r (_ # yych # data) =
   (if yych = CHR ''_'' then yy35 r (yych # data) else yy12 r (yych # data))"
| "yy28 r _ = None"

fun yy21 :: "yy_regs \<Rightarrow> lexer" where
  "yy21 r (_ # yych # data) =
   (if yych = CHR ''d'' then yy28 r (yych # data) else yy12 r (yych # data))"
| "yy21 r _ = None"

fun yy63 :: "yy_regs \<Rightarrow> lexer" where
  "yy63 r (_ # data) = yy64 r data"
| "yy63 r [] = None"

fun yy54 :: "yy_regs \<Rightarrow> lexer" where
  "yy54 r (_ # yych # data) =
   (if yych = CHR '';'' then yy63 r (yych # data) else yy12 r (yych # data))"
| "yy54 r _ = None"

fun yy45 :: "yy_regs \<Rightarrow> lexer" and
  yy55 :: "yy_regs \<Rightarrow> lexer" and
  yy65 :: "yy_regs \<Rightarrow> lexer" and
  yy76 :: "yy_regs \<Rightarrow> lexer" where
  "yy45 r (_ # yych # data) =
   (if yybm_init ! byte yych AND 64 \<noteq> 0 then yy45 r (yych # data)
   else if byte yych \<le> 0x0D then yy12 r (yych # data)
   else if byte yych \<le> 0x22 then yy54 r (yych # data) else yy55 r (yych # data))"
| "yy45 r _ = None"
| "yy55 r (_ # yych # data) =
   (if yybm_init ! byte yych AND 64 \<noteq> 0 then yy45 r (yych # data)
   else if byte yych \<le> 0x0D then yy12 r (yych # data)
   else if byte yych \<le> 0x22 then yy65 r (yych # data) else yy55 r (yych # data))"
| "yy55 r _ = None"
| "yy65 r (_ # yych # data) =
   (if yybm_init ! byte yych AND 128 \<noteq> 0 then yy55 r (yych # data)
   else if byte yych \<le> 0x0D then
     (if byte yych \<le> 0x09 then (if byte yych \<le> 0x00 then yy12 r (yych # data) else yy45 r (yych # data))
     else if byte yych \<le> 0x0A then yy12 r (yych # data)
     else if byte yych \<le> 0x0C then yy45 r (yych # data) else yy12 r (yych # data))
   else if byte yych \<le> 0x22 then (if byte yych \<le> 0x21 then yy45 r (yych # data) else yy54 r (yych # data))
   else if yych = CHR '';'' then yy76 r (yych # data) else yy45 r (yych # data))"
| "yy65 r _ = None"
| "yy76 r (_ # yych # data) =
   (if yybm_init ! byte yych AND 64 \<noteq> 0 then
     yy45 (r\<lparr>yy_accept := 1, yy_marker := yych # data\<rparr>) (yych # data)
   else if byte yych \<le> 0x0D then yy64 (r\<lparr>yy_accept := 1, yy_marker := yych # data\<rparr>) (yych # data)
   else if byte yych \<le> 0x22 then yy54 (r\<lparr>yy_accept := 1, yy_marker := yych # data\<rparr>) (yych # data)
   else yy55 (r\<lparr>yy_accept := 1, yy_marker := yych # data\<rparr>) (yych # data))"
| "yy76 r _ = None"

fun yy36 :: "yy_regs \<Rightarrow> lexer" and
  yy37 :: "yy_regs \<Rightarrow> lexer" where
  "yy36 r (_ # yych # data) =
   yy37 r (yych # data)"
| "yy36 r _ = None"
| "yy37 r (yych # data) =
   (if byte yych \<le> 0x1F then (if yych = CHR 0x09 then yy36 r (yych # data) else yy12 r (yych # data))
   else if byte yych \<le> 0x20 then yy36 r (yych # data)
   else if yych = DQUOTE then yy45 (r\<lparr>yyt1 := Some (yych # data)\<rparr>) (yych # data) else yy12 r (yych # data))"
| "yy37 r [] = None"

fun yy46 :: "yy_regs \<Rightarrow> lexer" where
  "yy46 r (_ # yych # data) =
   (if yych = DQUOTE then yy12 r (yych # data) else yy37 r (yych # data))"
| "yy46 r _ = None"

fun yy38 :: "yy_regs \<Rightarrow> lexer" where
  "yy38 r (_ # yych # data) =
   (if yych = CHR ''r'' then yy46 r (yych # data) else yy12 r (yych # data))"
| "yy38 r _ = None"

fun yy29 :: "yy_regs \<Rightarrow> lexer" where
  "yy29 r (_ # yych # data) =
   (if yych = DQUOTE then yy12 r (yych # data)
   else if yych = CHR ''o'' then yy38 r (yych # data) else yy37 r (yych # data))"
| "yy29 r _ = None"

fun yy22 :: "yy_regs \<Rightarrow> lexer" where
  "yy22 r (_ # yych # data) =
   (if yych = CHR ''r'' then yy29 r (yych # data) else yy12 r (yych # data))"
| "yy22 r _ = None"

fun yy13 :: "yy_regs \<Rightarrow> lexer" where
  "yy13 r (_ # yych # data) =
   (if yych = CHR ''n'' then yy21 r (yych # data)
   else if yych = CHR ''r'' then yy22 r (yych # data) else yy12 r (yych # data))"
| "yy13 r _ = None"

fun yy66 :: "yy_regs \<Rightarrow> lexer" where
  "yy66 r (_ # data) = yy67 r data"
| "yy66 r [] = None"

fun yy56 :: "yy_regs \<Rightarrow> lexer" where
  "yy56 r (_ # yych # data) =
   (if yych = CHR '';'' then yy66 r (yych # data) else yy12 r (yych # data))"
| "yy56 r _ = None"

fun yy47 :: "yy_regs \<Rightarrow> lexer" and
  yy57 :: "yy_regs \<Rightarrow> lexer" and
  yy68 :: "yy_regs \<Rightarrow> lexer" and
  yy77 :: "yy_regs \<Rightarrow> lexer" where
  "yy47 r (_ # yych # data) =
   (if byte yych \<le> 0x0D then
     (if byte yych \<le> 0x09 then (if byte yych \<le> 0x00 then yy12 r (yych # data) else yy47 r (yych # data))
     else if byte yych \<le> 0x0A then yy12 r (yych # data)
     else if byte yych \<le> 0x0C then yy47 r (yych # data) else yy12 r (yych # data))
   else if byte yych \<le> 0x22 then (if byte yych \<le> 0x21 then yy47 r (yych # data) else yy56 r (yych # data))
   else if yych = BACKSLASH then yy57 r (yych # data) else yy47 r (yych # data))"
| "yy47 r _ = None"
| "yy57 r (_ # yych # data) =
   (if byte yych \<le> 0x0D then
     (if byte yych \<le> 0x09 then (if byte yych \<le> 0x00 then yy12 r (yych # data) else yy47 r (yych # data))
     else if byte yych \<le> 0x0A then yy12 r (yych # data)
     else if byte yych \<le> 0x0C then yy47 r (yych # data) else yy12 r (yych # data))
   else if byte yych \<le> 0x22 then (if byte yych \<le> 0x21 then yy47 r (yych # data) else yy68 r (yych # data))
   else if yych = BACKSLASH then yy57 r (yych # data) else yy47 r (yych # data))"
| "yy57 r _ = None"
| "yy68 r (_ # yych # data) =
   (if byte yych \<le> 0x21 then
     (if byte yych \<le> 0x0A then
       (if byte yych \<le> 0x00 then yy12 r (yych # data)
       else if byte yych \<le> 0x09 then yy47 r (yych # data) else yy12 r (yych # data))
     else if yych = CR then yy12 r (yych # data) else yy47 r (yych # data))
   else if byte yych \<le> 0x3B then
     (if byte yych \<le> 0x22 then yy56 r (yych # data)
     else if byte yych \<le> 0x3A then yy47 r (yych # data) else yy77 r (yych # data))
   else if yych = BACKSLASH then yy57 r (yych # data) else yy47 r (yych # data))"
| "yy68 r _ = None"
| "yy77 r (_ # yych # data) =
   (if byte yych \<le> 0x0D then
     (if byte yych \<le> 0x09 then
       (if byte yych \<le> 0x00 then yy67 (r\<lparr>yy_accept := 2, yy_marker := yych # data\<rparr>) (yych # data)
       else yy47 (r\<lparr>yy_accept := 2, yy_marker := yych # data\<rparr>) (yych # data))
     else if byte yych \<le> 0x0A then yy67 (r\<lparr>yy_accept := 2, yy_marker := yych # data\<rparr>) (yych # data)
     else if byte yych \<le> 0x0C then yy47 (r\<lparr>yy_accept := 2, yy_marker := yych # data\<rparr>) (yych # data)
     else yy67 (r\<lparr>yy_accept := 2, yy_marker := yych # data\<rparr>) (yych # data))
   else if byte yych \<le> 0x22 then
     (if byte yych \<le> 0x21 then yy47 (r\<lparr>yy_accept := 2, yy_marker := yych # data\<rparr>) (yych # data)
     else yy56 (r\<lparr>yy_accept := 2, yy_marker := yych # data\<rparr>) (yych # data))
   else if yych = BACKSLASH then yy57 (r\<lparr>yy_accept := 2, yy_marker := yych # data\<rparr>) (yych # data)
   else yy47 (r\<lparr>yy_accept := 2, yy_marker := yych # data\<rparr>) (yych # data))"
| "yy77 r _ = None"

fun yy39 :: "yy_regs \<Rightarrow> lexer" and
  yy40 :: "yy_regs \<Rightarrow> lexer" where
  "yy39 r (_ # yych # data) =
   yy40 r (yych # data)"
| "yy39 r _ = None"
| "yy40 r (yych # data) =
   (if byte yych \<le> 0x1F then (if yych = CHR 0x09 then yy39 r (yych # data) else yy12 r (yych # data))
   else if byte yych \<le> 0x20 then yy39 r (yych # data)
   else if yych = DQUOTE then yy47 (r\<lparr>yyt1 := Some (yych # data)\<rparr>) (yych # data) else yy12 r (yych # data))"
| "yy40 r [] = None"

fun yy31 :: "yy_regs \<Rightarrow> lexer" where
  "yy31 r (_ # yych # data) =
   (if yych = DQUOTE then yy12 r (yych # data) else yy40 r (yych # data))"
| "yy31 r _ = None"

fun yy30 :: "yy_regs \<Rightarrow> lexer" where
  "yy30 r (_ # yych # data) =
   (if yych \<noteq> CHR ''o'' then yy12 r (yych # data) else yy31 r (yych # data))"
| "yy30 r _ = None"

fun yy23 :: "yy_regs \<Rightarrow> lexer" where
  "yy23 r (_ # yych # data) =
   (if yych = CHR ''f'' then yy30 r (yych # data) else yy12 r (yych # data))"
| "yy23 r _ = None"

fun yy14 :: "yy_regs \<Rightarrow> lexer" where
  "yy14 r (_ # yych # data) =
   (if yych = CHR ''n'' then yy23 r (yych # data) else yy12 r (yych # data))"
| "yy14 r _ = None"

fun yy24 :: "yy_regs \<Rightarrow> lexer" where
  "yy24 r (_ # yych # data) =
   (if yych = CHR ''g'' then yy31 r (yych # data) else yy12 r (yych # data))"
| "yy24 r _ = None"

fun yy15 :: "yy_regs \<Rightarrow> lexer" where
  "yy15 r (_ # yych # data) =
   (if yych = CHR ''o'' then yy24 r (yych # data) else yy12 r (yych # data))"
| "yy15 r _ = None"

fun yy82 :: "yy_regs \<Rightarrow> lexer" where
  "yy82 r (_ # data) = yy83 (r\<lparr>yyt4 := yyt5 r\<rparr>) data"
| "yy82 r [] = None"

fun yy81 :: "yy_regs \<Rightarrow> lexer" where
  "yy81 r (_ # yych # data) =
   (if byte yych \<le> 0x1F then (if yych = CHR 0x09 then yy81 r (yych # data) else yy12 r (yych # data))
   else if byte yych \<le> 0x20 then yy81 r (yych # data)
   else if yych \<noteq> CHR '';'' then yy12 r (yych # data) else yy82 r (yych # data))"
| "yy81 r _ = None"

fun yy72 :: "yy_regs \<Rightarrow> lexer" where
  "yy72 r (_ # yych # data) =
   (if byte yych \<le> 0x1F then
     (if yych = CHR 0x09 then yy81 (r\<lparr>yyt5 := Some (yych # data)\<rparr>) (yych # data) else yy12 r (yych # data))
   else if byte yych \<le> 0x20 then yy81 (r\<lparr>yyt5 := Some (yych # data)\<rparr>) (yych # data)
   else if yych = CHR '';'' then yy82 (r\<lparr>yyt5 := Some (yych # data)\<rparr>) (yych # data) else yy12 r (yych # data))"
| "yy72 r _ = None"

fun yy60 :: "yy_regs \<Rightarrow> lexer" and
  yy73 :: "yy_regs \<Rightarrow> lexer" and
  yy84 :: "yy_regs \<Rightarrow> lexer" and
  yy88 :: "yy_regs \<Rightarrow> lexer" and
  yy89 :: "yy_regs \<Rightarrow> lexer" where
  "yy60 r (_ # yych # data) =
   (if byte yych \<le> 0x0D then
     (if byte yych \<le> 0x09 then (if byte yych \<le> 0x00 then yy12 r (yych # data) else yy60 r (yych # data))
     else if byte yych \<le> 0x0A then yy12 r (yych # data)
     else if byte yych \<le> 0x0C then yy60 r (yych # data) else yy12 r (yych # data))
   else if byte yych \<le> 0x22 then (if byte yych \<le> 0x21 then yy60 r (yych # data) else yy72 r (yych # data))
   else if yych = BACKSLASH then yy73 r (yych # data) else yy60 r (yych # data))"
| "yy60 r _ = None"
| "yy73 r (_ # yych # data) =
   (if byte yych \<le> 0x0D then
     (if byte yych \<le> 0x09 then (if byte yych \<le> 0x00 then yy12 r (yych # data) else yy60 r (yych # data))
     else if byte yych \<le> 0x0A then yy12 r (yych # data)
     else if byte yych \<le> 0x0C then yy60 r (yych # data) else yy12 r (yych # data))
   else if byte yych \<le> 0x22 then (if byte yych \<le> 0x21 then yy60 r (yych # data) else yy84 r (yych # data))
   else if yych = BACKSLASH then yy73 r (yych # data) else yy60 r (yych # data))"
| "yy73 r _ = None"
| "yy84 r (_ # yych # data) =
   (if byte yych \<le> 0x1F then
     (if byte yych \<le> 0x09 then
       (if byte yych \<le> 0x00 then yy12 r (yych # data)
       else if byte yych \<le> 0x08 then yy60 r (yych # data)
       else yy88 (r\<lparr>yyt5 := Some (yych # data)\<rparr>) (yych # data))
     else if byte yych \<le> 0x0A then yy12 r (yych # data)
     else if yych = CR then yy12 r (yych # data) else yy60 r (yych # data))
   else if byte yych \<le> 0x3A then
     (if byte yych \<le> 0x20 then yy88 (r\<lparr>yyt5 := Some (yych # data)\<rparr>) (yych # data)
     else if yych = DQUOTE then yy72 r (yych # data) else yy60 r (yych # data))
   else if byte yych \<le> 0x3B then yy89 (r\<lparr>yyt5 := Some (yych # data)\<rparr>) (yych # data)
   else if yych = BACKSLASH then yy73 r (yych # data) else yy60 r (yych # data))"
| "yy84 r _ = None"
| "yy88 r (_ # yych # data) =
   (if byte yych \<le> 0x1F then
     (if byte yych \<le> 0x09 then
       (if byte yych \<le> 0x00 then yy12 r (yych # data)
       else if byte yych \<le> 0x08 then yy60 r (yych # data) else yy88 r (yych # data))
     else if byte yych \<le> 0x0A then yy12 r (yych # data)
     else if yych = CR then yy12 r (yych # data) else yy60 r (yych # data))
   else if byte yych \<le> 0x3A then
     (if byte yych \<le> 0x20 then yy88 r (yych # data)
     else if yych = DQUOTE then yy72 r (yych # data) else yy60 r (yych # data))
   else if byte yych \<le> 0x3B then yy89 r (yych # data)
   else if yych = BACKSLASH then yy73 r (yych # data) else yy60 r (yych # data))"
| "yy88 r _ = None"
| "yy89 r (_ # yych # data) =
   (if byte yych \<le> 0x0D then
     (if byte yych \<le> 0x09 then
       (if byte yych \<le> 0x00 then
         yy83 (r\<lparr>yy_accept := 4, yy_marker := yych # data, yyt4 := yyt5 r\<rparr>) (yych # data)
       else yy60 (r\<lparr>yy_accept := 4, yy_marker := yych # data, yyt4 := yyt5 r\<rparr>) (yych # data))
     else if byte yych \<le> 0x0A then
       yy83 (r\<lparr>yy_accept := 4, yy_marker := yych # data, yyt4 := yyt5 r\<rparr>) (yych # data)
     else if byte yych \<le> 0x0C then
       yy60 (r\<lparr>yy_accept := 4, yy_marker := yych # data, yyt4 := yyt5 r\<rparr>) (yych # data)
     else yy83 (r\<lparr>yy_accept := 4, yy_marker := yych # data, yyt4 := yyt5 r\<rparr>) (yych # data))
   else if byte yych \<le> 0x22 then
     (if byte yych \<le> 0x21 then
       yy60 (r\<lparr>yy_accept := 4, yy_marker := yych # data, yyt4 := yyt5 r\<rparr>) (yych # data)
     else yy72 (r\<lparr>yy_accept := 4, yy_marker := yych # data, yyt4 := yyt5 r\<rparr>) (yych # data))
   else if yych = BACKSLASH then
     yy73 (r\<lparr>yy_accept := 4, yy_marker := yych # data, yyt4 := yyt5 r\<rparr>) (yych # data)
   else yy60 (r\<lparr>yy_accept := 4, yy_marker := yych # data, yyt4 := yyt5 r\<rparr>) (yych # data))"
| "yy89 r _ = None"

fun yy51 :: "yy_regs \<Rightarrow> lexer" where
  "yy51 r (_ # yych # data) =
   (if byte yych \<le> 0x1F then (if yych = CHR 0x09 then yy51 r (yych # data) else yy12 r (yych # data))
   else if byte yych \<le> 0x20 then yy51 r (yych # data)
   else if yych = DQUOTE then yy60 (r\<lparr>yyt3 := Some (yych # data)\<rparr>) (yych # data) else yy12 r (yych # data))"
| "yy51 r _ = None"

fun yy42 :: "yy_regs \<Rightarrow> lexer" where
  "yy42 r (_ # yych # data) =
   (if yybm_init ! byte yych AND 32 \<noteq> 0 then yy42 r (yych # data)
   else if yych = CHR 0x09 then yy51 (r\<lparr>yyt2 := Some (yych # data)\<rparr>) (yych # data)
   else if yych = CHR '' '' then yy51 (r\<lparr>yyt2 := Some (yych # data)\<rparr>) (yych # data) else yy12 r (yych # data))"
| "yy42 r _ = None"

fun yy33 :: "yy_regs \<Rightarrow> lexer" where
  "yy33 r (_ # yych # data) =
   (if byte yych \<le> 0x20 then
     (if yych = CHR 0x09 then yy33 r (yych # data)
     else if byte yych \<le> 0x1F then yy12 r (yych # data) else yy33 r (yych # data))
   else if byte yych \<le> 0x5A then
     (if byte yych \<le> 0x40 then yy12 r (yych # data)
     else yy42 (r\<lparr>yyt1 := Some (yych # data)\<rparr>) (yych # data))
   else if byte yych \<le> 0x60 then yy12 r (yych # data)
   else if byte yych \<le> 0x7A then yy42 (r\<lparr>yyt1 := Some (yych # data)\<rparr>) (yych # data)
   else yy12 r (yych # data))"
| "yy33 r _ = None"

fun yy26 :: "yy_regs \<Rightarrow> lexer" where
  "yy26 r (_ # yych # data) =
   (if yych = CHR 0x09 then yy33 r (yych # data)
   else if yych = CHR '' '' then yy33 r (yych # data) else yy12 r (yych # data))"
| "yy26 r _ = None"

fun yy18 :: "yy_regs \<Rightarrow> lexer" where
  "yy18 r (_ # yych # data) =
   (if yych = CHR ''t'' then yy26 r (yych # data) else yy12 r (yych # data))"
| "yy18 r _ = None"

fun yy16 :: "yy_regs \<Rightarrow> lexer" where
  "yy16 r (_ # yych # data) =
   (if yych = CHR ''e'' then yy18 r (yych # data) else yy12 r (yych # data))"
| "yy16 r _ = None"

fun yy78 :: "yy_regs \<Rightarrow> lexer" where
  "yy78 r (_ # data) = yy79 r data"
| "yy78 r [] = None"

fun yy69 :: "yy_regs \<Rightarrow> lexer" where
  "yy69 r (_ # yych # data) =
   (if yych = CHR '';'' then yy78 r (yych # data) else yy12 r (yych # data))"
| "yy69 r _ = None"

fun yy58 :: "yy_regs \<Rightarrow> lexer" and
  yy70 :: "yy_regs \<Rightarrow> lexer" and
  yy80 :: "yy_regs \<Rightarrow> lexer" and
  yy87 :: "yy_regs \<Rightarrow> lexer" where
  "yy58 r (_ # yych # data) =
   (if byte yych \<le> 0x0D then
     (if byte yych \<le> 0x09 then (if byte yych \<le> 0x00 then yy12 r (yych # data) else yy58 r (yych # data))
     else if byte yych \<le> 0x0A then yy12 r (yych # data)
     else if byte yych \<le> 0x0C then yy58 r (yych # data) else yy12 r (yych # data))
   else if byte yych \<le> 0x22 then (if byte yych \<le> 0x21 then yy58 r (yych # data) else yy69 r (yych # data))
   else if yych = BACKSLASH then yy70 r (yych # data) else yy58 r (yych # data))"
| "yy58 r _ = None"
| "yy70 r (_ # yych # data) =
   (if byte yych \<le> 0x0D then
     (if byte yych \<le> 0x09 then (if byte yych \<le> 0x00 then yy12 r (yych # data) else yy58 r (yych # data))
     else if byte yych \<le> 0x0A then yy12 r (yych # data)
     else if byte yych \<le> 0x0C then yy58 r (yych # data) else yy12 r (yych # data))
   else if byte yych \<le> 0x22 then (if byte yych \<le> 0x21 then yy58 r (yych # data) else yy80 r (yych # data))
   else if yych = BACKSLASH then yy70 r (yych # data) else yy58 r (yych # data))"
| "yy70 r _ = None"
| "yy80 r (_ # yych # data) =
   (if byte yych \<le> 0x21 then
     (if byte yych \<le> 0x0A then
       (if byte yych \<le> 0x00 then yy12 r (yych # data)
       else if byte yych \<le> 0x09 then yy58 r (yych # data) else yy12 r (yych # data))
     else if yych = CR then yy12 r (yych # data) else yy58 r (yych # data))
   else if byte yych \<le> 0x3B then
     (if byte yych \<le> 0x22 then yy69 r (yych # data)
     else if byte yych \<le> 0x3A then yy58 r (yych # data) else yy87 r (yych # data))
   else if yych = BACKSLASH then yy70 r (yych # data) else yy58 r (yych # data))"
| "yy80 r _ = None"
| "yy87 r (_ # yych # data) =
   (if byte yych \<le> 0x0D then
     (if byte yych \<le> 0x09 then
       (if byte yych \<le> 0x00 then yy79 (r\<lparr>yy_accept := 3, yy_marker := yych # data\<rparr>) (yych # data)
       else yy58 (r\<lparr>yy_accept := 3, yy_marker := yych # data\<rparr>) (yych # data))
     else if byte yych \<le> 0x0A then yy79 (r\<lparr>yy_accept := 3, yy_marker := yych # data\<rparr>) (yych # data)
     else if byte yych \<le> 0x0C then yy58 (r\<lparr>yy_accept := 3, yy_marker := yych # data\<rparr>) (yych # data)
     else yy79 (r\<lparr>yy_accept := 3, yy_marker := yych # data\<rparr>) (yych # data))
   else if byte yych \<le> 0x22 then
     (if byte yych \<le> 0x21 then yy58 (r\<lparr>yy_accept := 3, yy_marker := yych # data\<rparr>) (yych # data)
     else yy69 (r\<lparr>yy_accept := 3, yy_marker := yych # data\<rparr>) (yych # data))
   else if yych = BACKSLASH then yy70 (r\<lparr>yy_accept := 3, yy_marker := yych # data\<rparr>) (yych # data)
   else yy58 (r\<lparr>yy_accept := 3, yy_marker := yych # data\<rparr>) (yych # data))"
| "yy87 r _ = None"

fun yy48 :: "yy_regs \<Rightarrow> lexer" and
  yy49 :: "yy_regs \<Rightarrow> lexer" where
  "yy48 r (_ # yych # data) =
   yy49 r (yych # data)"
| "yy48 r _ = None"
| "yy49 r (yych # data) =
   (if byte yych \<le> 0x1F then (if yych = CHR 0x09 then yy48 r (yych # data) else yy12 r (yych # data))
   else if byte yych \<le> 0x20 then yy48 r (yych # data)
   else if yych = DQUOTE then yy58 (r\<lparr>yyt1 := Some (yych # data)\<rparr>) (yych # data) else yy12 r (yych # data))"
| "yy49 r [] = None"

fun yy71 :: "yy_regs \<Rightarrow> lexer" where
  "yy71 r (_ # yych # data) =
   (if yych = DQUOTE then yy12 r (yych # data) else yy49 r (yych # data))"
| "yy71 r _ = None"

fun yy59 :: "yy_regs \<Rightarrow> lexer" where
  "yy59 r (_ # yych # data) =
   (if yych = CHR ''g'' then yy71 r (yych # data) else yy12 r (yych # data))"
| "yy59 r _ = None"

fun yy50 :: "yy_regs \<Rightarrow> lexer" where
  "yy50 r (_ # yych # data) =
   (if yych = CHR ''n'' then yy59 r (yych # data) else yy12 r (yych # data))"
| "yy50 r _ = None"

fun yy41 :: "yy_regs \<Rightarrow> lexer" where
  "yy41 r (_ # yych # data) =
   (if yych = DQUOTE then yy12 r (yych # data)
   else if yych = CHR ''i'' then yy50 r (yych # data) else yy49 r (yych # data))"
| "yy41 r _ = None"

fun yy32 :: "yy_regs \<Rightarrow> lexer" where
  "yy32 r (_ # yych # data) =
   (if yych = CHR ''n'' then yy41 r (yych # data) else yy12 r (yych # data))"
| "yy32 r _ = None"

fun yy25 :: "yy_regs \<Rightarrow> lexer" where
  "yy25 r (_ # yych # data) =
   (if yych = CHR ''r'' then yy32 r (yych # data) else yy12 r (yych # data))"
| "yy25 r _ = None"

fun yy17 :: "yy_regs \<Rightarrow> lexer" where
  "yy17 r (_ # yych # data) =
   (if yych = CHR ''a'' then yy25 r (yych # data) else yy12 r (yych # data))"
| "yy17 r _ = None"

fun yy8 :: "yy_regs \<Rightarrow> lexer" where
  "yy8 r (_ # yych # data) =
   (if yych = CHR ''c'' then yy11 (r\<lparr>yy_accept := 0, yy_marker := yych # data\<rparr>) (yych # data)
   else if yych = CHR ''e'' then yy13 (r\<lparr>yy_accept := 0, yy_marker := yych # data\<rparr>) (yych # data)
   else if yych = CHR ''i'' then yy14 (r\<lparr>yy_accept := 0, yy_marker := yych # data\<rparr>) (yych # data)
   else if yych = CHR ''l'' then yy15 (r\<lparr>yy_accept := 0, yy_marker := yych # data\<rparr>) (yych # data)
   else if yych = CHR ''s'' then yy16 (r\<lparr>yy_accept := 0, yy_marker := yych # data\<rparr>) (yych # data)
   else if yych = CHR ''w'' then yy17 (r\<lparr>yy_accept := 0, yy_marker := yych # data\<rparr>) (yych # data)
   else yy3 (r\<lparr>yy_accept := 0, yy_marker := yych # data\<rparr>) (yych # data))"
| "yy8 r _ = None"

fun yy19 :: "yy_regs \<Rightarrow> lexer" where
  "yy19 r (_ # data) = Some (T_sp, data)"
| "yy19 r [] = None"

fun yy9 :: "yy_regs \<Rightarrow> lexer" where
  "yy9 r (_ # yych # data) =
   (if yych = CHR ''e'' then yy18 (r\<lparr>yy_accept := 0, yy_marker := yych # data\<rparr>) (yych # data)
   else if yych = CHR ''p'' then yy19 (r\<lparr>yy_accept := 0, yy_marker := yych # data\<rparr>) (yych # data)
   else yy3 (r\<lparr>yy_accept := 0, yy_marker := yych # data\<rparr>) (yych # data))"
| "yy9 r _ = None"

fun yy10 :: "yy_regs \<Rightarrow> lexer" where
  "yy10 r (c # data) = Some (T_nonascii c, data)"
| "yy10 r [] = None"

fun yyc_init :: "yy_regs \<Rightarrow> lexer" where
  "yyc_init r (yych # data) =
   (if yybm_init ! byte yych AND 8 \<noteq> 0 then yy4 r (yych # data)
   else if byte yych \<le> 0x23 then
     (if byte yych \<le> 0x0A then
       (if byte yych \<le> 0x00 then yy1 r (yych # data)
       else if byte yych \<le> 0x08 then yy2 r (yych # data) else yy5 r (yych # data))
     else if yych = CR then yy6 r (yych # data)
     else if byte yych \<le> 0x22 then yy2 r (yych # data) else yy7 r (yych # data))
   else if byte yych \<le> 0x40 then
     (if yych = CHR '';'' then yy7 r (yych # data)
     else if byte yych \<le> 0x3F then yy2 r (yych # data) else yy8 r (yych # data))
   else if yych = CHR ''s'' then yy9 r (yych # data)
   else if byte yych \<le> 0x7F then yy2 r (yych # data) else yy10 r (yych # data))"
| "yyc_init r [] = None"

end
