(* ===== verification/Automaton_Rule.thy ===== *)
theory Automaton_Rule
  imports Automaton_Init
begin

text \<open>
  The automaton that scans configuration files: the labels of the conditions \<open>cond\<close>, \<open>cond_op\<close> and \<open>rule\<close> of
  \<open>src/sp_config_scanner.cached.c\<close>, and the choice of the label to start at.
\<close>

unbundle bit_operations_syntax

section \<open>The labels of \<open>cond\<close>\<close>

definition yy95 :: "yy_regs \<Rightarrow> lexer" where
  "yy95 r data = Some (T_any, data)"

fun yy94 :: "yy_regs \<Rightarrow> lexer" where
  "yy94 r (_ # data) = yy95 r data"
| "yy94 r [] = None"

fun yy96 :: "yy_regs \<Rightarrow> lexer" where
  "yy96 r (_ # yych # data) =
   (if yybm_cond ! byte yych AND 8 \<noteq> 0 then yy96 r (yych # data) else Some (T_blank, yych # data))"
| "yy96 r _ = None"

fun yy97 :: "yy_regs \<Rightarrow> lexer" where
  "yy97 r (_ # data) = Some (T_newline, data)"
| "yy97 r [] = None"

fun yy98 :: "yy_regs \<Rightarrow> lexer" where
  "yy98 r (_ # yych # data) =
   (if yych = LF then yy97 r (yych # data) else yy95 r (yych # data))"
| "yy98 r _ = None"

fun yy99 :: "yy_regs \<Rightarrow> lexer" where
  "yy99 r (c # data) = Some (T_open_op c, data)"
| "yy99 r [] = None"

fun yy100 :: "yy_regs \<Rightarrow> lexer" where
  "yy100 r (c # data) = Some (T_open_op c, data)"
| "yy100 r [] = None"

fun yy101 :: "yy_regs \<Rightarrow> lexer" where
  "yy101 r (_ # yych # data) =
   (if yybm_cond ! byte yych AND 16 \<noteq> 0 then yy101 r (yych # data)
   else Some (T_number (tag_text (yyt1 r) (yych # data)), yych # data))"
| "yy101 r _ = None"

definition yy103 :: "yy_regs \<Rightarrow> lexer" where
  "yy103 r data = Some (T_variable (tag_text (yyt1 r) data), data)"

definition yy108 :: "yy_regs \<Rightarrow> lexer" where
  "yy108 r data = Some (call_token r data, data)"

definition yy105 :: "yy_regs \<Rightarrow> lexer" where
  "yy105 r data =
     (if yy_accept r = 0 then yy103 r (yy_marker r) else yy108 r (yy_marker r))"

fun yy107 :: "yy_regs \<Rightarrow> lexer" where
  "yy107 r (_ # data) = yy108 r data"
| "yy107 r [] = None"

fun yy109 :: "yy_regs \<Rightarrow> lexer" where
  "yy109 r (_ # yych # data) =
   (if yych = CHR '')'' then yy107 r (yych # data) else yy105 r (yych # data))"
| "yy109 r _ = None"

fun yy106 :: "yy_regs \<Rightarrow> lexer" and
  yy110 :: "yy_regs \<Rightarrow> lexer" where
  "yy106 r (_ # yych # data) =
   (if yybm_cond ! byte yych AND 64 \<noteq> 0 then yy106 r (yych # data)
   else if byte yych \<le> 0x0D then yy105 r (yych # data)
   else if byte yych \<le> 0x22 then yy109 r (yych # data) else yy110 r (yych # data))"
| "yy106 r _ = None"
| "yy110 r (_ # yych # data) =
   (if yybm_cond ! byte yych AND 64 \<noteq> 0 then yy106 r (yych # data)
   else if byte yych \<le> 0x0D then yy105 r (yych # data)
   else if 0x23 \<le> byte yych then yy110 r (yych # data)
   else (case data of [] \<Rightarrow> None | yych1 # data1 \<Rightarrow>
     if yybm_cond ! byte yych1 AND 128 \<noteq> 0 then yy110 r (yych1 # data1)
     else if byte yych1 \<le> 0x0D then
       (if byte yych1 \<le> 0x09 then
         (if byte yych1 \<le> 0x00 then yy105 r (yych1 # data1) else yy106 r (yych1 # data1))
       else if byte yych1 \<le> 0x0A then yy105 r (yych1 # data1)
       else if byte yych1 \<le> 0x0C then yy106 r (yych1 # data1) else yy105 r (yych1 # data1))
     else if byte yych1 \<le> 0x22 then
       (if byte yych1 \<le> 0x21 then yy106 r (yych1 # data1) else yy109 r (yych1 # data1))
     else if yych1 \<noteq> CHR '')'' then yy106 r (yych1 # data1)
     else (case data1 of [] \<Rightarrow> None | yych2 # data2 \<Rightarrow>
       if yybm_cond ! byte yych2 AND 64 \<noteq> 0 then
         yy106 (r\<lparr>yy_accept := 1, yy_marker := yych2 # data2\<rparr>) (yych2 # data2)
       else if byte yych2 \<le> 0x0D then
         yy108 (r\<lparr>yy_accept := 1, yy_marker := yych2 # data2\<rparr>) (yych2 # data2)
       else if byte yych2 \<le> 0x22 then
         yy109 (r\<lparr>yy_accept := 1, yy_marker := yych2 # data2\<rparr>) (yych2 # data2)
       else yy110 (r\<lparr>yy_accept := 1, yy_marker := yych2 # data2\<rparr>) (yych2 # data2))))"
| "yy110 r _ = None"

fun yy104 :: "yy_regs \<Rightarrow> lexer" where
  "yy104 r (_ # yych # data) =
   (if yych = DQUOTE then yy106 (r\<lparr>yyt2 := Some (yych # data)\<rparr>) (yych # data)
   else if yych = CHR '')'' then yy107 (r\<lparr>yyt2 := Some (yych # data)\<rparr>) (yych # data)
   else yy105 r (yych # data))"
| "yy104 r _ = None"

fun yy102 :: "yy_regs \<Rightarrow> lexer" where
  "yy102 r (_ # yych # data) =
   (if yybm_cond ! byte yych AND 32 \<noteq> 0 then
     yy102 (r\<lparr>yy_accept := 0, yy_marker := yych # data\<rparr>) (yych # data)
   else if yych = CHR ''('' then yy104 (r\<lparr>yy_accept := 0, yy_marker := yych # data\<rparr>) (yych # data)
   else yy103 (r\<lparr>yy_accept := 0, yy_marker := yych # data\<rparr>) (yych # data))"
| "yy102 r _ = None"

fun yyc_cond :: "yy_regs \<Rightarrow> lexer" where
  "yyc_cond r (yych # data) =
   (if yybm_cond ! byte yych AND 8 \<noteq> 0 then yy96 r (yych # data)
   else if byte yych \<le> 0x27 then
     (if byte yych \<le> 0x0C then
       (if byte yych \<le> 0x08 then yy94 r (yych # data)
       else if byte yych \<le> 0x0A then yy97 r (yych # data) else yy94 r (yych # data))
     else if byte yych \<le> 0x0D then yy98 r (yych # data)
     else if byte yych \<le> 0x1F then yy94 r (yych # data)
     else if byte yych \<le> 0x21 then yy99 r (yych # data) else yy94 r (yych # data))
   else if byte yych \<le> 0x40 then
     (if byte yych \<le> 0x28 then yy100 r (yych # data)
     else if byte yych \<le> 0x2F then yy94 r (yych # data)
     else if byte yych \<le> 0x39 then yy101 (r\<lparr>yyt1 := Some (yych # data)\<rparr>) (yych # data)
     else yy94 r (yych # data))
   else if byte yych \<le> 0x5A then yy102 (r\<lparr>yyt1 := Some (yych # data)\<rparr>) (yych # data)
   else if byte yych \<le> 0x60 then yy94 r (yych # data)
   else if byte yych \<le> 0x7A then yy102 (r\<lparr>yyt1 := Some (yych # data)\<rparr>) (yych # data)
   else yy94 r (yych # data))"
| "yyc_cond r [] = None"

section \<open>The labels of \<open>cond_op\<close>\<close>

definition yy113 :: "yy_regs \<Rightarrow> lexer" where
  "yy113 r data = Some (T_any, data)"

fun yy112 :: "yy_regs \<Rightarrow> lexer" where
  "yy112 r (_ # data) = yy113 r data"
| "yy112 r [] = None"

fun yy114 :: "yy_regs \<Rightarrow> lexer" where
  "yy114 r (_ # yych # data) =
   (if yybm_cond_op ! byte yych AND 128 \<noteq> 0 then yy114 r (yych # data) else Some (T_blank, yych # data))"
| "yy114 r _ = None"

fun yy115 :: "yy_regs \<Rightarrow> lexer" where
  "yy115 r (_ # data) = Some (T_newline, data)"
| "yy115 r [] = None"

fun yy116 :: "yy_regs \<Rightarrow> lexer" where
  "yy116 r (_ # yych # data) =
   (if yych = LF then yy115 r (yych # data) else yy113 r (yych # data))"
| "yy116 r _ = None"

definition yy121 :: "yy_regs \<Rightarrow> lexer" where
  "yy121 r data = Some (T_op (tag_text (yyt1 r) data), data)"

fun yy124 :: "yy_regs \<Rightarrow> lexer" where
  "yy124 r (_ # data) = yy121 r data"
| "yy124 r [] = None"

fun yy117 :: "yy_regs \<Rightarrow> lexer" where
  "yy117 r (_ # yych # data) =
   (if yych = CHR ''&'' then yy124 r (yych # data) else yy113 r (yych # data))"
| "yy117 r _ = None"

fun yy118 :: "yy_regs \<Rightarrow> lexer" where
  "yy118 r (_ # data) = Some (T_close, data)"
| "yy118 r [] = None"

fun yy119 :: "yy_regs \<Rightarrow> lexer" where
  "yy119 r (_ # data) = Some (T_semicolon, data)"
| "yy119 r [] = None"

fun yy120 :: "yy_regs \<Rightarrow> lexer" where
  "yy120 r (_ # yych # data) =
   (if yych = CHR ''='' then yy124 r (yych # data) else yy121 r (yych # data))"
| "yy120 r _ = None"

fun yy122 :: "yy_regs \<Rightarrow> lexer" where
  "yy122 r (_ # yych # data) =
   (if yych = CHR ''='' then yy124 r (yych # data) else yy113 r (yych # data))"
| "yy122 r _ = None"

fun yy123 :: "yy_regs \<Rightarrow> lexer" where
  "yy123 r (_ # yych # data) =
   (if yych \<noteq> CHR ''|'' then yy113 r (yych # data) else yy124 r (yych # data))"
| "yy123 r _ = None"

fun yyc_cond_op :: "yy_regs \<Rightarrow> lexer" where
  "yyc_cond_op r (yych # data) =
   (if yybm_cond_op ! byte yych AND 128 \<noteq> 0 then yy114 r (yych # data)
   else if byte yych \<le> 0x29 then
     (if byte yych \<le> 0x0D then
       (if byte yych \<le> 0x08 then yy112 r (yych # data)
       else if byte yych \<le> 0x0A then yy115 r (yych # data)
       else if 0x0D \<le> byte yych then yy116 r (yych # data) else yy112 r (yych # data))
     else if yych = CHR ''&'' then yy117 (r\<lparr>yyt1 := Some (yych # data)\<rparr>) (yych # data)
     else if 0x29 \<le> byte yych then yy118 r (yych # data) else yy112 r (yych # data))
   else if byte yych \<le> 0x3D then
     (if byte yych \<le> 0x3A then yy112 r (yych # data)
     else if byte yych \<le> 0x3B then yy119 r (yych # data)
     else if byte yych \<le> 0x3C then yy120 (r\<lparr>yyt1 := Some (yych # data)\<rparr>) (yych # data)
     else yy122 (r\<lparr>yyt1 := Some (yych # data)\<rparr>) (yych # data))
   else if byte yych \<le> 0x3E then yy120 (r\<lparr>yyt1 := Some (yych # data)\<rparr>) (yych # data)
   else if yych = CHR ''|'' then yy123 (r\<lparr>yyt1 := Some (yych # data)\<rparr>) (yych # data)
   else yy112 r (yych # data))"
| "yyc_cond_op r [] = None"

section \<open>The labels of \<open>rule\<close>\<close>

definition yy126 :: "yy_regs \<Rightarrow> lexer" where
  "yy126 r data = Some (T_any, data)"

fun yy127 :: "yy_regs \<Rightarrow> lexer" where
  "yy127 r (_ # yych # data) =
   (if yybm_rule ! byte yych AND 8 \<noteq> 0 then yy127 r (yych # data) else Some (T_blank, yych # data))"
| "yy127 r _ = None"

definition yy139 :: "yy_regs \<Rightarrow> lexer" where
  "yy139 r data = Some (keyword_token r, data)"

definition yy134 :: "yy_regs \<Rightarrow> lexer" where
  "yy134 r data =
     (if yy_accept r \<le> 1 then
       (if yy_accept r = 0 then yy126 r (yy_marker r)
       else yy139 (r\<lparr>yyt4 := None, yyt3 := None, yyt2 := Some (yy_marker r)\<rparr>) (yy_marker r))
     else yy139 r (yy_marker r))"

fun yy136 :: "yy_regs \<Rightarrow> lexer" where
  "yy136 r (_ # data) = Some (T_newline, the (yyt1 r))"
| "yy136 r [] = None"

fun yy133 :: "yy_regs \<Rightarrow> lexer" and
  yy135 :: "yy_regs \<Rightarrow> lexer" where
  "yy133 r (_ # yych # data) =
   (if yybm_rule ! byte yych AND 16 \<noteq> 0 then yy133 r (yych # data)
   else if yych = CR then yy135 r (yych # data)
   else if yych = CHR ''.'' then yy136 r (yych # data) else yy134 r (yych # data))"
| "yy133 r _ = None"
| "yy135 r (_ # yych # data) =
   (if yych = LF then yy133 r (yych # data) else yy134 r (yych # data))"
| "yy135 r _ = None"

fun yy128 :: "yy_regs \<Rightarrow> lexer" where
  "yy128 r (_ # yych # data) =
   (if byte yych \<le> 0x0D then
     (if byte yych \<le> 0x08 then yy126 (r\<lparr>yy_accept := 0, yy_marker := yych # data\<rparr>) (yych # data)
     else if byte yych \<le> 0x0A then
       yy133 (r\<lparr>yy_accept := 0, yy_marker := yych # data, yyt1 := Some (yych # data)\<rparr>) (yych # data)
     else if byte yych \<le> 0x0C then yy126 (r\<lparr>yy_accept := 0, yy_marker := yych # data\<rparr>) (yych # data)
     else yy135 (r\<lparr>yy_accept := 0, yy_marker := yych # data, yyt1 := Some (yych # data)\<rparr>) (yych # data))
   else if byte yych \<le> 0x20 then
     (if byte yych \<le> 0x1F then yy126 (r\<lparr>yy_accept := 0, yy_marker := yych # data\<rparr>) (yych # data)
     else yy133 (r\<lparr>yy_accept := 0, yy_marker := yych # data, yyt1 := Some (yych # data)\<rparr>) (yych # data))
   else if yych = CHR ''.'' then
     yy136 (r\<lparr>yy_accept := 0, yy_marker := yych # data, yyt1 := Some (yych # data)\<rparr>) (yych # data)
   else yy126 (r\<lparr>yy_accept := 0, yy_marker := yych # data\<rparr>) (yych # data))"
| "yy128 r _ = None"

fun yy137 :: "yy_regs \<Rightarrow> lexer" where
  "yy137 r (_ # yych # data) =
   (if byte yych \<le> 0x0D then
     (if byte yych \<le> 0x08 then yy134 r (yych # data)
     else if byte yych \<le> 0x0A then yy133 (r\<lparr>yyt1 := Some (yych # data)\<rparr>) (yych # data)
     else if byte yych \<le> 0x0C then yy134 r (yych # data)
     else yy135 (r\<lparr>yyt1 := Some (yych # data)\<rparr>) (yych # data))
   else if byte yych \<le> 0x20 then
     (if byte yych \<le> 0x1F then yy134 r (yych # data)
     else yy133 (r\<lparr>yyt1 := Some (yych # data)\<rparr>) (yych # data))
   else if yych = CHR ''.'' then yy136 (r\<lparr>yyt1 := Some (yych # data)\<rparr>) (yych # data)
   else yy134 r (yych # data))"
| "yy137 r _ = None"

fun yy129 :: "yy_regs \<Rightarrow> lexer" where
  "yy129 r (_ # yych # data) =
   (if yych = LF then yy137 (r\<lparr>yy_accept := 0, yy_marker := yych # data\<rparr>) (yych # data)
   else yy126 (r\<lparr>yy_accept := 0, yy_marker := yych # data\<rparr>) (yych # data))"
| "yy129 r _ = None"

fun yy142 :: "yy_regs \<Rightarrow> lexer" where
  "yy142 r (_ # data) = yy139 r data"
| "yy142 r [] = None"

fun yy144 :: "yy_regs \<Rightarrow> lexer" where
  "yy144 r (_ # yych # data) =
   (if yych = CHR '')'' then yy142 (r\<lparr>yyt4 := Some (yych # data)\<rparr>) (yych # data)
   else yy134 r (yych # data))"
| "yy144 r _ = None"

fun yy141 :: "yy_regs \<Rightarrow> lexer" and
  yy145 :: "yy_regs \<Rightarrow> lexer" where
  "yy141 r (_ # yych # data) =
   (if yybm_rule ! byte yych AND 64 \<noteq> 0 then yy141 r (yych # data)
   else if byte yych \<le> 0x0D then yy134 r (yych # data)
   else if byte yych \<le> 0x22 then yy144 r (yych # data) else yy145 r (yych # data))"
| "yy141 r _ = None"
| "yy145 r (_ # yych # data) =
   (if yybm_rule ! byte yych AND 64 \<noteq> 0 then yy141 r (yych # data)
   else if byte yych \<le> 0x0D then yy134 r (yych # data)
   else if 0x23 \<le> byte yych then yy145 r (yych # data)
   else (case data of [] \<Rightarrow> None | yych1 # data1 \<Rightarrow>
     if yybm_rule ! byte yych1 AND 128 \<noteq> 0 then yy145 r (yych1 # data1)
     else if byte yych1 \<le> 0x0D then
       (if byte yych1 \<le> 0x09 then
         (if byte yych1 \<le> 0x00 then yy134 r (yych1 # data1) else yy141 r (yych1 # data1))
       else if byte yych1 \<le> 0x0A then yy134 r (yych1 # data1)
       else if byte yych1 \<le> 0x0C then yy141 r (yych1 # data1) else yy134 r (yych1 # data1))
     else if byte yych1 \<le> 0x22 then
       (if byte yych1 \<le> 0x21 then yy141 r (yych1 # data1) else yy144 r (yych1 # data1))
     else if yych1 \<noteq> CHR '')'' then yy141 r (yych1 # data1)
     else (case data1 of [] \<Rightarrow> None | yych2 # data2 \<Rightarrow>
       if yybm_rule ! byte yych2 AND 64 \<noteq> 0 then
         yy141 (r\<lparr>yyt4 := Some (yych1 # data1), yy_accept := 2, yy_marker := yych2 # data2\<rparr>) (yych2 # data2)
       else if byte yych2 \<le> 0x0D then
         yy139 (r\<lparr>yyt4 := Some (yych1 # data1), yy_accept := 2, yy_marker := yych2 # data2\<rparr>) (yych2 # data2)
       else if byte yych2 \<le> 0x22 then
         yy144 (r\<lparr>yyt4 := Some (yych1 # data1), yy_accept := 2, yy_marker := yych2 # data2\<rparr>) (yych2 # data2)
       else yy145 (r\<lparr>yyt4 := Some (yych1 # data1), yy_accept := 2, yy_marker := yych2 # data2\<rparr>) (yych2 # data2))))"
| "yy145 r _ = None"

fun yy143 :: "yy_regs \<Rightarrow> lexer" where
  "yy143 r (_ # yych # data) =
   (if byte yych \<le> 0x40 then
     (if byte yych \<le> 0x29 then
       (if byte yych \<le> 0x28 then yy134 r (yych # data)
       else yy142 (r\<lparr>yyt4 := Some (yych # data)\<rparr>) (yych # data))
     else if byte yych \<le> 0x2F then yy134 r (yych # data)
     else if byte yych \<le> 0x39 then yy143 r (yych # data) else yy134 r (yych # data))
   else if byte yych \<le> 0x5F then
     (if byte yych \<le> 0x5A then yy143 r (yych # data)
     else if byte yych \<le> 0x5E then yy134 r (yych # data) else yy143 r (yych # data))
   else if byte yych \<le> 0x60 then yy134 r (yych # data)
   else if byte yych \<le> 0x7A then yy143 r (yych # data) else yy134 r (yych # data))"
| "yy143 r _ = None"

fun yy140 :: "yy_regs \<Rightarrow> lexer" where
  "yy140 r (_ # yych # data) =
   (if byte yych \<le> 0x29 then
     (if yych = DQUOTE then yy141 (r\<lparr>yyt3 := Some (yych # data)\<rparr>) (yych # data)
     else if byte yych \<le> 0x28 then yy134 r (yych # data)
     else yy142 (r\<lparr>yyt4 := Some (yych # data), yyt3 := Some (yych # data)\<rparr>) (yych # data))
   else if byte yych \<le> 0x5A then
     (if byte yych \<le> 0x40 then yy134 r (yych # data)
     else yy143 (r\<lparr>yyt3 := Some (yych # data)\<rparr>) (yych # data))
   else if byte yych \<le> 0x60 then yy134 r (yych # data)
   else if byte yych \<le> 0x7A then yy143 (r\<lparr>yyt3 := Some (yych # data)\<rparr>) (yych # data)
   else yy134 r (yych # data))"
| "yy140 r _ = None"

fun yy138 :: "yy_regs \<Rightarrow> lexer" where
  "yy138 r (_ # yych # data) =
   (if yybm_rule ! byte yych AND 32 \<noteq> 0 then
     yy138 (r\<lparr>yy_accept := 1, yy_marker := yych # data\<rparr>) (yych # data)
   else if yych = CHR ''('' then
     yy140 (r\<lparr>yy_accept := 1, yy_marker := yych # data, yyt2 := Some (yych # data)\<rparr>) (yych # data)
   else yy139 (r\<lparr>yy_accept := 1, yy_marker := yych # data, yyt4 := None, yyt3 := None, yyt2 := Some (yych # data)\<rparr>) (yych # data))"
| "yy138 r _ = None"

fun yy130 :: "yy_regs \<Rightarrow> lexer" where
  "yy130 r (_ # yych # data) =
   (if byte yych \<le> 0x40 then yy126 r (yych # data)
   else if byte yych \<le> 0x5A then yy138 (r\<lparr>yyt1 := Some (yych # data)\<rparr>) (yych # data)
   else if byte yych \<le> 0x60 then yy126 r (yych # data)
   else if byte yych \<le> 0x7A then yy138 (r\<lparr>yyt1 := Some (yych # data)\<rparr>) (yych # data)
   else yy126 r (yych # data))"
| "yy130 r _ = None"

fun yy131 :: "yy_regs \<Rightarrow> lexer" where
  "yy131 r (_ # data) = Some (T_semicolon, data)"
| "yy131 r [] = None"

fun yy132 :: "yy_regs \<Rightarrow> lexer" where
  "yy132 r (c # data) = Some (T_nonascii c, data)"
| "yy132 r [] = None"

fun yyc_rule :: "yy_regs \<Rightarrow> lexer" where
  "yyc_rule r (yych # data) =
   (if yybm_rule ! byte yych AND 8 \<noteq> 0 then yy127 r (yych # data)
   else if byte yych \<le> 0x2D then
     (if byte yych \<le> 0x0A then (if 0x09 \<le> byte yych then yy128 r (yych # data) else yy126 r data)
     else if yych = CR then yy129 r (yych # data) else yy126 r data)
   else if byte yych \<le> 0x3A then (if byte yych \<le> 0x2E then yy130 r (yych # data) else yy126 r data)
   else if byte yych \<le> 0x3B then yy131 r (yych # data)
   else if 0x80 \<le> byte yych then yy132 r (yych # data) else yy126 r data)"
| "yyc_rule r [] = None"

section \<open>The start of a token\<close>

definition yy_lex :: "yycond \<Rightarrow> yy_regs \<Rightarrow> lexer" where
  "yy_lex cond =
     (case cond of YY_init \<Rightarrow> yyc_init | YY_cond \<Rightarrow> yyc_cond | YY_cond_op \<Rightarrow> yyc_cond_op | YY_rule \<Rightarrow> yyc_rule)"

end
