(* ===== verification/Automaton_Strings.thy ===== *)
theory Automaton_Strings
  imports Automaton_Rule Scan_Rules
begin

text \<open>
  What the loops of the scanner's automaton compute: its tables as classes of characters, its keywords as
  literals, and its six loops over quoted strings, which share one contract, as the furthest end of a string.
\<close>

unbundle bit_operations_syntax

section \<open>Characters\<close>

text \<open>Every class of characters is a set of bytes.\<close>

lemma byte_less: "byte c < 256"
  using nat_of_char_less_256 [of c] by simp

lemma char_bytes:
  "c = DQUOTE \<longleftrightarrow> byte c = 34" "c = BACKSLASH \<longleftrightarrow> byte c = 92" "c = LF \<longleftrightarrow> byte c = 10" "c = CR \<longleftrightarrow> byte c = 13"
  "c = NUL \<longleftrightarrow> byte c = 0" "c = CHR 0x09 \<longleftrightarrow> byte c = 9" "c = CHR '' '' \<longleftrightarrow> byte c = 32" "c = CHR '';'' \<longleftrightarrow> byte c = 59"
  "c = CHR '')'' \<longleftrightarrow> byte c = 41" "c = CHR ''('' \<longleftrightarrow> byte c = 40" "c = CHR ''.'' \<longleftrightarrow> byte c = 46" "c = CHR ''_'' \<longleftrightarrow> byte c = 95"
  "c = CHR ''s'' \<longleftrightarrow> byte c = 115" "c = CHR ''@'' \<longleftrightarrow> byte c = 64" "c = CHR ''#'' \<longleftrightarrow> byte c = 35" "c = CHR ''!'' \<longleftrightarrow> byte c = 33"
  "c = CHR ''&'' \<longleftrightarrow> byte c = 38" "c = CHR ''|'' \<longleftrightarrow> byte c = 124" "c = CHR ''<'' \<longleftrightarrow> byte c = 60" "c = CHR ''='' \<longleftrightarrow> byte c = 61"
  "c = CHR ''>'' \<longleftrightarrow> byte c = 62"
  by (simp_all flip: of_char_eq_iff [where ?'a = nat])

lemmas byte_classes = char_bytes is_blank_def line_end_def is_nonascii_def char_classes

section \<open>Tables\<close>

fun table_bits :: "nat \<Rightarrow> (nat \<Rightarrow> bool) \<Rightarrow> nat \<Rightarrow> nat list \<Rightarrow> bool" where
  "table_bits k P n [] = True"
| "table_bits k P n (m # ms) \<longleftrightarrow> (m AND k \<noteq> 0) = P n \<and> table_bits k P (n + 1) ms"

lemma table_bits_nth: "table_bits k P n ms \<Longrightarrow> i < length ms \<Longrightarrow> (ms ! i AND k \<noteq> 0) = P (n + i)"
proof (induction k P n ms arbitrary: i rule: table_bits.induct)
  case (2 k P n m ms)
  then show ?case by (cases i) simp_all
qed simp

lemma table_class: "table_bits k P 0 ms \<Longrightarrow> length ms = 256 \<Longrightarrow> ms ! byte c AND k \<noteq> 0 \<longleftrightarrow> P (byte c)"
  using table_bits_nth [of k P 0 ms "byte c"] byte_less [of c] by simp

abbreviation word_byte :: "nat \<Rightarrow> bool" where
  "word_byte n \<equiv> 48 \<le> n \<and> n \<le> 57 \<or> 65 \<le> n \<and> n \<le> 90 \<or> 97 \<le> n \<and> n \<le> 122 \<or> n = 95"

abbreviation end_byte :: "nat \<Rightarrow> bool" where
  "end_byte n \<equiv> n = 0 \<or> n = 10 \<or> n = 13"

abbreviation text_byte :: "nat \<Rightarrow> bool" where
  "text_byte n \<equiv> \<not> (end_byte n \<or> n = 34 \<or> n = 92)"

lemma yybm_init_bits:
  "table_bits 8 (\<lambda>n. n = 9 \<or> n = 32) 0 yybm_init" "table_bits 16 (\<lambda>n. \<not> end_byte n) 0 yybm_init"
  "table_bits 32 word_byte 0 yybm_init" "table_bits 64 text_byte 0 yybm_init"
  "table_bits 128 (\<lambda>n. n = 92) 0 yybm_init" "length yybm_init = 256"
  by (simp_all add: yybm_init_def)

lemma yybm_cond_bits:
  "table_bits 8 (\<lambda>n. n = 9 \<or> n = 32) 0 yybm_cond" "table_bits 16 (\<lambda>n. 48 \<le> n \<and> n \<le> 57) 0 yybm_cond"
  "table_bits 32 word_byte 0 yybm_cond" "table_bits 64 text_byte 0 yybm_cond"
  "table_bits 128 (\<lambda>n. n = 92) 0 yybm_cond" "length yybm_cond = 256"
  by (simp_all add: yybm_cond_def)

lemma yybm_cond_op_bits: "table_bits 128 (\<lambda>n. n = 9 \<or> n = 32) 0 yybm_cond_op" "length yybm_cond_op = 256"
  by (simp_all add: yybm_cond_op_def)

lemma yybm_rule_bits:
  "table_bits 8 (\<lambda>n. n = 9 \<or> n = 32) 0 yybm_rule" "table_bits 16 (\<lambda>n. n = 9 \<or> n = 32 \<or> n = 10) 0 yybm_rule"
  "table_bits 32 word_byte 0 yybm_rule" "table_bits 64 text_byte 0 yybm_rule"
  "table_bits 128 (\<lambda>n. n = 92) 0 yybm_rule" "length yybm_rule = 256"
  by (simp_all add: yybm_rule_def)

lemma class_bytes:
  "is_blank c \<longleftrightarrow> byte c = 9 \<or> byte c = 32" "\<not> line_end c \<longleftrightarrow> \<not> end_byte (byte c)" "is_word c \<longleftrightarrow> word_byte (byte c)"
  "\<not> (line_end c \<or> c = DQUOTE \<or> c = BACKSLASH) \<longleftrightarrow> text_byte (byte c)" "c = BACKSLASH \<longleftrightarrow> byte c = 92"
  "is_digit c \<longleftrightarrow> 48 \<le> byte c \<and> byte c \<le> 57" "is_blank c \<or> c = LF \<longleftrightarrow> byte c = 9 \<or> byte c = 32 \<or> byte c = 10"
  by (auto simp: byte_classes)

lemma table_zero: "table_bits k P 0 ms \<Longrightarrow> length ms = 256 \<Longrightarrow> Q = P (byte c) \<Longrightarrow> ms ! byte c AND k = 0 \<longleftrightarrow> \<not> Q"
  using table_class [of k P ms c] by blast

lemmas init_class = table_zero [OF _ yybm_init_bits(6)]
lemmas cond_class = table_zero [OF _ yybm_cond_bits(6)]
lemmas rule_class = table_zero [OF _ yybm_rule_bits(6)]

lemmas table_classes [simplified de_Morgan_disj not_not, simp] =
  init_class [OF yybm_init_bits(1) class_bytes(1)] init_class [OF yybm_init_bits(2) class_bytes(2)]
  init_class [OF yybm_init_bits(3) class_bytes(3)] init_class [OF yybm_init_bits(4) class_bytes(4)]
  init_class [OF yybm_init_bits(5) class_bytes(5)]
  cond_class [OF yybm_cond_bits(1) class_bytes(1)] cond_class [OF yybm_cond_bits(2) class_bytes(6)]
  cond_class [OF yybm_cond_bits(3) class_bytes(3)] cond_class [OF yybm_cond_bits(4) class_bytes(4)]
  cond_class [OF yybm_cond_bits(5) class_bytes(5)]
  table_zero [OF yybm_cond_op_bits class_bytes(1)]
  rule_class [OF yybm_rule_bits(1) class_bytes(1)] rule_class [OF yybm_rule_bits(2) class_bytes(7)]
  rule_class [OF yybm_rule_bits(3) class_bytes(3)] rule_class [OF yybm_rule_bits(4) class_bytes(4)]
  rule_class [OF yybm_rule_bits(5) class_bytes(5)]

section \<open>Terminated texts\<close>

definition terminated :: "string \<Rightarrow> bool" where
  "terminated s \<longleftrightarrow> s \<noteq> [] \<and> last s = NUL"

lemma terminated_simps [simp]: "\<not> terminated []" "terminated (c # s) \<longleftrightarrow> (if s = [] then c = NUL else terminated s)"
  by (auto simp: terminated_def)

lemma terminated_next: "terminated (c # s) \<Longrightarrow> c \<noteq> NUL \<Longrightarrow> terminated s"
  by (auto split: if_splits)

lemma terminated_drop: "terminated s \<Longrightarrow> \<not> P NUL \<Longrightarrow> terminated (dropWhile P s)"
  by (induction s) (auto split: if_splits)

section \<open>Quoted strings\<close>

text \<open>The furthest end of a string behind which \<open>follow\<close> has what it wants.\<close>

definition best_end :: "(string \<Rightarrow> string option) \<Rightarrow> bool \<Rightarrow> string \<Rightarrow> (string \<times> string) option" where
  "best_end follow b s =
     (case filter (\<lambda>(t, p). follow p \<noteq> None) (string_ends b s) of [] \<Rightarrow> None | ms \<Rightarrow> Some (last ms))"

lemma best_end_map:
  "(case filter (\<lambda>(t, p). follow p \<noteq> None) (map (\<lambda>(t, p). (c # t, p)) ms) of [] \<Rightarrow> None | ms' \<Rightarrow> Some (last ms')) =
   map_option (\<lambda>(t, p). (c # t, p)) (case filter (\<lambda>(t, p). follow p \<noteq> None) ms of [] \<Rightarrow> None | ms' \<Rightarrow> Some (last ms'))"
proof -
  have "filter (\<lambda>(t, p). follow p \<noteq> None) (map (\<lambda>(t, p). (c # t, p)) ms) =
      map (\<lambda>(t, p). (c # t, p)) (filter (\<lambda>(t, p). follow p \<noteq> None) ms)"
    by (induction ms) auto
  then show ?thesis by (cases "filter (\<lambda>(t, p). follow p \<noteq> None) ms") (simp_all add: last_map split_beta)
qed

lemma best_end_Nil [simp]: "best_end follow b [] = None"
  by (simp add: best_end_def)

lemma best_end_Cons:
  "best_end follow b (c # s) =
     (if c = DQUOTE
      then (case (if b then best_end follow False s else None) of
              Some (t, p) \<Rightarrow> Some (c # t, p)
            | None \<Rightarrow> if follow s = None then None else Some ([], s))
      else if line_end c then None
      else map_option (\<lambda>(t, p). (c # t, p)) (best_end follow (c = BACKSLASH) s))"
proof (cases "c = DQUOTE")
  case True
  let ?inner = "best_end follow False s"
  have "best_end follow True (c # s) = (case ?inner of Some (t, p) \<Rightarrow> Some (c # t, p) | None \<Rightarrow> if follow s = None then None else Some ([], s))"
  proof (cases "filter (\<lambda>(t, p). follow p \<noteq> None) (map (\<lambda>(t, p). (c # t, p)) (string_ends False s))")
    case Nil
    then have "?inner = None" using best_end_map [of follow c "string_ends False s"] by (simp add: best_end_def)
    then show ?thesis using Nil by (simp add: best_end_def True)
  next
    case (Cons m ms)
    then have "map_option (\<lambda>(t, p). (c # t, p)) ?inner = Some (last (m # ms))"
      using best_end_map [of follow c "string_ends False s"] by (simp add: best_end_def)
    then show ?thesis using Cons by (auto simp: best_end_def True)
  qed
  then show ?thesis using True by (cases b) (simp_all add: best_end_def)
next
  case False
  then show ?thesis unfolding best_end_def by (simp add: best_end_map del: not_None_eq)
qed

lemma lex_string_best_end:
  "lex_string follow (c # s) = (if c = DQUOTE then map_option (\<lambda>(t, p). (t, the (follow p))) (best_end follow False s) else None)"
  by (simp add: lex_string_def best_end_def split: list.split prod.split)

lemma best_end_split: "best_end follow b s = Some (t, p) \<Longrightarrow> s = t @ DQUOTE # p \<and> follow p \<noteq> None"
proof -
  assume h: "best_end follow b s = Some (t, p)"
  let ?ms = "filter (\<lambda>(t, p). follow p \<noteq> None) (string_ends b s)"
  have "?ms \<noteq> []" "last ?ms = (t, p)" using h by (auto simp: best_end_def split: list.splits)
  then have "(t, p) \<in> set ?ms" using last_in_set by metis
  then show ?thesis by (simp add: set_string_ends)
qed

end
