(* ===== verification/Automaton_Loops.thy ===== *)
theory Automaton_Loops
  imports Automaton_Strings
begin

text \<open>
  The loops over quoted strings in the scanner's automaton: one contract, which its six pairs of labels fulfil.
\<close>

unbundle bit_operations_syntax

section \<open>The contract\<close>

text \<open>
  \<open>inside\<close> is the label within a string and \<open>escaped\<close> the one behind a backslash. A quote there may be the last
  one: before the loop goes on, what a failure would then give is put into the registers.
\<close>

locale string_loop =
  fixes inside escaped :: "yy_regs \<Rightarrow> lexer"
    and follow :: "string \<Rightarrow> string option"
    and fallback :: "yy_regs \<Rightarrow> (token \<times> string) option"
    and accept :: "yy_regs \<Rightarrow> string \<Rightarrow> (token \<times> string) option"
  assumes inside_step: "terminated (c # p) \<Longrightarrow> inside r (x # c # p) =
      (if line_end c then fallback r
       else if c = DQUOTE then (if follow p = None then fallback r else accept r p)
       else if c = BACKSLASH then escaped r (c # p) else inside r (c # p))"
    and escaped_step: "terminated (c # p) \<Longrightarrow> c \<noteq> DQUOTE \<Longrightarrow> escaped r (x # c # p) = inside r (x # c # p)"
    and escaped_quote: "terminated p \<Longrightarrow> \<exists>r'. escaped r (x # DQUOTE # p) = inside r' (DQUOTE # p) \<and>
      fallback r' = (if follow p = None then fallback r else accept r p) \<and> accept r' = accept r"
begin

lemma loops:
  "terminated p \<Longrightarrow> inside r (x # p) = (case best_end follow False p of None \<Rightarrow> fallback r | Some (t, q) \<Rightarrow> accept r q) \<and>
    escaped r (x # p) = (case best_end follow True p of None \<Rightarrow> fallback r | Some (t, q) \<Rightarrow> accept r q)"
proof (induction p arbitrary: r x)
  case (Cons c p)
  have inside: "inside r (x # c # p) = (case best_end follow False (c # p) of None \<Rightarrow> fallback r | Some (t, q) \<Rightarrow> accept r q)" for r x
  proof (cases "line_end c \<or> c = DQUOTE")
    case True
    then show ?thesis using inside_step [OF Cons.prems] by (auto simp: best_end_Cons line_end_def)
  next
    case False
    then have "terminated p" using Cons.prems terminated_next by (auto simp: line_end_def)
    then show ?thesis using False Cons.IH inside_step [OF Cons.prems]
      by (auto simp: best_end_Cons split: option.split)
  qed
  show ?case
  proof (cases "c = DQUOTE")
    case True
    then have p: "terminated p" using Cons.prems terminated_next by auto
    obtain r' where "escaped r (x # c # p) = inside r' (c # p)"
        "fallback r' = (if follow p = None then fallback r else accept r p)" "accept r' = accept r"
      using escaped_quote [OF p] True by blast
    moreover have "inside r' (c # p) = (case best_end follow False p of None \<Rightarrow> fallback r' | Some (t, q) \<Rightarrow> accept r' q)"
      using Cons.IH [OF p] by blast
    ultimately have "escaped r (x # c # p) = (case best_end follow True (c # p) of None \<Rightarrow> fallback r | Some (t, q) \<Rightarrow> accept r q)"
      using True by (simp add: best_end_Cons split: option.split prod.split)
    with inside show ?thesis by blast
  next
    case False
    then have "best_end follow True (c # p) = best_end follow False (c # p)" by (simp add: best_end_Cons)
    then show ?thesis using inside escaped_step [OF Cons.prems False] by simp
  qed
qed simp

lemmas inside_ends = loops [THEN conjunct1]

end

text \<open>Where one byte is wanted behind the string: what an escaped quote does.\<close>

lemma quote_kept:
  assumes "terminated p" "k \<noteq> NUL"
    and other: "\<And>d q. d \<noteq> k \<Longrightarrow> escaped r (x # DQUOTE # d # q) = inside r (DQUOTE # d # q)"
    and kept: "\<And>e q. escaped r (x # DQUOTE # k # e # q) = inside (keep (k # e # q) r) (DQUOTE # k # e # q)"
    and "\<And>q. fallback (keep (k # q) r) = accept r (k # q)" "\<And>q. accept (keep (k # q) r) = accept r"
  shows "\<exists>r'. escaped r (x # DQUOTE # p) = inside r' (DQUOTE # p) \<and>
    fallback r' = (if lit [k] p = None then fallback r else accept r p) \<and> accept r' = accept r"
proof -
  obtain d q where p: "p = d # q" using assms(1) by (cases p) auto
  show ?thesis
  proof (cases "d = k")
    case True
    then obtain e q' where q: "q = e # q'" using assms(1,2) p by (cases q) auto
    have "escaped r (x # DQUOTE # p) = inside (keep p r) (DQUOTE # p)" using kept unfolding p q True .
    then show ?thesis using assms(5,6) p True by (intro exI [of _ "keep p r"]) simp
  next
    case False
    then have "escaped r (x # DQUOTE # p) = inside r (DQUOTE # p)" using other unfolding p by blast
    then show ?thesis using p False by (intro exI [of _ r]) auto
  qed
qed

section \<open>Decisions\<close>

text \<open>The comparisons of bytes, as the classes of characters they tell apart.\<close>

lemma tree_text:
  "(if byte c \<le> 0x0D then
      (if byte c \<le> 0x09 then (if byte c \<le> 0x00 then F else N) else if byte c \<le> 0x0A then F else if byte c \<le> 0x0C then N else F)
    else if byte c \<le> 0x22 then (if byte c \<le> 0x21 then N else Q) else if c = BACKSLASH then B else N) =
   (if line_end c then F else if c = DQUOTE then Q else if c = BACKSLASH then B else N)"
  by (auto simp: byte_classes)

lemma tree_escaped:
  "(if byte c \<le> 0x21 then
      (if byte c \<le> 0x0A then (if byte c \<le> 0x00 then F else if byte c \<le> 0x09 then N else F) else if c = CR then F else N)
    else if byte c \<le> 0x3B then (if byte c \<le> 0x22 then Q else if byte c \<le> 0x3A then N else S)
    else if c = BACKSLASH then B else N) =
   (if line_end c then F else if c = DQUOTE then Q else if c = CHR '';'' then S else if c = BACKSLASH then B else N)"
  by (auto simp: byte_classes)

lemma tree_table:
  "(if \<not> line_end c \<and> c \<noteq> DQUOTE \<and> c \<noteq> BACKSLASH then N else if byte c \<le> 0x0D then F else if byte c \<le> 0x22 then Q else B) =
   (if line_end c then F else if c = DQUOTE then Q else if c = BACKSLASH then B else N)"
  by (auto simp: byte_classes)

lemma tree_table_escaped:
  "(if c = BACKSLASH then B
    else if byte c \<le> 0x0D then
      (if byte c \<le> 0x09 then (if byte c \<le> 0x00 then F else N) else if byte c \<le> 0x0A then F else if byte c \<le> 0x0C then N else F)
    else if byte c \<le> 0x22 then (if byte c \<le> 0x21 then N else Q) else if c = CHR '';'' then S else N) =
   (if line_end c then F else if c = DQUOTE then Q else if c = CHR '';'' then S else if c = BACKSLASH then B else N)"
  by (auto simp: byte_classes)

section \<open>The loops of messages\<close>

lemma yy12_any: "yy12 r (c # data) = yy12 r []"
  by (simp add: yy12_def)

abbreviation message_end :: "(string \<Rightarrow> token) \<Rightarrow> yy_regs \<Rightarrow> string \<Rightarrow> (token \<times> string) option" where
  "message_end mk r p \<equiv> Some (message_token mk r (tl p), tl p)"

lemma error_steps:
  "yy45 r (x # c # p) = (if line_end c then yy12 r (c # p) else if c = DQUOTE then yy54 r (c # p)
     else if c = BACKSLASH then yy55 r (c # p) else yy45 r (c # p))"
  "yy55 r (x # c # p) = (if line_end c then yy12 r (c # p) else if c = DQUOTE then yy65 r (c # p)
     else if c = BACKSLASH then yy55 r (c # p) else yy45 r (c # p))"
  "yy65 r (x # c # p) = (if line_end c then yy12 r (c # p) else if c = DQUOTE then yy54 r (c # p)
     else if c = CHR '';'' then yy76 r (c # p) else if c = BACKSLASH then yy55 r (c # p) else yy45 r (c # p))"
  by (simp_all only: yy45.simps yy55.simps yy65.simps table_classes not_not tree_table tree_table_escaped)

lemma info_steps:
  "yy47 r (x # c # p) = (if line_end c then yy12 r (c # p) else if c = DQUOTE then yy56 r (c # p)
     else if c = BACKSLASH then yy57 r (c # p) else yy47 r (c # p))"
  "yy57 r (x # c # p) = (if line_end c then yy12 r (c # p) else if c = DQUOTE then yy68 r (c # p)
     else if c = BACKSLASH then yy57 r (c # p) else yy47 r (c # p))"
  "yy68 r (x # c # p) = (if line_end c then yy12 r (c # p) else if c = DQUOTE then yy56 r (c # p)
     else if c = CHR '';'' then yy77 r (c # p) else if c = BACKSLASH then yy57 r (c # p) else yy47 r (c # p))"
  by (simp_all only: yy47.simps yy57.simps yy68.simps tree_text tree_escaped)

lemma warning_steps:
  "yy58 r (x # c # p) = (if line_end c then yy12 r (c # p) else if c = DQUOTE then yy69 r (c # p)
     else if c = BACKSLASH then yy70 r (c # p) else yy58 r (c # p))"
  "yy70 r (x # c # p) = (if line_end c then yy12 r (c # p) else if c = DQUOTE then yy80 r (c # p)
     else if c = BACKSLASH then yy70 r (c # p) else yy58 r (c # p))"
  "yy80 r (x # c # p) = (if line_end c then yy12 r (c # p) else if c = DQUOTE then yy69 r (c # p)
     else if c = CHR '';'' then yy87 r (c # p) else if c = BACKSLASH then yy70 r (c # p) else yy58 r (c # p))"
  by (simp_all only: yy58.simps yy70.simps yy80.simps tree_text tree_escaped)

text \<open>Behind a semicolon the token is kept in the registers, and the loop goes on in the string.\<close>

lemma resumed:
  "yy76 r (x # c # p) = (let r' = r\<lparr>yy_accept := 1, yy_marker := c # p\<rparr> in
     if line_end c then yy64 r' (c # p) else yy45 r' (x # c # p))"
  "yy77 r (x # c # p) = (let r' = r\<lparr>yy_accept := 2, yy_marker := c # p\<rparr> in
     if line_end c then yy67 r' (c # p) else yy47 r' (x # c # p))"
  "yy87 r (x # c # p) = (let r' = r\<lparr>yy_accept := 3, yy_marker := c # p\<rparr> in
     if line_end c then yy79 r' (c # p) else yy58 r' (x # c # p))"
  by (simp_all only: yy76.simps yy77.simps yy87.simps tree_text error_steps info_steps warning_steps Let_def) (simp_all add: line_end_def)

declare yy45.simps [simp del] yy55.simps [simp del] yy65.simps [simp del] yy76.simps [simp del] yy47.simps [simp del]
  yy57.simps [simp del] yy68.simps [simp del] yy77.simps [simp del] yy58.simps [simp del] yy70.simps [simp del]
  yy80.simps [simp del] yy87.simps [simp del]

definition keep_at :: "nat \<Rightarrow> string \<Rightarrow> yy_regs \<Rightarrow> yy_regs" where
  "keep_at n p r = r\<lparr>yy_accept := n, yy_marker := tl p\<rparr>"

lemma DQUOTE_no_end [simp]: "\<not> line_end DQUOTE" "\<not> line_end (CHR '';'')" "\<not> line_end (CHR '')'')"
  by (simp_all add: line_end_def)

interpretation error_loop: string_loop yy45 yy55 "lit '';''" "\<lambda>r. yy12 r []" "message_end T_error"
proof
  fix c p r x
  show "terminated (c # p) \<Longrightarrow> yy45 r (x # c # p) = (if line_end c then yy12 r []
      else if c = DQUOTE then (if lit '';'' p = None then yy12 r [] else message_end T_error r p)
      else if c = BACKSLASH then yy55 r (c # p) else yy45 r (c # p))"
    by (cases p) (auto simp: error_steps yy12_any yy64_def)
  show "terminated (c # p) \<Longrightarrow> c \<noteq> DQUOTE \<Longrightarrow> yy55 r (x # c # p) = yy45 r (x # c # p)"
    by (simp add: error_steps)
  show "\<exists>r'. yy55 r (x # DQUOTE # p) = yy45 r' (DQUOTE # p) \<and>
      yy12 r' [] = (if lit '';'' p = None then yy12 r [] else message_end T_error r p) \<and> message_end T_error r' = message_end T_error r"
    if "terminated p"
    using that
  proof (rule quote_kept [where keep = "keep_at 1"])
    show "yy55 r (x # DQUOTE # d # q) = yy45 r (DQUOTE # d # q)" if "d \<noteq> CHR '';''" for d q
      using that by (simp add: error_steps)
    show "yy55 r (x # DQUOTE # CHR '';'' # e # q) = yy45 (keep_at 1 (CHR '';'' # e # q) r) (DQUOTE # CHR '';'' # e # q)" for e q
      by (simp add: error_steps resumed yy12_def Let_def keep_at_def)
  qed (simp_all add: keep_at_def yy12_def yy64_def message_token_def)
qed

interpretation info_loop: string_loop yy47 yy57 "lit '';''" "\<lambda>r. yy12 r []" "message_end T_info"
proof
  fix c p r x
  show "terminated (c # p) \<Longrightarrow> yy47 r (x # c # p) = (if line_end c then yy12 r []
      else if c = DQUOTE then (if lit '';'' p = None then yy12 r [] else message_end T_info r p)
      else if c = BACKSLASH then yy57 r (c # p) else yy47 r (c # p))"
    by (cases p) (auto simp: info_steps yy12_any yy67_def)
  show "terminated (c # p) \<Longrightarrow> c \<noteq> DQUOTE \<Longrightarrow> yy57 r (x # c # p) = yy47 r (x # c # p)"
    by (simp add: info_steps)
  show "\<exists>r'. yy57 r (x # DQUOTE # p) = yy47 r' (DQUOTE # p) \<and>
      yy12 r' [] = (if lit '';'' p = None then yy12 r [] else message_end T_info r p) \<and> message_end T_info r' = message_end T_info r"
    if "terminated p"
    using that
  proof (rule quote_kept [where keep = "keep_at 2"])
    show "yy57 r (x # DQUOTE # d # q) = yy47 r (DQUOTE # d # q)" if "d \<noteq> CHR '';''" for d q
      using that by (simp add: info_steps)
    show "yy57 r (x # DQUOTE # CHR '';'' # e # q) = yy47 (keep_at 2 (CHR '';'' # e # q) r) (DQUOTE # CHR '';'' # e # q)" for e q
      by (simp add: info_steps resumed yy12_def Let_def keep_at_def)
  qed (simp_all add: keep_at_def yy12_def yy67_def message_token_def)
qed

interpretation warning_loop: string_loop yy58 yy70 "lit '';''" "\<lambda>r. yy12 r []" "message_end T_warning"
proof
  fix c p r x
  show "terminated (c # p) \<Longrightarrow> yy58 r (x # c # p) = (if line_end c then yy12 r []
      else if c = DQUOTE then (if lit '';'' p = None then yy12 r [] else message_end T_warning r p)
      else if c = BACKSLASH then yy70 r (c # p) else yy58 r (c # p))"
    by (cases p) (auto simp: warning_steps yy12_any yy79_def)
  show "terminated (c # p) \<Longrightarrow> c \<noteq> DQUOTE \<Longrightarrow> yy70 r (x # c # p) = yy58 r (x # c # p)"
    by (simp add: warning_steps)
  show "\<exists>r'. yy70 r (x # DQUOTE # p) = yy58 r' (DQUOTE # p) \<and>
      yy12 r' [] = (if lit '';'' p = None then yy12 r [] else message_end T_warning r p) \<and> message_end T_warning r' = message_end T_warning r"
    if "terminated p"
    using that
  proof (rule quote_kept [where keep = "keep_at 3"])
    show "yy70 r (x # DQUOTE # d # q) = yy58 r (DQUOTE # d # q)" if "d \<noteq> CHR '';''" for d q
      using that by (simp add: warning_steps)
    show "yy70 r (x # DQUOTE # CHR '';'' # e # q) = yy58 (keep_at 3 (CHR '';'' # e # q) r) (DQUOTE # CHR '';'' # e # q)" for e q
      by (simp add: warning_steps resumed yy12_def Let_def keep_at_def)
  qed (simp_all add: keep_at_def yy12_def yy79_def message_token_def)
qed

section \<open>The loop of \<open>set\<close>\<close>

lemma tree_value_escaped:
  "(if byte c \<le> 0x1F then
      (if byte c \<le> 0x09 then (if byte c \<le> 0x00 then F else if byte c \<le> 0x08 then N else W)
       else if byte c \<le> 0x0A then F else if c = CR then F else N)
    else if byte c \<le> 0x3A then (if byte c \<le> 0x20 then W else if c = DQUOTE then Q else N)
    else if byte c \<le> 0x3B then S else if c = BACKSLASH then B else N) =
   (if line_end c then F else if is_blank c then W else if c = DQUOTE then Q else if c = CHR '';'' then S
    else if c = BACKSLASH then B else N)"
  by (auto simp: byte_classes)

lemma tree_blanks:
  "(if byte c \<le> 0x1F then (if c = CHR 0x09 then W else F) else if byte c \<le> 0x20 then W else R) =
   (if is_blank c then W else if byte c \<le> 0x1F then F else R)"
  by (auto simp: byte_classes)

lemma set_steps:
  "yy60 r (x # c # p) = (if line_end c then yy12 r (c # p) else if c = DQUOTE then yy72 r (c # p)
     else if c = BACKSLASH then yy73 r (c # p) else yy60 r (c # p))"
  "yy73 r (x # c # p) = (if line_end c then yy12 r (c # p) else if c = DQUOTE then yy84 r (c # p)
     else if c = BACKSLASH then yy73 r (c # p) else yy60 r (c # p))"
  "yy84 r (x # c # p) = (if line_end c then yy12 r (c # p) else if is_blank c then yy88 (r\<lparr>yyt5 := Some (c # p)\<rparr>) (c # p)
     else if c = DQUOTE then yy72 r (c # p) else if c = CHR '';'' then yy89 (r\<lparr>yyt5 := Some (c # p)\<rparr>) (c # p)
     else if c = BACKSLASH then yy73 r (c # p) else yy60 r (c # p))"
  "yy88 r (x # c # p) = (if line_end c then yy12 r (c # p) else if is_blank c then yy88 r (c # p)
     else if c = DQUOTE then yy72 r (c # p) else if c = CHR '';'' then yy89 r (c # p)
     else if c = BACKSLASH then yy73 r (c # p) else yy60 r (c # p))"
  by (simp_all only: yy60.simps yy73.simps yy84.simps yy88.simps tree_text tree_value_escaped)

lemma set_resumed:
  "yy89 r (x # c # p) = (let r' = r\<lparr>yy_accept := 4, yy_marker := c # p, yyt4 := yyt5 r\<rparr> in
     if line_end c then yy83 r' (c # p) else yy60 r' (x # c # p))"
  by (simp only: yy89.simps tree_text set_steps Let_def) (simp add: line_end_def)

lemma yy72_81_steps:
  "yy72 r (x # c # p) = (if is_blank c then yy81 (r\<lparr>yyt5 := Some (c # p)\<rparr>) (c # p)
     else if c = CHR '';'' then yy82 (r\<lparr>yyt5 := Some (c # p)\<rparr>) (c # p) else yy12 r [])"
  "yy81 r (x # c # p) = (if is_blank c then yy81 r (c # p) else if c = CHR '';'' then yy82 r (c # p) else yy12 r [])"
  by (auto simp: yy12_any byte_classes)

declare yy60.simps [simp del] yy73.simps [simp del] yy84.simps [simp del] yy88.simps [simp del] yy89.simps [simp del]
  yy72.simps [simp del] yy81.simps [simp del]

lemma yy12_yyt5 [simp]: "yy12 (r\<lparr>yyt5 := t\<rparr>) data = yy12 r data"
  by (simp add: yy12_def yy3_def yy64_def yy67_def yy79_def yy83_def message_token_def set_token_def)

definition set_follow :: "string \<Rightarrow> string option" where
  "set_follow p = lit '';'' (dropWhile is_blank p)"

abbreviation set_end :: "yy_regs \<Rightarrow> string \<Rightarrow> (token \<times> string) option" where
  "set_end r p \<equiv> Some (set_token (r\<lparr>yyt4 := Some p\<rparr>), the (set_follow p))"

lemma set_follow_Cons [simp]: "set_follow (c # p) = (if is_blank c then set_follow p else if c = CHR '';'' then Some p else None)"
  by (simp add: set_follow_def)

lemma semicolon_no_blank [simp]: "\<not> is_blank (CHR '';'')" "\<not> is_blank DQUOTE" "\<not> is_blank NUL"
  by (simp_all add: is_blank_def)

lemma yy81_end:
  "terminated p \<Longrightarrow> yyt5 r = Some t \<Longrightarrow>
   yy81 r (x # p) = (case set_follow p of None \<Rightarrow> yy12 r [] | Some q \<Rightarrow> Some (set_token (r\<lparr>yyt4 := Some t\<rparr>), q))"
proof (induction p arbitrary: x)
  case (Cons c p)
  show ?case
  proof (cases "is_blank c")
    case True
    then have "terminated p" using Cons.prems(1) terminated_next by (auto simp: is_blank_def)
    then show ?thesis using True Cons by (simp add: yy72_81_steps)
  next
    case False
    then show ?thesis using Cons.prems(2) by (simp add: yy72_81_steps yy83_def)
  qed
qed simp

lemma yy72_end:
  assumes "terminated p"
  shows "yy72 r (x # p) = (if set_follow p = None then yy12 r [] else set_end r p)"
proof -
  obtain c q where p: "p = c # q" using assms by (cases p) auto
  have "set_token (r\<lparr>yyt5 := Some p, yyt4 := Some p\<rparr>) = set_token (r\<lparr>yyt4 := Some p\<rparr>)" by (simp add: set_token_def)
  moreover have "terminated q" if "is_blank c" using assms that terminated_next unfolding p by (auto simp: is_blank_def)
  ultimately show ?thesis using yy81_end [of q "r\<lparr>yyt5 := Some p\<rparr>" p c] unfolding p
    by (auto simp: yy72_81_steps yy83_def split: option.split)
qed

text \<open>Behind an escaped quote: what is kept in the registers before the loop goes on.\<close>

definition set_kept :: "string \<Rightarrow> string \<Rightarrow> yy_regs \<Rightarrow> yy_regs" where
  "set_kept p t r = (case set_follow p of None \<Rightarrow> r | Some q \<Rightarrow> r\<lparr>yy_accept := 4, yy_marker := q, yyt4 := Some t\<rparr>)"

lemma yy89_resumes: "terminated p \<Longrightarrow> yyt5 r = Some t \<Longrightarrow>
  yy89 r (x # p) = yy60 (r\<lparr>yy_accept := 4, yy_marker := p, yyt4 := Some t\<rparr>) (x # p)"
  by (cases p) (auto simp: set_resumed set_steps yy12_def Let_def)

lemma yy88_resumes: "terminated p \<Longrightarrow> yyt5 r = Some t \<Longrightarrow> yy88 r (x # p) = yy60 (set_kept p t r) (x # p)"
proof (induction p arbitrary: x)
  case (Cons c p)
  have t: "terminated p" if "c \<noteq> NUL" using that Cons.prems(1) terminated_next by auto
  show ?case
  proof (cases "is_blank c")
    case True
    then have c: "\<not> line_end c" "c \<noteq> DQUOTE" "c \<noteq> BACKSLASH" by (auto simp: byte_classes)
    then have "terminated p" using t by (auto simp: line_end_def)
    then show ?thesis using True c Cons by (simp add: set_steps set_kept_def)
  next
    case False
    then show ?thesis using t Cons.prems(2) yy89_resumes [of p r t c]
      by (cases "c = CHR '';''") (simp_all add: set_steps set_kept_def)
  qed
qed simp

interpretation set_loop: string_loop yy60 yy73 set_follow "\<lambda>r. yy12 r []" set_end
proof
  fix c p r x
  show "terminated (c # p) \<Longrightarrow> yy60 r (x # c # p) = (if line_end c then yy12 r []
      else if c = DQUOTE then (if set_follow p = None then yy12 r [] else set_end r p)
      else if c = BACKSLASH then yy73 r (c # p) else yy60 r (c # p))"
    using terminated_next [of c p] yy72_end [of p r c] by (auto simp: set_steps yy12_any split: if_splits)
  show "terminated (c # p) \<Longrightarrow> c \<noteq> DQUOTE \<Longrightarrow> yy73 r (x # c # p) = yy60 r (x # c # p)"
    by (simp add: set_steps)
  show "\<exists>r'. yy73 r (x # DQUOTE # p) = yy60 r' (DQUOTE # p) \<and>
      yy12 r' [] = (if set_follow p = None then yy12 r [] else set_end r p) \<and> set_end r' = set_end r"
    if tp: "terminated p"
  proof -
    obtain d q where p: "p = d # q" using tp by (cases p) auto
    have "yy12 (r\<lparr>yy_accept := 4, yy_marker := q, yyt4 := t\<rparr>) [] = Some (set_token (r\<lparr>yyt4 := t\<rparr>), q)" for r t q
      by (simp add: yy12_def yy83_def set_token_def)
    then have kept: "yy12 (set_kept p p r5) [] = (if set_follow p = None then yy12 r [] else set_end r p) \<and> set_end (set_kept p p r5) = set_end r"
      if "r5 = r \<or> r5 = r\<lparr>yyt5 := Some p\<rparr>" for r5
      using that by (cases "set_follow p") (auto simp: set_kept_def set_token_def)
    show ?thesis
    proof (cases "is_blank d \<or> d = CHR '';''")
      case True
      then have d: "\<not> line_end d" "d \<noteq> DQUOTE" "d \<noteq> BACKSLASH" by (auto simp: byte_classes)
      then have q: "terminated q" using tp terminated_next [of d q] unfolding p by (auto simp: line_end_def)
      have "yy73 r (x # DQUOTE # p) = yy60 (set_kept p p (r\<lparr>yyt5 := Some p\<rparr>)) (DQUOTE # p)"
        using True d yy88_resumes [OF q, of "r\<lparr>yyt5 := Some p\<rparr>" p d] yy89_resumes [OF q, of "r\<lparr>yyt5 := Some p\<rparr>" p d]
        by (auto simp: p set_steps set_kept_def)
      with kept [of "r\<lparr>yyt5 := Some p\<rparr>"] show ?thesis by blast
    next
      case False
      then have "yy73 r (x # DQUOTE # p) = yy60 (set_kept p p r) (DQUOTE # p)" by (simp add: p set_steps set_kept_def)
      with kept [of r] show ?thesis by blast
    qed
  qed
qed

section \<open>The loops of calls and arguments\<close>

lemma tree_escape:
  "(if \<not> line_end c \<and> c \<noteq> DQUOTE \<and> c \<noteq> BACKSLASH then N else if byte c \<le> 0x0D then F else if 0x23 \<le> byte c then B else Q) =
   (if line_end c then F else if c = DQUOTE then Q else if c = BACKSLASH then B else N)"
  by (auto simp: byte_classes)

lemma tree_close:
  "(if c = BACKSLASH then B
    else if byte c \<le> 0x0D then
      (if byte c \<le> 0x09 then (if byte c \<le> 0x00 then F else N) else if byte c \<le> 0x0A then F else if byte c \<le> 0x0C then N else F)
    else if byte c \<le> 0x22 then (if byte c \<le> 0x21 then N else Q) else if c \<noteq> CHR '')'' then N else S) =
   (if line_end c then F else if c = DQUOTE then Q else if c = CHR '')'' then S else if c = BACKSLASH then B else N)"
  by (auto simp: byte_classes)

lemma call_steps:
  "yy106 r (x # c # p) = (if line_end c then yy105 r (c # p) else if c = DQUOTE then yy109 r (c # p)
     else if c = BACKSLASH then yy110 r (c # p) else yy106 r (c # p))"
  "yy110 r (x # c # p) = (if line_end c then yy105 r (c # p)
     else if c = DQUOTE then
       (case p of [] \<Rightarrow> None | d # q \<Rightarrow>
          if line_end d then yy105 r (d # q) else if d = DQUOTE then yy109 r (d # q)
          else if d = CHR '')'' then
            (case q of [] \<Rightarrow> None | e # q' \<Rightarrow>
               let r' = r\<lparr>yy_accept := 1, yy_marker := e # q'\<rparr> in
               if line_end e then yy108 r' (e # q') else if e = DQUOTE then yy109 r' (e # q')
               else if e = BACKSLASH then yy110 r' (e # q') else yy106 r' (e # q'))
          else if d = BACKSLASH then yy110 r (d # q) else yy106 r (d # q))
     else if c = BACKSLASH then yy110 r (c # p) else yy106 r (c # p))"
  by (simp_all only: yy106.simps yy110.simps table_classes not_not tree_table tree_escape tree_close Let_def)

lemma argument_steps:
  "yy141 r (x # c # p) = (if line_end c then yy134 r (c # p) else if c = DQUOTE then yy144 r (c # p)
     else if c = BACKSLASH then yy145 r (c # p) else yy141 r (c # p))"
  "yy145 r (x # c # p) = (if line_end c then yy134 r (c # p)
     else if c = DQUOTE then
       (case p of [] \<Rightarrow> None | d # q \<Rightarrow>
          if line_end d then yy134 r (d # q) else if d = DQUOTE then yy144 r (d # q)
          else if d = CHR '')'' then
            (case q of [] \<Rightarrow> None | e # q' \<Rightarrow>
               let r' = r\<lparr>yyt4 := Some (d # q), yy_accept := 2, yy_marker := e # q'\<rparr> in
               if line_end e then yy139 r' (e # q') else if e = DQUOTE then yy144 r' (e # q')
               else if e = BACKSLASH then yy145 r' (e # q') else yy141 r' (e # q'))
          else if d = BACKSLASH then yy145 r (d # q) else yy141 r (d # q))
     else if c = BACKSLASH then yy145 r (c # p) else yy141 r (c # p))"
  by (simp_all only: yy141.simps yy145.simps table_classes not_not tree_table tree_escape tree_close Let_def)

declare yy106.simps [simp del] yy110.simps [simp del] yy141.simps [simp del] yy145.simps [simp del]

lemma yy105_any: "yy105 r (c # data) = yy105 r []"
  by (simp add: yy105_def)

lemma yy134_any: "yy134 r (c # data) = yy134 r []"
  by (simp add: yy134_def)

abbreviation call_end :: "yy_regs \<Rightarrow> string \<Rightarrow> (token \<times> string) option" where
  "call_end r p \<equiv> Some (call_token r (tl p), tl p)"

abbreviation argument_end :: "yy_regs \<Rightarrow> string \<Rightarrow> (token \<times> string) option" where
  "argument_end r p \<equiv> Some (keyword_token (r\<lparr>yyt4 := Some p\<rparr>), tl p)"

definition keep_argument :: "string \<Rightarrow> yy_regs \<Rightarrow> yy_regs" where
  "keep_argument p r = r\<lparr>yyt4 := Some p, yy_accept := 2, yy_marker := tl p\<rparr>"

interpretation call_loop: string_loop yy106 yy110 "lit '')''" "\<lambda>r. yy105 r []" call_end
proof
  fix c p r x
  show "terminated (c # p) \<Longrightarrow> yy106 r (x # c # p) = (if line_end c then yy105 r []
      else if c = DQUOTE then (if lit '')'' p = None then yy105 r [] else call_end r p)
      else if c = BACKSLASH then yy110 r (c # p) else yy106 r (c # p))"
    by (cases p) (auto simp: call_steps yy105_any yy108_def)
  show "terminated (c # p) \<Longrightarrow> c \<noteq> DQUOTE \<Longrightarrow> yy110 r (x # c # p) = yy106 r (x # c # p)"
    by (simp add: call_steps)
  show "\<exists>r'. yy110 r (x # DQUOTE # p) = yy106 r' (DQUOTE # p) \<and>
      yy105 r' [] = (if lit '')'' p = None then yy105 r [] else call_end r p) \<and> call_end r' = call_end r"
    if "terminated p"
    using that
  proof (rule quote_kept [where keep = "keep_at 1"])
    show "yy110 r (x # DQUOTE # d # q) = yy106 r (DQUOTE # d # q)" if "d \<noteq> CHR '')''" for d q
      using that by (simp add: call_steps)
    show "yy110 r (x # DQUOTE # CHR '')'' # e # q) = yy106 (keep_at 1 (CHR '')'' # e # q) r) (DQUOTE # CHR '')'' # e # q)" for e q
      by (simp add: call_steps yy105_def keep_at_def)
  qed (simp_all add: keep_at_def yy105_def yy108_def call_token_def)
qed

interpretation argument_loop: string_loop yy141 yy145 "lit '')''" "\<lambda>r. yy134 r []" argument_end
proof
  fix c p r x
  show "terminated (c # p) \<Longrightarrow> yy141 r (x # c # p) = (if line_end c then yy134 r []
      else if c = DQUOTE then (if lit '')'' p = None then yy134 r [] else argument_end r p)
      else if c = BACKSLASH then yy145 r (c # p) else yy141 r (c # p))"
    by (cases p) (auto simp: argument_steps yy134_any yy139_def)
  show "terminated (c # p) \<Longrightarrow> c \<noteq> DQUOTE \<Longrightarrow> yy145 r (x # c # p) = yy141 r (x # c # p)"
    by (simp add: argument_steps)
  show "\<exists>r'. yy145 r (x # DQUOTE # p) = yy141 r' (DQUOTE # p) \<and>
      yy134 r' [] = (if lit '')'' p = None then yy134 r [] else argument_end r p) \<and> argument_end r' = argument_end r"
    if "terminated p"
    using that
  proof (rule quote_kept [where keep = keep_argument])
    show "yy145 r (x # DQUOTE # d # q) = yy141 r (DQUOTE # d # q)" if "d \<noteq> CHR '')''" for d q
      using that by (simp add: argument_steps)
    show "yy145 r (x # DQUOTE # CHR '')'' # e # q) = yy141 (keep_argument (CHR '')'' # e # q) r) (DQUOTE # CHR '')'' # e # q)" for e q
      by (simp add: argument_steps yy134_def keep_argument_def)
  qed (simp_all add: keep_argument_def yy134_def yy139_def keyword_token_def)
qed

end
