(* ===== verification/Automaton_Grammar.thy ===== *)
theory Automaton_Grammar
  imports Automaton_Loops
begin

text \<open>
  The automaton of the scanner and the grammar it was made from: on every terminated text, and whatever the
  registers hold from the token before, they give the same token and the same rest.
\<close>

unbundle bit_operations_syntax

lemma lit_char: "lit (c # p) (d # s) = (if d = c then lit p s else None)"
  by auto

declare lit_Cons(1) [simp del] lit_char [simp]

section \<open>Conditions: operators\<close>

lemma tag_text_ends [simp]: "tag_text (Some (t @ p)) p = t" "tag_text (Some (c # p)) p = [c]" "tag_text (Some (c # d # p)) p = [c, d]"
  by (simp_all add: tag_text_def ptr_diff_def)

lemma yy114_blanks: "terminated p \<Longrightarrow> yy114 r (x # p) = Some (T_blank, dropWhile is_blank p)"
  by (induction p arbitrary: x) (auto split: if_splits)

lemma yyc_cond_op_start:
  "yyc_cond_op r (c # p) =
     (if is_blank c then yy114 r (c # p) else if c = LF then yy115 r (c # p) else if c = CR then yy116 r (c # p)
      else if c = CHR ''&'' then yy117 (r\<lparr>yyt1 := Some (c # p)\<rparr>) (c # p) else if c = CHR '')'' then yy118 r (c # p)
      else if c = CHR '';'' then yy119 r (c # p)
      else if c = CHR ''<'' \<or> c = CHR ''>'' then yy120 (r\<lparr>yyt1 := Some (c # p)\<rparr>) (c # p)
      else if c = CHR ''='' then yy122 (r\<lparr>yyt1 := Some (c # p)\<rparr>) (c # p)
      else if c = CHR ''|'' then yy123 (r\<lparr>yyt1 := Some (c # p)\<rparr>) (c # p) else yy112 r (c # p))"
  by (simp del: yy114.simps, auto simp: byte_classes)

declare yyc_cond_op.simps [simp del] yy114.simps [simp del]

lemmas token_rules = lex_blank_def token_if_def lex_newline_def lex_any_def is_blank_def
lemmas op_tokens = yyc_cond_op_start lex_cond_op_def lex_op_def token_rules yy113_def yy121_def

lemma cond_op_agrees:
  assumes "terminated s"
  shows "yyc_cond_op r s = lex_cond_op s"
proof -
  obtain c p where s: "s = c # p" using assms by (cases s) auto
  have p: "terminated p" if "c \<noteq> NUL" using that assms terminated_next unfolding s by blast
  have ne: "c = NUL \<or> p \<noteq> []" using p by auto
  consider "is_blank c" | "c = LF" | "c = CR" | "c = CHR ''&''" | "c = CHR '')''" | "c = CHR '';''" | "c = CHR ''<''" | "c = CHR ''>''"
    | "c = CHR ''=''" | "c = CHR ''|''"
    | "\<not> is_blank c" "c \<notin> {LF, CR, CHR ''&'', CHR '')'', CHR '';'', CHR ''<'', CHR ''>'', CHR ''='', CHR ''|''}"
    by auto
  then show ?thesis
  proof cases
    case 1
    then show ?thesis using p yy114_blanks [of p r c] semicolon_no_blank(3)
      by (cases "c = NUL") (simp_all add: s yyc_cond_op_start lex_cond_op_def lex_blank_def token_if_def)
  qed (use ne in \<open>cases p; simp add: s op_tokens\<close>)+
qed

section \<open>Conditions: operands\<close>

lemma yy96_blanks: "terminated p \<Longrightarrow> yy96 r (x # p) = Some (T_blank, dropWhile is_blank p)"
  by (induction p arbitrary: x) (auto split: if_splits)

lemma tag_text_while [simp]: "tag_text (Some (c # p)) (dropWhile P p) = c # takeWhile P p"
  using tag_text_ends(1) [of "c # takeWhile P p" "dropWhile P p"] by simp

lemma word_NUL [simp]: "\<not> is_word NUL" "\<not> is_digit NUL" "\<not> is_alpha NUL"
  by (simp_all add: char_classes)

lemma yy101_digits: "terminated p \<Longrightarrow> yy101 r (x # p) = Some (T_number (tag_text (yyt1 r) (dropWhile is_digit p)), dropWhile is_digit p)"
  by (induction p arbitrary: x) (auto split: if_splits)

lemma yy102_word:
  "terminated p \<Longrightarrow> yy102 r (x # p) =
     (let q = dropWhile is_word p; r' = r\<lparr>yy_accept := 0, yy_marker := q\<rparr>
      in if hd q = CHR ''('' then yy104 r' q else yy103 r' q)"
proof (induction p arbitrary: x r)
  case (Cons c p)
  show ?case
  proof (cases "is_word c")
    case True
    then have "terminated p" using Cons.prems terminated_next [of c p] by (cases "c = NUL") simp_all
    then show ?thesis using True Cons.IH by (simp add: Let_def)
  qed (simp add: Let_def)
qed simp

lemma call_token_string:
  "yyt1 r = Some (n @ CHR ''('' # DQUOTE # t @ DQUOTE # CHR '')'' # q) \<Longrightarrow> yyt2 r = Some (DQUOTE # t @ DQUOTE # CHR '')'' # q) \<Longrightarrow>
   call_token r q = T_call n (Some t)"
  by (simp add: call_token_def ptr_diff_def unquoted_def)

lemma call_token_empty:
  "yyt1 r = Some (n @ CHR ''('' # CHR '')'' # q) \<Longrightarrow> yyt2 r = Some (CHR '')'' # q) \<Longrightarrow> call_token r q = T_call n None"
  by (simp add: call_token_def ptr_diff_def)

lemma closed_string:
  assumes "best_end (lit [k]) False p = Some (t, q)"
  shows "\<exists>q'. q = k # q' \<and> p = t @ DQUOTE # k # q'"
  using best_end_split [OF assms] by (cases q) (auto split: if_splits)

lemma yy104_call:
  assumes "terminated p" "yy_accept r = 0" "yy_marker r = CHR ''('' # p" "yyt1 r = Some (n @ CHR ''('' # p)"
  shows "yy104 r (CHR ''('' # p) =
    (case (case lit '')'' p of Some q \<Rightarrow> Some (T_call n None, q)
           | None \<Rightarrow> map_option (\<lambda>(a, q). (T_call n (Some a), q)) (lex_string (lit '')'') p)) of
       None \<Rightarrow> Some (T_variable n, CHR ''('' # p) | Some y \<Rightarrow> Some y)"
proof -
  obtain d q where p: "p = d # q" using assms(1) by (cases p) auto
  have fail: "yy105 (r\<lparr>yyt2 := t2\<rparr>) data = Some (T_variable n, CHR ''('' # p)" for data t2
    using assms by (simp add: yy105_def yy103_def)
  have fail': "yy105 r data = Some (T_variable n, CHR ''('' # p)" for data
    using assms by (simp add: yy105_def yy103_def)
  show ?thesis
  proof (cases "d = DQUOTE")
    case True
    then have q: "terminated q" using assms(1) terminated_next [of d q] unfolding p by simp
    let ?r = "r\<lparr>yyt2 := Some p\<rparr>"
    have run: "yy104 r (CHR ''('' # p) = (case best_end (lit '')'') False q of None \<Rightarrow> yy105 ?r [] | Some (t, u) \<Rightarrow> call_end ?r u)"
      using call_loop.inside_ends [OF q, of ?r d] True by (simp add: p)
    show ?thesis
    proof (cases "best_end (lit '')'') False q")
      case None
      then show ?thesis using run fail True by (simp add: p lex_string_best_end)
    next
      case (Some e)
      obtain t u where e: "e = (t, u)" by (cases e)
      then obtain u' where u: "u = CHR '')'' # u'" "q = t @ DQUOTE # CHR '')'' # u'" using closed_string Some by blast
      have "call_token ?r u' = T_call n (Some t)" using assms(4) True u by (intro call_token_string) (simp_all add: p)
      then show ?thesis using run Some e u True by (simp add: p lex_string_best_end)
    qed
  next
    case False
    show ?thesis
    proof (cases "d = CHR '')''")
      case True
      have "call_token (r\<lparr>yyt2 := Some p\<rparr>) q = T_call n None" using assms(4) True by (intro call_token_empty) (simp_all add: p)
      then show ?thesis using True by (simp add: p yy108_def)
    next
      case other: False
      then show ?thesis using False fail' by (simp add: p lex_string_best_end)
    qed
  qed
qed

lemma yyc_cond_start:
  "yyc_cond r (c # p) =
     (if is_blank c then yy96 r (c # p) else if c = LF then yy97 r (c # p) else if c = CR then yy98 r (c # p)
      else if c = CHR ''!'' then yy99 r (c # p) else if c = CHR ''('' then yy100 r (c # p)
      else if is_digit c then yy101 (r\<lparr>yyt1 := Some (c # p)\<rparr>) (c # p)
      else if is_alpha c then yy102 (r\<lparr>yyt1 := Some (c # p)\<rparr>) (c # p) else yy94 r (c # p))"
  by (simp del: yy96.simps, auto simp: byte_classes)

declare yyc_cond.simps [simp del] yy96.simps [simp del] yy101.simps [simp del] yy102.simps [simp del] yy104.simps [simp del]

lemma alpha_other [simp]:
  "is_alpha c \<Longrightarrow> \<not> is_blank c" "is_alpha c \<Longrightarrow> c \<noteq> LF" "is_alpha c \<Longrightarrow> c \<noteq> CR" "is_alpha c \<Longrightarrow> c \<noteq> CHR ''!''"
  "is_alpha c \<Longrightarrow> c \<noteq> CHR ''(''" "is_alpha c \<Longrightarrow> \<not> is_digit c" "is_alpha c \<Longrightarrow> c \<noteq> NUL"
  by (auto simp: byte_classes)

lemma digit_other [simp]:
  "is_digit c \<Longrightarrow> \<not> is_blank c" "is_digit c \<Longrightarrow> c \<noteq> LF" "is_digit c \<Longrightarrow> c \<noteq> CR" "is_digit c \<Longrightarrow> c \<noteq> CHR ''!''"
  "is_digit c \<Longrightarrow> c \<noteq> CHR ''(''" "is_digit c \<Longrightarrow> \<not> is_alpha c" "is_digit c \<Longrightarrow> c \<noteq> NUL"
  by (auto simp: byte_classes)

lemma punctuation [simp]:
  "\<not> is_alpha LF \<and> \<not> is_digit LF \<and> \<not> is_word LF \<and> \<not> is_blank LF"
  "\<not> is_alpha CR \<and> \<not> is_digit CR \<and> \<not> is_word CR \<and> \<not> is_blank CR"
  "\<not> is_alpha (CHR ''!'') \<and> \<not> is_digit (CHR ''!'') \<and> \<not> is_word (CHR ''!'') \<and> \<not> is_blank (CHR ''!'')"
  "\<not> is_alpha (CHR ''('') \<and> \<not> is_digit (CHR ''('') \<and> \<not> is_word (CHR ''('') \<and> \<not> is_blank (CHR ''('')"
  "\<not> is_alpha (CHR '';'') \<and> \<not> is_digit (CHR '';'') \<and> \<not> is_word (CHR '';'') \<and> \<not> is_blank (CHR '';'')"
  "\<not> is_alpha (CHR ''.'') \<and> \<not> is_digit (CHR ''.'') \<and> \<not> is_word (CHR ''.'') \<and> \<not> is_blank (CHR ''.'')"
  by (simp_all add: char_classes is_blank_def)

lemma cond_name_agrees:
  assumes "is_alpha c" "terminated p"
  shows "yyc_cond r (c # p) = lex_cond (c # p)"
proof -
  let ?q = "dropWhile is_word p" and ?n = "c # takeWhile is_word p"
  let ?r = "r\<lparr>yyt1 := Some (c # p), yy_accept := 0, yy_marker := ?q\<rparr>"
  have q: "terminated ?q" using terminated_drop [OF assms(2)] by simp
  have cp: "c # p = ?n @ ?q" by simp
  have run: "yyc_cond r (c # p) = (if hd ?q = CHR ''('' then yy104 ?r ?q else yy103 ?r ?q)"
    using yy102_word [OF assms(2)] assms(1) by (simp add: yyc_cond_start Let_def)
  have lex: "lex_cond (c # p) = (case lex_call (c # p) of None \<Rightarrow> Some (T_variable ?n, ?q) | Some y \<Rightarrow> Some y)"
    using assms(1) by (simp add: lex_cond_def lex_blank_def token_if_def lex_newline_def lex_variable_def lex_name_def split: option.split)
  obtain d u where d: "?q = d # u" using q by (cases ?q) auto
  show ?thesis
  proof (cases "d = CHR ''(''")
    case True
    then have u: "terminated u" using q terminated_next [of d u] d by simp
    have "yy104 ?r (CHR ''('' # u) =
        (case (case lit '')'' u of Some v \<Rightarrow> Some (T_call ?n None, v)
               | None \<Rightarrow> map_option (\<lambda>(a, v). (T_call ?n (Some a), v)) (lex_string (lit '')'') u)) of
           None \<Rightarrow> Some (T_variable ?n, CHR ''('' # u) | Some y \<Rightarrow> Some y)"
      using cp d True by (intro yy104_call [OF u]) simp_all
    moreover have "lex_call (c # p) = (case lit '')'' u of Some v \<Rightarrow> Some (T_call ?n None, v)
        | None \<Rightarrow> map_option (\<lambda>(a, v). (T_call ?n (Some a), v)) (lex_string (lit '')'') u))"
      using assms(1) d True by (simp add: lex_call_def lex_name_def)
    ultimately show ?thesis unfolding run lex d True by (simp only: list.sel refl if_True)
  next
    case False
    then have "lex_call (c # p) = None" using assms(1) d by (simp add: lex_call_def lex_name_def)
    moreover have "hd ?q \<noteq> CHR ''(''" using d False by simp
    ultimately show ?thesis unfolding run lex by (simp add: yy103_def)
  qed
qed

lemmas cond_tokens = yyc_cond_start lex_cond_def token_rules lex_call_def lex_variable_def lex_name_def lex_number_def yy95_def

lemma cond_agrees:
  assumes "terminated s"
  shows "yyc_cond r s = lex_cond s"
proof -
  obtain c p where s: "s = c # p" using assms by (cases s) auto
  have p: "terminated p" if "c \<noteq> NUL" using that assms terminated_next unfolding s by blast
  have ne: "c = NUL \<or> p \<noteq> []" using p by auto
  consider (name) "is_alpha c" | (digit) "is_digit c" | (blank) "is_blank c" | "c = LF" | "c = CR" | "c = CHR ''!''" | "c = CHR ''(''"
    | "\<not> is_alpha c" "\<not> is_digit c" "\<not> is_blank c" "c \<notin> {LF, CR, CHR ''!'', CHR ''(''}"
    by auto
  then show ?thesis
  proof cases
    case name
    then show ?thesis using cond_name_agrees p by (simp add: s)
  next
    case digit
    then show ?thesis using p yy101_digits [of p]
      by (simp add: s yyc_cond_start lex_cond_def lex_blank_def token_if_def lex_newline_def lex_call_def lex_variable_def
          lex_name_def lex_number_def)
  next
    case blank
    then show ?thesis using p yy96_blanks by (cases "c = NUL") (simp_all add: s yyc_cond_start lex_cond_def lex_blank_def token_if_def)
  qed (use ne in \<open>cases p; simp add: s cond_tokens\<close>)+
qed

section \<open>Rules\<close>

lemma yy127_blanks: "terminated p \<Longrightarrow> yy127 r (x # p) = Some (T_blank, dropWhile is_blank p)"
  by (induction p arbitrary: x) (auto split: if_splits)

text \<open>The trailing context of a newline.\<close>

lemma newline_steps:
  "yy133 r (x # c # p) = (if is_blank c \<or> c = LF then yy133 r (c # p) else if c = CR then yy135 r (c # p)
     else if c = CHR ''.'' then yy136 r (c # p) else yy134 r (c # p))"
  "yy135 r (x # c # p) = (if c = LF then yy133 r (c # p) else yy134 r (c # p))"
  by auto

declare yy127.simps [simp del] yy133.simps [simp del] yy135.simps [simp del]

lemma newline_loop:
  "terminated p \<Longrightarrow> yyt1 r = Some t \<Longrightarrow>
    yy133 r (x # p) = (if dot_ahead p then Some (T_newline, t) else yy134 r []) \<and>
    yy135 r (x # p) = (if hd p = LF \<and> dot_ahead (tl p) then Some (T_newline, t) else yy134 r [])"
proof (induction p arbitrary: x)
  case (Cons c p)
  have p: "terminated p" if "c \<noteq> NUL" using that Cons.prems(1) terminated_next by blast
  consider "is_blank c \<or> c = LF" | "c = CR" | "c = CHR ''.''" | "\<not> is_blank c" "c \<notin> {LF, CR, CHR ''.''}" by auto
  then show ?case
  proof cases
    case 1
    then have "c \<noteq> NUL" "c \<noteq> CHR ''.''" by (auto simp: is_blank_def)
    then show ?thesis using 1 Cons.IH [OF p Cons.prems(2)] by (auto simp: newline_steps yy134_any)
  next
    case 2
    then have "terminated p" using p by simp
    then show ?thesis using 2 Cons.IH [OF p Cons.prems(2)] by (cases p) (auto simp: newline_steps yy134_any)
  qed (use Cons.prems in \<open>simp add: newline_steps yy134_any\<close>)+
qed simp

lemma newline_tree:
  "(if byte c \<le> 0x0D then (if byte c \<le> 0x08 then F else if byte c \<le> 0x0A then W else if byte c \<le> 0x0C then F else R)
    else if byte c \<le> 0x20 then (if byte c \<le> 0x1F then F else W) else if c = CHR ''.'' then D else F) =
   (if is_blank c \<or> c = LF then W else if c = CR then R else if c = CHR ''.'' then D else F)"
  by (auto simp: byte_classes)

lemma yy128_137_steps:
  "yy128 r (x # c # p) = (let r0 = r\<lparr>yy_accept := 0, yy_marker := c # p\<rparr>; r1 = r0\<lparr>yyt1 := Some (c # p)\<rparr> in
     if is_blank c \<or> c = LF then yy133 r1 (c # p) else if c = CR then yy135 r1 (c # p)
     else if c = CHR ''.'' then yy136 r1 (c # p) else yy126 r0 (c # p))"
  "yy137 r (x # c # p) = (let r1 = r\<lparr>yyt1 := Some (c # p)\<rparr> in
     if is_blank c \<or> c = LF then yy133 r1 (c # p) else if c = CR then yy135 r1 (c # p)
     else if c = CHR ''.'' then yy136 r1 (c # p) else yy134 r (c # p))"
  by (simp_all only: yy128.simps yy137.simps newline_tree Let_def)

declare yy128.simps [simp del] yy137.simps [simp del]

lemma dot_ahead_Cons: "dot_ahead (c # p) \<longleftrightarrow>
  (if is_blank c \<or> c = LF then dot_ahead p else if c = CR then hd p = LF \<and> dot_ahead (tl p) else c = CHR ''.'')"
  by (cases p) (auto simp: is_blank_def)

declare dot_ahead.simps(2) [simp del]

lemma newline_starts:
  assumes "terminated p"
  shows "yy128 r (x # p) = (if dot_ahead p then Some (T_newline, p) else Some (T_any, p))"
    and "yy_accept r = 0 \<Longrightarrow> yy_marker r = m \<Longrightarrow> yy137 r (x # p) = (if dot_ahead p then Some (T_newline, p) else Some (T_any, m))"
proof -
  obtain c q where p: "p = c # q" using assms by (cases p) auto
  have q: "terminated q" if "is_blank c \<or> c = LF \<or> c = CR" using that assms terminated_next [of c q] unfolding p by (auto simp: is_blank_def)
  have fail: "yy134 (r\<lparr>yy_accept := 0, yy_marker := p, yyt1 := t\<rparr>) [] = Some (T_any, p)" for t by (simp add: yy134_def yy126_def)
  show "yy128 r (x # p) = (if dot_ahead p then Some (T_newline, p) else Some (T_any, p))"
    using newline_loop [OF q, of "r\<lparr>yy_accept := 0, yy_marker := p, yyt1 := Some p\<rparr>" p c] fail
    by (auto simp: p yy128_137_steps dot_ahead_Cons Let_def yy126_def)
  assume "yy_accept r = 0" "yy_marker r = m"
  then have fail: "yy134 (r\<lparr>yyt1 := t\<rparr>) [] = Some (T_any, m)" "yy134 r data = Some (T_any, m)" for t data
    by (simp_all add: yy134_def yy126_def)
  then show "yy137 r (x # p) = (if dot_ahead p then Some (T_newline, p) else Some (T_any, m))"
    using newline_loop [OF q, of "r\<lparr>yyt1 := Some p\<rparr>" p c]
    by (auto simp: p yy128_137_steps dot_ahead_Cons Let_def)
qed

text \<open>Keywords and their arguments.\<close>

lemma yy138_word:
  "terminated p \<Longrightarrow> yy138 r (x # p) =
     (let q = dropWhile is_word p; r' = r\<lparr>yy_accept := 1, yy_marker := q\<rparr>
      in if hd q = CHR ''('' then yy140 (r'\<lparr>yyt2 := Some q\<rparr>) q else yy139 (r'\<lparr>yyt4 := None, yyt3 := None, yyt2 := Some q\<rparr>) q)"
proof (induction p arbitrary: x r)
  case (Cons c p)
  show ?case
  proof (cases "is_word c")
    case True
    then have "terminated p" using Cons.prems terminated_next [of c p] by (cases "c = NUL") simp_all
    then show ?thesis using True Cons.IH by (simp add: Let_def)
  qed (simp add: Let_def)
qed simp

lemma yy143_step:
  "yy143 r (x # c # p) = (if is_word c then yy143 r (c # p)
     else if c = CHR '')'' then yy142 (r\<lparr>yyt4 := Some (c # p)\<rparr>) (c # p) else yy134 r (c # p))"
  by (auto simp: byte_classes)

declare yy138.simps [simp del] yy143.simps [simp del]

lemma yy143_word:
  "terminated p \<Longrightarrow> yy143 r (x # p) =
     (let q = dropWhile is_word p
      in if hd q = CHR '')'' then Some (keyword_token (r\<lparr>yyt4 := Some q\<rparr>), tl q) else yy134 r [])"
proof (induction p arbitrary: x)
  case (Cons c p)
  show ?case
  proof (cases "is_word c")
    case True
    then have "terminated p" using Cons.prems terminated_next [of c p] by (cases "c = NUL") simp_all
    then show ?thesis using True Cons.IH by (simp add: yy143_step Let_def)
  qed (simp add: yy143_step yy134_any yy139_def Let_def)
qed simp

lemma yy140_step:
  "yy140 r (x # c # p) =
     (if c = DQUOTE then yy141 (r\<lparr>yyt3 := Some (c # p)\<rparr>) (c # p)
      else if c = CHR '')'' then yy142 (r\<lparr>yyt4 := Some (c # p), yyt3 := Some (c # p)\<rparr>) (c # p)
      else if is_alpha c then yy143 (r\<lparr>yyt3 := Some (c # p)\<rparr>) (c # p) else yy134 r (c # p))"
  by (auto simp: byte_classes)

declare yy140.simps [simp del]

lemma keyword_token_args:
  "yyt1 r = Some (n @ CHR ''('' # a @ CHR '')'' # q) \<Longrightarrow> yyt2 r = Some (CHR ''('' # a @ CHR '')'' # q) \<Longrightarrow>
   yyt3 r = Some (a @ CHR '')'' # q) \<Longrightarrow> yyt4 r = Some (CHR '')'' # q) \<Longrightarrow> keyword_token r = T_keyword n (Some a)"
  by (simp add: keyword_token_def ptr_diff_def)

lemma DQUOTE_classes [simp]: "\<not> is_alpha DQUOTE" "\<not> is_word DQUOTE" "\<not> is_alpha (CHR '')'')" "\<not> is_word (CHR '')'')"
  by (simp_all add: char_classes)

lemma yy140_args:
  assumes "terminated p" "yy_accept r = 1" "yy_marker r = CHR ''('' # p" "yyt1 r = Some (n @ CHR ''('' # p)" "yyt2 r = Some (CHR ''('' # p)"
  shows "yy140 r (CHR ''('' # p) =
    (case lex_args (CHR ''('' # p) of Some (a, q) \<Rightarrow> Some (T_keyword n (Some a), q) | None \<Rightarrow> Some (T_keyword n None, CHR ''('' # p))"
proof -
  obtain d q where p: "p = d # q" using assms(1) by (cases p) auto
  have q: "terminated q" if "d \<noteq> NUL" using that assms(1) terminated_next unfolding p by blast
  have fail: "yy134 (r\<lparr>yyt3 := t\<rparr>) data = Some (T_keyword n None, CHR ''('' # p)" for t data
    using assms by (simp add: yy134_def yy139_def keyword_token_def)
  have fail': "yy134 r data = Some (T_keyword n None, CHR ''('' # p)" for data
    using assms by (simp add: yy134_def yy139_def keyword_token_def)
  let ?r = "r\<lparr>yyt3 := Some p\<rparr>"
  have token: "keyword_token (r\<lparr>yyt3 := Some p, yyt4 := Some (CHR '')'' # u)\<rparr>) = T_keyword n (Some a)"
    if "p = a @ CHR '')'' # u" for a u
    using assms(4,5) that by (intro keyword_token_args) simp_all
  consider (quote) "d = DQUOTE" | (close) "d = CHR '')''" | (name) "is_alpha d" | (other) "d \<noteq> DQUOTE" "d \<noteq> CHR '')''" "\<not> is_alpha d"
    by auto
  then show ?thesis
  proof cases
    case quote
    then have run: "yy140 r (CHR ''('' # p) =
        (case best_end (lit '')'') False q of None \<Rightarrow> yy134 ?r [] | Some (t, u) \<Rightarrow> argument_end ?r u)"
      using argument_loop.inside_ends [OF q, of ?r d] by (simp add: p yy140_step)
    show ?thesis
    proof (cases "best_end (lit '')'') False q")
      case None
      then show ?thesis using run fail quote by (simp add: p lex_args_def lex_string_best_end lex_name_def)
    next
      case (Some e)
      obtain t u where e: "e = (t, u)" by (cases e)
      then obtain u' where u: "u = CHR '')'' # u'" "q = t @ DQUOTE # CHR '')'' # u'" using closed_string Some by blast
      then show ?thesis using run Some e quote token [of "DQUOTE # t @ [DQUOTE]" u']
        by (simp add: p lex_args_def lex_string_best_end)
    qed
  next
    case close
    then show ?thesis using assms(4,5) by (simp add: p yy140_step yy139_def lex_args_def keyword_token_def ptr_diff_def)
  next
    case name
    let ?v = "dropWhile is_word q"
    have v: "?v \<noteq> []" using terminated_drop [OF q, of is_word] name by (cases ?v) simp_all
    have run: "yy140 r (CHR ''('' # p) =
        (if hd ?v = CHR '')'' then Some (keyword_token (?r\<lparr>yyt4 := Some ?v\<rparr>), tl ?v) else yy134 ?r [])"
      using yy143_word [OF q, of ?r d] name by (cases "d = DQUOTE \<or> d = CHR '')''") (auto simp: p yy140_step Let_def)
    have lex: "lex_args (CHR ''('' # p) = map_option (Pair (d # takeWhile is_word q)) (lit '')'' ?v)"
      using name by (cases "d = DQUOTE \<or> d = CHR '')''") (auto simp: p lex_args_def lex_string_best_end lex_name_def)
    obtain e w where e: "?v = e # w" using v by (cases ?v) auto
    show ?thesis
    proof (cases "e = CHR '')''")
      case True
      then have "p = (d # takeWhile is_word q) @ CHR '')'' # w" using e takeWhile_dropWhile_id [of is_word q] by (simp add: p)
      from token [OF this] show ?thesis unfolding run lex e True by simp
    next
      case False
      then show ?thesis unfolding run lex e by (simp add: fail)
    qed
  next
    case other
    then show ?thesis using fail' by (simp add: p yy140_step lex_args_def lex_string_best_end lex_name_def)
  qed
qed

lemma keyword_agrees:
  assumes "terminated p"
  shows "yy130 r (CHR ''.'' # p) = (case lex_keyword (CHR ''.'' # p) of Some y \<Rightarrow> Some y | None \<Rightarrow> Some (T_any, p))"
proof -
  obtain c q where p: "p = c # q" using assms by (cases p) auto
  have step: "yy130 r (CHR ''.'' # p) = (if is_alpha c then yy138 (r\<lparr>yyt1 := Some p\<rparr>) p else Some (T_any, p))"
    by (auto simp: p yy126_def byte_classes)
  show ?thesis
  proof (cases "is_alpha c")
    case True
    then have q: "terminated q" using assms terminated_next [of c q] p by simp
    let ?v = "dropWhile is_word q" and ?n = "c # takeWhile is_word q"
    let ?r = "r\<lparr>yyt1 := Some p, yy_accept := 1, yy_marker := ?v\<rparr>"
    have v: "terminated ?v" using terminated_drop [OF q] by simp
    obtain e w where e: "?v = e # w" using v by (cases ?v) auto
    have cq: "p = ?n @ e # w" using e takeWhile_dropWhile_id [of is_word q] by (simp add: p)
    have run: "yy130 r (CHR ''.'' # p) = (if hd ?v = CHR ''('' then yy140 (?r\<lparr>yyt2 := Some ?v\<rparr>) ?v
        else yy139 (?r\<lparr>yyt4 := None, yyt3 := None, yyt2 := Some ?v\<rparr>) ?v)"
      using yy138_word [OF q, of "r\<lparr>yyt1 := Some p\<rparr>" c] True step by (simp add: p Let_def)
    have lex: "lex_keyword (CHR ''.'' # p) =
        (case lex_args ?v of Some (a, u) \<Rightarrow> Some (T_keyword ?n (Some a), u) | None \<Rightarrow> Some (T_keyword ?n None, ?v))"
      using True by (simp add: p lex_keyword_def lex_name_def)
    show ?thesis
    proof (cases "e = CHR ''(''")
      case paren: True
      then have w: "terminated w" using v terminated_next [of e w] e by simp
      have "yy140 (?r\<lparr>yyt2 := Some ?v\<rparr>) (CHR ''('' # w) =
          (case lex_args (CHR ''('' # w) of Some (a, u) \<Rightarrow> Some (T_keyword ?n (Some a), u)
           | None \<Rightarrow> Some (T_keyword ?n None, CHR ''('' # w))"
        using cq e paren by (intro yy140_args [OF w]) simp_all
      then show ?thesis unfolding run lex e paren by (auto split: option.split)
    next
      case False
      then have "hd ?v \<noteq> CHR ''(''" "lex_args ?v = None" using e by (simp_all add: lex_args_def)
      moreover have "tag_text (Some p) ?v = ?n" using tag_text_ends(1) [of ?n ?v] by (simp add: p)
      ultimately show ?thesis unfolding run lex by (simp add: yy139_def keyword_token_def)
    qed
  next
    case False
    then show ?thesis using step by (simp add: p lex_keyword_def lex_name_def)
  qed
qed

lemma yyc_rule_start:
  "yyc_rule r (c # p) =
     (if is_blank c then yy127 r (c # p) else if c = LF then yy128 r (c # p) else if c = CR then yy129 r (c # p)
      else if c = CHR ''.'' then yy130 r (c # p) else if c = CHR '';'' then yy131 r (c # p)
      else if is_nonascii c then yy132 r (c # p) else yy126 r p)"
  by (auto simp: byte_classes)

declare yyc_rule.simps [simp del] yy130.simps [simp del]

lemma nonascii_other [simp]:
  "is_nonascii c \<Longrightarrow> \<not> is_blank c" "is_nonascii c \<Longrightarrow> c \<noteq> LF" "is_nonascii c \<Longrightarrow> c \<noteq> CR" "is_nonascii c \<Longrightarrow> c \<noteq> CHR ''.''"
  "is_nonascii c \<Longrightarrow> c \<noteq> CHR '';''"
  by (auto simp: byte_classes)

lemmas rule_tokens = yyc_rule_start lex_rule_def token_rules lex_rule_newline_def lex_keyword_def lex_nonascii_def yy126_def

lemma rule_agrees:
  assumes "terminated s"
  shows "yyc_rule r s = lex_rule s"
proof -
  obtain c p where s: "s = c # p" using assms by (cases s) auto
  have p: "terminated p" if "c \<noteq> NUL" using that assms terminated_next unfolding s by blast
  consider (blank) "is_blank c" | (LF) "c = LF" | (CR) "c = CR" | (dot) "c = CHR ''.''" | "c = CHR '';''"
    | (nonascii) "is_nonascii c" "\<not> is_blank c"
    | "\<not> is_blank c" "\<not> is_nonascii c" "c \<notin> {LF, CR, CHR ''.'', CHR '';''}"
    by auto
  then show ?thesis
  proof cases
    case blank
    then show ?thesis using p yy127_blanks by (cases "c = NUL") (simp_all add: s yyc_rule_start lex_rule_def lex_blank_def token_if_def)
  next
    case LF
    then have "yyc_rule r s = (if dot_ahead p then Some (T_newline, p) else Some (T_any, p))"
      using newline_starts(1) [of p] p by (simp add: s yyc_rule_start)
    then show ?thesis using LF by (simp add: s rule_tokens is_nonascii_def)
  next
    case CR
    then obtain d q where d: "p = d # q" using p by (cases p) auto
    have "yyc_rule r s = (if d = LF \<and> dot_ahead q then Some (T_newline, q) else Some (T_any, p))"
    proof (cases "d = LF")
      case True
      then have "terminated q" using p terminated_next [of d q] CR d by simp
      then show ?thesis using True CR newline_starts(2) [of q "r\<lparr>yy_accept := 0, yy_marker := p\<rparr>" p LF]
        by (simp add: s d yyc_rule_start)
    next
      case False
      then show ?thesis using CR by (simp add: s d yyc_rule_start yy126_def)
    qed
    then show ?thesis using CR by (simp add: s d rule_tokens is_nonascii_def)
  next
    case dot
    then have "yyc_rule r s = (case lex_keyword s of Some y \<Rightarrow> Some y | None \<Rightarrow> Some (T_any, p))"
      using keyword_agrees p by (simp add: s yyc_rule_start)
    then show ?thesis using dot
      by (simp add: s lex_rule_def lex_blank_def token_if_def lex_rule_newline_def lex_newline_def lex_nonascii_def is_nonascii_def
          lex_any_def split: option.split)
  next
    case nonascii
    then show ?thesis
      by (simp add: s yyc_rule_start lex_rule_def lex_blank_def token_if_def lex_rule_newline_def lex_newline_def lex_keyword_def lex_nonascii_def)
  qed (simp_all add: s rule_tokens is_nonascii_def)
qed

end
