(* ===== verification/Automaton_Agrees.thy ===== *)
theory Automaton_Agrees
  imports Automaton_Grammar
begin

text \<open>
  The condition \<open>init\<close> of the scanner's automaton: its keywords, messages and settings; and that in every
  condition automaton and grammar agree.
\<close>

unbundle bit_operations_syntax

declare lit_Cons(1) [simp del] lit_char [simp]

section \<open>Keywords\<close>

text \<open>From \<open>f\<close> the automaton reads the word \<open>w\<close>, and goes on at \<open>g\<close>.\<close>

definition spells :: "(yy_regs \<Rightarrow> lexer) \<Rightarrow> string \<Rightarrow> (yy_regs \<Rightarrow> lexer) \<Rightarrow> bool" where
  "spells f w g \<longleftrightarrow> (\<forall>r x p. terminated p \<longrightarrow>
     f r (x # p) = (case lit w p of None \<Rightarrow> yy12 r [] | Some q \<Rightarrow> g r (last (x # w) # q)))"

lemma spells_Nil: "spells f [] f"
  by (simp add: spells_def)

lemma spells_Cons:
  assumes "\<And>r x c p. f r (x # c # p) = (if c = k then g r (c # p) else yy12 r (c # p))" "k \<noteq> NUL" "spells g w h"
  shows "spells f (k # w) h"
  unfolding spells_def
proof (intro allI impI)
  fix r x p
  assume p: "terminated p"
  obtain c q where c: "p = c # q" using p by (cases p) auto
  show "f r (x # p) = (case lit (k # w) p of None \<Rightarrow> yy12 r [] | Some q \<Rightarrow> h r (last (x # k # w) # q))"
  proof (cases "c = k")
    case True
    then have "terminated q" using p assms(2) terminated_next unfolding c by blast
    then show ?thesis using assms(1,3) True by (simp add: c spells_def split: option.split)
  qed (simp add: c assms(1) yy12_any)
qed

lemma spells_run:
  "spells f w g \<Longrightarrow> terminated p \<Longrightarrow> f r (x # p) = (case lit w p of None \<Rightarrow> yy12 r [] | Some q \<Rightarrow> g r (last (x # w) # q))"
  by (simp add: spells_def)

lemma terminated_lit: "lit w p = Some q \<Longrightarrow> terminated p \<Longrightarrow> NUL \<notin> set w \<Longrightarrow> terminated q"
proof -
  assume h: "lit w p = Some q" "terminated p" "NUL \<notin> set w"
  then have p: "p = w @ q" by (auto simp: lit_def prefix_def split: if_splits)
  show "terminated q"
  proof (cases "q = []")
    case True
    then have "w \<noteq> []" "last w = NUL" using h(2) p by (auto simp: terminated_def)
    then show ?thesis using h(3) last_in_set [of w] by simp
  qed (use h(2) p in \<open>simp add: terminated_def\<close>)
qed

lemma spells_words:
  "spells yy11 ''ondition'' yy85" "spells yy21 ''d_condit'' yy91" "spells yy22 ''r'' yy29" "spells yy38 ''r'' yy46"
  "spells yy14 ''nfo'' yy31" "spells yy15 ''og'' yy31" "spells yy16 ''et'' yy26" "spells yy18 ''t'' yy26"
  "spells yy17 ''arn'' yy41" "spells yy50 ''ng'' yy71"
proof -
  have 30: "yy30 r (x # c # p) = (if c = CHR ''o'' then yy31 r (c # p) else yy12 r (c # p))" for r x c p by simp
  show "spells yy11 ''ondition'' yy85"
    by (intro spells_Cons [OF yy11.simps(1)] spells_Cons [OF yy20.simps(1)] spells_Cons [OF yy27.simps(1)] spells_Cons [OF yy34.simps(1)]
        spells_Cons [OF yy43.simps(1)] spells_Cons [OF yy52.simps(1)] spells_Cons [OF yy61.simps(1)] spells_Cons [OF yy74.simps(1)]
        spells_Nil) simp_all
  show "spells yy21 ''d_condit'' yy91"
    by (intro spells_Cons [OF yy21.simps(1)] spells_Cons [OF yy28.simps(1)] spells_Cons [OF yy35.simps(1)] spells_Cons [OF yy44.simps(1)]
        spells_Cons [OF yy53.simps(1)] spells_Cons [OF yy62.simps(1)] spells_Cons [OF yy75.simps(1)] spells_Cons [OF yy86.simps(1)]
        spells_Nil) simp_all
  show "spells yy22 ''r'' yy29" "spells yy38 ''r'' yy46"
    by (intro spells_Cons [OF yy22.simps(1)] spells_Cons [OF yy38.simps(1)] spells_Nil; simp)+
  show "spells yy14 ''nfo'' yy31" "spells yy15 ''og'' yy31"
    by (intro spells_Cons [OF yy14.simps(1)] spells_Cons [OF yy23.simps(1)] spells_Cons [OF 30] spells_Cons [OF yy15.simps(1)]
        spells_Cons [OF yy24.simps(1)] spells_Nil; simp)+
  show "spells yy16 ''et'' yy26" "spells yy18 ''t'' yy26"
    by (intro spells_Cons [OF yy16.simps(1)] spells_Cons [OF yy18.simps(1)] spells_Nil; simp)+
  show "spells yy17 ''arn'' yy41" "spells yy50 ''ng'' yy71"
    by (intro spells_Cons [OF yy17.simps(1)] spells_Cons [OF yy25.simps(1)] spells_Cons [OF yy32.simps(1)] spells_Cons [OF yy50.simps(1)]
        spells_Cons [OF yy59.simps(1)] spells_Nil; simp)+
qed

section \<open>Messages and the ends of conditions\<close>

lemma blank_NUL: "is_blank c \<Longrightarrow> terminated (c # p) \<Longrightarrow> terminated p"
  by (rule terminated_next) (auto simp: is_blank_def)

lemma condition_steps:
  "yy90 r (x # c # p) = (if is_blank c then yy90 r (c # p) else Some (T_condition, c # p))"
  "yy85 r (x # c # p) = (if is_blank c then yy90 r (c # p) else yy12 r [])"
  by (auto simp: yy12_any is_blank_def)

declare yy90.simps [simp del] yy85.simps [simp del]

lemma yy90_blanks: "terminated p \<Longrightarrow> yy90 r (x # p) = Some (T_condition, dropWhile is_blank p)"
proof (induction p arbitrary: x)
  case (Cons c p)
  have "terminated p" if "is_blank c" using that Cons.prems by (rule blank_NUL)
  then show ?case using Cons.IH by (simp add: condition_steps)
qed simp

lemma yy85_condition:
  assumes "terminated p"
  shows "yy85 r (x # p) = (case lex_blanks p of None \<Rightarrow> yy12 r [] | Some q \<Rightarrow> Some (T_condition, q))"
proof -
  obtain c q where p: "p = c # q" using assms by (cases p) auto
  have "terminated q" if "is_blank c" using that assms unfolding p by (rule blank_NUL)
  then show ?thesis using yy90_blanks by (simp add: p condition_steps)
qed

lemma yy92_step: "yy92 r (x # c # p) = (if is_blank c then yy92 r (c # p) else if c = CHR '';'' then Some (T_end_condition, p) else yy12 r [])"
  by (auto simp: yy12_any byte_classes)

declare yy92.simps [simp del]

lemma yy92_end: "terminated p \<Longrightarrow> yy92 r (x # p) = (case set_follow p of None \<Rightarrow> yy12 r [] | Some q \<Rightarrow> Some (T_end_condition, q))"
proof (induction p arbitrary: x)
  case (Cons c p)
  have "terminated p" if "is_blank c" using that Cons.prems by (rule blank_NUL)
  then show ?case using Cons.IH by (simp add: yy92_step)
qed simp

lemma yy91_end:
  assumes "terminated p"
  shows "yy91 r (x # p) = (case lit ''ion'' p of None \<Rightarrow> yy12 r []
    | Some q \<Rightarrow> (case set_follow q of None \<Rightarrow> yy12 r [] | Some u \<Rightarrow> Some (T_end_condition, u)))"
proof -
  have t: "terminated q" if "lit ''ion'' p = Some q" for q using terminated_lit [OF that assms] by simp
  obtain a q where p: "p = a # q" using assms by (cases p) auto
  show ?thesis
  proof (cases "a = CHR ''i''")
    case True
    then obtain b u where q: "q = b # u" using assms p by (cases q) auto
    show ?thesis
    proof (cases "b = CHR ''o''")
      case o: True
      then obtain c v where u: "u = c # v" using assms p q True by (cases u) auto
      show ?thesis using True o t yy92_end by (cases "c = CHR ''n''") (simp_all add: p q u yy12_any)
    qed (use True in \<open>simp add: p q yy12_any\<close>)
  qed (simp add: p yy12_any)
qed

text \<open>What is behind the word of a message.\<close>

definition message_text :: "(string \<Rightarrow> token) \<Rightarrow> yy_regs \<Rightarrow> string \<Rightarrow> (token \<times> string) option" where
  "message_text mk r p =
     (case Option.bind (lex_blanks p) (lex_string (lit '';'')) of None \<Rightarrow> Some (T_any, yy_marker r) | Some (m, q) \<Rightarrow> Some (mk m, q))"

lemma yy12_0: "yy_accept r = 0 \<Longrightarrow> yy12 r data = Some (T_any, yy_marker r)"
  by (simp add: yy12_def yy3_def)

lemma message_token_string:
  "yyt1 r = Some (DQUOTE # t @ DQUOTE # CHR '';'' # q) \<Longrightarrow> message_token mk r q = mk t"
  by (simp add: message_token_def unquoted_def ptr_diff_def)

lemma message_loop:
  assumes "yy_accept r = 0" "yyt1 r = Some (DQUOTE # p)"
    "res = (case best_end (lit '';'') False p of None \<Rightarrow> yy12 r [] | Some (t, q) \<Rightarrow> message_end mk r q)"
  shows "res = (case lex_string (lit '';'') (DQUOTE # p) of None \<Rightarrow> Some (T_any, yy_marker r) | Some (m, q) \<Rightarrow> Some (mk m, q))"
proof (cases "best_end (lit '';'') False p")
  case None
  then show ?thesis using assms by (simp add: lex_string_best_end yy12_0)
next
  case (Some e)
  obtain t q where e: "e = (t, q)" by (cases e)
  then obtain q' where q: "q = CHR '';'' # q'" "p = t @ DQUOTE # CHR '';'' # q'" using closed_string Some by blast
  then have "message_token mk r q' = mk t" using assms(2) by (intro message_token_string) simp
  then show ?thesis using assms(3) Some e q by (simp add: lex_string_best_end)
qed

lemma message_steps:
  "yy37 r (c # p) = (if is_blank c then yy36 r (c # p) else if c = DQUOTE then yy45 (r\<lparr>yyt1 := Some (c # p)\<rparr>) (c # p) else yy12 r [])"
  "yy40 r (c # p) = (if is_blank c then yy39 r (c # p) else if c = DQUOTE then yy47 (r\<lparr>yyt1 := Some (c # p)\<rparr>) (c # p) else yy12 r [])"
  "yy49 r (c # p) = (if is_blank c then yy48 r (c # p) else if c = DQUOTE then yy58 (r\<lparr>yyt1 := Some (c # p)\<rparr>) (c # p) else yy12 r [])"
  by (auto simp: yy12_any byte_classes)

declare yy37.simps [simp del] yy40.simps [simp del] yy49.simps [simp del]

lemma message_blanks:
  fixes again further inside :: "yy_regs \<Rightarrow> lexer"
  assumes step: "\<And>r c p. again r (c # p) = (if is_blank c then further r (c # p)
      else if c = DQUOTE then inside (r\<lparr>yyt1 := Some (c # p)\<rparr>) (c # p) else yy12 r [])"
    and further: "\<And>r x c p. further r (x # c # p) = again r (c # p)"
    and inside: "\<And>r x p. terminated p \<Longrightarrow> inside r (x # p) =
      (case best_end (lit '';'') False p of None \<Rightarrow> yy12 r [] | Some (t, q) \<Rightarrow> message_end mk r q)"
    and r: "yy_accept r = 0"
  shows "terminated p \<Longrightarrow> again r p =
    (case lex_string (lit '';'') (dropWhile is_blank p) of None \<Rightarrow> Some (T_any, yy_marker r) | Some (m, q) \<Rightarrow> Some (mk m, q))"
proof (induction p)
  case (Cons c p)
  have p: "terminated p" if "c \<noteq> NUL" using that Cons.prems terminated_next by blast
  consider (blank) "is_blank c" | (quote) "c = DQUOTE" | (other) "\<not> is_blank c" "c \<noteq> DQUOTE" by blast
  then show ?case
  proof cases
    case blank
    then have t: "terminated p" using Cons.prems by (rule blank_NUL)
    then obtain d q where "p = d # q" by (cases p) auto
    then show ?thesis using Cons.IH [OF t] blank by (simp add: step further)
  next
    case quote
    then have "terminated p" using p by simp
    from inside [OF this, of "r\<lparr>yyt1 := Some (c # p)\<rparr>" c]
    have "inside (r\<lparr>yyt1 := Some (c # p)\<rparr>) (c # p) = (case lex_string (lit '';'') (DQUOTE # p) of
        None \<Rightarrow> Some (T_any, yy_marker (r\<lparr>yyt1 := Some (c # p)\<rparr>)) | Some (m, q) \<Rightarrow> Some (mk m, q))"
      by (rule message_loop [rotated 2]) (simp_all add: r quote)
    moreover have "yy_marker (r\<lparr>yyt1 := Some (c # p)\<rparr>) = yy_marker r" by simp
    ultimately show ?thesis using quote by (simp only: step semicolon_no_blank if_False if_True) (simp add: quote)
  next
    case other
    then show ?thesis by (simp add: step lex_string_best_end yy12_0 [OF r])
  qed
qed simp

lemma message_text_cases:
  assumes "yy_accept r = 0" "terminated p"
    "again r p = (case lex_string (lit '';'') (dropWhile is_blank p) of None \<Rightarrow> Some (T_any, yy_marker r) | Some (m, q) \<Rightarrow> Some (mk m, q))"
  shows "(if hd p = DQUOTE then yy12 r [] else again r p) = message_text mk r p"
proof -
  obtain c q where p: "p = c # q" using assms(2) by (cases p) auto
  show ?thesis
    using assms(1,3) by (cases "is_blank c") (auto simp: p message_text_def yy12_0 lex_string_best_end)
qed

lemma message_labels:
  assumes "yy_accept r = 0" "terminated p"
  shows "(if hd p = DQUOTE then yy12 r [] else yy37 r p) = message_text T_error r p"
    and "(if hd p = DQUOTE then yy12 r [] else yy40 r p) = message_text T_info r p"
    and "(if hd p = DQUOTE then yy12 r [] else yy49 r p) = message_text T_warning r p"
proof -
  show "(if hd p = DQUOTE then yy12 r [] else yy37 r p) = message_text T_error r p"
    by (rule message_text_cases [OF assms], rule message_blanks [OF message_steps(1) _ error_loop.inside_ends assms]) simp
  show "(if hd p = DQUOTE then yy12 r [] else yy40 r p) = message_text T_info r p"
    by (rule message_text_cases [OF assms], rule message_blanks [OF message_steps(2) _ info_loop.inside_ends assms]) simp
  show "(if hd p = DQUOTE then yy12 r [] else yy49 r p) = message_text T_warning r p"
    by (rule message_text_cases [OF assms], rule message_blanks [OF message_steps(3) _ warning_loop.inside_ends assms]) simp
qed

lemma message_text_other: "\<not> is_blank c \<Longrightarrow> message_text mk r (c # p) = Some (T_any, yy_marker r)"
  by (simp add: message_text_def)

lemma message_words:
  assumes "yy_accept r = 0" "terminated p"
  shows "yy31 r (x # p) = message_text T_info r p" "yy46 r (x # p) = message_text T_error r p" "yy71 r (x # p) = message_text T_warning r p"
proof -
  obtain c q where p: "p = c # q" using assms(2) by (cases p) auto
  show "yy31 r (x # p) = message_text T_info r p" "yy46 r (x # p) = message_text T_error r p" "yy71 r (x # p) = message_text T_warning r p"
    using message_labels [OF assms] by (simp_all add: p yy12_any split: if_splits)
qed

lemma message_long_words:
  assumes "yy_accept r = 0" "terminated p"
  shows "yy29 r (x # p) = message_text T_error r (case lit ''or'' p of Some q \<Rightarrow> q | None \<Rightarrow> p)"
    and "yy41 r (x # p) = message_text T_warning r (case lit ''ing'' p of Some q \<Rightarrow> q | None \<Rightarrow> p)"
proof -
  obtain c q where p: "p = c # q" using assms(2) by (cases p) auto
  have q: "terminated q" if "c \<noteq> NUL" using that assms(2) terminated_next unfolding p by blast
  have t: "terminated u" if "lit w q = Some u" "c \<noteq> NUL" "NUL \<notin> set w" for w u using terminated_lit q that by blast
  show "yy29 r (x # p) = message_text T_error r (case lit ''or'' p of Some q \<Rightarrow> q | None \<Rightarrow> p)"
  proof (cases "c = CHR ''o''")
    case True
    then have "yy29 r (x # p) = (case lit ''r'' q of None \<Rightarrow> yy12 r [] | Some u \<Rightarrow> yy46 r (last (c # ''r'') # u))"
      using spells_run [OF spells_words(4) q] by (simp add: p split: option.split)
    then show ?thesis using True t message_words(2) [OF assms(1)]
      by (auto simp: p message_text_other yy12_0 [OF assms(1)] is_blank_def split: option.splits)
  next
    case False
    then show ?thesis using message_labels(1) [OF assms] by (auto simp: p yy12_any split: if_splits)
  qed
  show "yy41 r (x # p) = message_text T_warning r (case lit ''ing'' p of Some q \<Rightarrow> q | None \<Rightarrow> p)"
  proof (cases "c = CHR ''i''")
    case True
    then have "yy41 r (x # p) = (case lit ''ng'' q of None \<Rightarrow> yy12 r [] | Some u \<Rightarrow> yy71 r (last (c # ''ng'') # u))"
      using spells_run [OF spells_words(10) q] by (simp add: p split: option.split)
    then show ?thesis using True t message_words(3) [OF assms(1)]
      by (auto simp: p message_text_other yy12_0 [OF assms(1)] is_blank_def split: option.splits)
  next
    case False
    then show ?thesis using message_labels(3) [OF assms] by (auto simp: p yy12_any split: if_splits)
  qed
qed

section \<open>Settings\<close>

definition or_any :: "yy_regs \<Rightarrow> (token \<times> string) option \<Rightarrow> (token \<times> string) option" where
  "or_any r res = (case res of None \<Rightarrow> Some (T_any, yy_marker r) | Some y \<Rightarrow> Some y)"

lemma or_any_simps [simp]: "or_any r (Some y) = Some y" "or_any r None = Some (T_any, yy_marker r)"
  by (simp_all add: or_any_def)

lemma or_any_tags [simp]: "or_any (r\<lparr>yyt1 := t\<rparr>) = or_any r" "or_any (r\<lparr>yyt2 := t\<rparr>) = or_any r"
  by (rule ext, simp add: or_any_def split: option.split)+

definition set_value :: "string \<Rightarrow> string \<Rightarrow> (token \<times> string) option" where
  "set_value key p = map_option (\<lambda>(v, q). (T_set key v, q)) (lex_string set_follow p)"

definition set_rest :: "string \<Rightarrow> (token \<times> string) option" where
  "set_rest p = Option.bind (lex_name p) (\<lambda>(key, p'). Option.bind (lex_blanks p') (set_value key))"

lemma set_label_steps:
  "yy51 r (x # c # p) = (if is_blank c then yy51 r (c # p) else if c = DQUOTE then yy60 (r\<lparr>yyt3 := Some (c # p)\<rparr>) (c # p) else yy12 r [])"
  "yy42 r (x # c # p) = (if is_word c then yy42 r (c # p) else if is_blank c then yy51 (r\<lparr>yyt2 := Some (c # p)\<rparr>) (c # p) else yy12 r [])"
  "yy33 r (x # c # p) = (if is_blank c then yy33 r (c # p) else if is_alpha c then yy42 (r\<lparr>yyt1 := Some (c # p)\<rparr>) (c # p) else yy12 r [])"
  "yy26 r (x # c # p) = (if is_blank c then yy33 r (c # p) else yy12 r [])"
  by (auto simp: yy12_any byte_classes)

declare yy51.simps [simp del] yy42.simps [simp del] yy33.simps [simp del] yy26.simps [simp del]

lemma set_token_string:
  assumes "yyt1 r = Some t1" "yyt2 r = Some t2" "yyt3 r = Some (DQUOTE # v @ DQUOTE # u)"
  shows "set_token (r\<lparr>yyt4 := Some u\<rparr>) = T_set (tag_text (Some t1) t2) v"
  using assms by (simp add: set_token_def tag_text_def ptr_diff_def unquoted_def)

lemma yy51_value:
  assumes r: "yy_accept r = 0" "yyt1 r = Some t1" "yyt2 r = Some t2"
  shows "terminated p \<Longrightarrow> yy51 r (x # p) = or_any r (set_value (tag_text (Some t1) t2) (dropWhile is_blank p))"
proof (induction p arbitrary: x)
  case (Cons c p)
  consider (blank) "is_blank c" | (quote) "c = DQUOTE" | (other) "\<not> is_blank c" "c \<noteq> DQUOTE" by blast
  then show ?case
  proof cases
    case blank
    then have "terminated p" using Cons.prems by (rule blank_NUL)
    then show ?thesis using Cons.IH blank by (simp add: set_label_steps)
  next
    case quote
    then have p: "terminated p" using Cons.prems terminated_next [of c p] by simp
    let ?r = "r\<lparr>yyt3 := Some (c # p)\<rparr>"
    have run: "yy51 r (x # c # p) = (case best_end set_follow False p of None \<Rightarrow> yy12 ?r [] | Some (t, q) \<Rightarrow> set_end ?r q)"
      using set_loop.inside_ends [OF p, of ?r c] quote by (simp add: set_label_steps)
    show ?thesis
    proof (cases "best_end set_follow False p")
      case None
      then show ?thesis using run quote r(1) by (simp add: set_value_def lex_string_best_end yy12_0)
    next
      case (Some e)
      obtain v u where e: "e = (v, u)" by (cases e)
      then have "p = v @ DQUOTE # u" using best_end_split Some by blast
      then have "set_token (?r\<lparr>yyt4 := Some u\<rparr>) = T_set (tag_text (Some t1) t2) v"
        using r(2,3) quote by (intro set_token_string) simp_all
      then show ?thesis using run Some e quote by (simp add: set_value_def lex_string_best_end)
    qed
  next
    case other
    then show ?thesis by (simp add: set_label_steps set_value_def lex_string_best_end yy12_0 [OF r(1)])
  qed
qed simp

lemma yy42_name:
  assumes r: "yy_accept r = 0" "yyt1 r = Some t1"
  shows "terminated p \<Longrightarrow> yy42 r (x # p) =
    (let q = dropWhile is_word p in or_any r (Option.bind (lex_blanks q) (set_value (tag_text (Some t1) q))))"
proof (induction p arbitrary: x)
  case (Cons c p)
  show ?case
  proof (cases "is_word c")
    case True
    then have "terminated p" using Cons.prems terminated_next [of c p] by (cases "c = NUL") simp_all
    then show ?thesis using True Cons.IH by (simp add: set_label_steps Let_def)
  next
    case False
    have "terminated p" if "is_blank c" using that Cons.prems by (rule blank_NUL)
    then show ?thesis using False yy51_value [of "r\<lparr>yyt2 := Some (c # p)\<rparr>" t1 "c # p" p c] r
      by (simp add: set_label_steps Let_def yy12_0)
  qed
qed simp

lemma yy33_set:
  assumes r: "yy_accept r = 0"
  shows "terminated p \<Longrightarrow> yy33 r (x # p) = or_any r (set_rest (dropWhile is_blank p))"
proof (induction p arbitrary: x)
  case (Cons c p)
  consider (blank) "is_blank c" | (alpha) "is_alpha c" | (other) "\<not> is_blank c" "\<not> is_alpha c" by blast
  then show ?case
  proof cases
    case blank
    then have "terminated p" using Cons.prems by (rule blank_NUL)
    then show ?thesis using Cons.IH blank by (simp add: set_label_steps)
  next
    case alpha
    then have "terminated p" using Cons.prems terminated_next [of c p] by simp
    then show ?thesis using alpha yy42_name [of "r\<lparr>yyt1 := Some (c # p)\<rparr>" "c # p" p c] r
      by (simp add: set_label_steps set_rest_def lex_name_def Let_def)
  next
    case other
    then show ?thesis by (simp add: set_label_steps set_rest_def lex_name_def yy12_0 [OF r])
  qed
qed simp

lemma yy26_set:
  assumes "yy_accept r = 0" "terminated p"
  shows "yy26 r (x # p) = or_any r (Option.bind (lex_blanks p) set_rest)"
proof -
  obtain c q where p: "p = c # q" using assms(2) by (cases p) auto
  have "terminated q" if "is_blank c" using that assms(2) unfolding p by (rule blank_NUL)
  then show ?thesis using yy33_set [OF assms(1)] by (simp add: p set_label_steps yy12_0 [OF assms(1)])
qed

lemma lex_set_rest:
  "lex_set (CHR ''s'' # p) = Option.bind (lit ''et'' p) (\<lambda>q. Option.bind (lex_blanks q) set_rest)"
  "lex_set (CHR ''@'' # p) = Option.bind (lit ''set'' p) (\<lambda>q. Option.bind (lex_blanks q) set_rest)"
proof -
  have "Option.bind (lex_string set_follow s) (\<lambda>(v, r). Some (T_set key v, r)) = set_value key s" for key s
    by (cases "lex_string set_follow s") (auto simp: set_value_def)
  then show "lex_set (CHR ''s'' # p) = Option.bind (lit ''et'' p) (\<lambda>q. Option.bind (lex_blanks q) set_rest)"
    "lex_set (CHR ''@'' # p) = Option.bind (lit ''set'' p) (\<lambda>q. Option.bind (lex_blanks q) set_rest)"
    by (simp_all add: lex_set_def set_rest_def [abs_def] set_follow_def [abs_def])
qed

section \<open>Agreement\<close>

lemma yy4_blanks: "terminated p \<Longrightarrow> yy4 r (x # p) = Some (T_blank, dropWhile is_blank p)"
  by (induction p arbitrary: x) (auto split: if_splits)

lemma yy7_comment: "terminated p \<Longrightarrow> yy7 r (x # p) = Some (T_comment, dropWhile (\<lambda>c. \<not> line_end c) p)"
proof (induction p arbitrary: x)
  case (Cons c p)
  have "terminated p" if "\<not> line_end c" using that Cons.prems terminated_next [of c p] by (simp add: line_end_def)
  then show ?case using Cons.IH by simp
qed simp

lemma yyc_init_start:
  "yyc_init r (c # p) =
     (if is_blank c then yy4 r (c # p) else if c = NUL then yy1 r (c # p) else if c = LF then yy5 r (c # p)
      else if c = CR then yy6 r (c # p) else if c = CHR '';'' \<or> c = CHR ''#'' then yy7 r (c # p)
      else if c = CHR ''@'' then yy8 r (c # p) else if c = CHR ''s'' then yy9 r (c # p)
      else if is_nonascii c then yy10 r (c # p) else yy2 r (c # p))"
  by (simp del: yy4.simps yy7.simps yy9.simps yy8.simps, auto simp: byte_classes)

declare yyc_init.simps [simp del] yy4.simps [simp del] yy7.simps [simp del]

lemma lit_append: "lit (v @ w) s = Option.bind (lit v s) (lit w)"
  by (induction v arbitrary: s) (auto simp: lit_def prefix_def)

definition message_rest :: "(string \<Rightarrow> token) \<Rightarrow> string \<Rightarrow> (token \<times> string) option" where
  "message_rest mk p = map_option (\<lambda>(m, q). (mk m, q)) (Option.bind (lex_blanks p) (lex_string (lit '';'')))"

lemma message_text_rest: "message_text mk r p = or_any r (message_rest mk p)"
  by (auto simp: message_text_def message_rest_def or_any_def split: option.split)

lemma lex_message_rest: "lex_message (CHR ''@'' # w) mk (CHR ''@'' # p) = Option.bind (lit w p) (message_rest mk)"
proof -
  have "Option.bind (lex_string f s) (\<lambda>(m, r). Some (mk m, r)) = map_option (\<lambda>(m, r). (mk m, r)) (lex_string f s)" for f s
    by (cases "lex_string f s") auto
  then show ?thesis
    by (simp add: lex_message_def message_rest_def [abs_def] map_option_bind comp_def)
qed

lemma message_rest_other: "\<not> is_blank c \<Longrightarrow> message_rest mk (c # p) = None"
  by (simp add: message_rest_def)

lemma message_longer:
  assumes "\<not> is_blank k"
  shows "(case message_rest mk u of None \<Rightarrow> Option.bind (lit (k # w) u) (message_rest mk) | Some y \<Rightarrow> Some y) =
    message_rest mk (case lit (k # w) u of Some v \<Rightarrow> v | None \<Rightarrow> u)"
proof (cases "lit (k # w) u")
  case (Some v)
  then obtain u' where "u = k # u'" by (cases u) (auto split: if_splits)
  then show ?thesis using Some message_rest_other [OF assms] by simp
qed (simp split: option.split)

lemma lex_end_condition_rest:
  "lex_end_condition (CHR ''@'' # p) = token_if T_end_condition (Option.bind (lit ''end_condition'' p) set_follow)"
  by (simp add: lex_end_condition_def set_follow_def [abs_def])

lemma lex_init_at:
  "lex_init (CHR ''@'' # p) =
    (case try_lex [lex_set, lex_condition, lex_end_condition, lex_message ''@log'' T_info, lex_message ''@info'' T_info,
        lex_message ''@warn'' T_warning, lex_message ''@warning'' T_warning, lex_message ''@err'' T_error,
        lex_message ''@error'' T_error] (CHR ''@'' # p) of
       None \<Rightarrow> Some (T_any, p) | Some y \<Rightarrow> Some y)"
  by (simp add: lex_init_def lex_nonascii_def is_nonascii_def lex_blank_def is_blank_def lex_comment_def token_if_def lex_newline_def
      lex_any_def split: option.split)

lemmas at_rules = lex_init_at lex_set_rest lex_condition_def lex_end_condition_rest lex_message_rest token_if_def

lemma init_at_agrees:
  assumes "terminated p"
  shows "yy8 r (CHR ''@'' # p) = lex_init (CHR ''@'' # p)"
proof -
  obtain c q where p: "p = c # q" using assms by (cases p) auto
  have q: "terminated q" if "c \<noteq> NUL" using that assms terminated_next unfolding p by blast
  let ?r = "r\<lparr>yy_accept := 0, yy_marker := p\<rparr>"
  have F: "yy12 ?r data = Some (T_any, p)" for data by (simp add: yy12_0)
  have any: "or_any ?r res = (case res of None \<Rightarrow> Some (T_any, p) | Some y \<Rightarrow> Some y)" for res by (simp add: or_any_def split: option.split)
  have t: "terminated u" if "lit w q = Some u" "NUL \<notin> set w" "c \<noteq> NUL" for w u using terminated_lit q that by blast
  consider "c = CHR ''c''" | "c = CHR ''e''" | "c = CHR ''i''" | "c = CHR ''l''" | "c = CHR ''s''" | "c = CHR ''w''"
    | "c \<notin> {CHR ''c'', CHR ''e'', CHR ''i'', CHR ''l'', CHR ''s'', CHR ''w''}" by auto
  then show ?thesis
  proof cases
    case 1
    then have "yy8 r (CHR ''@'' # p) = (case lit ''ondition'' q of None \<Rightarrow> Some (T_any, p)
        | Some u \<Rightarrow> (case lex_blanks u of None \<Rightarrow> Some (T_any, p) | Some v \<Rightarrow> Some (T_condition, v)))"
      using spells_run [OF spells_words(1) q, of ?r c] t [of "''ondition''"] F yy85_condition [of _ ?r]
      by (auto simp: p split: option.splits)
    then show ?thesis using 1 by (auto simp: p at_rules split: option.splits)
  next
    case 3
    then have "yy8 r (CHR ''@'' # p) = (case lit ''nfo'' q of None \<Rightarrow> Some (T_any, p) | Some u \<Rightarrow> or_any ?r (message_rest T_info u))"
      using spells_run [OF spells_words(5) q, of ?r c] t [of "''nfo''"] F message_words(1) [of ?r]
      by (auto simp: p message_text_rest split: option.splits)
    then show ?thesis using 3 by (auto simp: p at_rules any split: option.splits)
  next
    case 4
    then have "yy8 r (CHR ''@'' # p) = (case lit ''og'' q of None \<Rightarrow> Some (T_any, p) | Some u \<Rightarrow> or_any ?r (message_rest T_info u))"
      using spells_run [OF spells_words(6) q, of ?r c] t [of "''og''"] F message_words(1) [of ?r]
      by (auto simp: p message_text_rest split: option.splits)
    then show ?thesis using 4 by (auto simp: p at_rules any split: option.splits)
  next
    case 5
    then have "yy8 r (CHR ''@'' # p) = (case lit ''et'' q of None \<Rightarrow> Some (T_any, p) | Some u \<Rightarrow> or_any ?r (Option.bind (lex_blanks u) set_rest))"
      using spells_run [OF spells_words(7) q, of ?r c] t [of "''et''"] F yy26_set [of ?r]
      by (auto simp: p split: option.splits)
    then show ?thesis using 5 by (auto simp: p at_rules any split: option.splits)
  next
    case 6
    then have "yy8 r (CHR ''@'' # p) = (case lit ''arn'' q of None \<Rightarrow> Some (T_any, p)
        | Some u \<Rightarrow> or_any ?r (message_rest T_warning (case lit ''ing'' u of Some v \<Rightarrow> v | None \<Rightarrow> u)))"
      using spells_run [OF spells_words(9) q, of ?r c] t [of "''arn''"] F message_long_words(2) [of ?r]
      by (auto simp: p message_text_rest split: option.splits)
    moreover have "lex_init (CHR ''@'' # p) = (case lit ''arn'' q of None \<Rightarrow> Some (T_any, p)
        | Some u \<Rightarrow> or_any ?r (case message_rest T_warning u of None \<Rightarrow> Option.bind (lit ''ing'' u) (message_rest T_warning) | Some y \<Rightarrow> Some y))"
      using 6 lit_append [of "''arn''" "''ing''" q] by (auto simp: p at_rules any split: option.split)
    ultimately show ?thesis by (simp add: message_longer is_blank_def split: option.split)
  next
    case 2
    show ?thesis
    proof (cases q)
      case (Cons d q')
      have q': "terminated q'" if "d \<noteq> NUL" using that q terminated_next [of d q'] 2 Cons by simp
      have t': "terminated u" if "lit w q' = Some u" "NUL \<notin> set w" "d \<noteq> NUL" for w u using terminated_lit q' that by blast
      consider (n) "d = CHR ''n''" | (r) "d = CHR ''r''" | (other) "d \<noteq> CHR ''n''" "d \<noteq> CHR ''r''" by blast
      then show ?thesis
      proof cases
        case n
        then have "yy8 r (CHR ''@'' # p) = (case lit ''d_condit'' q' of None \<Rightarrow> Some (T_any, p)
            | Some u \<Rightarrow> (case Option.bind (lit ''ion'' u) set_follow of None \<Rightarrow> Some (T_any, p) | Some v \<Rightarrow> Some (T_end_condition, v)))"
          using 2 spells_run [OF spells_words(2) q', of ?r d] t' [of "''d_condit''"] F yy91_end [of _ ?r]
          by (auto simp: p Cons split: option.splits)
        then show ?thesis using 2 n lit_append [of "''d_condit''" "''ion''" q']
          by (auto simp: p Cons at_rules split: option.splits)
      next
        case r
        then have "yy8 r (CHR ''@'' # p) = (case lit ''r'' q' of None \<Rightarrow> Some (T_any, p)
            | Some u \<Rightarrow> or_any ?r (message_rest T_error (case lit ''or'' u of Some v \<Rightarrow> v | None \<Rightarrow> u)))"
          using 2 spells_run [OF spells_words(3) q', of ?r d] t' [of "''r''"] F message_long_words(1) [of ?r]
          by (auto simp: p Cons message_text_rest split: option.splits)
        moreover have "lex_init (CHR ''@'' # p) = (case lit ''r'' q' of None \<Rightarrow> Some (T_any, p)
            | Some u \<Rightarrow> or_any ?r (case message_rest T_error u of None \<Rightarrow> Option.bind (lit ''or'' u) (message_rest T_error) | Some y \<Rightarrow> Some y))"
          using 2 r lit_append [of "''r''" "''or''" q'] by (auto simp: p Cons at_rules any split: option.split)
        ultimately show ?thesis by (simp add: message_longer is_blank_def split: option.split)
      next
        case other
        then show ?thesis using 2 F by (simp add: p Cons at_rules)
      qed
    qed (use 2 q in simp)
  next
    case 7
    then show ?thesis by (simp add: p at_rules yy3_def)
  qed
qed

lemma lex_init_s:
  "lex_init (CHR ''s'' # p) = (case lit ''p'' p of Some q \<Rightarrow> Some (T_sp, q)
    | None \<Rightarrow> (case lex_set (CHR ''s'' # p) of None \<Rightarrow> Some (T_any, p) | Some y \<Rightarrow> Some y))"
  by (simp add: lex_init_def lex_nonascii_def is_nonascii_def lex_blank_def is_blank_def lex_comment_def token_if_def lex_newline_def
      lex_any_def lex_condition_def lex_end_condition_def lex_message_def split: option.split)

lemma init_s_agrees:
  assumes "terminated p"
  shows "yy9 r (CHR ''s'' # p) = lex_init (CHR ''s'' # p)"
proof -
  obtain c q where p: "p = c # q" using assms by (cases p) auto
  have q: "terminated q" if "c \<noteq> NUL" using that assms terminated_next unfolding p by blast
  let ?r = "r\<lparr>yy_accept := 0, yy_marker := p\<rparr>"
  have F: "yy12 ?r data = Some (T_any, p)" for data by (simp add: yy12_0)
  have any: "or_any ?r res = (case res of None \<Rightarrow> Some (T_any, p) | Some y \<Rightarrow> Some y)" for res by (simp add: or_any_def split: option.split)
  have t: "terminated u" if "lit w q = Some u" "NUL \<notin> set w" "c \<noteq> NUL" for w u using terminated_lit q that by blast
  consider (e) "c = CHR ''e''" | "c = CHR ''p''" | "c \<notin> {CHR ''e'', CHR ''p''}" by auto
  then show ?thesis
  proof cases
    case e
    then have "yy9 r (CHR ''s'' # p) = (case lit ''t'' q of None \<Rightarrow> Some (T_any, p) | Some u \<Rightarrow> or_any ?r (Option.bind (lex_blanks u) set_rest))"
      using spells_run [OF spells_words(8) q, of ?r c] t [of "''t''"] F yy26_set [of ?r]
      by (auto simp: p split: option.splits)
    then show ?thesis using e by (auto simp: p lex_init_s lex_set_rest any split: option.splits)
  qed (simp_all add: p lex_init_s lex_set_rest yy3_def)
qed

declare yy8.simps [simp del] yy9.simps [simp del]

lemmas init_tokens = yyc_init_start lex_init_def lex_blank_def token_if_def lex_newline_def lex_any_def lex_nonascii_def lex_comment_def
  lex_set_def lex_condition_def lex_end_condition_def lex_message_def yy3_def

lemma init_agrees:
  assumes "terminated s"
  shows "yyc_init r s = lex_init s"
proof -
  obtain c p where s: "s = c # p" using assms by (cases s) auto
  have p: "terminated p" if "c \<noteq> NUL" using that assms terminated_next unfolding s by blast
  have ne: "c = NUL \<or> p \<noteq> []" using p by auto
  consider (at) "c = CHR ''@''" | (s) "c = CHR ''s''" | (blank) "is_blank c" | (comment) "c = CHR '';'' \<or> c = CHR ''#''"
    | (nonascii) "is_nonascii c" "\<not> is_blank c" "c \<notin> {NUL, LF, CR, CHR '';'', CHR ''#'', CHR ''@'', CHR ''s''}"
    | "c = NUL" | "c = LF" | "c = CR"
    | "\<not> is_blank c" "\<not> is_nonascii c" "c \<notin> {NUL, LF, CR, CHR '';'', CHR ''#'', CHR ''@'', CHR ''s''}"
    by (auto simp: is_nonascii_def)
  then show ?thesis
  proof cases
    case at
    then show ?thesis using init_at_agrees p by (simp add: s yyc_init_start is_blank_def)
  next
    case s
    then show ?thesis using init_s_agrees p by (simp add: \<open>s = c # p\<close> yyc_init_start is_blank_def)
  next
    case blank
    then have "\<not> is_nonascii c" "c \<noteq> NUL" by (auto simp: is_blank_def is_nonascii_def)
    then show ?thesis using blank p yy4_blanks by (simp add: s yyc_init_start lex_init_def lex_nonascii_def lex_blank_def token_if_def)
  next
    case comment
    then have "\<not> is_nonascii c" "\<not> is_blank c" "c \<notin> {NUL, LF, CR}" by (auto simp: is_blank_def is_nonascii_def)
    then show ?thesis using comment p yy7_comment
      by (simp add: s yyc_init_start lex_init_def lex_nonascii_def lex_blank_def lex_comment_def token_if_def)
  next
    case nonascii
    then show ?thesis by (simp add: s yyc_init_start lex_init_def lex_nonascii_def)
  qed (use ne in \<open>cases p; simp add: s init_tokens is_nonascii_def is_blank_def\<close>)+
qed

section \<open>The automaton implements the grammar\<close>

text \<open>\<open>atoi(t1)\<close> is given the text from the number on, and stops where the token does.\<close>

lemma c_atoi_token: "is_digit d \<Longrightarrow> c_atoi (d # takeWhile is_digit s) = c_atoi (d # s)"
proof -
  assume d: "is_digit d"
  then have "\<not> is_space d" "d \<noteq> CHR ''-''" "d \<noteq> CHR ''+''" by (auto simp: is_digit_def is_space_def)
  then have "c_sign_digits (d # takeWhile is_digit s) = c_sign_digits (d # s)" using d by (simp add: c_sign_digits_def)
  then show ?thesis by (simp add: c_atoi_def strtoimax_value_def)
qed

lemma terminated_rest: "terminated s \<Longrightarrow> lex_token c s = Some (t, rest) \<Longrightarrow> rest = [] \<or> terminated rest"
  by (drule lex_token_took) (auto simp: took_def terminated_def)

text \<open>
  C7. The generated automaton is the grammar: in each of its four conditions, on every text that ends with its
  terminator, and whatever registers the token before left behind, the automaton takes the same token as the
  longest match of the grammar, with what its tags delimit, and leaves the same rest, which is empty or again
  ends with the terminator. It never reads behind the text.
\<close>

theorem automaton_implements_grammar:
  assumes "terminated s"
  shows "yy_lex c r s = lex_token c s \<and> (\<exists>t rest. yy_lex c r s = Some (t, rest) \<and> (rest = [] \<or> terminated rest))"
proof -
  have eq: "yy_lex c r s = lex_token c s"
    using init_agrees [OF assms] cond_agrees [OF assms] cond_op_agrees [OF assms] rule_agrees [OF assms]
    by (cases c) (simp_all add: yy_lex_def)
  obtain t rest where "lex_token c s = Some (t, rest)"
    using lex_token_total [of c s] assms by (cases "lex_token c s") auto
  then show ?thesis using eq terminated_rest [OF assms] by auto
qed

text \<open>
  A keyword with an escaped quote that could have ended its argument, behind a token that left the registers
  set: the automaton notes the first end, and goes on to the second.
\<close>

theorem automaton_implements_grammar_witness:
  "yy_lex YY_rule \<lparr>yy_accept = 4, yy_marker = ''x'', yyt1 = None, yyt2 = Some ''y'', yyt3 = None, yyt4 = Some ''z'', yyt5 = None\<rparr>
      (''.value('' @ [DQUOTE] @ ''a'' @ [BACKSLASH, DQUOTE] @ '').b('' @ [DQUOTE] @ '');'' @ [NUL]) =
    Some (T_keyword ''value'' (Some ([DQUOTE] @ ''a'' @ [BACKSLASH, DQUOTE] @ '').b('' @ [DQUOTE])), '';'' @ [NUL])"
proof -
  let ?s = "''.value('' @ [DQUOTE] @ ''a'' @ [BACKSLASH, DQUOTE] @ '').b('' @ [DQUOTE] @ '');'' @ [NUL]"
  have "lex_token YY_rule ?s =
      Some (T_keyword ''value'' (Some ([DQUOTE] @ ''a'' @ [BACKSLASH, DQUOTE] @ '').b('' @ [DQUOTE])), '';'' @ [NUL])"
    by (simp add: lex_rule_def lex_blank_def is_blank_def token_if_def lex_rule_newline_def lex_newline_def lex_keyword_def
        lex_name_def lex_args_def lex_string_def line_end_def char_classes)
  moreover have "terminated ?s" by simp
  ultimately show ?thesis
    using automaton_implements_grammar [of ?s YY_rule
        "\<lparr>yy_accept = 4, yy_marker = ''x'', yyt1 = None, yyt2 = Some ''y'', yyt3 = None, yyt4 = Some ''z'', yyt5 = None\<rparr>"]
    by (simp only:)
qed

end
