(* ===== verification/Config_Keywords.thy ===== *)
theory Config_Keywords
  imports Config_Parse
begin

text \<open>
  The directives of the configuration: \<open>src/sp_config_keywords.c\<close> and the root table of
  \<open>src/sp_config.c\<close>. Every \<open>parse_\<dots>\<close> function runs the rule engine on the rest of the rule
  with a table of its own, whose entries write to its local variables or to the globals, and
  then checks the result. On an error the writes to the globals stay.
\<close>

section \<open>The frame of a directive\<close>

text \<open>
  \<open>SP_PROCESS_CONFIG_KEYWORDS\<close>: run the table on the rest of the rule with fresh locals; the
  continuation sees whether it worked.
\<close>

definition with_keywords ::
  "php \<Rightarrow> 'm ktable \<Rightarrow> sp_parsed_keyword \<Rightarrow> sp_parsed_keyword list \<Rightarrow> 'm \<Rightarrow> 'l pstate \<Rightarrow>
   ('m \<Rightarrow> 'l pstate \<Rightarrow> 'l parsed) \<Rightarrow> 'l parsed" where
  "with_keywords E table parsed_rule rest locals st k =
     ebind (sp_process_rule E table rest (fst st, locals)) (\<lambda>(st', r).
       if r = SUCCESS then k (snd st') (set_lineno (kw_lineno parsed_rule) (fst st', snd st))
       else ret ((fst st', snd st), SP_PARSER_ERROR))"

record switch =
  sw_enable :: bool
  sw_disable :: bool

definition switch_off :: switch where
  "switch_off = \<lparr>sw_enable = False, sw_disable = False\<rparr>"

definition put_local :: "('m \<Rightarrow> 'm) \<Rightarrow> 'm pstate \<Rightarrow> 'm pstate" where
  "put_local f st = (fst st, f (snd st))"

definition put_global :: "(sp_globals \<Rightarrow> sp_globals) \<Rightarrow> 'm pstate \<Rightarrow> 'm pstate" where
  "put_global f st = (f (fst st), snd st)"

definition switch_table :: "php \<Rightarrow> switch ktable" where
  "switch_table E =
     [(''enable'', parse_empty E (put_local (sw_enable_update (\<lambda>_. True)))),
      (''disable'', parse_empty E (put_local (sw_disable_update (\<lambda>_. True))))]"

text \<open>\<open>SP_SET_ENABLE_DISABLE\<close>.\<close>

definition set_enable_disable ::
  "php \<Rightarrow> sp_parsed_keyword \<Rightarrow> bool \<Rightarrow> bool \<Rightarrow> (bool \<Rightarrow> sp_globals \<Rightarrow> sp_globals) \<Rightarrow> 'l pstate \<Rightarrow> ('l pstate \<Rightarrow> 'l parsed) \<Rightarrow> 'l parsed" where
  "set_enable_disable E parsed_rule enable disable put st k =
     (if enable \<and> disable then parse_err E (''A rule can't be enabled and disabled'' @ in_file parsed_rule) st
      else k (if enable \<or> disable then put_global (put (enable \<or> \<not> disable)) st else st))"

section \<open>Directives\<close>

definition parse_enable :: "php \<Rightarrow> (bool \<Rightarrow> sp_globals \<Rightarrow> sp_globals) \<Rightarrow> 'l handler" where
  "parse_enable E put token parsed_rule rest st =
     with_keywords E (switch_table E) parsed_rule rest switch_off st (\<lambda>sw st.
       set_enable_disable E parsed_rule (sw_enable sw) (sw_disable sw) put st stop)"

definition put_session :: "(sp_config_session \<Rightarrow> sp_config_session) \<Rightarrow> 'm pstate \<Rightarrow> 'm pstate" where
  "put_session f = put_global (\<lambda>g. g\<lparr>cfg_session := f (cfg_session g)\<rparr>)"

definition session_table :: "php \<Rightarrow> unit ktable" where
  "session_table E =
     [(''encrypt'', parse_empty E (put_session (se_encrypt_update (\<lambda>_. True)))),
      (''simulation'', parse_empty E (put_session (se_simulation_update (\<lambda>_. True)))),
      (''sim'', parse_empty E (put_session (se_simulation_update (\<lambda>_. True)))),
      (''sid_min_length'', parse_ulong E (\<lambda>n. put_session (se_sid_min_length_update (\<lambda>_. n)))),
      (''sid_max_length'', parse_ulong E (\<lambda>n. put_session (se_sid_max_length_update (\<lambda>_. n))))]"

definition parse_session :: "php \<Rightarrow> 'l handler" where
  "parse_session E token parsed_rule rest st =
     with_keywords E (session_table E) parsed_rule rest () st (\<lambda>_ st.
       if se_encrypt (cfg_session (fst st)) then
         (if cfg_cookies_env_var (fst st) = None then
            parse_err E (''You're trying to use the session cookie encryption feature'' @ in_file parsed_rule @
              '' without having set the `.cookie_env_var` option in `sp.global`: please set it first'') st
          else if cfg_encryption_key (fst st) = None then
            parse_err E (''You're trying to use the session cookie encryption feature'' @ in_file parsed_rule @
              '' without having set the `.secret_key` option in `sp.global`: please set it first'') st
          else stop st)
       else stop st)"

definition put_log :: "(sp_config_log \<Rightarrow> sp_config_log) \<Rightarrow> 'm pstate \<Rightarrow> 'm pstate" where
  "put_log f = put_global (\<lambda>g. g\<lparr>cfg_log_media := f (cfg_log_media g)\<rparr>)"

definition parse_log_media :: "php \<Rightarrow> 'l handler" where
  "parse_log_media E token kw rest st =
     (let st1 = put_log (log_path_update (\<lambda>_. None)) st in
      with_arg E token kw st1 (\<lambda>value.
        let v = c_str value in
        if v = ''php'' then stop (put_log (log_type_update (\<lambda>_. SP_LOG_ZEND)) st1)
        else if v = ''syslog'' then stop (put_log (log_type_update (\<lambda>_. SP_LOG_SYSLOG)) st1)
        else if prefix ''file:'' v then
          stop (put_log (\<lambda>c. c\<lparr>log_type := SP_LOG_FILE, log_path := Some (drop 5 v)\<rparr>) st1)
        else parse_err E (''.log_media() only supports 'syslog', 'file:' or '' @ quoted ''php'' @ in_file kw @ '', got '' @ quoted v @ '' instead'') st1))"

definition parse_unserialize_noclass :: "php \<Rightarrow> 'l handler" where
  "parse_unserialize_noclass E token parsed_rule rest st =
     with_keywords E (switch_table E) parsed_rule rest switch_off st (\<lambda>sw st.
       set_enable_disable E parsed_rule (sw_enable sw) (sw_disable sw)
         (\<lambda>b g. g\<lparr>cfg_unserialize_noclass := (cfg_unserialize_noclass g)\<lparr>un_enable := b\<rparr>\<rparr>) st
         (\<lambda>st. stop (put_global (\<lambda>g. g\<lparr>cfg_unserialize_noclass := (cfg_unserialize_noclass g)
            \<lparr>un_textual_representation := Some (sp_get_textual_representation (parsed_rule # rest))\<rparr>\<rparr>) st)))"

definition put_us :: "(sp_config_unserialize \<Rightarrow> sp_config_unserialize) \<Rightarrow> 'm pstate \<Rightarrow> 'm pstate" where
  "put_us f = put_global (\<lambda>g. g\<lparr>cfg_unserialize := f (cfg_unserialize g)\<rparr>)"

definition unserialize_table :: "php \<Rightarrow> switch ktable" where
  "unserialize_table E = switch_table E @
     [(''simulation'', parse_empty E (put_us (us_simulation_update (\<lambda>_. True)))),
      (''sim'', parse_empty E (put_us (us_simulation_update (\<lambda>_. True)))),
      (''dump'', parse_str E (\<lambda>st. us_dump (cfg_unserialize (fst st))) (\<lambda>v. put_us (us_dump_update (\<lambda>_. v))))]"

definition parse_unserialize :: "php \<Rightarrow> 'l handler" where
  "parse_unserialize E token parsed_rule rest st =
     with_keywords E (unserialize_table E) parsed_rule rest switch_off st (\<lambda>sw st.
       set_enable_disable E parsed_rule (sw_enable sw) (sw_disable sw)
         (\<lambda>b g. g\<lparr>cfg_unserialize := (cfg_unserialize g)\<lparr>us_enable := b\<rparr>\<rparr>) st
         (\<lambda>st. stop (put_us (us_textual_representation_update
            (\<lambda>_. Some (sp_get_textual_representation (parsed_rule # rest)))) st)))"

record ro_locals = switch +
  rl_xchecks :: bool
  rl_no_xchecks :: bool

definition put_ro :: "(sp_config_readonly_exec \<Rightarrow> sp_config_readonly_exec) \<Rightarrow> 'm pstate \<Rightarrow> 'm pstate" where
  "put_ro f = put_global (\<lambda>g. g\<lparr>cfg_readonly_exec := f (cfg_readonly_exec g)\<rparr>)"

definition readonly_table :: "php \<Rightarrow> ro_locals ktable" where
  "readonly_table E =
     [(''enable'', parse_empty E (put_local (sw_enable_update (\<lambda>_. True)))),
      (''disable'', parse_empty E (put_local (sw_disable_update (\<lambda>_. True)))),
      (''simulation'', parse_empty E (put_ro (ro_simulation_update (\<lambda>_. True)))),
      (''sim'', parse_empty E (put_ro (ro_simulation_update (\<lambda>_. True)))),
      (''dump'', parse_str E (\<lambda>st. ro_dump (cfg_readonly_exec (fst st))) (\<lambda>v. put_ro (ro_dump_update (\<lambda>_. v)))),
      (''extended_checks'', parse_empty E (put_local (rl_xchecks_update (\<lambda>_. True)))),
      (''xchecks'', parse_empty E (put_local (rl_xchecks_update (\<lambda>_. True)))),
      (''no_extended_checks'', parse_empty E (put_local (rl_no_xchecks_update (\<lambda>_. True)))),
      (''noxchecks'', parse_empty E (put_local (rl_no_xchecks_update (\<lambda>_. True))))]"

definition parse_readonly_exec :: "php \<Rightarrow> 'l handler" where
  "parse_readonly_exec E token parsed_rule rest st =
     with_keywords E (readonly_table E) parsed_rule rest
       \<lparr>sw_enable = False, sw_disable = False, rl_xchecks = False, rl_no_xchecks = False\<rparr> st (\<lambda>l st.
       let st1 = put_ro (ro_textual_representation_update
                   (\<lambda>_. Some (sp_get_textual_representation (parsed_rule # rest)))) st
       in set_enable_disable E parsed_rule (sw_enable l) (sw_disable l)
            (\<lambda>b g. g\<lparr>cfg_readonly_exec := (cfg_readonly_exec g)\<lparr>ro_enable := b\<rparr>\<rparr>) st1
            (\<lambda>st. stop (if rl_xchecks l then put_ro (ro_extended_checks_update (\<lambda>_. True)) st
                        else if rl_no_xchecks l then put_ro (ro_extended_checks_update (\<lambda>_. False)) st
                        else st)))"

text \<open>
  \<open>parse_uint\<close> writes 32 bits: \<open>log_max_len\<close> is an \<open>int\<close>, and of the 64-bit
  \<open>max_execution_depth\<close> only the low half changes.
\<close>

definition put_log_max_len :: "nat \<Rightarrow> 'm pstate \<Rightarrow> 'm pstate" where
  "put_log_max_len n = put_global (\<lambda>g. g\<lparr>cfg_log_max_len := to_int32 (int n)\<rparr>)"

definition put_max_execution_depth :: "nat \<Rightarrow> 'm pstate \<Rightarrow> 'm pstate" where
  "put_max_execution_depth n =
     put_global (\<lambda>g. g\<lparr>cfg_max_execution_depth := (cfg_max_execution_depth g div 2 ^ 32) * 2 ^ 32 + n\<rparr>)"

definition global_table :: "php \<Rightarrow> unit ktable" where
  "global_table E =
     [(''secret_key'', parse_str E (\<lambda>st. cfg_encryption_key (fst st)) (\<lambda>v. put_global (cfg_encryption_key_update (\<lambda>_. v)))),
      (''cookie_env_var'', parse_str E (\<lambda>st. cfg_cookies_env_var (fst st)) (\<lambda>v. put_global (cfg_cookies_env_var_update (\<lambda>_. v)))),
      (''log_media'', parse_log_media E),
      (''log_max_len'', parse_uint E put_log_max_len),
      (''max_execution_depth'', parse_uint E put_max_execution_depth),
      (''server_encode'', parse_enable E (\<lambda>b. cfg_server_encode_update (\<lambda>_. b))),
      (''server_strip'', parse_enable E (\<lambda>b. cfg_server_strip_update (\<lambda>_. b)))]"

definition dummy_keys :: "string list" where
  "dummy_keys =
     [''YOU _DO_ NEED TO CHANGE THIS WITH SOME RANDOM CHARACTERS.'', ''c6a0e02b3b818f7559d5f85303d8fe44'']"

definition parse_global :: "php \<Rightarrow> 'l handler" where
  "parse_global E token parsed_rule rest st =
     with_keywords E (global_table E) parsed_rule rest () st (\<lambda>_ st.
       case cfg_encryption_key (fst st) of
         None \<Rightarrow> stop st
       | Some key \<Rightarrow>
           if length key < 10 then parse_err E (''The encryption key set'' @ in_file parsed_rule @ '' is too short. please use at least 10 bytes'') st
           else if key \<in> set dummy_keys then parse_err E (''The encryption key set'' @ in_file parsed_rule @ '' is an unchanged dummy value. please use a unique secret.'') st
           else stop st)"

definition put_eval :: "(sp_config_eval \<Rightarrow> sp_config_eval) \<Rightarrow> 'm pstate \<Rightarrow> 'm pstate" where
  "put_eval f = put_global (\<lambda>g. g\<lparr>cfg_eval := f (cfg_eval g)\<rparr>)"

definition eval_table ::
  "php \<Rightarrow> (sp_config_eval \<Rightarrow> string list) \<Rightarrow> (string list \<Rightarrow> sp_config_eval \<Rightarrow> sp_config_eval) \<Rightarrow> unit ktable" where
  "eval_table E get put =
     [(''list'', parse_list E (\<lambda>st. get (cfg_eval (fst st))) (\<lambda>l. put_eval (put l))),
      (''simulation'', parse_empty E (put_eval (ev_simulation_update (\<lambda>_. True)))),
      (''sim'', parse_empty E (put_eval (ev_simulation_update (\<lambda>_. True)))),
      (''dump'', parse_str E (\<lambda>st. ev_dump (cfg_eval (fst st))) (\<lambda>v. put_eval (ev_dump_update (\<lambda>_. v))))]"

definition parse_eval_filter_conf ::
  "php \<Rightarrow> (sp_config_eval \<Rightarrow> string list) \<Rightarrow> (string list \<Rightarrow> sp_config_eval \<Rightarrow> sp_config_eval) \<Rightarrow> 'l handler" where
  "parse_eval_filter_conf E get put token parsed_rule rest st =
     with_keywords E (eval_table E get put) parsed_rule rest () st (\<lambda>_ st.
       stop (put_eval (ev_textual_representation_update
         (\<lambda>_. Some (sp_get_textual_representation (parsed_rule # rest)))) st))"

definition put_wrapper :: "(sp_config_wrapper \<Rightarrow> sp_config_wrapper) \<Rightarrow> 'm pstate \<Rightarrow> 'm pstate" where
  "put_wrapper f = put_global (\<lambda>g. g\<lparr>cfg_wrapper := f (cfg_wrapper g)\<rparr>)"

definition wrapper_table :: "php \<Rightarrow> unit ktable" where
  "wrapper_table E =
     [(''list'', parse_list E (\<lambda>st. wr_whitelist (cfg_wrapper (fst st))) (\<lambda>l. put_wrapper (wr_whitelist_update (\<lambda>_. l)))),
      (''php_list'', parse_list E (\<lambda>st. wr_php_stream_allowlist (cfg_wrapper (fst st)))
         (\<lambda>l. put_wrapper (wr_php_stream_allowlist_update (\<lambda>_. l))))]"

definition parse_wrapper_whitelist :: "php \<Rightarrow> 'l handler" where
  "parse_wrapper_whitelist E token parsed_rule rest st =
     with_keywords E (wrapper_table E) parsed_rule rest () st (\<lambda>_ st.
       stop (put_wrapper (wr_enabled_update (\<lambda>_. True)) st))"

section \<open>Cookies\<close>

record cookie_locals =
  cl_samesite :: "string option"
  cl_cookie :: sp_cookie

definition put_cookie :: "(sp_cookie \<Rightarrow> sp_cookie) \<Rightarrow> cookie_locals pstate \<Rightarrow> cookie_locals pstate" where
  "put_cookie f = put_local (\<lambda>l. l\<lparr>cl_cookie := f (cl_cookie l)\<rparr>)"

definition cookie_table :: "php \<Rightarrow> cookie_locals ktable" where
  "cookie_table E =
     [(''name'', parse_str E (\<lambda>st. ck_name (cl_cookie (snd st))) (\<lambda>v. put_cookie (ck_name_update (\<lambda>_. v)))),
      (''name_r'', parse_regexp E (\<lambda>st. ck_name_r (cl_cookie (snd st))) (\<lambda>v. put_cookie (ck_name_r_update (\<lambda>_. v)))),
      (''samesite'', parse_str E (\<lambda>st. cl_samesite (snd st)) (\<lambda>v. put_local (cl_samesite_update (\<lambda>_. v)))),
      (''encrypt'', parse_empty E (put_cookie (ck_encrypt_update (\<lambda>_. True)))),
      (''simulation'', parse_empty E (put_cookie (ck_simulation_update (\<lambda>_. True)))),
      (''sim'', parse_empty E (put_cookie (ck_simulation_update (\<lambda>_. True))))]"

definition same_cookie :: "sp_cookie \<Rightarrow> sp_cookie \<Rightarrow> bool" where
  "same_cookie entry cookie \<longleftrightarrow>
     (case (ck_name entry, ck_name cookie) of (Some a, Some b) \<Rightarrow> a = b | _ \<Rightarrow> False) \<or>
     (case (ck_name_r entry, ck_name_r cookie) of (Some a, Some b) \<Rightarrow> rx_pattern a = rx_pattern b | _ \<Rightarrow> False)"

definition override_cookie :: "sp_cookie \<Rightarrow> sp_cookie \<Rightarrow> sp_cookie" where
  "override_cookie entry cookie =
     entry\<lparr>ck_samesite := (if ck_samesite cookie \<noteq> samesite_unset then ck_samesite cookie else ck_samesite entry),
           ck_encrypt := (ck_encrypt cookie \<or> ck_encrypt entry),
           ck_simulation := (ck_simulation cookie \<or> ck_simulation entry)\<rparr>"

text \<open>The first entry with the same name or pattern takes the new settings, or the cookie is added.\<close>

fun merge_cookie :: "sp_cookie list \<Rightarrow> sp_cookie \<Rightarrow> sp_cookie list" where
  "merge_cookie [] cookie = [cookie]"
| "merge_cookie (entry # cookies) cookie =
     (if same_cookie entry cookie then override_cookie entry cookie # cookies
      else entry # merge_cookie cookies cookie)"

definition samesite_of :: "string \<Rightarrow> samesite_type option" where
  "samesite_of s =
     (if equals_ci s ''Lax'' then Some lax else if equals_ci s ''Strict'' then Some strict else None)"

definition finish_cookie :: "php \<Rightarrow> sp_parsed_keyword \<Rightarrow> cookie_locals \<Rightarrow> 'l pstate \<Rightarrow> 'l parsed" where
  "finish_cookie E parsed_rule l st =
      (let cookie = cl_cookie l; g = fst st in
       if ck_encrypt cookie \<and> cfg_cookies_env_var g = None then
         parse_err E (''You're trying to use the cookie encryption feature'' @ in_file parsed_rule @
           '' without having set the `.cookie_env_var` option in `sp.global`: please set it first'') st
       else if ck_encrypt cookie \<and> cfg_encryption_key g = None then
         parse_err E (''You're trying to use the cookie encryption feature'' @ in_file parsed_rule @
           '' without having set the `.secret_key` option in `sp.global`: please set it first'') st
       else if \<not> ck_encrypt cookie \<and> cl_samesite l = None then
         parse_err E (''You must specify a at least one action to a cookie'' @ in_file parsed_rule) st
       else if (ck_name cookie = None \<or> ck_name cookie = Some []) \<and> ck_name_r cookie = None then
         parse_err E (''You must specify a cookie name/regexp'' @ in_file parsed_rule) st
       else if ck_name cookie \<noteq> None \<and> ck_name_r cookie \<noteq> None then
         parse_err E (''name and name_r are mutually exclusive'' @ in_file parsed_rule) st
       else
         let store = (\<lambda>c. stop (put_global (\<lambda>g. g\<lparr>cfg_cookies := merge_cookie (cfg_cookies g) c\<rparr>) st)) in
         case cl_samesite l of
           None \<Rightarrow> store cookie
         | Some s \<Rightarrow>
             (case samesite_of s of
                None \<Rightarrow> parse_err E (quoted (c_str s) @ '' is an invalid value to samesite (expected Lax or Strict)'' @ in_file parsed_rule) st
              | Some ss \<Rightarrow> store (cookie\<lparr>ck_samesite := ss\<rparr>)))"

definition parse_cookie :: "php \<Rightarrow> 'l handler" where
  "parse_cookie E token parsed_rule rest st =
     with_keywords E (cookie_table E) parsed_rule rest \<lparr>cl_samesite = None, cl_cookie = zero_cookie\<rparr> st
       (finish_cookie E parsed_rule)"

end
