(* ===== verification/Config_Rules.thy ===== *)
theory Config_Rules
  imports Config_Keywords Config_Scanner
begin

text \<open>
  The directives that build rules: disabled functions, uploads and INI settings, of
  \<open>src/sp_config_keywords.c\<close>, and the root of the configuration, \<open>sp_process_config_root\<close> of
  \<open>src/sp_config.c\<close>.
\<close>

section \<open>Disabled functions\<close>

record df_locals = switch +
  dl_allow :: bool
  dl_drop :: bool
  dl_var :: "string option"
  dl_param :: "string option"
  dl_df :: sp_disabled_function

definition df_start :: df_locals where
  "df_start =
     \<lparr>sw_enable = False, sw_disable = False, dl_allow = False, dl_drop = False, dl_var = None,
      dl_param = None, dl_df = zero_disabled_function\<lparr>df_pos := -1\<rparr>\<rparr>"

definition put_df :: "(sp_disabled_function \<Rightarrow> sp_disabled_function) \<Rightarrow> df_locals pstate \<Rightarrow> df_locals pstate" where
  "put_df f = put_local (\<lambda>l. l\<lparr>dl_df := f (dl_df l)\<rparr>)"

definition df_str ::
  "php \<Rightarrow> (sp_disabled_function \<Rightarrow> string option) \<Rightarrow>
   ((string option \<Rightarrow> string option) \<Rightarrow> sp_disabled_function \<Rightarrow> sp_disabled_function) \<Rightarrow> df_locals handler" where
  "df_str E get upd = parse_str E (\<lambda>st. get (dl_df (snd st))) (\<lambda>v. put_df (upd (\<lambda>_. v)))"

definition df_rx ::
  "php \<Rightarrow> (sp_disabled_function \<Rightarrow> sp_regexp option) \<Rightarrow>
   ((sp_regexp option \<Rightarrow> sp_regexp option) \<Rightarrow> sp_disabled_function \<Rightarrow> sp_disabled_function) \<Rightarrow> df_locals handler" where
  "df_rx E get upd = parse_regexp E (\<lambda>st. get (dl_df (snd st))) (\<lambda>v. put_df (upd (\<lambda>_. v)))"

definition df_table_keywords :: "php \<Rightarrow> df_locals ktable" where
  "df_table_keywords E =
     [(''enable'', parse_empty E (put_local (sw_enable_update (\<lambda>_. True)))),
      (''disable'', parse_empty E (put_local (sw_disable_update (\<lambda>_. True)))),
      (''alias'', df_str E df_alias df_alias_update),
      (''simulation'', parse_empty E (put_df (df_simulation_update (\<lambda>_. True)))),
      (''sim'', parse_empty E (put_df (df_simulation_update (\<lambda>_. True)))),
      (''filename'', df_str E df_filename df_filename_update),
      (''filename_r'', df_rx E df_r_filename df_r_filename_update),
      (''function'', df_str E df_function df_function_update),
      (''function_r'', df_rx E df_r_function df_r_function_update),
      (''dump'', df_str E df_dump df_dump_update),
      (''allow'', parse_empty E (put_local (dl_allow_update (\<lambda>_. True)))),
      (''drop'', parse_empty E (put_local (dl_drop_update (\<lambda>_. True)))),
      (''hash'', df_str E df_hash df_hash_update),
      (''param'', parse_str E (\<lambda>st. dl_param (snd st)) (\<lambda>v. put_local (dl_param_update (\<lambda>_. v)))),
      (''value_r'', df_rx E df_r_value df_r_value_update),
      (''value'', df_str E df_value df_value_update),
      (''key'', df_str E df_key df_key_update),
      (''key_r'', df_rx E df_r_key df_r_key_update),
      (''param_r'', df_rx E df_r_param df_r_param_update),
      (''param_type'', parse_php_type E (\<lambda>ty. put_df (df_param_type_update (\<lambda>_. ty)))),
      (''ret'', df_str E df_ret df_ret_update),
      (''cidr'', parse_cidr E (\<lambda>st. df_cidr (dl_df (snd st))) (\<lambda>v. put_df (df_cidr_update (\<lambda>_. v)))),
      (''ret_r'', df_rx E df_r_ret df_r_ret_update),
      (''ret_type'', parse_php_type E (\<lambda>ty. put_df (df_ret_type_update (\<lambda>_. ty)))),
      (''var'', parse_str E (\<lambda>st. dl_var (snd st)) (\<lambda>v. put_local (dl_var_update (\<lambda>_. v)))),
      (''pos'', parse_int E (\<lambda>n. put_df (df_pos_update (\<lambda>_. n)))),
      (''line'', parse_uint E (\<lambda>n. put_df (df_line_update (\<lambda>_. n))))]"

definition has_ret :: "sp_disabled_function \<Rightarrow> bool" where
  "has_ret df \<longleftrightarrow> df_r_ret df \<noteq> None \<or> df_ret df \<noteq> None \<or> df_ret_type df \<noteq> SP_PHP_TYPE_UNDEF"

definition has_value :: "sp_disabled_function \<Rightarrow> bool" where
  "has_value df \<longleftrightarrow> df_r_value df \<noteq> None \<or> df_value df \<noteq> None"

definition has_key :: "sp_disabled_function \<Rightarrow> bool" where
  "has_key df \<longleftrightarrow> df_r_key df \<noteq> None \<or> df_key df \<noteq> None"

text \<open>The \<open>MUTUALLY_EXCLUSIVE\<close> checks: the pairs given together, in the order of the source.\<close>

definition exclusive_pairs :: "df_locals \<Rightarrow> (bool \<times> string \<times> string) list" where
  "exclusive_pairs l =
     (let df = dl_df l; param = dl_param l; var = dl_var l in
      [(df_value df \<noteq> None \<and> df_r_value df \<noteq> None, ''value'', ''value_r''),
       (df_r_function df \<noteq> None \<and> df_function df \<noteq> None, ''function'', ''function_r''),
       (df_filename df \<noteq> None \<and> df_r_filename df \<noteq> None, ''filename'', ''filename_r''),
       (df_ret df \<noteq> None \<and> df_r_ret df \<noteq> None, ''ret'', ''ret_r''),
       (df_key df \<noteq> None \<and> df_r_key df \<noteq> None, ''key'', ''key_r''),
       (df_pos df \<ge> 0 \<and> param \<noteq> None, ''pos'', ''param''),
       (df_pos df \<ge> 0 \<and> df_r_param df \<noteq> None, ''pos'', ''param_r''),
       (param \<noteq> None \<and> df_r_param df \<noteq> None, ''param'', ''param_r''),
       (has_key df \<and> has_value df, ''key'', ''value''),
       (has_ret df \<and> (df_r_param df \<noteq> None \<or> param \<noteq> None), ''ret'', ''param''),
       (has_ret df \<and> var \<noteq> None, ''ret'', ''var''),
       (has_ret df \<and> has_value df, ''ret'', ''value'')])"

definition df_conflict :: "df_locals \<Rightarrow> (string \<times> string) option" where
  "df_conflict l = map_option snd (find fst (exclusive_pairs l))"

definition filename_absolute :: "string \<Rightarrow> bool" where
  "filename_absolute f \<longleftrightarrow> nth_c f 0 = slash \<or> prefix ''phar://'' (c_str f)"

text \<open>\<open>add_df_to_hashtable\<close>.\<close>

definition add_df_to_hashtable :: "df_table \<Rightarrow> sp_disabled_function \<Rightarrow> df_table" where
  "add_df_to_hashtable ht df =
     (let key = HStr (case df_functions_list df of f # _ \<Rightarrow> c_str f | [] \<Rightarrow> (case df_function df of Some f \<Rightarrow> f | None \<Rightarrow> []))
      in case zh_find ht key of
           None \<Rightarrow> zh_add ht key (sp_list_insert [] df)
         | Some rules \<Rightarrow> zh_update ht key (sp_list_insert rules df))"

text \<open>Where the finished rule goes.\<close>

definition add_rule :: "sp_disabled_function \<Rightarrow> sp_globals \<Rightarrow> sp_globals" where
  "add_rule df g =
     (if df_function df \<noteq> None \<or> df_functions_list df \<noteq> [] then
        (if has_ret df then g\<lparr>cfg_disabled_functions_ret := add_df_to_hashtable (cfg_disabled_functions_ret g) df\<rparr>
         else g\<lparr>cfg_disabled_functions := add_df_to_hashtable (cfg_disabled_functions g) df\<rparr>)
      else
        (if has_ret df then g\<lparr>cfg_disabled_functions_reg_ret := sp_list_insert (cfg_disabled_functions_reg_ret g) df\<rparr>
         else g\<lparr>cfg_disabled_functions_reg := sp_list_insert (cfg_disabled_functions_reg g) df\<rparr>))"

text \<open>The variable paths of a rule; a \<open>param\<close> without its dollar gets one.\<close>

definition param_path :: "string \<Rightarrow> string" where
  "param_path param =
     (if param \<noteq> [] \<and> hd param \<noteq> VARIABLE_TOKEN then c_str (VARIABLE_TOKEN # param) else c_str param)"

definition parse_param :: "php \<Rightarrow> sp_parsed_keyword \<Rightarrow> string option \<Rightarrow> 'l pstate \<Rightarrow> (sp_tree \<Rightarrow> 'l parsed) \<Rightarrow> 'l parsed" where
  "parse_param E parsed_rule param st k =
     (case param of
        None \<Rightarrow> k []
      | Some p \<Rightarrow>
          ebind (lift_cres (sp_parse_var (e_rx E) (param_path p))) (\<lambda>tree.
            if tree = [] then parse_err E (''Invalid value '' @ quoted (c_str p) @ '' for `param`'' @ on_line parsed_rule) st else k tree))"

definition parse_var :: "php \<Rightarrow> sp_parsed_keyword \<Rightarrow> string option \<Rightarrow> 'l pstate \<Rightarrow> (sp_tree \<Rightarrow> 'l parsed) \<Rightarrow> 'l parsed" where
  "parse_var E parsed_rule var st k =
     (case var of
        None \<Rightarrow> k []
      | Some v \<Rightarrow>
          if v = [] then parse_err E (''Empty value in `var`'' @ on_line parsed_rule) st
          else ebind (lift_cres (sp_parse_var (e_rx E) (c_str v))) (\<lambda>tree.
            if tree = [] then parse_err E (''Invalid value '' @ quoted (c_str v) @ '' for `var`'' @ on_line parsed_rule) st else k tree))"

definition print_as_echo :: "sp_disabled_function \<Rightarrow> sp_disabled_function" where
  "print_as_echo df = (if df_function df = Some ''print'' then df\<lparr>df_function := Some ''echo''\<rparr> else df)"

definition finish_df ::
  "php \<Rightarrow> sp_parsed_keyword \<Rightarrow> sp_parsed_keyword list \<Rightarrow> df_locals \<Rightarrow> 'l pstate \<Rightarrow> 'l parsed" where
  "finish_df E parsed_rule rest l st =
      (if sw_enable l \<and> sw_disable l then parse_err E (''A rule can't be enabled and disabled'' @ in_file parsed_rule) st
       else if sw_disable l then stop st
       else case df_conflict l of
         Some (str1, str2) \<Rightarrow>
           parse_err E (''Invalid configuration line for 'sp.disabled_functions': '' @ quoted (''.'' @ str1) @ '' and '' @
             quoted (''.'' @ str2) @ '' are mutually exclusive'' @ in_file parsed_rule) st
       | None \<Rightarrow>
           let df = dl_df l in
           if df_r_function df = None \<and> df_function df = None then parse_err E (''Invalid configuration line: 'sp.disabled_functions': must take a function name'' @ on_line parsed_rule) st
           else if (case df_filename df of Some f \<Rightarrow> \<not> filename_absolute f | None \<Rightarrow> False) then
             parse_err E (''Invalid configuration line: 'sp.disabled_functions': '.filename' must be an absolute path or a phar archive'' @
               on_line parsed_rule) st
           else if dl_allow l = dl_drop l then 
             parse_err E (''Invalid configuration line: 'sp.disabled_functions': The rule must either be a `drop` or `allow` one'' @
               on_line parsed_rule) st
           else parse_param E parsed_rule (dl_param l) st (\<lambda>param. parse_var E parsed_rule (dl_var l) st (\<lambda>var.
             let df1 = df\<lparr>df_allow := dl_allow l,
                          df_textual_representation := Some (sp_get_textual_representation (parsed_rule # rest)),
                          df_functions_list := (case df_function df of Some f \<Rightarrow> parse_functions_list (c_str f) | None \<Rightarrow> []),
                          df_param := param, df_var := var\<rparr>
             in stop (put_global (add_rule (print_as_echo df1)) st))))"

definition parse_disabled_functions :: "php \<Rightarrow> 'l handler" where
  "parse_disabled_functions E token parsed_rule rest st =
     with_keywords E (df_table_keywords E) parsed_rule rest df_start st (finish_df E parsed_rule rest)"

section \<open>Uploads\<close>

definition put_upload :: "(sp_config_upload_validation \<Rightarrow> sp_config_upload_validation) \<Rightarrow> 'm pstate \<Rightarrow> 'm pstate" where
  "put_upload f = put_global (\<lambda>g. g\<lparr>cfg_upload_validation := f (cfg_upload_validation g)\<rparr>)"

definition upload_table :: "php \<Rightarrow> switch ktable" where
  "upload_table E = switch_table E @
     [(''script'', parse_str E (\<lambda>st. up_script (cfg_upload_validation (fst st))) (\<lambda>v. put_upload (up_script_update (\<lambda>_. v)))),
      (''simulation'', parse_empty E (put_upload (up_simulation_update (\<lambda>_. True)))),
      (''sim'', parse_empty E (put_upload (up_simulation_update (\<lambda>_. True))))]"

definition parse_upload_validation :: "php \<Rightarrow> 'l handler" where
  "parse_upload_validation E token parsed_rule rest st =
     with_keywords E (upload_table E) parsed_rule rest switch_off st (\<lambda>sw st.
       set_enable_disable E parsed_rule (sw_enable sw) (sw_disable sw)
         (\<lambda>b g. g\<lparr>cfg_upload_validation := (cfg_upload_validation g)\<lparr>up_enable := b\<rparr>\<rparr>) st (\<lambda>st.
         case up_script (cfg_upload_validation (fst st)) of
           None \<Rightarrow> parse_err E (''The `script` directive is mandatory in '' @ quoted (''.'' @ token) @ on_line parsed_rule) st
         | Some s \<Rightarrow>
             if e_file_exists E (c_str s) then stop st
             else parse_err E (''The `script` ('' @ c_str s @ '') doesn't exist'' @ on_line parsed_rule) st))"

section \<open>INI settings\<close>

record ini_locals = switch +
  il_ro :: bool
  il_rw :: bool

definition put_ini :: "(sp_config_ini \<Rightarrow> sp_config_ini) \<Rightarrow> 'm pstate \<Rightarrow> 'm pstate" where
  "put_ini f = put_global (\<lambda>g. g\<lparr>cfg_ini := f (cfg_ini g)\<rparr>)"

definition ini_protection_table :: "php \<Rightarrow> ini_locals ktable" where
  "ini_protection_table E =
     [(''enable'', parse_empty E (put_local (sw_enable_update (\<lambda>_. True)))),
      (''disable'', parse_empty E (put_local (sw_disable_update (\<lambda>_. True)))),
      (''simulation'', parse_empty E (put_ini (ini_simulation_update (\<lambda>_. True)))),
      (''sim'', parse_empty E (put_ini (ini_simulation_update (\<lambda>_. True)))),
      (''policy_readonly'', parse_empty E (put_local (il_ro_update (\<lambda>_. True)))),
      (''policy_ro'', parse_empty E (put_local (il_ro_update (\<lambda>_. True)))),
      (''policy_readwrite'', parse_empty E (put_local (il_rw_update (\<lambda>_. True)))),
      (''policy_rw'', parse_empty E (put_local (il_rw_update (\<lambda>_. True)))),
      (''policy_silent_ro'', parse_empty E (put_ini (ini_policy_silent_ro_update (\<lambda>_. True)))),
      (''policy_silent_fail'', parse_empty E (put_ini (ini_policy_silent_fail_update (\<lambda>_. True)))),
      (''policy_no_log'', parse_empty E (put_ini (ini_policy_silent_fail_update (\<lambda>_. True)))),
      (''policy_drop'', parse_empty E (put_ini (ini_policy_drop_update (\<lambda>_. True))))]"

definition parse_ini_protection :: "php \<Rightarrow> 'l handler" where
  "parse_ini_protection E token parsed_rule rest st =
     with_keywords E (ini_protection_table E) parsed_rule rest
       \<lparr>sw_enable = False, sw_disable = False, il_ro = False, il_rw = False\<rparr> st (\<lambda>l st.
       set_enable_disable E parsed_rule (sw_enable l) (sw_disable l) (\<lambda>b g. g\<lparr>cfg_ini := (cfg_ini g)\<lparr>ini_enable := b\<rparr>\<rparr>) st (\<lambda>st.
         if il_ro l \<and> il_rw l then parse_err E (''rule cannot be both read-write and read-only'' @ on_line parsed_rule) st
         else
           let st1 = put_ini (ini_policy_readonly_update (\<lambda>_. il_ro l)) st in
           if ini_policy_silent_fail (cfg_ini (fst st1)) \<and> ini_policy_drop (cfg_ini (fst st1)) then
             parse_err E (''policy cannot be drop and silent at the same time'' @ on_line parsed_rule) st1
           else stop st1))"

record entry_locals =
  en_ro :: bool
  en_rw :: bool
  en_entry :: sp_ini_entry

definition put_entry :: "(sp_ini_entry \<Rightarrow> sp_ini_entry) \<Rightarrow> entry_locals pstate \<Rightarrow> entry_locals pstate" where
  "put_entry f = put_local (\<lambda>l. l\<lparr>en_entry := f (en_entry l)\<rparr>)"

definition entry_str ::
  "php \<Rightarrow> (sp_ini_entry \<Rightarrow> string option) \<Rightarrow> ((string option \<Rightarrow> string option) \<Rightarrow> sp_ini_entry \<Rightarrow> sp_ini_entry) \<Rightarrow>
   entry_locals handler" where
  "entry_str E get upd = parse_str E (\<lambda>st. get (en_entry (snd st))) (\<lambda>v. put_entry (upd (\<lambda>_. v)))"

definition ini_entry_table :: "php \<Rightarrow> entry_locals ktable" where
  "ini_entry_table E =
     [(''simulation'', parse_empty E (put_entry (ie_simulation_update (\<lambda>_. True)))),
      (''sim'', parse_empty E (put_entry (ie_simulation_update (\<lambda>_. True)))),
      (''key'', entry_str E ie_key ie_key_update),
      (''msg'', entry_str E ie_msg ie_msg_update),
      (''set'', entry_str E ie_set ie_set_update),
      (''min'', entry_str E ie_min ie_min_update),
      (''max'', entry_str E ie_max ie_max_update),
      (''regexp'', parse_regexp E (\<lambda>st. ie_regexp (en_entry (snd st))) (\<lambda>v. put_entry (ie_regexp_update (\<lambda>_. v)))),
      (''readonly'', parse_empty E (put_local (en_ro_update (\<lambda>_. True)))),
      (''ro'', parse_empty E (put_local (en_ro_update (\<lambda>_. True)))),
      (''readwrite'', parse_empty E (put_local (en_rw_update (\<lambda>_. True)))),
      (''rw'', parse_empty E (put_local (en_rw_update (\<lambda>_. True)))),
      (''drop'', parse_empty E (put_entry (ie_drop_update (\<lambda>_. True)))),
      (''allow_null'', parse_empty E (put_entry (ie_allow_null_update (\<lambda>_. True))))]"

definition finish_ini_entry :: "php \<Rightarrow> sp_parsed_keyword \<Rightarrow> entry_locals \<Rightarrow> 'l pstate \<Rightarrow> 'l parsed" where
  "finish_ini_entry E parsed_rule l st =
      (case ie_key (en_entry l) of
         None \<Rightarrow> parse_err E (''A .key() must be provided'' @ on_line parsed_rule) st
       | Some key \<Rightarrow>
           if zh_find (ini_entries (cfg_ini (fst st))) key \<noteq> None then parse_err E (''duplicate INI key '' @ quoted (c_str key) @ on_line parsed_rule) st
           else if en_ro l \<and> en_rw l then parse_err E (''rule cannot be both read-write and read-only'' @ on_line parsed_rule) st
           else
             let entry = (en_entry l)\<lparr>ie_access := of_bool (en_ro l) - of_bool (en_rw l)\<rparr>
             in stop (put_ini (\<lambda>c. c\<lparr>ini_entries := zh_add (ini_entries c) key entry\<rparr>) st))"

definition parse_ini_entry :: "php \<Rightarrow> 'l handler" where
  "parse_ini_entry E token parsed_rule rest st =
     with_keywords E (ini_entry_table E) parsed_rule rest \<lparr>en_ro = False, en_rw = False, en_entry = zero_ini_entry\<rparr> st
       (finish_ini_entry E parsed_rule)"

section \<open>The root\<close>

definition root_table :: "php \<Rightarrow> unit ktable" where
  "root_table E =
     [(''unserialize_hmac'', parse_unserialize E),
      (''unserialize_noclass'', parse_unserialize_noclass E),
      (''harden_random'', parse_enable E (\<lambda>b. cfg_random_enable_update (\<lambda>_. b))),
      (''log_media'', parse_log_media E),
      (''log_max_len'', parse_uint E put_log_max_len),
      (''disable_function'', parse_disabled_functions E),
      (''readonly_exec'', parse_readonly_exec E),
      (''global_strict'', parse_enable E (\<lambda>b. cfg_global_strict_enable_update (\<lambda>_. b))),
      (''upload_validation'', parse_upload_validation E),
      (''cookie'', parse_cookie E),
      (''global'', parse_global E),
      (''auto_cookie_secure'', parse_enable E (\<lambda>b. cfg_auto_cookie_secure_enable_update (\<lambda>_. b))),
      (''xxe_protection'', parse_enable E (\<lambda>b. cfg_xxe_protection_enable_update (\<lambda>_. b))),
      (''eval_blacklist'', parse_eval_filter_conf E ev_blacklist (\<lambda>l. ev_blacklist_update (\<lambda>_. l))),
      (''eval_whitelist'', parse_eval_filter_conf E ev_whitelist (\<lambda>l. ev_whitelist_update (\<lambda>_. l))),
      (''session'', parse_session E),
      (''sloppy_comparison'', parse_enable E (\<lambda>b. cfg_sloppy_enable_update (\<lambda>_. b))),
      (''wrappers_whitelist'', parse_wrapper_whitelist E),
      (''ini_protection'', parse_ini_protection E),
      (''ini'', parse_ini_entry E)]"

definition sp_process_config_root ::
  "php \<Rightarrow> sp_parsed_keyword list \<Rightarrow> sp_globals \<Rightarrow> (sp_globals \<times> zend_result) eff" where
  "sp_process_config_root E parsed_rule g =
     ebind (sp_process_rule E (root_table E) parsed_rule (g, ())) (\<lambda>(st, r). ret (fst st, r))"

text \<open>
  \<open>sp_parse_config\<close>: the scan hands every rule of the file to \<open>sp_process_config_root\<close>. A file
  that cannot be opened is the system's error; the globals keep the file name after a failure.
\<close>

definition sp_parse_config :: "php \<Rightarrow> config_source \<Rightarrow> string \<Rightarrow> sp_globals \<Rightarrow> (sp_globals \<times> zend_result) eff" where
  "sp_parse_config E C filename g =
     (let g1 = g\<lparr>spg_config_filename := Some filename, spg_config_lineno := 0, spg_config_parsing := True\<rparr> in
      case cs_read C filename of
        Inl errno \<Rightarrow>
          eseq (sp_log_err (sp_env E g1) ''config'' (''Could not open configuration file '' @ c_str filename @ '' : '' @ errno))
            (ret (g1\<lparr>spg_config_parsing := False\<rparr>, FAILURE))
      | Inr data \<Rightarrow>
          ebind (sp_config_scan E C data (sp_process_config_root E) filename g1) (\<lambda>(g2, r).
            let g3 = g2\<lparr>spg_config_parsing := False\<rparr> in
            ret (if r = SUCCESS then g3\<lparr>spg_config_filename := None, spg_config_lineno := 0\<rparr> else g3, r)))"

end
