(* ===== verification/Config_Wf.thy ===== *)
theory Config_Wf
  imports Config_Rules Scan_Rules
begin

text \<open>
  What a loaded configuration looks like. \<open>config_ok\<close> says it of the rules, cookies and INI
  entries in the globals; every directive of \<open>Config_Keywords\<close> and \<open>Config_Rules\<close> keeps it.
  The locale \<open>directive_table\<close> is the interface between the rule engine and the tables: from
  handlers that keep an invariant it gives that \<open>sp_process_rule\<close> does.
\<close>

section \<open>Keeping an invariant\<close>

definition keeps :: "(sp_parsed_keyword \<Rightarrow> bool) \<Rightarrow> ('l pstate \<Rightarrow> bool) \<Rightarrow> 'l handler \<Rightarrow> bool" where
  "keeps P I h \<longleftrightarrow>
     (\<forall>t kw rest st st' r. P kw \<longrightarrow> (\<forall>k\<in>set rest. P k) \<longrightarrow> I st \<longrightarrow> snd (h t kw rest st) = Done (st', r) \<longrightarrow> I st')"

locale directive_table =
  fixes E :: php
    and table :: "'l ktable"
    and I :: "'l pstate \<Rightarrow> bool"
    and P :: "sp_parsed_keyword \<Rightarrow> bool"
  assumes handlers: "(t, h) \<in> set table \<Longrightarrow> keeps P I h"
    and lineno: "I st \<Longrightarrow> I (set_lineno n st)"
begin

lemma find_keyword_in: "find_keyword tb k = Some (t, h) \<Longrightarrow> (t, h) \<in> set tb"
  by (induction tb) (auto split: if_splits)

lemma process_rule_keeps:
  assumes "\<forall>k\<in>set rule. P k" "I st" "snd (sp_process_rule E table rule st) = Done (st', r)"
  shows "I st'"
  using assms
proof (induction rule arbitrary: st)
  case (Cons kw rest)
  let ?st = "set_lineno (kw_lineno kw) st"
  have I1: "I ?st" using Cons.prems(2) by (rule lineno)
  show ?case
  proof (cases "find_keyword table (kw_kw kw)")
    case None
    then show ?thesis using Cons.prems I1 by (auto simp: Let_def eseq_Done_iff)
  next
    case (Some th)
    obtain t h where th: "th = (t, h)" by (cases th)
    have "keeps P I h" by (rule handlers [OF find_keyword_in [OF Some [unfolded th]]])
    moreover obtain st2 r2 where h: "snd (h t kw rest ?st) = Done (st2, r2)"
      using Cons.prems(3) Some th by (auto simp: Let_def ebind_Done_iff)
    ultimately have I2: "I st2" using Cons.prems(1) I1 unfolding keeps_def by (metis list.set_intros)
    show ?thesis
      using Cons.prems Cons.IH I2 h Some th
      by (cases r2) (auto simp: Let_def ebind_Done_iff)
  qed
qed simp

end

section \<open>The argument parsers\<close>

lemma parse_err_Done: "snd (parse_err E msg st) = Done (st', r) \<longleftrightarrow>
  st' = st \<and> r = SP_PARSER_ERROR \<and> snd (sp_log_err (sp_env E (fst st)) ''config'' msg) = Done ()"
  by (auto simp: parse_err_def eseq_Done_iff)

lemma keepsI:
  "(\<And>t kw rest st st' r. P kw \<Longrightarrow> \<forall>k\<in>set rest. P k \<Longrightarrow> I st \<Longrightarrow> snd (h t kw rest st) = Done (st', r) \<Longrightarrow> I st') \<Longrightarrow>
   keeps P I h"
  unfolding keeps_def by blast

lemma keepsD:
  "keeps P I h \<Longrightarrow> P kw \<Longrightarrow> \<forall>k\<in>set rest. P k \<Longrightarrow> I st \<Longrightarrow> snd (h t kw rest st) = Done (st', r) \<Longrightarrow> I st'"
  unfolding keeps_def by blast

lemma length_unescape: "length (unescape s) \<le> length s"
  by (induction s rule: unescape.induct) (auto split: list.split)

lemma sp_get_arg_string_length: "sp_get_arg_string kw = Some v \<Longrightarrow> length v \<le> kw_arglen kw"
  by (auto simp: sp_get_arg_string_def kw_arglen_def length_unescape)

lemma keeps_parse_empty:
  assumes "\<And>st. I st \<Longrightarrow> I (put st)"
  shows "keeps P I (parse_empty E put)"
  apply (rule keepsI)
  subgoal
    by (auto simp: parse_empty_def parse_err_Done success_def assms split: if_splits)
  done

lemma keeps_parse_str:
  assumes "\<And>st v kw. I st \<Longrightarrow> P kw \<Longrightarrow> length v \<le> kw_arglen kw \<Longrightarrow> I (put (Some v) st)"
  shows "keeps P I (parse_str E get put)"
  apply (rule keepsI)
  subgoal
    by (auto simp: parse_str_def no_duplicate_def with_arg_def parse_err_Done success_def
      intro: assms sp_get_arg_string_length split: if_splits option.splits)
  done

lemma keeps_parse_list:
  assumes "\<And>st l. I st \<Longrightarrow> I (put l st)"
  shows "keeps P I (parse_list E get put)"
  apply (rule keepsI)
  subgoal
    by (auto simp: parse_list_def no_duplicate_def with_arg_def parse_err_Done success_def assms split: if_splits option.splits)
  done

lemma keeps_parse_php_type:
  assumes "\<And>st ty. I st \<Longrightarrow> I (put ty st)"
  shows "keeps P I (parse_php_type E put)"
  apply (rule keepsI)
  subgoal
    by (auto simp: parse_php_type_def with_arg_def parse_err_Done success_def assms eseq_Done_iff split: option.splits)
  done

lemma keeps_parse_number:
  assumes "\<And>st n. I st \<Longrightarrow> I (put n st)"
  shows "keeps P I (parse_number E valid read put)"
  apply (rule keepsI)
  subgoal
    by (auto simp: parse_number_def with_arg_def parse_err_Done success_def Let_def assms split: option.splits if_splits)
  done

lemma keeps_parse_int: "(\<And>st n. I st \<Longrightarrow> I (put n st)) \<Longrightarrow> keeps P I (parse_int E put)"
  unfolding parse_int_def by (rule keeps_parse_number)

lemma keeps_parse_uint: "(\<And>st n. I st \<Longrightarrow> I (put n st)) \<Longrightarrow> keeps P I (parse_uint E put)"
  unfolding parse_uint_def by (rule keeps_parse_number)

lemma keeps_parse_ulong: "(\<And>st n. I st \<Longrightarrow> I (put n st)) \<Longrightarrow> keeps P I (parse_ulong E put)"
  unfolding parse_ulong_def by (rule keeps_parse_number)

lemma keeps_parse_regexp:
  assumes "\<And>st v. I st \<Longrightarrow> I (put (Some v) st)"
  shows "keeps P I (parse_regexp E get put)"
  apply (rule keepsI)
  subgoal
    by (auto simp: parse_regexp_def no_duplicate_def with_arg_def parse_err_Done success_def assms ebind_Done_iff
      split: if_splits option.splits)
  done

lemma keeps_parse_cidr:
  assumes some: "\<And>st v. I st \<Longrightarrow> (pton6_fills (e_inet E) \<Longrightarrow> wf_cidr v) \<Longrightarrow> I (put (Some v) st)" and none: "\<And>st. I st \<Longrightarrow> I (put None st)"
  shows "keeps P I (parse_cidr E get put)"
proof (rule keepsI)
  fix t kw rest st st' r
  assume I: "I st" and d: "snd (parse_cidr E get put t kw rest st) = Done (st', r)"
  consider "st' = st" | "st' = put None st"
    | net buf v where "st' = put (Some v) st"
        "snd (get_ip_and_cidr (e_inet E) (sp_env E (fst st)) net zero_cidr) = Done (buf, v, 0)"
    using d by (auto simp: parse_cidr_def no_duplicate_def with_arg_def parse_err_Done success_def ebind_Done_iff
        split: if_splits option.splits)
  then show "I st'"
  proof cases
    case 3
    then show ?thesis using get_ip_and_cidr_aux [OF 3(2)] I by (simp add: some)
  qed (simp_all add: I none)
qed

lemma keeps_parse_log_media:
  assumes "\<And>st c. I st \<Longrightarrow> I (put_log c st)"
  shows "keeps P I (parse_log_media E)"
  apply (rule keepsI)
  subgoal
    by (auto simp: parse_log_media_def Let_def with_arg_def parse_err_Done stop_def assms split: if_splits option.splits)
  done

section \<open>Invariants on globals and locals\<close>

definition both :: "(sp_globals \<Rightarrow> bool) \<Rightarrow> ('m \<Rightarrow> bool) \<Rightarrow> 'm pstate \<Rightarrow> bool" where
  "both J L st \<longleftrightarrow> J (fst st) \<and> L (snd st)"

abbreviation globally :: "(sp_globals \<Rightarrow> bool) \<Rightarrow> 'm pstate \<Rightarrow> bool" where
  "globally J \<equiv> both J (\<lambda>_. True)"

lemma keeps_with_keywords:
  assumes inner: "\<And>rule st st' r. \<forall>k\<in>set rule. P k \<Longrightarrow> both J L st \<Longrightarrow>
      snd (sp_process_rule E table rule st) = Done (st', r) \<Longrightarrow> both J L st'"
    and init: "L locals"
    and line: "\<And>g n. J g \<Longrightarrow> J (g\<lparr>spg_config_lineno := n\<rparr>)"
    and final: "\<And>t parsed_rule rest l st st' r. J (fst st) \<Longrightarrow> L l \<Longrightarrow>
      snd (k t parsed_rule rest l st) = Done (st', r) \<Longrightarrow> J (fst st')"
  shows "keeps P (globally J) (\<lambda>token parsed_rule rest st. with_keywords E table parsed_rule rest locals st (k token parsed_rule rest))"
proof (rule keepsI)
  fix t kw rest st st' r
  assume P: "\<forall>k\<in>set rest. P k" and J: "globally J st"
    and d: "snd (with_keywords E table kw rest locals st (k t kw rest)) = Done (st', r)"
  have "both J L (fst st, locals)" using J init by (simp add: both_def)
  moreover obtain g l r1 where i: "snd (sp_process_rule E table rest (fst st, locals)) = Done ((g, l), r1)"
    using d by (auto simp: with_keywords_def ebind_Done_iff)
  ultimately have "both J L (g, l)" using inner [OF P] by blast
  then have J': "J g" "L l" by (simp_all add: both_def)
  show "globally J st'"
  proof (cases "r1 = SUCCESS")
    case True
    then have "snd (k t kw rest l (set_lineno (kw_lineno kw) (g, snd st))) = Done (st', r)"
      using d i by (simp add: with_keywords_def snd_ebind)
    then have "J (fst st')" by (rule final [rotated 2]) (simp_all add: set_lineno_def line J')
    then show ?thesis by (simp add: both_def)
  next
    case False
    then show ?thesis using d i J' by (auto simp: with_keywords_def snd_ebind both_def)
  qed
qed

section \<open>Loaded configurations\<close>

text \<open>
  What \<open>rule_ok\<close> says of a loaded rule: it has exactly one of \<open>function\<close> and \<open>function_r\<close>, no
  two exclusive filters, an absolute or phar file name, well-formed variable paths and network.
\<close>

definition rule_ok :: "php \<Rightarrow> sp_disabled_function \<Rightarrow> bool" where
  "rule_ok E df \<longleftrightarrow>
     ((df_function df = None) \<noteq> (df_r_function df = None)) \<and>
     (df_value df = None \<or> df_r_value df = None) \<and> (df_filename df = None \<or> df_r_filename df = None) \<and>
     (df_ret df = None \<or> df_r_ret df = None) \<and> (df_key df = None \<or> df_r_key df = None) \<and>
     (df_pos df \<ge> 0 \<longrightarrow> df_param df = [] \<and> df_r_param df = None) \<and>
     (df_param df = [] \<or> df_r_param df = None) \<and>
     (has_key df \<longrightarrow> \<not> has_value df) \<and>
     (has_ret df \<longrightarrow> df_r_param df = None \<and> df_param df = [] \<and> df_var df = [] \<and> \<not> has_value df) \<and>
     (\<forall>f. df_filename df = Some f \<longrightarrow> filename_absolute f) \<and>
     wf_tree (e_rx E) (df_param df) \<and> wf_tree (e_rx E) (df_var df) \<and>
     (\<forall>c. df_cidr df = Some c \<longrightarrow> pton6_fills (e_inet E) \<longrightarrow> wf_cidr c)"

definition rule_key :: "sp_disabled_function \<Rightarrow> hkey" where
  "rule_key df = HStr (case df_functions_list df of f # _ \<Rightarrow> c_str f
     | [] \<Rightarrow> (case df_function df of Some f \<Rightarrow> f | None \<Rightarrow> []))"

text \<open>The tables by name: every rule is found under the key of its innermost function.\<close>

definition table_ok :: "php \<Rightarrow> bool \<Rightarrow> df_table \<Rightarrow> bool" where
  "table_ok E is_ret ht \<longleftrightarrow> zh_wf ht \<and>
     (\<forall>(k, rules)\<in>set ht. rules \<noteq> [] \<and> (\<forall>df\<in>set rules. rule_ok E df \<and> has_ret df = is_ret \<and> rule_key df = k))"

definition list_ok :: "php \<Rightarrow> bool \<Rightarrow> sp_disabled_function list \<Rightarrow> bool" where
  "list_ok E is_ret rules \<longleftrightarrow> (\<forall>df\<in>set rules. rule_ok E df \<and> has_ret df = is_ret \<and> df_function df = None)"

definition cookie_ok :: "sp_cookie \<Rightarrow> bool" where
  "cookie_ok c \<longleftrightarrow>
     (case (ck_name c, ck_name_r c) of (Some n, None) \<Rightarrow> n \<noteq> [] | (None, Some r) \<Rightarrow> True | _ \<Rightarrow> False) \<and>
     (ck_encrypt c \<or> ck_samesite c \<noteq> samesite_unset)"

definition config_ok :: "php \<Rightarrow> sp_globals \<Rightarrow> bool" where
  "config_ok E g \<longleftrightarrow>
     table_ok E False (cfg_disabled_functions g) \<and> table_ok E True (cfg_disabled_functions_ret g) \<and>
     list_ok E False (cfg_disabled_functions_reg g) \<and> list_ok E True (cfg_disabled_functions_reg_ret g) \<and>
     (\<forall>c\<in>set (cfg_cookies g). cookie_ok c \<and>
        (ck_encrypt c \<longrightarrow> cfg_encryption_key g \<noteq> None \<and> cfg_cookies_env_var g \<noteq> None)) \<and>
     zh_wf (ini_entries (cfg_ini g)) \<and>
     (\<forall>(k, e)\<in>set (ini_entries (cfg_ini g)). ie_key e = Some k \<and> ie_access e \<in> {-1, 0, 1})"

lemma rule_ok_print [simp]: "rule_ok E (print_as_echo df) = rule_ok E df"
  by (auto simp: print_as_echo_def rule_ok_def has_ret_def has_value_def has_key_def)

lemma has_ret_print [simp]: "has_ret (print_as_echo df) = has_ret df"
  by (simp add: print_as_echo_def has_ret_def)

lemma set_zh_update_subset: "set (zh_update ht k v) \<subseteq> insert (k, v) (set ht)"
  by (induction ht k v rule: zh_update.induct) auto

lemma table_ok_add:
  assumes ht: "table_ok E (has_ret df) ht" and df: "rule_ok E df"
  shows "table_ok E (has_ret df) (add_df_to_hashtable ht df)"
proof (cases "zh_find ht (rule_key df)")
  case None
  have *: "add_df_to_hashtable ht df = zh_add ht (rule_key df) [df]"
    using None by (simp add: add_df_to_hashtable_def rule_key_def Let_def)
  show ?thesis using ht df None zh_wf_add [of ht "rule_key df" "[df]"] unfolding *
    by (auto simp: table_ok_def zh_add_def split: option.splits)
next
  case (Some rules)
  have *: "add_df_to_hashtable ht df = zh_update ht (rule_key df) (rules @ [df])"
    using Some by (simp add: add_df_to_hashtable_def rule_key_def Let_def)
  have in_ht: "(rule_key df, rules) \<in> set ht" using Some by (rule zh_find_Some_in)
  show ?thesis using ht df in_ht zh_wf_update [of ht "rule_key df" "rules @ [df]"]
      set_zh_update_subset [of ht "rule_key df" "rules @ [df]"] unfolding *
    by (fastforce simp: table_ok_def)
qed

lemma config_ok_add_rule: "config_ok E g \<Longrightarrow> rule_ok E df \<Longrightarrow> config_ok E (add_rule df g)"
  using table_ok_add [of E df]
  by (cases "has_ret df") (auto simp: add_rule_def config_ok_def list_ok_def)

section \<open>What the tables write\<close>

text \<open>An argument short enough for the variable parser, with the dollar that \<open>param\<close> may get.\<close>

definition short_arg :: "sp_parsed_keyword \<Rightarrow> bool" where
  "short_arg kw \<longleftrightarrow> kw_arglen kw + 1 < 2 ^ 31"

lemma config_ok_frame:
  assumes "cfg_disabled_functions g' = cfg_disabled_functions g" "cfg_disabled_functions_ret g' = cfg_disabled_functions_ret g"
    "cfg_disabled_functions_reg g' = cfg_disabled_functions_reg g" "cfg_disabled_functions_reg_ret g' = cfg_disabled_functions_reg_ret g"
    "cfg_cookies g' = cfg_cookies g" "ini_entries (cfg_ini g') = ini_entries (cfg_ini g)"
    "cfg_encryption_key g \<noteq> None \<Longrightarrow> cfg_encryption_key g' \<noteq> None" "cfg_cookies_env_var g \<noteq> None \<Longrightarrow> cfg_cookies_env_var g' \<noteq> None"
    "config_ok E g"
  shows "config_ok E g'"
  using assms by (auto simp: config_ok_def)

text \<open>
  What no directive touches: the tables of saved handlers, the rules that are hooked already, and the
  flags of the process. \<open>config_in\<close> is \<open>config_ok\<close> with these as they are in \<open>R\<close>.
\<close>

definition runtime :: "sp_globals \<Rightarrow> (hook_table \<times> hook_table \<times> hook_table) \<times> (df_table \<times> df_table) \<times>
    (bool \<times> bool \<times> bool) \<times> int \<times> nat \<times> nat \<times> string" where
  "runtime g =
     ((spg_sp_internal_functions_hook g, spg_disabled_functions_hook g, spg_sp_eval_blacklist_functions_hook g),
      (cfg_disabled_functions_hooked g, cfg_disabled_functions_ret_hooked g),
      (spg_hook_execute g, spg_allow_broken_configuration g, spg_config_nonfatal g),
      spg_is_config_valid g, spg_in_eval g, spg_execution_depth g, spg_eval_source_string g)"

definition config_in :: "php \<Rightarrow> (hook_table \<times> hook_table \<times> hook_table) \<times> (df_table \<times> df_table) \<times>
    (bool \<times> bool \<times> bool) \<times> int \<times> nat \<times> nat \<times> string \<Rightarrow> sp_globals \<Rightarrow> bool" where
  "config_in E R g \<longleftrightarrow> config_ok E g \<and> runtime g = R"

lemma config_in_frame:
  assumes "cfg_disabled_functions g' = cfg_disabled_functions g" "cfg_disabled_functions_ret g' = cfg_disabled_functions_ret g"
    "cfg_disabled_functions_reg g' = cfg_disabled_functions_reg g" "cfg_disabled_functions_reg_ret g' = cfg_disabled_functions_reg_ret g"
    "cfg_cookies g' = cfg_cookies g" "ini_entries (cfg_ini g') = ini_entries (cfg_ini g)"
    "cfg_encryption_key g \<noteq> None \<Longrightarrow> cfg_encryption_key g' \<noteq> None" "cfg_cookies_env_var g \<noteq> None \<Longrightarrow> cfg_cookies_env_var g' \<noteq> None"
    "runtime g' = runtime g" "config_in E R g"
  shows "config_in E R g'"
  using assms config_ok_frame [OF assms(1-8)] by (simp add: config_in_def)

lemma config_in_add_rule: "config_in E R g \<Longrightarrow> rule_ok E df \<Longrightarrow> config_in E R (add_rule df g)"
  using config_ok_add_rule [of E g df] by (auto simp: config_in_def runtime_def add_rule_def)

named_theorems frame_puts

lemma both_put_global [frame_puts]:
  assumes "\<And>g. config_in E R g \<Longrightarrow> config_in E R (f g)"
  shows "both (config_in E R) L st \<Longrightarrow> both (config_in E R) L (put_global f st)"
  using assms by (simp add: both_def put_global_def)

lemma both_put_local [frame_puts]:
  assumes "\<And>l. L l \<Longrightarrow> L (f l)"
  shows "both J L st \<Longrightarrow> both J L (put_local f st)"
  using assms by (simp add: both_def put_local_def)

lemma both_put_session [frame_puts]: "both (config_in E R) L st \<Longrightarrow> both (config_in E R) L (put_session f st)"
  unfolding put_session_def by (rule both_put_global) (rule config_in_frame, simp_all add: runtime_def)

lemma both_put_log [frame_puts]: "both (config_in E R) L st \<Longrightarrow> both (config_in E R) L (put_log f st)"
  unfolding put_log_def by (rule both_put_global) (rule config_in_frame, simp_all add: runtime_def)

lemma both_put_us [frame_puts]: "both (config_in E R) L st \<Longrightarrow> both (config_in E R) L (put_us f st)"
  unfolding put_us_def by (rule both_put_global) (rule config_in_frame, simp_all add: runtime_def)

lemma both_put_ro [frame_puts]: "both (config_in E R) L st \<Longrightarrow> both (config_in E R) L (put_ro f st)"
  unfolding put_ro_def by (rule both_put_global) (rule config_in_frame, simp_all add: runtime_def)

lemma both_put_eval [frame_puts]: "both (config_in E R) L st \<Longrightarrow> both (config_in E R) L (put_eval f st)"
  unfolding put_eval_def by (rule both_put_global) (rule config_in_frame, simp_all add: runtime_def)

lemma both_put_wrapper [frame_puts]: "both (config_in E R) L st \<Longrightarrow> both (config_in E R) L (put_wrapper f st)"
  unfolding put_wrapper_def by (rule both_put_global) (rule config_in_frame, simp_all add: runtime_def)

lemma both_put_upload [frame_puts]: "both (config_in E R) L st \<Longrightarrow> both (config_in E R) L (put_upload f st)"
  unfolding put_upload_def by (rule both_put_global) (rule config_in_frame, simp_all add: runtime_def)

lemma both_put_log_max_len [frame_puts]: "both (config_in E R) L st \<Longrightarrow> both (config_in E R) L (put_log_max_len n st)"
  unfolding put_log_max_len_def by (rule both_put_global) (rule config_in_frame, simp_all add: runtime_def)

lemma both_put_max_execution_depth [frame_puts]:
  "both (config_in E R) L st \<Longrightarrow> both (config_in E R) L (put_max_execution_depth n st)"
  unfolding put_max_execution_depth_def by (rule both_put_global) (rule config_in_frame, simp_all add: runtime_def)

lemma both_put_ini [frame_puts]:
  assumes "\<And>c. ini_entries (f c) = ini_entries c"
  shows "both (config_in E R) L st \<Longrightarrow> both (config_in E R) L (put_ini f st)"
  unfolding put_ini_def by (rule both_put_global) (rule config_in_frame, simp_all add: assms runtime_def)

lemma both_set_lineno [frame_puts]: "both (config_in E R) L st \<Longrightarrow> both (config_in E R) L (set_lineno n st)"
  by (auto simp: both_def set_lineno_def runtime_def elim: config_in_frame [rotated -1])

lemma config_in_other [simp]:
  "config_in E R (g\<lparr>cfg_random_enable := b\<rparr>) = config_in E R g" "config_in E R (g\<lparr>cfg_global_strict_enable := b\<rparr>) = config_in E R g"
  "config_in E R (g\<lparr>cfg_auto_cookie_secure_enable := b\<rparr>) = config_in E R g"
  "config_in E R (g\<lparr>cfg_xxe_protection_enable := b\<rparr>) = config_in E R g" "config_in E R (g\<lparr>cfg_sloppy_enable := b\<rparr>) = config_in E R g"
  "config_in E R (g\<lparr>cfg_server_encode := b\<rparr>) = config_in E R g" "config_in E R (g\<lparr>cfg_server_strip := b\<rparr>) = config_in E R g"
  "config_in E R (g\<lparr>cfg_unserialize_noclass := un\<rparr>) = config_in E R g"
  "config_in E R (g\<lparr>cfg_unserialize := us\<rparr>) = config_in E R g" "config_in E R (g\<lparr>cfg_readonly_exec := ro\<rparr>) = config_in E R g"
  "config_in E R (g\<lparr>cfg_upload_validation := up\<rparr>) = config_in E R g"
  "config_in E R (g\<lparr>spg_config_filename := fn\<rparr>) = config_in E R g" "config_in E R (g\<lparr>spg_config_parsing := b\<rparr>) = config_in E R g"
  "ini_entries c = ini_entries (cfg_ini g) \<Longrightarrow> config_in E R (g\<lparr>cfg_ini := c\<rparr>) = config_in E R g"
  by (simp_all add: config_in_def config_ok_def runtime_def)

lemma config_in_lineno [simp]: "config_in E R g \<Longrightarrow> config_in E R (g\<lparr>spg_config_lineno := n\<rparr>)"
  by (rule config_in_frame) (simp_all add: runtime_def)

lemma config_in_secrets [simp]:
  "config_in E R g \<Longrightarrow> config_in E R (g\<lparr>cfg_encryption_key := Some k\<rparr>)"
  "config_in E R g \<Longrightarrow> config_in E R (g\<lparr>cfg_cookies_env_var := Some k\<rparr>)"
  by (auto simp: config_in_def config_ok_def runtime_def)

lemmas table_intros =
  keeps_parse_empty keeps_parse_str keeps_parse_list keeps_parse_php_type keeps_parse_int keeps_parse_uint
  keeps_parse_ulong keeps_parse_regexp keeps_parse_cidr keeps_parse_log_media

interpretation switches: directive_table E "switch_table E" "globally (config_in E R)" short_arg for E R
  by unfold_locales (auto simp: switch_table_def intro!: table_intros frame_puts)

interpretation session_keys: directive_table E "session_table E" "globally (config_in E R)" short_arg for E R
  by unfold_locales (auto simp: session_table_def intro!: table_intros frame_puts)

interpretation unserialize_keys: directive_table E "unserialize_table E" "globally (config_in E R)" short_arg for E R
  by unfold_locales (auto simp: unserialize_table_def switch_table_def intro!: table_intros frame_puts)

interpretation readonly_keys: directive_table E "readonly_table E" "globally (config_in E R)" short_arg for E R
  by unfold_locales (auto simp: readonly_table_def intro!: table_intros frame_puts)

interpretation eval_keys: directive_table E "eval_table E get put" "globally (config_in E R)" short_arg for E R get put
  by unfold_locales (auto simp: eval_table_def intro!: table_intros frame_puts)

interpretation wrapper_keys: directive_table E "wrapper_table E" "globally (config_in E R)" short_arg for E R
  by unfold_locales (auto simp: wrapper_table_def intro!: table_intros frame_puts)

interpretation upload_keys: directive_table E "upload_table E" "globally (config_in E R)" short_arg for E R
  by unfold_locales (auto simp: upload_table_def switch_table_def intro!: table_intros frame_puts)

interpretation ini_keys: directive_table E "ini_protection_table E" "globally (config_in E R)" short_arg for E R
  by unfold_locales (auto simp: ini_protection_table_def intro!: table_intros frame_puts)

interpretation entry_keys: directive_table E "ini_entry_table E" "globally (config_in E R)" short_arg for E R
  by unfold_locales (auto simp: ini_entry_table_def entry_str_def put_entry_def intro!: table_intros frame_puts)

interpretation cookie_keys: directive_table E "cookie_table E" "globally (config_in E R)" short_arg for E R
  by unfold_locales (auto simp: cookie_table_def put_cookie_def intro!: table_intros frame_puts)

section \<open>Every directive keeps the configuration\<close>

lemma stop_Done: "snd (stop st) = Done (st', r) \<longleftrightarrow> st' = st \<and> r = SP_PARSER_STOP"
  by (auto simp: stop_def)

lemma set_enable_disable_keeps:
  assumes "snd (set_enable_disable E kw enable disable put st k) = Done (st', r)" "config_in E R (fst st)"
    and "\<And>b g. config_in E R g \<Longrightarrow> config_in E R (put b g)"
    and "\<And>st1. config_in E R (fst st1) \<Longrightarrow> snd (k st1) = Done (st', r) \<Longrightarrow> config_in E R (fst st')"
  shows "config_in E R (fst st')"
proof (cases "enable \<and> disable")
  case True
  then show ?thesis using assms(1, 2) by (simp add: set_enable_disable_def parse_err_Done)
next
  case False
  show ?thesis
  proof (rule assms(4))
    show "config_in E R (fst (if enable \<or> disable then put_global (put (enable \<or> \<not> disable)) st else st))"
      using assms(2, 3) by (simp add: put_global_def)
    show "snd (k (if enable \<or> disable then put_global (put (enable \<or> \<not> disable)) st else st)) = Done (st', r)"
      using assms(1) False by (simp add: set_enable_disable_def)
  qed
qed

lemma put_global_ok: "config_in E R (fst st) \<Longrightarrow> (\<And>g. config_in E R g \<Longrightarrow> config_in E R (f g)) \<Longrightarrow> config_in E R (fst (put_global f st))"
  by (simp add: put_global_def)

lemma put_ok_of_both: "(both (config_in E R) (\<lambda>_. True) st \<Longrightarrow> both (config_in E R) (\<lambda>_. True) st') \<Longrightarrow>
    config_in E R (fst st) \<Longrightarrow> config_in E R (fst st')"
  by (simp add: both_def)

lemmas put_oks =
  put_ok_of_both [OF both_put_session] put_ok_of_both [OF both_put_log] put_ok_of_both [OF both_put_us]
  put_ok_of_both [OF both_put_ro] put_ok_of_both [OF both_put_eval] put_ok_of_both [OF both_put_wrapper]
  put_ok_of_both [OF both_put_upload] put_ok_of_both [OF both_put_ini]

lemma keeps_parse_enable:
  assumes "\<And>b g. config_in E R g \<Longrightarrow> config_in E R (put b g)"
  shows "keeps short_arg (globally (config_in E R)) (parse_enable E put)"
  unfolding parse_enable_def
  by (rule keeps_with_keywords [OF switches.process_rule_keeps])
    (auto simp: config_in_lineno stop_Done elim!: set_enable_disable_keeps intro: assms)

lemma keeps_parse_session: "keeps short_arg (globally (config_in E R)) (parse_session E)"
  unfolding parse_session_def
  by (rule keeps_with_keywords [OF session_keys.process_rule_keeps])
    (auto simp: config_in_lineno stop_Done parse_err_Done split: if_splits)

lemma keeps_parse_unserialize_noclass: "keeps short_arg (globally (config_in E R)) (parse_unserialize_noclass E)"
  unfolding parse_unserialize_noclass_def
  by (rule keeps_with_keywords [OF switches.process_rule_keeps])
    (auto simp: config_in_lineno stop_Done put_global_def elim!: set_enable_disable_keeps)

lemma keeps_parse_unserialize: "keeps short_arg (globally (config_in E R)) (parse_unserialize E)"
  unfolding parse_unserialize_def
  by (rule keeps_with_keywords [OF unserialize_keys.process_rule_keeps])
    (auto simp: config_in_lineno stop_Done elim!: set_enable_disable_keeps
      intro!: put_oks elim: config_in_frame [rotated -1])

lemma keeps_parse_readonly_exec: "keeps short_arg (globally (config_in E R)) (parse_readonly_exec E)"
  unfolding parse_readonly_exec_def
  by (rule keeps_with_keywords [OF readonly_keys.process_rule_keeps])
    (auto simp: config_in_lineno stop_Done Let_def elim!: set_enable_disable_keeps
      intro!: put_oks elim: config_in_frame [rotated -1])

lemma keeps_parse_eval_filter_conf: "keeps short_arg (globally (config_in E R)) (parse_eval_filter_conf E get put)"
  unfolding parse_eval_filter_conf_def
  by (rule keeps_with_keywords [OF eval_keys.process_rule_keeps]) (auto simp: config_in_lineno stop_Done intro!: put_oks)

lemma keeps_parse_wrapper_whitelist: "keeps short_arg (globally (config_in E R)) (parse_wrapper_whitelist E)"
  unfolding parse_wrapper_whitelist_def
  by (rule keeps_with_keywords [OF wrapper_keys.process_rule_keeps]) (auto simp: config_in_lineno stop_Done intro!: put_oks)

lemma keeps_parse_upload_validation: "keeps short_arg (globally (config_in E R)) (parse_upload_validation E)"
  unfolding parse_upload_validation_def
  by (rule keeps_with_keywords [OF upload_keys.process_rule_keeps])
    (auto simp: config_in_lineno stop_Done parse_err_Done elim!: set_enable_disable_keeps
      split: option.splits if_splits elim: config_in_frame [rotated -1])

lemma keeps_parse_ini_protection: "keeps short_arg (globally (config_in E R)) (parse_ini_protection E)"
  unfolding parse_ini_protection_def
  by (rule keeps_with_keywords [OF ini_keys.process_rule_keeps])
    (auto simp: config_in_lineno stop_Done parse_err_Done Let_def put_ini_def put_global_def
      elim!: set_enable_disable_keeps split: if_splits)

lemma ball_zh_add: "\<forall>x\<in>set ht. Q x \<Longrightarrow> Q (k, v) \<Longrightarrow> \<forall>x\<in>set (zh_add ht k v). Q x"
  by (simp add: zh_add_def)

lemma finish_ini_entry_cases:
  assumes "snd (finish_ini_entry E parsed_rule l st) = Done (st', r)"
  obtains "st' = st"
  | key where "ie_key (en_entry l) = Some key"
      "st' = put_ini (\<lambda>c. c\<lparr>ini_entries := zh_add (ini_entries c) key
               ((en_entry l)\<lparr>ie_access := of_bool (en_ro l) - of_bool (en_rw l)\<rparr>)\<rparr>) st"
proof (cases "ie_key (en_entry l)")
  case None
  then show thesis using assms that(1) by (simp add: finish_ini_entry_def parse_err_Done)
next
  case (Some key)
  have "st' = st \<or> st' = put_ini (\<lambda>c. c\<lparr>ini_entries := zh_add (ini_entries c) key
      ((en_entry l)\<lparr>ie_access := of_bool (en_ro l) - of_bool (en_rw l)\<rparr>)\<rparr>) st"
    using assms Some
    by (cases "zh_find (ini_entries (cfg_ini (fst st))) key"; cases "en_ro l"; cases "en_rw l")
      (simp_all add: finish_ini_entry_def parse_err_Done stop_Done Let_def)
  then show thesis
  proof
    assume "st' = st"
    then show thesis by (rule that(1))
  qed (rule that(2) [OF Some])
qed

lemma keeps_parse_ini_entry: "keeps short_arg (globally (config_in E R)) (parse_ini_entry E)"
  unfolding parse_ini_entry_def
proof (rule keeps_with_keywords [OF entry_keys.process_rule_keeps])
  fix t :: string and parsed_rule rest and l :: entry_locals and st st' :: "'a pstate" and r
  let ?e = "(en_entry l)\<lparr>ie_access := of_bool (en_ro l) - of_bool (en_rw l)\<rparr>"
  assume g: "config_in E R (fst st)" and d: "snd (finish_ini_entry E parsed_rule l st) = Done (st', r)"
  from d show "config_in E R (fst st')"
  proof (cases rule: finish_ini_entry_cases)
    case (2 key)
    have "\<forall>(k, e)\<in>set (zh_add (ini_entries (cfg_ini (fst st))) key ?e). ie_key e = Some k \<and> ie_access e \<in> {-1, 0, 1}"
      by (rule ball_zh_add) (use g 2(1) in \<open>simp_all add: config_in_def config_ok_def runtime_def of_bool_def\<close>)
    then show ?thesis using g 2 by (simp add: config_in_def config_ok_def runtime_def put_ini_def put_global_def zh_wf_add)
  qed (simp add: g)
qed simp_all

lemma set_merge_cookie:
  "c \<in> set (merge_cookie cs cookie) \<Longrightarrow> c \<in> set cs \<or> c = cookie \<or> (\<exists>e\<in>set cs. c = override_cookie e cookie)"
  by (induction cs) (auto split: if_splits)

lemma cookie_ok_override: "cookie_ok e \<Longrightarrow> cookie_ok (override_cookie e cookie)"
  by (auto simp: cookie_ok_def override_cookie_def)

lemma finish_cookie_cases:
  assumes "snd (finish_cookie E parsed_rule l st) = Done (st', r)"
  obtains "st' = st"
  | c where "cookie_ok c" "ck_encrypt c \<longrightarrow> cfg_encryption_key (fst st) \<noteq> None \<and> cfg_cookies_env_var (fst st) \<noteq> None"
      "st' = put_global (\<lambda>g. g\<lparr>cfg_cookies := merge_cookie (cfg_cookies g) c\<rparr>) st"
proof (cases "st' = st")
  case False
  show thesis
  proof (cases "cl_samesite l")
    case None
    then show thesis using assms False that(2) [of "cl_cookie l"]
      by (auto simp: finish_cookie_def parse_err_Done stop_Done Let_def cookie_ok_def split: if_splits option.splits)
  next
    case (Some s)
    obtain ss where ss: "samesite_of s = Some ss" "ss \<noteq> samesite_unset"
      using assms False Some
      by (auto simp: finish_cookie_def parse_err_Done stop_Done Let_def samesite_of_def split: if_splits option.splits)
    show thesis using assms False Some ss that(2) [of "(cl_cookie l)\<lparr>ck_samesite := ss\<rparr>"]
      by (auto simp: finish_cookie_def parse_err_Done stop_Done Let_def cookie_ok_def split: if_splits option.splits)
  qed
qed (rule that(1))

lemma keeps_parse_cookie: "keeps short_arg (globally (config_in E R)) (parse_cookie E)"
  unfolding parse_cookie_def
proof (rule keeps_with_keywords [OF cookie_keys.process_rule_keeps])
  fix t :: string and parsed_rule rest and l :: cookie_locals and st st' :: "'a pstate" and r
  assume g: "config_in E R (fst st)" and d: "snd (finish_cookie E parsed_rule l st) = Done (st', r)"
  from d show "config_in E R (fst st')"
  proof (cases rule: finish_cookie_cases)
    case (2 c)
    have "cookie_ok x \<and> (ck_encrypt x \<longrightarrow> cfg_encryption_key (fst st) \<noteq> None \<and> cfg_cookies_env_var (fst st) \<noteq> None)"
      if "x \<in> set (merge_cookie (cfg_cookies (fst st)) c)" for x
      using set_merge_cookie [OF that] g 2(1, 2) cookie_ok_override
      by (auto simp: config_in_def config_ok_def runtime_def override_cookie_def)
    then show ?thesis using g 2(3) by (simp add: config_in_def config_ok_def runtime_def put_global_def)
  qed (simp add: g)
qed simp_all

section \<open>Disabled functions and the root\<close>

definition df_locals_ok :: "php \<Rightarrow> df_locals \<Rightarrow> bool" where
  "df_locals_ok E l \<longleftrightarrow>
     df_functions_list (dl_df l) = [] \<and> df_param (dl_df l) = [] \<and> df_var (dl_df l) = [] \<and>
     (\<forall>p. dl_param l = Some p \<longrightarrow> length p + 1 < 2 ^ 31) \<and> (\<forall>v. dl_var l = Some v \<longrightarrow> length v + 1 < 2 ^ 31) \<and>
     (\<forall>c. df_cidr (dl_df l) = Some c \<longrightarrow> pton6_fills (e_inet E) \<longrightarrow> wf_cidr c)"

lemma both_put_df:
  assumes "\<And>df. df_functions_list (f df) = df_functions_list df" "\<And>df. df_param (f df) = df_param df"
    "\<And>df. df_var (f df) = df_var df"
    "\<And>df c. df_cidr (f df) = Some c \<Longrightarrow> df_cidr df = Some c \<or> (pton6_fills (e_inet E) \<longrightarrow> wf_cidr c)"
  shows "both J (df_locals_ok E) st \<Longrightarrow> both J (df_locals_ok E) (put_df f st)"
  using assms by (fastforce simp: put_df_def put_local_def both_def df_locals_ok_def)

interpretation df_keys: directive_table E "df_table_keywords E" "both (config_in E R) (df_locals_ok E)" short_arg for E R
proof unfold_locales
  fix t h
  assume "(t, h) \<in> set (df_table_keywords E)"
  then show "keeps short_arg (both (config_in E R) (df_locals_ok E)) h"
    by (auto simp: df_table_keywords_def df_str_def df_rx_def short_arg_def df_locals_ok_def intro!: table_intros both_put_df both_put_local)
qed (rule both_set_lineno)

lemma length_c_str: "length (c_str s) \<le> length s"
  by (simp add: c_str_def length_takeWhile_le)

lemma length_param_path: "length (param_path p) \<le> Suc (length p)"
  using length_c_str [of p] length_c_str [of "VARIABLE_TOKEN # p"] by (simp add: param_path_def)

lemma wf_tree_Nil [simp]: "wf_tree rx []"
  by (simp add: wf_tree_def)

lemma parse_param_cases:
  assumes "snd (parse_param E kw param st k) = Done (st', r)" "\<forall>p. param = Some p \<longrightarrow> length p + 1 < 2 ^ 31"
  obtains "st' = st" | tree where "wf_tree (e_rx E) tree" "param = None \<longrightarrow> tree = []" "snd (k tree) = Done (st', r)"
proof (cases param)
  case (Some p)
  have "length (param_path p) < 2 ^ 31" using assms(2) Some length_param_path [of p] by simp
  then obtain t where "sp_parse_var (e_rx E) (param_path p) = CVal t" "wf_tree (e_rx E) t"
    using sp_parse_var_safe_aux by blast
  then show thesis using assms(1) Some that
    by (cases "t = []") (simp_all add: parse_param_def snd_ebind parse_err_Done)
qed (use assms that(2) [of "[]"] in \<open>simp add: parse_param_def\<close>)

lemma parse_var_cases:
  assumes "snd (parse_var E kw var st k) = Done (st', r)" "\<forall>v. var = Some v \<longrightarrow> length v + 1 < 2 ^ 31"
  obtains "st' = st" | tree where "wf_tree (e_rx E) tree" "var = None \<longrightarrow> tree = []" "snd (k tree) = Done (st', r)"
proof (cases var)
  case (Some v)
  have "length (c_str v) < 2 ^ 31" using assms(2) Some length_c_str [of v] by simp
  then obtain t where "sp_parse_var (e_rx E) (c_str v) = CVal t" "wf_tree (e_rx E) t"
    using sp_parse_var_safe_aux by blast
  then show thesis using assms(1) Some that
    by (cases "t = []"; cases "v = []") (simp_all add: parse_var_def snd_ebind parse_err_Done)
qed (use assms that(2) [of "[]"] in \<open>simp add: parse_var_def\<close>)

text \<open>The checks of \<open>parse_disabled_functions\<close> give a good rule.\<close>

definition finished_rule ::
  "sp_parsed_keyword \<Rightarrow> sp_parsed_keyword list \<Rightarrow> df_locals \<Rightarrow> sp_tree \<Rightarrow> sp_tree \<Rightarrow> sp_disabled_function" where
  "finished_rule parsed_rule rest l param var = (dl_df l)
     \<lparr>df_allow := dl_allow l,
      df_textual_representation := Some (sp_get_textual_representation (parsed_rule # rest)),
      df_functions_list := (case df_function (dl_df l) of Some f \<Rightarrow> parse_functions_list (c_str f) | None \<Rightarrow> []),
      df_param := param, df_var := var\<rparr>"

lemma df_conflict_None:
  "df_conflict l = None \<Longrightarrow> \<forall>p\<in>set (exclusive_pairs l). \<not> fst p"
  unfolding df_conflict_def find_None_iff by (metis find_None_iff option.map_disc_iff)

lemma rule_ok_finished:
  assumes "df_locals_ok E l" "df_conflict l = None"
    and "df_r_function (dl_df l) \<noteq> None \<or> df_function (dl_df l) \<noteq> None"
    and "\<forall>f. df_filename (dl_df l) = Some f \<longrightarrow> filename_absolute f"
    and "wf_tree (e_rx E) param" "wf_tree (e_rx E) var" "dl_param l = None \<longrightarrow> param = []" "dl_var l = None \<longrightarrow> var = []"
  shows "rule_ok E (finished_rule kw rest l param var)"
proof -
  let ?df = "dl_df l"
  have c: "\<not> (df_value ?df \<noteq> None \<and> df_r_value ?df \<noteq> None)" "\<not> (df_r_function ?df \<noteq> None \<and> df_function ?df \<noteq> None)"
    "\<not> (df_filename ?df \<noteq> None \<and> df_r_filename ?df \<noteq> None)" "\<not> (df_ret ?df \<noteq> None \<and> df_r_ret ?df \<noteq> None)"
    "\<not> (df_key ?df \<noteq> None \<and> df_r_key ?df \<noteq> None)"
    and c_pos: "\<not> (df_pos ?df \<ge> 0 \<and> dl_param l \<noteq> None)" "\<not> (df_pos ?df \<ge> 0 \<and> df_r_param ?df \<noteq> None)"
    "\<not> (dl_param l \<noteq> None \<and> df_r_param ?df \<noteq> None)" "\<not> (has_key ?df \<and> has_value ?df)"
    and c_ret: "\<not> (has_ret ?df \<and> (df_r_param ?df \<noteq> None \<or> dl_param l \<noteq> None))"
    "\<not> (has_ret ?df \<and> dl_var l \<noteq> None)" "\<not> (has_ret ?df \<and> has_value ?df)"
    using df_conflict_None [OF assms(2)] by (simp_all add: exclusive_pairs_def Let_def)
  have eqs: "has_ret (finished_rule kw rest l param var) = has_ret ?df" "has_key (finished_rule kw rest l param var) = has_key ?df"
    "has_value (finished_rule kw rest l param var) = has_value ?df"
    by (simp_all add: finished_rule_def has_ret_def has_key_def has_value_def)
  have cidr: "\<forall>c. df_cidr ?df = Some c \<longrightarrow> pton6_fills (e_inet E) \<longrightarrow> wf_cidr c"
    using assms(1) by (simp add: df_locals_ok_def)
  show ?thesis unfolding rule_ok_def eqs
    apply (intro conjI)
    subgoal using c(2) assms(3) by (auto simp: finished_rule_def)
    subgoal using c(1) by (simp add: finished_rule_def)
    subgoal using c(3) by (simp add: finished_rule_def)
    subgoal using c(4) by (simp add: finished_rule_def)
    subgoal using c(5) by (simp add: finished_rule_def)
    subgoal using c_pos(1,2) assms(7) by (simp add: finished_rule_def)
    subgoal using c_pos(3) assms(7) by (auto simp: finished_rule_def)
    subgoal using c_pos(4) by simp
    subgoal using c_ret assms(7, 8) by (simp add: finished_rule_def)
    subgoal using assms(4) by (simp add: finished_rule_def)
    subgoal using assms(5) by (simp add: finished_rule_def)
    subgoal using assms(6) by (simp add: finished_rule_def)
    subgoal using cidr by (simp add: finished_rule_def)
    done
qed

lemma finish_df_keeps:
  assumes g: "config_in E R (fst st)" and l: "df_locals_ok E l"
    and d: "snd (finish_df E parsed_rule rest l st) = Done (st', r)"
  shows "config_in E R (fst st')"
proof (cases "st' = st")
  case False
  have c: "df_conflict l = None" "df_r_function (dl_df l) \<noteq> None \<or> df_function (dl_df l) \<noteq> None"
      "\<forall>f. df_filename (dl_df l) = Some f \<longrightarrow> filename_absolute f"
    and k: "snd (parse_param E parsed_rule (dl_param l) st (\<lambda>param. parse_var E parsed_rule (dl_var l) st (\<lambda>var.
      stop (put_global (add_rule (print_as_echo (finished_rule parsed_rule rest l param var))) st)))) = Done (st', r)"
    using d False
    by (simp_all add: finish_df_def Let_def parse_err_Done stop_Done finished_rule_def split: if_splits option.splits prod.splits)
  have p: "\<forall>p. dl_param l = Some p \<longrightarrow> length p + 1 < 2 ^ 31" "\<forall>v. dl_var l = Some v \<longrightarrow> length v + 1 < 2 ^ 31"
    using l by (simp_all add: df_locals_ok_def)
  show ?thesis
  proof (rule parse_param_cases [OF k p(1)])
    fix param
    assume param: "wf_tree (e_rx E) param" "dl_param l = None \<longrightarrow> param = []"
      and k': "snd (parse_var E parsed_rule (dl_var l) st (\<lambda>var.
        stop (put_global (add_rule (print_as_echo (finished_rule parsed_rule rest l param var))) st))) = Done (st', r)"
    show ?thesis
    proof (rule parse_var_cases [OF k' p(2)])
      fix var
      assume var: "wf_tree (e_rx E) var" "dl_var l = None \<longrightarrow> var = []"
        and s: "snd (stop (put_global (add_rule (print_as_echo (finished_rule parsed_rule rest l param var))) st)) = Done (st', r)"
      have "rule_ok E (finished_rule parsed_rule rest l param var)"
        by (rule rule_ok_finished [OF l c param(1) var(1) param(2) var(2)])
      then show ?thesis using s g by (simp add: stop_Done put_global_def config_in_add_rule)
    qed (use False in simp)
  qed (use False in simp)
qed (simp add: g)

lemma df_locals_ok_start: "df_locals_ok E df_start"
  by (simp add: df_locals_ok_def df_start_def zero_disabled_function_def)

lemma keeps_parse_disabled_functions: "keeps short_arg (globally (config_in E R)) (parse_disabled_functions E)"
  unfolding parse_disabled_functions_def
  by (rule keeps_with_keywords [OF df_keys.process_rule_keeps])
    (auto simp: df_locals_ok_start intro: finish_df_keeps)

interpretation global_keys: directive_table E "global_table E" "globally (config_in E R)" short_arg for E R
  by unfold_locales
    (auto simp: global_table_def intro!: table_intros frame_puts keeps_parse_enable intro: config_in_frame)

lemma keeps_parse_global: "keeps short_arg (globally (config_in E R)) (parse_global E)"
  unfolding parse_global_def
  by (rule keeps_with_keywords [OF global_keys.process_rule_keeps])
    (auto simp: stop_Done parse_err_Done split: option.splits if_splits)

lemmas directive_intros =
  keeps_parse_enable keeps_parse_session keeps_parse_unserialize_noclass keeps_parse_unserialize
  keeps_parse_readonly_exec keeps_parse_eval_filter_conf keeps_parse_wrapper_whitelist keeps_parse_upload_validation
  keeps_parse_ini_protection keeps_parse_ini_entry keeps_parse_cookie keeps_parse_disabled_functions keeps_parse_global

interpretation root_keys: directive_table E "root_table E" "globally (config_in E R)" short_arg for E R
  by unfold_locales (auto simp: root_table_def intro!: table_intros directive_intros frame_puts)

lemma process_root_keeps:
  "config_in E R g \<Longrightarrow> \<forall>k\<in>set rule. short_arg k \<Longrightarrow> snd (sp_process_config_root E rule g) = Done (g', r) \<Longrightarrow> config_in E R g'"
proof -
  assume g: "config_in E R g" "\<forall>k\<in>set rule. short_arg k" and r: "snd (sp_process_config_root E rule g) = Done (g', r)"
  obtain st1 r1 where s: "snd (sp_process_rule E (root_table E) rule (g, ())) = Done (st1, r1)"
    using r by (auto simp: sp_process_config_root_def ebind_Done_iff)
  have "globally (config_in E R) st1"
    by (rule root_keys.process_rule_keeps [OF _ _ s]) (use g in \<open>auto simp: both_def\<close>)
  then show ?thesis using r s by (simp add: sp_process_config_root_def snd_ebind both_def split: prod.splits)
qed

text \<open>Files below 2 GiB.\<close>

definition small_files :: "config_source \<Rightarrow> bool" where
  "small_files C \<longleftrightarrow> (\<forall>f data. cs_read C f = Inr data \<longrightarrow> length data < 2 ^ 31 - 2) \<and> length (cs_version C) < 2 ^ 31 - 2"

lemma parse_config_keeps:
  assumes "config_in E R g" "small_files C" and p: "snd (sp_parse_config E C f g) = Done (g', r)"
  shows "config_in E R g'"
proof (cases "cs_read C f")
  case (Inl errno)
  then show ?thesis using assms by (auto simp: sp_parse_config_def Let_def eseq_Done_iff)
next
  case (Inr data)
  let ?g = "g\<lparr>spg_config_filename := Some f, spg_config_lineno := 0, spg_config_parsing := True\<rparr>"
  obtain g2 r2 where s: "snd (sp_config_scan E C data (sp_process_config_root E) f ?g) = Done (g2, r2)"
    using p Inr by (auto simp: sp_parse_config_def Let_def ebind_Done_iff)
  have "config_in E R g2"
  proof (rule sp_config_scan_keeps [OF _ _ _ _ _ s, of "config_in E R" "2 ^ 31 - 2"])
    show "any_line (config_in E R)" by (auto simp: any_line_def)
    show "config_in E R g'" if "config_in E R g" "\<forall>kw\<in>set rule. kw_arglen kw \<le> 2 ^ 31 - 2"
        "snd (sp_process_config_root E rule g) = Done (g', r)" for rule g g' r
      using process_root_keeps [OF that(1) _ that(3)] that(2) by (fastforce simp: short_arg_def)
    show "length data < 2 ^ 31 - 2" "length (cs_version C) \<le> 2 ^ 31 - 2"
      using assms(2) Inr unfolding small_files_def by (blast, linarith)
    show "config_in E R ?g" using assms(1) by simp
  qed
  then show ?thesis using p Inr s by (auto simp: sp_parse_config_def Let_def snd_ebind split: if_splits)
qed

section \<open>Properties\<close>

text \<open>
  C5. A loaded configuration is well-formed: whatever bytes a file holds, as long as files are
  below 2 GiB, \<open>sp_parse_config\<close> keeps \<open>config_ok\<close>, whether it
  succeeds or stops at an error: every rule in the four lists has one function selector, no contradicting filters,
  well-formed paths and networks, and is filed under its own key.
\<close>

theorem loaded_config_ok:
  assumes "config_ok E g" "small_files C" "snd (sp_parse_config E C filename g) = Done (g', r)"
  shows "config_ok E g'"
  using parse_config_keeps [of E "runtime g" g C filename g' r] assms by (simp add: config_in_def)

definition drop_system :: "sp_parsed_keyword list" where
  "drop_system = [bare_kw 1 ''disable_function'', arg_kw 1 ''function'' ''system'', plain_kw 1 ''drop'']"

definition drop_file :: config_source where
  "drop_file = sample_source (\<lambda>f. if f = ''sp.rules'' then Inr (''sp.disable_function.function('' @ [DQUOTE] @ ''system'' @ [DQUOTE] @ '').drop();'' @ [LF])
     else Inl ''No such file or directory'')"

lemma drop_file_scanned:
  "sp_config_scan E drop_file (''sp.disable_function.function('' @ [DQUOTE] @ ''system'' @ [DQUOTE] @ '').drop();'' @ [LF]) pr ''sp.rules'' g =
     process_rules pr [drop_system] g"
proof -
  have "scannable_rules ''sp.rules'' 1 [drop_system]"
    by (simp add: drop_system_def is_name_eval char_classes plain_arg_eval line_end_def is_nonascii_def)
  moreover have "config_text [drop_system] = ''sp.disable_function.function('' @ [DQUOTE] @ ''system'' @ [DQUOTE] @ '').drop();'' @ [LF]"
    by (simp add: config_text_def sp_get_textual_representation_def kw_text_def drop_system_def bare_kw_def plain_kw_def arg_kw_def)
  ultimately show ?thesis by (metis config_text_roundtrip)
qed

lemma config_ok_sample: "config_ok sample_php (sample_globals\<lparr>cfg_disabled_functions_hooked := []\<rparr>)"
  by (simp add: config_ok_def sample_globals_def table_ok_def list_ok_def)

lemma drop_system_parsed:
  "parse_disabled_functions sample_php ''disable_function'' (hd drop_system) (tl drop_system) (g, ()) =
     stop (add_rule (finished_rule (hd drop_system) (tl drop_system)
       (df_start\<lparr>dl_drop := True, dl_df := (dl_df df_start)\<lparr>df_function := Some ''system''\<rparr>\<rparr>) [] [])
       (g\<lparr>spg_config_lineno := 1\<rparr>), ())"
proof -
  have t: "sp_process_rule sample_php (df_table_keywords sample_php) (tl drop_system) (g, df_start) =
      ret ((g\<lparr>spg_config_lineno := 1\<rparr>, df_start\<lparr>dl_drop := True, dl_df := (dl_df df_start)\<lparr>df_function := Some ''system''\<rparr>\<rparr>), SUCCESS)"
    by (simp add: drop_system_def bare_kw_def plain_kw_def arg_kw_def df_table_keywords_def
        df_str_def df_start_def parse_str_def parse_empty_def no_duplicate_def with_arg_def success_def stop_def set_lineno_def
        sp_get_arg_string_def kw_arglen_def put_df_def put_local_def zero_disabled_function_def)
  show ?thesis
    by (simp add: parse_disabled_functions_def with_keywords_def t set_lineno_def)
      (simp add: finish_df_def df_conflict_def exclusive_pairs_def has_ret_def has_key_def has_value_def Let_def df_start_def
        zero_disabled_function_def parse_param_def parse_var_def finished_rule_def put_global_def print_as_echo_def drop_system_def bare_kw_def)
qed

lemma drop_system_loaded:
  "sp_process_config_root sample_php drop_system g =
     ret (add_rule (finished_rule (hd drop_system) (tl drop_system)
       (df_start\<lparr>dl_drop := True, dl_df := (dl_df df_start)\<lparr>df_function := Some ''system''\<rparr>\<rparr>) [] [])
       (g\<lparr>spg_config_lineno := 1\<rparr>), SUCCESS)"
proof -
  have "find_keyword (root_table sample_php) (kw_kw (hd drop_system)) =
      Some (''disable_function'', parse_disabled_functions sample_php :: unit handler)"
    by (simp add: root_table_def drop_system_def bare_kw_def)
  moreover have "set_lineno (kw_lineno (hd drop_system)) (g, ()) = (g\<lparr>spg_config_lineno := 1\<rparr>, ())"
    by (simp add: drop_system_def bare_kw_def set_lineno_def)
  ultimately have "sp_process_rule sample_php (root_table sample_php) (hd drop_system # tl drop_system) (g, ()) =
      ret ((add_rule (finished_rule (hd drop_system) (tl drop_system)
       (df_start\<lparr>dl_drop := True, dl_df := (dl_df df_start)\<lparr>df_function := Some ''system''\<rparr>\<rparr>) [] [])
       (g\<lparr>spg_config_lineno := 1\<rparr>), ()), SUCCESS)"
    by (simp add: drop_system_parsed stop_def Let_def)
  moreover have "hd drop_system # tl drop_system = drop_system" by (simp add: drop_system_def)
  ultimately have "sp_process_rule sample_php (root_table sample_php) drop_system (g, ()) =
      ret ((add_rule (finished_rule (hd drop_system) (tl drop_system)
       (df_start\<lparr>dl_drop := True, dl_df := (dl_df df_start)\<lparr>df_function := Some ''system''\<rparr>\<rparr>) [] [])
       (g\<lparr>spg_config_lineno := 1\<rparr>), ()), SUCCESS)"
    by simp
  then show ?thesis by (simp add: sp_process_config_root_def)
qed

theorem loaded_config_ok_witness:
  "\<exists>g' df. snd (sp_parse_config sample_php drop_file ''sp.rules''
      (sample_globals\<lparr>cfg_disabled_functions_hooked := []\<rparr>)) = Done (g', SUCCESS) \<and>
    cfg_disabled_functions g' = [(HStr ''system'', [df])] \<and> config_ok sample_php g'"
proof -
  let ?g = "sample_globals\<lparr>cfg_disabled_functions_hooked := []\<rparr>"
  have read: "cs_read drop_file ''sp.rules'' = Inr (''sp.disable_function.function('' @ [DQUOTE] @ ''system'' @ [DQUOTE] @ '').drop();'' @ [LF])"
    by (simp add: drop_file_def sample_source_def)
  obtain g' df where d: "snd (sp_parse_config sample_php drop_file ''sp.rules'' ?g) = Done (g', SUCCESS)"
    "cfg_disabled_functions g' = [(HStr ''system'', [df])]"
    by (simp only: sp_parse_config_def read sum.case drop_file_scanned process_rules.simps drop_system_loaded)
      (simp add: Let_def add_rule_def finished_rule_def df_start_def zero_disabled_function_def
        has_ret_def sample_globals_def add_df_to_hashtable_def parse_functions_list_def zh_add_def)
  have "small_files drop_file" by (simp add: small_files_def drop_file_def sample_source_def)
  then have "config_ok sample_php g'" by (rule loaded_config_ok [OF config_ok_sample _ d(1)])
  with d show ?thesis by blast
qed

definition settled :: "sp_parsed_keyword \<Rightarrow> bool" where
  "settled kw \<longleftrightarrow> kw_argtype kw \<noteq> SP_ARGTYPE_UNKNOWN \<and> (kw_argtype kw = SP_ARGTYPE_STR \<longrightarrow> kw_arg kw \<noteq> None)"

text \<open>
  The textual representation of a rule has exactly the length that was allocated for it,
  when the scanner has settled every argument of the rule.
\<close>

theorem textual_representation_length:
  assumes "\<forall>kw\<in>set rule. settled kw"
  shows "length (sp_get_textual_representation rule) = text_len rule"
proof -
  have "length (kw_text kw) = kw_text_len kw" if "settled kw" for kw
    using that by (cases "kw_argtype kw") (auto simp: settled_def kw_text_def kw_text_len_def kw_arglen_def)
  then have "length (concat (map kw_text rule)) = sum_list (map kw_text_len rule)"
    using assms by (simp add: length_concat comp_def cong: map_cong)
  then show ?thesis by (simp add: sp_get_textual_representation_def text_len_def)
qed

theorem textual_representation_length_witness:
  "sp_get_textual_representation drop_system = ''sp.disable_function.function('' @ [CHR 0x22] @ ''system'' @ [CHR 0x22] @ '').drop();'' \<and>
   length (sp_get_textual_representation drop_system) = text_len drop_system"
  using textual_representation_length [of drop_system]
  by (simp add: drop_system_def bare_kw_def plain_kw_def arg_kw_def settled_def sp_get_textual_representation_def kw_text_def)

fun join :: "string list \<Rightarrow> string" where
  "join [] = []"
| "join [f] = f"
| "join (f # fs) = f @ CHR ''>'' # join fs"

lemma strsep_join: "fs \<noteq> [] \<Longrightarrow> \<forall>f\<in>set fs. CHR ''>'' \<notin> set f \<Longrightarrow> strsep_all (CHR ''>'') (join fs) = fs"
  by (induction fs rule: join.induct) (simp_all add: strsep_all_none strsep_all_append)

text \<open>
  A call chain \<open>f>g>h\<close> is split into its functions, innermost first: splitting the names
  joined by \<open>'>'\<close> gives them back in reverse.
\<close>

theorem parse_functions_list_chain:
  assumes "\<forall>f\<in>set fs. f \<noteq> [] \<and> CHR ''>'' \<notin> set f" "2 \<le> length fs"
  shows "parse_functions_list (join fs) = rev fs"
proof -
  obtain f f' fs' where fs: "fs = f # f' # fs'" using assms(2) by (metis Suc_le_length_iff numeral_2_eq_2)
  then have "CHR ''>'' \<in> set (join fs)" by simp
  moreover have "filter (\<lambda>t. t \<noteq> []) fs = fs" using assms(1) by (simp add: filter_id_conv)
  ultimately show ?thesis
    using strsep_join [of fs] assms(1) fs by (simp add: parse_functions_list_rev)
qed

theorem parse_functions_list_chain_witness:
  "parse_functions_list ''main>run>system'' = [''system'', ''run'', ''main'']"
  using parse_functions_list_chain [of "[''main'', ''run'', ''system'']"] by simp






text \<open>
  A media keyword ends the rule: after \<open>.log_media()\<close> in \<open>sp.global\<close> the rest of the rule is
  neither read nor checked, so a secret key that follows it is not set, without a message.
\<close>

theorem log_media_drops_the_rest:
  assumes "kw_kw media = ''log_media''" "kw_arg media = Some v" "c_str (unescape v) = ''php''"
  shows "sp_process_rule E (global_table E) (media # rest) st =
    ret (put_log (\<lambda>c. c\<lparr>log_path := None, log_type := SP_LOG_ZEND\<rparr>) (set_lineno (kw_lineno media) st), SUCCESS)"
  using assms
  by (simp add: global_table_def parse_log_media_def sp_get_arg_string_def with_arg_def stop_def Let_def put_log_def put_global_def)

theorem log_media_drops_the_rest_witness:
  "\<exists>st. sp_process_rule sample_php (global_table sample_php)
     [arg_kw 1 ''log_media'' ''php'', arg_kw 1 ''secret_key'' ''0123456789abcdef''] (sample_globals, ()) = ret (st, SUCCESS) \<and>
     cfg_encryption_key (fst st) = None"
proof -
  have v: "c_str (unescape ''php'') = ''php''" by code_simp
  have "cfg_encryption_key (fst (put_log f (set_lineno n (sample_globals, ())))) = None" for f n
    by (simp add: put_log_def put_global_def set_lineno_def sample_globals_def)
  moreover have m: "kw_kw (arg_kw 1 ''log_media'' ''php'') = ''log_media''" "kw_arg (arg_kw 1 ''log_media'' ''php'') = Some ''php''"
    by (simp_all add: arg_kw_def)
  ultimately show ?thesis unfolding log_media_drops_the_rest [OF m v] by blast
qed

end
