(* ===== verification/Ini_Protection.thy ===== *)
theory Ini_Protection
  imports Config_Wf
begin

text \<open>
  The INI protection, \<open>src/sp_ini.c\<close>: the check of a new value against its entry, the handler
  that runs it, and how the handler is put in front of the engine's own and taken away again.
  The engine's handlers, and base64, are parameters. The number parser is that of
  PHP 8.2 and later, \<open>ZEND_STRTOL\<close> with base 0.
\<close>

section \<open>The engine's settings\<close>

record zend_ini_entry =
  ini_value :: "string option"
  ini_on_modify :: "on_modify option"

type_synonym ini_directives = "(string \<times> zend_ini_entry) list"

text \<open>
  \<open>ig_call\<close> is an engine handler with the name and the new value: whether it accepts.
\<close>

record ini_engine =
  ig_base64 :: "string \<Rightarrow> string"
  ig_call :: "on_modify \<Rightarrow> string \<Rightarrow> string option \<Rightarrow> bool"

section \<open>Numbers in settings\<close>

text \<open>\<open>strtol\<close> with base 0 on 64 bits: the prefix decides the base, the value is clamped.\<close>

definition digit_in :: "nat \<Rightarrow> char \<Rightarrow> nat option" where
  "digit_in base c =
     (let v = (if is_digit c then byte c - 48
               else if is_lower c then byte c - 97 + 10
               else if is_upper c then byte c - 65 + 10 else 36)
      in if v < base then Some v else None)"

fun read_digits :: "nat \<Rightarrow> nat \<Rightarrow> string \<Rightarrow> nat" where
  "read_digits base acc [] = acc"
| "read_digits base acc (c # cs) =
     (case digit_in base c of None \<Rightarrow> acc | Some d \<Rightarrow> read_digits base (acc * base + d) cs)"

definition magnitude0 :: "string \<Rightarrow> nat" where
  "magnitude0 s =
     (case s of
        z # x # d # ds \<Rightarrow>
          if z = CHR ''0'' \<and> to_lower x = CHR ''x'' \<and> digit_in 16 d \<noteq> None then read_digits 16 0 (d # ds)
          else if z = CHR ''0'' then read_digits 8 0 s else read_digits 10 0 s
      | z # _ \<Rightarrow> if z = CHR ''0'' then read_digits 8 0 s else read_digits 10 0 s
      | [] \<Rightarrow> 0)"

definition ZEND_STRTOL :: "string \<Rightarrow> int" where
  "ZEND_STRTOL s =
     (let t = dropWhile is_space s;
          (neg, u) = (case t of
             c # cs \<Rightarrow> if c = CHR ''-'' then (True, cs) else if c = CHR ''+'' then (False, cs) else (False, t)
           | [] \<Rightarrow> (False, []));
          v = int (magnitude0 u)
      in max (- (2 ^ 63)) (min (2 ^ 63 - 1) (if neg then - v else v)))"

section \<open>The check\<close>

definition check_safe_key :: "string \<Rightarrow> bool" where
  "check_safe_key s \<longleftrightarrow> (\<forall>c\<in>set (c_str s). is_alnum c \<or> c = CHR ''_'' \<or> c = CHR ''.'')"

definition check_safe_value :: "string \<Rightarrow> bool" where
  "check_safe_value s \<longleftrightarrow> (\<forall>c\<in>set (c_str s). c \<noteq> CHR 0x27 \<and> c \<noteq> CHR 0x22 \<and> is_graph c)"

definition SP_INI_HAS_CHECKS :: "sp_ini_entry \<Rightarrow> bool" where
  "SP_INI_HAS_CHECKS e \<longleftrightarrow> ie_min e \<noteq> None \<or> ie_max e \<noteq> None \<or> ie_regexp e \<noteq> None"

definition SP_INI_ACCESS_READONLY :: "sp_ini_entry \<Rightarrow> sp_config_ini \<Rightarrow> bool" where
  "SP_INI_ACCESS_READONLY e cfg \<longleftrightarrow>
     ie_access e = SP_INI_READONLY \<or> (ie_access e = SP_INI_UNSET \<and> ini_policy_readonly cfg)"

definition sp_log_auto2 :: "log_env \<Rightarrow> string \<Rightarrow> bool \<Rightarrow> bool \<Rightarrow> string \<Rightarrow> unit eff" where
  "sp_log_auto2 L feature is_simulation dropping msg =
     sp_log_msgf L feature (if is_simulation \<or> \<not> dropping then E_WARNING else E_ERROR)
       (if is_simulation then SP_TYPE_SIMULATION else if dropping then SP_TYPE_DROP else SP_TYPE_LOG) msg"

definition entry_drop :: "sp_ini_entry option \<Rightarrow> bool" where
  "entry_drop e \<longleftrightarrow> (case e of Some e \<Rightarrow> ie_drop e | None \<Rightarrow> False)"

definition sp_log_ini_check_violation ::
  "php \<Rightarrow> sp_globals \<Rightarrow> bool \<Rightarrow> sp_ini_entry option \<Rightarrow> string \<Rightarrow> unit eff" where
  "sp_log_ini_check_violation E g simulation entry msg =
     (let cfg = cfg_ini g; dropping = (ini_policy_drop cfg \<or> entry_drop entry) in
      if simulation \<or> dropping \<or> \<not> ini_policy_silent_fail cfg
      then sp_log_auto2 (sp_env E g) ''ini_protection'' simulation dropping msg else ret ())"

definition ini_key :: "sp_ini_entry \<Rightarrow> string" where
  "ini_key e = (case ie_key e of Some k \<Rightarrow> c_str k | None \<Rightarrow> [])"

definition backticked :: "string \<Rightarrow> string" where
  "backticked s = ''`'' @ s @ ''`''"

definition entry_msg :: "sp_ini_entry \<Rightarrow> string \<Rightarrow> string" where
  "entry_msg e msg = (case ie_msg e of Some m \<Rightarrow> c_str m | None \<Rightarrow> msg)"

definition ini_simulated :: "sp_globals \<Rightarrow> sp_ini_entry option \<Rightarrow> bool" where
  "ini_simulated g entry \<longleftrightarrow> ini_simulation (cfg_ini g) \<or> (case entry of Some e \<Rightarrow> ie_simulation e | None \<Rightarrow> False)"

definition out_of_range :: "sp_ini_entry \<Rightarrow> string \<Rightarrow> bool" where
  "out_of_range e new_value \<longleftrightarrow>
     (case ie_min e of Some m \<Rightarrow> ZEND_STRTOL (c_str m) > ZEND_STRTOL (c_str new_value) | None \<Rightarrow> False) \<or>
     (case ie_max e of Some m \<Rightarrow> ZEND_STRTOL (c_str m) < ZEND_STRTOL (c_str new_value) | None \<Rightarrow> False)"

definition regexp_rejects :: "php \<Rightarrow> sp_ini_entry \<Rightarrow> string \<Rightarrow> bool" where
  "regexp_rejects E e new_value \<longleftrightarrow>
     (case ie_regexp e of Some r \<Rightarrow> \<not> sp_is_regexp_matching_zstr E r new_value | None \<Rightarrow> False)"

definition regexp_msg :: "ini_engine \<Rightarrow> sp_ini_entry \<Rightarrow> string \<Rightarrow> string" where
  "regexp_msg G e new_value =
     ''INI value '' @ backticked (if check_safe_value new_value then c_str new_value else c_str (ig_base64 G new_value)) @
     (if check_safe_value new_value then [] else ''(base64)'') @ '' for '' @ backticked (ini_key e) @ '' does not match regex''"

text \<open>The whole check: whether the modification goes on. A read-only entry comes first.\<close>

definition sp_ini_check :: "php \<Rightarrow> ini_engine \<Rightarrow> sp_globals \<Rightarrow> string option \<Rightarrow> string option \<Rightarrow> bool eff" where
  "sp_ini_check E G g varname new_value =
     (case varname of
        None \<Rightarrow> ret False
      | Some name \<Rightarrow>
          if name = [] then ret False
          else
            let cfg = cfg_ini g; entry = zh_find (ini_entries cfg) name; simulation = ini_simulated g entry;
                violation = (\<lambda>msg. eseq (sp_log_ini_check_violation E g simulation entry msg) (ret simulation))
            in case entry of
              None \<Rightarrow>
                if ini_policy_readonly cfg then
                  (if ini_policy_silent_ro cfg then ret simulation
                   else violation (''INI setting '' @ backticked (if check_safe_key name then c_str name else ''<invalid>'') @ '' is read-only''))
                else ret True
            | Some e \<Rightarrow>
                if SP_INI_ACCESS_READONLY e cfg then
                  (if ini_policy_silent_ro cfg then ret simulation
                   else violation (entry_msg e (''INI setting '' @ backticked (ini_key e) @ '' is read-only'')))
                else (case new_value of
                  None \<Rightarrow>
                    if ie_allow_null e then ret True
                    else if SP_INI_HAS_CHECKS e then violation (''new INI value for '' @ backticked (ini_key e) @ '' must not be NULL or empty'')
                    else ret True
                | Some v \<Rightarrow>
                    if v = [] then
                      (if ie_allow_null e then ret True
                       else if SP_INI_HAS_CHECKS e then violation (''new INI value for '' @ backticked (ini_key e) @ '' must not be NULL or empty'')
                       else ret True)
                    else if out_of_range e v then
                      violation (entry_msg e (''INI value '' @ show_int (ZEND_STRTOL (c_str v)) @ '' for '' @ backticked (ini_key e) @ '' out of range''))
                    else if regexp_rejects E e v then violation (entry_msg e (regexp_msg G e v))
                    else ret True))"

text \<open>\<open>sp_ini_onmodify\<close>: the handler of a protected setting.\<close>

definition sp_ini_onmodify :: "php \<Rightarrow> ini_engine \<Rightarrow> sp_globals \<Rightarrow> string \<Rightarrow> string option \<Rightarrow> zend_result eff" where
  "sp_ini_onmodify E G g name new_value =
     ebind (sp_ini_check E G g (Some name) new_value) (\<lambda>ok.
       if \<not> ok then ret FAILURE
       else case zh_find (ini_entries (cfg_ini g)) name of
         Some e \<Rightarrow> (case ie_orig_onmodify e of
             Some orig \<Rightarrow> ret (if ig_call G orig name new_value then SUCCESS else FAILURE)
           | None \<Rightarrow> ret SUCCESS)
       | None \<Rightarrow> ret SUCCESS)"

section \<open>Hooking\<close>

text \<open>
  One turn of the loop of \<open>sp_hook_ini\<close>: it may put \<open>sp_ini_onmodify\<close> in front of the handler,
  which the entry then remembers, and set the initial value.
\<close>

definition hook_ini_one ::
  "php \<Rightarrow> ini_engine \<Rightarrow> sp_globals \<Rightarrow> sp_ini_entry \<Rightarrow> ini_directives \<Rightarrow> (sp_ini_entry \<times> ini_directives) eff" where
  "hook_ini_one E G g e dirs =
     (let key = (case ie_key e of Some k \<Rightarrow> k | None \<Rightarrow> []); cfg = cfg_ini g in
      case zh_find dirs key of
        None \<Rightarrow>
          eseq (sp_log_warn (sp_env E g) ''ini_protection''
                 (''Cannot hook INI var '' @ backticked (ini_key e) @ ''. Maybe a typo or the PHP extension providing this var is not loaded yet.''))
            (ret (e, dirs))
      | Some ini \<Rightarrow>
          let orig = ini_on_modify ini; hooked = (SP_INI_HAS_CHECKS e \<or> SP_INI_ACCESS_READONLY e cfg);
              e1 = (if hooked then e\<lparr>ie_orig_onmodify := orig\<rparr> else e);
              ini1 = (if hooked then ini\<lparr>ini_on_modify := Some OnModify_Sp\<rparr> else ini)
          in case ie_set e of
               None \<Rightarrow> ret (e1, zh_update dirs key ini1)
             | Some v \<Rightarrow>
                 if (case orig of None \<Rightarrow> True | Some h \<Rightarrow> ig_call G h key (Some v))
                 then ret (e1, zh_update dirs key (ini1\<lparr>ini_value := Some v\<rparr>))
                 else eseq (sp_log_warn (sp_env E g) ''ini_protection'' (''Failed to set INI var '' @ backticked (ini_key e) @ ''.''))
                        (ret (e1, zh_update dirs key ini1)))"

fun hook_ini_all ::
  "php \<Rightarrow> ini_engine \<Rightarrow> sp_globals \<Rightarrow> (string \<times> sp_ini_entry) list \<Rightarrow> ini_directives \<Rightarrow>
   ((string \<times> sp_ini_entry) list \<times> ini_directives) eff" where
  "hook_ini_all E G g [] dirs = ret ([], dirs)"
| "hook_ini_all E G g ((k, e) # es) dirs =
     ebind (hook_ini_one E G g e dirs) (\<lambda>(e1, dirs1).
       ebind (hook_ini_all E G g es dirs1) (\<lambda>(es1, dirs2). ret ((k, e1) # es1, dirs2)))"

definition put_entries :: "(string \<times> sp_ini_entry) list \<Rightarrow> sp_globals \<Rightarrow> sp_globals" where
  "put_entries es g = g\<lparr>cfg_ini := (cfg_ini g)\<lparr>ini_entries := es\<rparr>\<rparr>"

definition sp_hook_ini :: "php \<Rightarrow> ini_engine \<Rightarrow> sp_globals \<Rightarrow> ini_directives \<Rightarrow> (sp_globals \<times> ini_directives) eff" where
  "sp_hook_ini E G g dirs =
     ebind (hook_ini_all E G g (ini_entries (cfg_ini g)) dirs) (\<lambda>(es, dirs'). ret (put_entries es g, dirs'))"

definition unhook_ini_one :: "sp_ini_entry \<Rightarrow> ini_directives \<Rightarrow> sp_ini_entry \<times> ini_directives" where
  "unhook_ini_one e dirs =
     (let key = (case ie_key e of Some k \<Rightarrow> k | None \<Rightarrow> []) in
      case zh_find dirs key of
        None \<Rightarrow> (e, dirs)
      | Some ini \<Rightarrow>
          (e\<lparr>ie_orig_onmodify := None\<rparr>,
           if ini_on_modify ini = Some OnModify_Sp then zh_update dirs key (ini\<lparr>ini_on_modify := ie_orig_onmodify e\<rparr>) else dirs))"

fun unhook_ini_all ::
  "(string \<times> sp_ini_entry) list \<Rightarrow> ini_directives \<Rightarrow> (string \<times> sp_ini_entry) list \<times> ini_directives" where
  "unhook_ini_all [] dirs = ([], dirs)"
| "unhook_ini_all ((k, e) # es) dirs =
     (let (e1, dirs1) = unhook_ini_one e dirs; (es1, dirs2) = unhook_ini_all es dirs1 in ((k, e1) # es1, dirs2))"

definition sp_unhook_ini :: "sp_globals \<Rightarrow> ini_directives \<Rightarrow> sp_globals \<times> ini_directives" where
  "sp_unhook_ini g dirs =
     (let (es, dirs') = unhook_ini_all (ini_entries (cfg_ini g)) dirs in (put_entries es g, dirs'))"

section \<open>The verdict\<close>

text \<open>What a violation is, apart from its message and its consequences.\<close>

definition readonly_violation :: "sp_config_ini \<Rightarrow> sp_ini_entry option \<Rightarrow> bool" where
  "readonly_violation cfg entry \<longleftrightarrow>
     (case entry of None \<Rightarrow> ini_policy_readonly cfg | Some e \<Rightarrow> SP_INI_ACCESS_READONLY e cfg)"

definition value_violation :: "php \<Rightarrow> sp_ini_entry option \<Rightarrow> string option \<Rightarrow> bool" where
  "value_violation E entry new_value \<longleftrightarrow>
     (case entry of None \<Rightarrow> False
      | Some e \<Rightarrow>
          if new_value = None \<or> new_value = Some [] then \<not> ie_allow_null e \<and> SP_INI_HAS_CHECKS e
          else out_of_range e (the new_value) \<or> regexp_rejects E e (the new_value))"

definition ini_dropping :: "sp_globals \<Rightarrow> sp_ini_entry option \<Rightarrow> bool" where
  "ini_dropping g entry \<longleftrightarrow> ini_policy_drop (cfg_ini g) \<or> entry_drop entry"

text \<open>How the check ends, and how many lines it logs, in terms of these.\<close>

definition check_outcome :: "php \<Rightarrow> sp_globals \<Rightarrow> sp_ini_entry option \<Rightarrow> string option \<Rightarrow> bool outcome \<times> nat" where
  "check_outcome E g entry new_value =
     (let cfg = cfg_ini g; simulated = ini_simulated g entry;
          silenced = (readonly_violation cfg entry \<and> ini_policy_silent_ro cfg);
          violated = (readonly_violation cfg entry \<or> value_violation E entry new_value)
      in (if \<not> violated \<or> simulated then Done True
          else if \<not> silenced \<and> ini_dropping g entry then Bailout else Done False,
          of_bool (violated \<and> \<not> silenced \<and> (simulated \<or> ini_dropping g entry \<or> \<not> ini_policy_silent_fail cfg))))"

lemma fst_ret [simp]: "fst (ret x) = []"
  by (simp add: ret_def)

lemma snd_violation: "snd (sp_log_ini_check_violation E g sim entry msg) =
    (if ini_dropping g entry \<and> \<not> sim then Bailout else Done ())"
  by (simp add: sp_log_ini_check_violation_def sp_log_auto2_def ini_dropping_def Let_def snd_sp_log_warning)

lemma length_violation: "length (fst (sp_log_ini_check_violation E g sim entry msg)) =
    of_bool (sim \<or> ini_dropping g entry \<or> \<not> ini_policy_silent_fail (cfg_ini g))"
  by (simp add: sp_log_ini_check_violation_def sp_log_auto2_def ini_dropping_def Let_def)

lemma sp_ini_check_outcome:
  assumes "name \<noteq> []"
  shows "(snd (sp_ini_check E G g (Some name) new_value), length (fst (sp_ini_check E G g (Some name) new_value))) =
    check_outcome E g (zh_find (ini_entries (cfg_ini g)) name) new_value"
proof (cases "zh_find (ini_entries (cfg_ini g)) name")
  case None
  then show ?thesis using assms
    by (simp add: check_outcome_def sp_ini_check_def Let_def readonly_violation_def value_violation_def eff_simps snd_violation length_violation)
next
  case (Some e)
  then show ?thesis using assms
    by (cases new_value)
      (simp_all add: check_outcome_def sp_ini_check_def Let_def readonly_violation_def value_violation_def eff_simps snd_violation length_violation)
qed

section \<open>The documented policy\<close>

text \<open>
  An integer as it is written in decimal, without blanks, leading zeroes or a suffix, in 64 bits. Its
  value owes nothing to the parser of the code.
\<close>

definition integer_value :: "string \<Rightarrow> int" where
  "integer_value s = (case s of c # cs \<Rightarrow> if c = CHR ''-'' then - int (dec_value cs) else int (dec_value s) | [] \<Rightarrow> 0)"

definition plain_integer :: "string \<Rightarrow> bool" where
  "plain_integer s \<longleftrightarrow> s = show_int (integer_value s) \<and> - (2 ^ 63) \<le> integer_value s \<and> integer_value s < 2 ^ 63"

text \<open>
  What \<open>doc/source/config.rst\<close> and \<open>config/ini_protection.rules\<close> say of a setting: when it is read-only,
  and which values its entry allows.
\<close>

definition setting_readonly :: "sp_globals \<Rightarrow> sp_ini_entry option \<Rightarrow> bool" where
  "setting_readonly g entry \<longleftrightarrow>
     (case entry of
        None \<Rightarrow> ini_policy_readonly (cfg_ini g)
      | Some e \<Rightarrow> ie_access e = SP_INI_READONLY \<or> ie_access e \<noteq> SP_INI_READWRITE \<and> ini_policy_readonly (cfg_ini g))"

definition value_allowed :: "php \<Rightarrow> sp_ini_entry \<Rightarrow> string option \<Rightarrow> bool" where
  "value_allowed E e new_value \<longleftrightarrow>
     (if new_value \<in> {None, Some []} then ie_allow_null e \<or> ie_min e = None \<and> ie_max e = None \<and> ie_regexp e = None
      else (\<forall>m\<in>set_option (ie_min e). integer_value m \<le> integer_value (the new_value)) \<and>
        (\<forall>m\<in>set_option (ie_max e). integer_value (the new_value) \<le> integer_value m) \<and>
        (\<forall>r\<in>set_option (ie_regexp e). e_rx E (c_str (rx_pattern r)) (the new_value)))"

text \<open>Limits, and what is compared with them, are plain integers; the access is one of the three there are.\<close>

definition plain_entry :: "sp_ini_entry \<Rightarrow> string option \<Rightarrow> bool" where
  "plain_entry e new_value \<longleftrightarrow>
     ie_access e \<in> {SP_INI_READONLY, SP_INI_READWRITE, SP_INI_UNSET} \<and>
     (\<forall>m\<in>set_option (ie_min e) \<union> set_option (ie_max e). plain_integer m) \<and>
     (new_value \<notin> {None, Some []} \<and> (ie_min e \<noteq> None \<or> ie_max e \<noteq> None) \<longrightarrow> plain_integer (the new_value))"

definition setting_simulated :: "sp_globals \<Rightarrow> sp_ini_entry option \<Rightarrow> bool" where
  "setting_simulated g entry \<longleftrightarrow> ini_simulation (cfg_ini g) \<or> (\<exists>e\<in>set_option entry. ie_simulation e)"

definition setting_drops :: "sp_globals \<Rightarrow> sp_ini_entry option \<Rightarrow> bool" where
  "setting_drops g entry \<longleftrightarrow> ini_policy_drop (cfg_ini g) \<or> (\<exists>e\<in>set_option entry. ie_drop e)"

text \<open>How a modification ends, and how many lines are logged.\<close>

definition ini_policy :: "php \<Rightarrow> sp_globals \<Rightarrow> sp_ini_entry option \<Rightarrow> string option \<Rightarrow> bool outcome \<times> nat" where
  "ini_policy E g entry new_value =
     (if \<not> setting_readonly g entry \<and> (\<forall>e\<in>set_option entry. value_allowed E e new_value) then (Done True, 0)
      else if setting_simulated g entry then (Done True, 1)
      else if setting_drops g entry then (Bailout, 1)
      else if ini_policy_silent_fail (cfg_ini g) \<or> ini_policy_silent_ro (cfg_ini g) \<and> setting_readonly g entry then (Done False, 0)
      else (Done False, 1))"

lemma hd_show_nat: "0 < n \<Longrightarrow> hd (show_nat n) \<noteq> CHR ''0''"
proof (induction n rule: show_nat.induct)
  case (1 n)
  show ?case
  proof (cases "n < 10")
    case True
    have "char_of (48 + n) \<noteq> CHR ''0''"
    proof
      assume "char_of (48 + n) = CHR ''0''"
      then have "byte (char_of (48 + n)) = byte CHR ''0''" by (rule arg_cong)
      then show False using 1 True by simp
    qed
    then show ?thesis using True by (subst show_nat.simps) simp
  next
    case False
    then show ?thesis using 1 by (subst show_nat.simps) simp
  qed
qed

lemma magnitude0_decimal: "c \<noteq> CHR ''0'' \<Longrightarrow> magnitude0 (c # t) = read_digits 10 0 (c # t)"
  by (cases t; cases "tl t") (simp_all add: magnitude0_def)

lemma read_digits_dec: "\<forall>c\<in>set s. is_digit c \<Longrightarrow> read_digits 10 acc s = foldl (\<lambda>n c. 10 * n + digit_val c) acc s"
  by (induction s arbitrary: acc) (auto simp: digit_in_def is_digit_def digit_val_def Let_def mult.commute)

lemma magnitude0_show_nat: "magnitude0 (show_nat n) = n"
proof (cases "0 < n")
  case True
  then have "hd (show_nat n) \<noteq> CHR ''0''" by (rule hd_show_nat)
  then have "magnitude0 (show_nat n) = read_digits 10 0 (show_nat n)" by (cases "show_nat n") (simp_all add: magnitude0_decimal)
  also have "\<dots> = dec_value (show_nat n)" using show_nat_digits [of _ n] by (simp add: read_digits_dec dec_value_def)
  finally show ?thesis by simp
next
  case False
  then show ?thesis by simp code_simp
qed

lemma show_nat_c_str: "c_str (show_nat n) = show_nat n"
proof -
  have "NUL \<notin> set (show_nat n)" using show_nat_digits [of NUL n] by (auto simp: is_digit_def)
  then show ?thesis by simp
qed

lemma show_nat_starts: "\<exists>c cs. show_nat n = c # cs \<and> \<not> is_space c \<and> c \<noteq> CHR ''-'' \<and> c \<noteq> CHR ''+''"
proof -
  obtain c cs where c: "show_nat n = c # cs" by (cases "show_nat n") auto
  then have "is_digit c" using show_nat_digits [of c n] by simp
  then show ?thesis using c by (auto simp: is_digit_def is_space_def)
qed

text \<open>On plain integers the parser of the code is right.\<close>

lemma ZEND_STRTOL_plain:
  assumes "plain_integer s"
  shows "ZEND_STRTOL (c_str s) = integer_value s"
proof -
  let ?n = "integer_value s"
  have s: "s = show_int ?n" and range: "- (2 ^ 63) \<le> ?n" "?n < 2 ^ 63" using assms by (simp_all add: plain_integer_def)
  obtain c cs where c: "show_nat (nat \<bar>?n\<bar>) = c # cs" "\<not> is_space c" "c \<noteq> CHR ''-''" "c \<noteq> CHR ''+''"
    using show_nat_starts by blast
  note m = magnitude0_show_nat [of "nat \<bar>?n\<bar>", unfolded c(1)]
  show ?thesis
  proof (cases "?n < 0")
    case True
    then have t: "s = CHR ''-'' # c # cs" using s c(1) by (simp add: show_int_def)
    moreover have "c_str (c # cs) = c # cs" using show_nat_c_str [of "nat \<bar>?n\<bar>"] c(1) by simp
    ultimately have "c_str s = CHR ''-'' # c # cs" by (simp add: c_str_def)
    then show ?thesis using m range True by (simp add: ZEND_STRTOL_def is_space_def)
  next
    case False
    then have "c_str s = c # cs" using s c(1) show_nat_c_str [of "nat \<bar>?n\<bar>"] by (simp add: show_int_def)
    then show ?thesis using m range False c by (simp add: ZEND_STRTOL_def)
  qed
qed

lemma plain_out_of_range:
  assumes "plain_entry e (Some v)" "v \<noteq> []"
  shows "out_of_range e v \<longleftrightarrow> \<not> ((\<forall>m\<in>set_option (ie_min e). integer_value m \<le> integer_value v) \<and>
    (\<forall>m\<in>set_option (ie_max e). integer_value v \<le> integer_value m))"
  using assms by (cases "ie_min e"; cases "ie_max e") (auto simp: plain_entry_def out_of_range_def ZEND_STRTOL_plain)

lemma plain_value_violation:
  assumes "plain_entry e new_value"
  shows "value_violation E (Some e) new_value \<longleftrightarrow> \<not> value_allowed E e new_value"
proof (cases "new_value \<in> {None, Some []}")
  case True
  then show ?thesis by (auto simp: value_violation_def value_allowed_def SP_INI_HAS_CHECKS_def)
next
  case False
  then obtain v where v: "new_value = Some v" "v \<noteq> []" by auto
  have "regexp_rejects E e v \<longleftrightarrow> \<not> (\<forall>r\<in>set_option (ie_regexp e). e_rx E (c_str (rx_pattern r)) v)"
    by (simp add: regexp_rejects_def sp_is_regexp_matching_zstr_def sp_is_regexp_matching_len_def split: option.split)
  then show ?thesis using assms v plain_out_of_range by (auto simp: value_violation_def value_allowed_def)
qed

text \<open>
  C17. The INI check does what is documented: a modification goes on without a word when the setting is
  not read-only and its entry allows the value; otherwise it goes on with a line in the log in simulation,
  drops the request with a line when the policy or the entry says so, and else is refused, with a line
  unless violations, or those of read-only settings, are silenced. The limits of the entry and a value
  that is compared with them are decimal integers of 64 bits, and the silencing of read-only
  settings does not meet simulation or dropping.
\<close>

theorem sp_ini_check_verdict:
  assumes "name \<noteq> []" "zh_find (ini_entries (cfg_ini g)) name = entry"
    and plain: "\<forall>e\<in>set_option entry. plain_entry e new_value"
    and silent: "ini_policy_silent_ro (cfg_ini g) \<and> setting_readonly g entry \<longrightarrow> \<not> setting_simulated g entry \<and> \<not> setting_drops g entry"
  shows "(snd (sp_ini_check E G g (Some name) new_value), length (fst (sp_ini_check E G g (Some name) new_value))) =
    ini_policy E g entry new_value"
proof -
  have ro: "readonly_violation (cfg_ini g) entry \<longleftrightarrow> setting_readonly g entry"
    using plain by (cases entry)
      (auto simp: readonly_violation_def setting_readonly_def SP_INI_ACCESS_READONLY_def plain_entry_def SP_INI_READONLY_def
        SP_INI_READWRITE_def SP_INI_UNSET_def)
  have violated: "value_violation E entry new_value \<longleftrightarrow> \<not> (\<forall>e\<in>set_option entry. value_allowed E e new_value)"
  proof (cases entry)
    case None
    then show ?thesis by (simp add: value_violation_def)
  next
    case (Some e)
    then show ?thesis using plain plain_value_violation [of e new_value E] by simp
  qed
  have sim: "ini_simulated g entry \<longleftrightarrow> setting_simulated g entry" "ini_dropping g entry \<longleftrightarrow> setting_drops g entry"
    by (cases entry; simp add: ini_simulated_def setting_simulated_def ini_dropping_def entry_drop_def setting_drops_def)+
  show ?thesis
    unfolding sp_ini_check_outcome [OF assms(1)] assms(2) check_outcome_def ini_policy_def Let_def ro violated sim
    using silent by auto
qed

definition sample_entry :: sp_ini_entry where
  "sample_entry = zero_ini_entry\<lparr>ie_key := Some ''memory_limit'', ie_max := Some ''256'', ie_drop := True\<rparr>"

definition ini_globals :: sp_globals where
  "ini_globals = put_entries [(''memory_limit'', sample_entry)] sample_globals"

definition sample_ini :: ini_engine where
  "sample_ini = \<lparr>ig_base64 = (\<lambda>s. s), ig_call = (\<lambda>h n v. True)\<rparr>"

theorem sp_ini_check_verdict_witness:
  "snd (sp_ini_check sample_php sample_ini ini_globals (Some ''memory_limit'') (Some ''512'')) = Bailout"
proof -
  have n: "plain_integer ''512''" "plain_integer ''256''" "integer_value ''512'' = 512" "integer_value ''256'' = 256" by code_simp+
  have e: "zh_find (ini_entries (cfg_ini ini_globals)) ''memory_limit'' = Some sample_entry"
    and cfg: "ini_policy_silent_ro (cfg_ini ini_globals) = False" "ini_simulation (cfg_ini ini_globals) = False"
    by (simp_all add: ini_globals_def put_entries_def sample_globals_def)
  have plain: "plain_entry sample_entry (Some ''512'')"
    by (simp add: plain_entry_def sample_entry_def zero_ini_entry_def SP_INI_UNSET_def n)
  have "ini_policy sample_php ini_globals (Some sample_entry) (Some ''512'') = (Bailout, 1)"
    by (simp add: ini_policy_def value_allowed_def setting_simulated_def setting_drops_def cfg sample_entry_def zero_ini_entry_def n)
  then show ?thesis
    using sp_ini_check_verdict [of "''memory_limit''" ini_globals "Some sample_entry" "Some ''512''" sample_php sample_ini] e plain cfg by simp
qed

section \<open>Hooking and unhooking\<close>

abbreviation handler_of :: "ini_directives \<Rightarrow> string \<Rightarrow> on_modify option option" where
  "handler_of dirs n \<equiv> map_option ini_on_modify (zh_find dirs n)"

definition hooked_from :: "ini_directives \<Rightarrow> ini_directives \<Rightarrow> string \<times> sp_ini_entry \<Rightarrow> bool" where
  "hooked_from dirs dirs' ke \<longleftrightarrow>
     (handler_of dirs' (fst ke) = handler_of dirs (fst ke) \<or>
      handler_of dirs' (fst ke) = Some (Some OnModify_Sp) \<and> handler_of dirs (fst ke) = Some (ie_orig_onmodify (snd ke)))"

definition keyed :: "(string \<times> sp_ini_entry) list \<Rightarrow> bool" where
  "keyed es \<longleftrightarrow> zh_wf es \<and> (\<forall>(k, e)\<in>set es. ie_key e = Some k)"

lemma keyed_Cons: "keyed ((k, e) # es) \<longleftrightarrow> ie_key e = Some k \<and> k \<notin> fst ` set es \<and> keyed es"
  by (auto simp: keyed_def zh_wf_def)

lemma hook_ini_one_spec:
  assumes "ie_key e = Some k"
  shows "\<exists>e1 dirs1. snd (hook_ini_one E G g e dirs) = Done (e1, dirs1) \<and> ie_key e1 = Some k \<and>
    (\<forall>n. n \<noteq> k \<longrightarrow> zh_find dirs1 n = zh_find dirs n) \<and> hooked_from dirs dirs1 (k, e1) \<and>
    (handler_of dirs k \<noteq> None \<longrightarrow> SP_INI_HAS_CHECKS e \<or> SP_INI_ACCESS_READONLY e (cfg_ini g) \<longrightarrow>
       handler_of dirs1 k = Some (Some OnModify_Sp))"
  using assms
  by (cases "zh_find dirs k"; cases "ie_set e")
    (simp_all add: hook_ini_one_def Let_def snd_eseq zh_find_update hooked_from_def)

lemma hook_ini_all_spec:
  assumes "keyed es"
  shows "\<exists>es1 dirs1. snd (hook_ini_all E G g es dirs) = Done (es1, dirs1) \<and> map fst es1 = map fst es \<and> keyed es1 \<and>
    (\<forall>n. n \<notin> fst ` set es \<longrightarrow> zh_find dirs1 n = zh_find dirs n) \<and> (\<forall>ke\<in>set es1. hooked_from dirs dirs1 ke) \<and>
    (\<forall>(k, e)\<in>set es. handler_of dirs k \<noteq> None \<longrightarrow> SP_INI_HAS_CHECKS e \<or> SP_INI_ACCESS_READONLY e (cfg_ini g) \<longrightarrow>
       handler_of dirs1 k = Some (Some OnModify_Sp))"
  using assms
proof (induction es arbitrary: dirs)
  case (Cons ke es)
  obtain k e where ke: "ke = (k, e)" by (cases ke)
  have k: "ie_key e = Some k" "k \<notin> fst ` set es" "keyed es" using Cons.prems by (simp_all add: ke keyed_Cons)
  obtain e1 dirs1 where one: "snd (hook_ini_one E G g e dirs) = Done (e1, dirs1)" "ie_key e1 = Some k"
      "\<forall>n. n \<noteq> k \<longrightarrow> zh_find dirs1 n = zh_find dirs n" "hooked_from dirs dirs1 (k, e1)"
      "handler_of dirs k \<noteq> None \<longrightarrow> SP_INI_HAS_CHECKS e \<or> SP_INI_ACCESS_READONLY e (cfg_ini g) \<longrightarrow>
       handler_of dirs1 k = Some (Some OnModify_Sp)"
    using hook_ini_one_spec [OF k(1), of E G g dirs] by blast
  obtain es2 dirs2 where all: "snd (hook_ini_all E G g es dirs1) = Done (es2, dirs2)" "map fst es2 = map fst es" "keyed es2"
      "\<forall>n. n \<notin> fst ` set es \<longrightarrow> zh_find dirs2 n = zh_find dirs1 n" "\<forall>ke\<in>set es2. hooked_from dirs1 dirs2 ke"
      "\<forall>(k, e)\<in>set es. handler_of dirs1 k \<noteq> None \<longrightarrow> SP_INI_HAS_CHECKS e \<or> SP_INI_ACCESS_READONLY e (cfg_ini g) \<longrightarrow>
       handler_of dirs2 k = Some (Some OnModify_Sp)"
    using Cons.IH [OF k(3), of dirs1] by blast
  have fsts: "fst ` set es2 = fst ` set es" using all(2) by (metis set_map)
  have same: "zh_find dirs1 (fst x) = zh_find dirs (fst x)" if "x \<in> set es \<union> set es2" for x
    using that one(3) k(2) fsts by (metis Un_iff image_eqI)
  have "snd (hook_ini_all E G g (ke # es) dirs) = Done ((k, e1) # es2, dirs2)"
    using one(1) all(1) by (simp add: ke snd_ebind)
  moreover have "map fst ((k, e1) # es2) = map fst (ke # es)" "keyed ((k, e1) # es2)"
    using all(2, 3) one(2) k(2) fsts by (simp_all add: ke keyed_Cons)
  moreover have "\<forall>n. n \<notin> fst ` set (ke # es) \<longrightarrow> zh_find dirs2 n = zh_find dirs n"
    using all(4) one(3) by (simp add: ke)
  moreover have "\<forall>x\<in>set ((k, e1) # es2). hooked_from dirs dirs2 x"
    using one(4) all(4, 5) k(2) same by (simp add: hooked_from_def)
  moreover have "\<forall>(k, e)\<in>set (ke # es). handler_of dirs k \<noteq> None \<longrightarrow> SP_INI_HAS_CHECKS e \<or> SP_INI_ACCESS_READONLY e (cfg_ini g) \<longrightarrow>
       handler_of dirs2 k = Some (Some OnModify_Sp)"
    using one(5) all(4, 6) k(2) same by (fastforce simp: ke)
  ultimately show ?case by blast
qed (simp add: keyed_def)

lemma hook_ini_one_entry:
  "snd (hook_ini_one E G g e dirs) = Done (e1, dirs1) \<Longrightarrow> ie_key e1 = ie_key e \<and> ie_access e1 = ie_access e"
  by (auto simp: hook_ini_one_def Let_def snd_eseq split: option.splits if_splits)

lemma hook_ini_all_entries:
  "snd (hook_ini_all E G g es dirs) = Done (es1, dirs1) \<Longrightarrow>
   map (\<lambda>(k, e). (k, ie_key e, ie_access e)) es1 = map (\<lambda>(k, e). (k, ie_key e, ie_access e)) es"
proof (induction es arbitrary: dirs es1)
  case (Cons ke es)
  then show ?case by (cases ke) (auto simp: ebind_Done_iff dest!: hook_ini_one_entry)
qed simp

lemma unhook_ini_one_spec:
  assumes "ie_key e = Some k" "unhook_ini_one e dirs = (e1, dirs1)"
  shows "ie_key e1 = Some k" "n \<noteq> k \<Longrightarrow> zh_find dirs1 n = zh_find dirs n"
    "handler_of dirs1 k = (if handler_of dirs k = Some (Some OnModify_Sp) then Some (ie_orig_onmodify e) else handler_of dirs k)"
  using assms by (auto simp: unhook_ini_one_def Let_def zh_find_update split: option.splits if_splits)

lemma unhook_ini_all_spec:
  assumes "keyed es" "unhook_ini_all es dirs = (es1, dirs1)"
  shows "(\<forall>n. n \<notin> fst ` set es \<longrightarrow> zh_find dirs1 n = zh_find dirs n) \<and>
    (\<forall>(k, e)\<in>set es. handler_of dirs1 k =
      (if handler_of dirs k = Some (Some OnModify_Sp) then Some (ie_orig_onmodify e) else handler_of dirs k))"
  using assms
proof (induction es arbitrary: dirs es1)
  case (Cons ke es)
  obtain k e where ke: "ke = (k, e)" by (cases ke)
  have k: "ie_key e = Some k" "k \<notin> fst ` set es" "keyed es" using Cons.prems by (simp_all add: ke keyed_Cons)
  obtain e' dirs' where one: "unhook_ini_one e dirs = (e', dirs')" by fastforce
  obtain es2 where all: "unhook_ini_all es dirs' = (es2, dirs1)"
    using Cons.prems(2) one by (auto simp: ke Let_def split: prod.splits)
  note u = unhook_ini_one_spec [OF k(1) one] and IH = Cons.IH [OF k(3) all]
  have same: "zh_find dirs' (fst x) = zh_find dirs (fst x)" if "x \<in> set es" for x
    using that u(2) k(2) by (metis image_eqI)
  show ?case using IH u(2, 3) k(2) same by (fastforce simp: ke)
qed simp

lemma ini_hook_restored:
  assumes "keyed (ini_entries (cfg_ini g))" "\<forall>n. handler_of dirs n \<noteq> Some (Some OnModify_Sp)"
  shows "\<exists>g1 dirs1. snd (sp_hook_ini E G g dirs) = Done (g1, dirs1) \<and>
    (\<forall>(k, e)\<in>set (ini_entries (cfg_ini g)). handler_of dirs k \<noteq> None \<longrightarrow>
       SP_INI_HAS_CHECKS e \<or> SP_INI_ACCESS_READONLY e (cfg_ini g) \<longrightarrow> handler_of dirs1 k = Some (Some OnModify_Sp)) \<and>
    (\<forall>n. n \<notin> fst ` set (ini_entries (cfg_ini g)) \<longrightarrow> handler_of dirs1 n = handler_of dirs n) \<and>
    (\<forall>n. handler_of (snd (sp_unhook_ini g1 dirs1)) n = handler_of dirs n)"
proof -
  let ?es = "ini_entries (cfg_ini g)"
  obtain es1 dirs1 where h: "snd (hook_ini_all E G g ?es dirs) = Done (es1, dirs1)" "map fst es1 = map fst ?es" "keyed es1"
      "\<forall>n. n \<notin> fst ` set ?es \<longrightarrow> zh_find dirs1 n = zh_find dirs n" "\<forall>ke\<in>set es1. hooked_from dirs dirs1 ke"
      "\<forall>(k, e)\<in>set ?es. handler_of dirs k \<noteq> None \<longrightarrow> SP_INI_HAS_CHECKS e \<or> SP_INI_ACCESS_READONLY e (cfg_ini g) \<longrightarrow>
       handler_of dirs1 k = Some (Some OnModify_Sp)"
    using hook_ini_all_spec [OF assms(1), of E G g dirs] by blast
  obtain es2 dirs2 where u: "unhook_ini_all es1 dirs1 = (es2, dirs2)" by fastforce
  note spec = unhook_ini_all_spec [OF h(3) u]
  have fsts: "fst ` set es1 = fst ` set ?es" using h(2) by (metis set_map)
  have "handler_of dirs2 n = handler_of dirs n" for n
  proof (cases "n \<in> fst ` set es1")
    case True
    then obtain e where e: "(n, e) \<in> set es1" by auto
    then have "hooked_from dirs dirs1 (n, e)" using h(5) by blast
    moreover have "handler_of dirs2 n =
        (if handler_of dirs1 n = Some (Some OnModify_Sp) then Some (ie_orig_onmodify e) else handler_of dirs1 n)"
      using spec e by blast
    ultimately show ?thesis using assms(2) unfolding hooked_from_def fst_conv snd_conv by metis
  next
    case False
    then show ?thesis using spec h(4) fsts by simp
  qed
  moreover have "snd (sp_hook_ini E G g dirs) = Done (put_entries es1 g, dirs1)"
    using h(1) by (simp add: sp_hook_ini_def snd_ebind)
  moreover have "snd (sp_unhook_ini (put_entries es1 g) dirs1) = dirs2"
    using u by (simp add: sp_unhook_ini_def put_entries_def)
  ultimately show ?thesis using h(4, 6) by auto
qed

text \<open>
  Protecting settings is reversible: \<open>sp_hook_ini\<close> always returns, puts the check in front of
  every present setting that has something to check, touches no other setting's handler, and
  after \<open>sp_unhook_ini\<close> every setting has the handler it had before.
\<close>

theorem ini_hook_roundtrip:
  assumes "keyed (ini_entries (cfg_ini g))" "\<forall>n. handler_of dirs n \<noteq> Some (Some OnModify_Sp)"
  shows "\<exists>g1 dirs1. snd (sp_hook_ini E G g dirs) = Done (g1, dirs1) \<and>
    (\<forall>(k, e)\<in>set (ini_entries (cfg_ini g)). handler_of dirs k \<noteq> None \<longrightarrow>
       SP_INI_HAS_CHECKS e \<or> SP_INI_ACCESS_READONLY e (cfg_ini g) \<longrightarrow> handler_of dirs1 k = Some (Some OnModify_Sp)) \<and>
    (\<forall>n. n \<notin> fst ` set (ini_entries (cfg_ini g)) \<longrightarrow> handler_of dirs1 n = handler_of dirs n) \<and>
    (\<forall>n. handler_of (snd (sp_unhook_ini g1 dirs1)) n = handler_of dirs n)"
  using ini_hook_restored [OF assms] .

definition sample_directives :: ini_directives where
  "sample_directives = [(''memory_limit'', \<lparr>ini_value = Some ''128M'', ini_on_modify = Some (OnModify_Engine 0)\<rparr>)]"

theorem ini_hook_roundtrip_witness:
  "\<exists>g1 dirs1. snd (sp_hook_ini sample_php sample_ini ini_globals sample_directives) = Done (g1, dirs1) \<and>
     handler_of dirs1 ''memory_limit'' = Some (Some OnModify_Sp) \<and>
     handler_of (snd (sp_unhook_ini g1 dirs1)) ''memory_limit'' = Some (Some (OnModify_Engine 0))"
proof -
  have es: "ini_entries (cfg_ini ini_globals) = [(''memory_limit'', sample_entry)]"
    by (simp add: ini_globals_def put_entries_def)
  have k: "keyed (ini_entries (cfg_ini ini_globals))" unfolding es
    by (simp add: keyed_def zh_wf_def sample_entry_def)
  have "\<forall>n. handler_of sample_directives n \<noteq> Some (Some OnModify_Sp)" by (simp add: sample_directives_def)
  from ini_hook_roundtrip [OF k this, of sample_php sample_ini] obtain g1 dirs1 where
      h: "snd (sp_hook_ini sample_php sample_ini ini_globals sample_directives) = Done (g1, dirs1)"
        "\<forall>(k, e)\<in>set (ini_entries (cfg_ini ini_globals)). handler_of sample_directives k \<noteq> None \<longrightarrow>
           SP_INI_HAS_CHECKS e \<or> SP_INI_ACCESS_READONLY e (cfg_ini ini_globals) \<longrightarrow> handler_of dirs1 k = Some (Some OnModify_Sp)"
        "\<forall>n. handler_of (snd (sp_unhook_ini g1 dirs1)) n = handler_of sample_directives n"
    by blast
  have "SP_INI_HAS_CHECKS sample_entry" by (simp add: sample_entry_def SP_INI_HAS_CHECKS_def)
  then have "handler_of dirs1 ''memory_limit'' = Some (Some OnModify_Sp)"
    using h(2) unfolding es by (simp add: sample_directives_def)
  moreover have "handler_of (snd (sp_unhook_ini g1 dirs1)) ''memory_limit'' = Some (Some (OnModify_Engine 0))"
    using h(3) by (simp add: sample_directives_def)
  ultimately show ?thesis using h(1) by blast
qed

section \<open>Size suffixes\<close>

lemma read_digits_run:
  "\<forall>c\<in>set ds. is_digit c \<Longrightarrow> \<not> is_digit u \<Longrightarrow> digit_in 10 u = None \<Longrightarrow>
   read_digits 10 acc (ds @ u # rest) = foldl (\<lambda>n c. 10 * n + digit_val c) acc ds"
  by (induction ds arbitrary: acc) (auto simp: digit_in_def is_digit_def digit_val_def Let_def ac_simps)

lemma ZEND_STRTOL_suffix:
  assumes "0 < n" "n < 2 ^ 63" "digit_in 10 u = None"
  shows "ZEND_STRTOL (show_nat n @ u # rest) = int n"
proof -
  obtain c cs where c: "show_nat n = c # cs" by (cases "show_nat n") auto
  have d: "\<forall>x\<in>set (show_nat n). is_digit x" using show_nat_digits by blast
  have "\<not> is_digit u" using assms(3) by (auto simp: digit_in_def is_digit_def Let_def split: if_splits)
  then have "read_digits 10 0 (show_nat n @ u # rest) = dec_value (show_nat n)"
    unfolding dec_value_def by (intro read_digits_run d assms(3))
  then have r: "read_digits 10 0 (c # cs @ u # rest) = n" unfolding dec_value_show_nat by (simp only: c append_Cons)
  have c0: "c \<noteq> CHR ''0''" using hd_show_nat [OF assms(1)] by (simp add: c)
  then have "magnitude0 (c # cs @ u # rest) = n" using r by (metis magnitude0_decimal)
  moreover have "is_digit c" using d c by simp
  then have "\<not> is_space c" "c \<noteq> CHR ''-''" "c \<noteq> CHR ''+''" by (auto simp: is_digit_def is_space_def)
  ultimately show ?thesis using assms(2) by (simp add: ZEND_STRTOL_def c Let_def)
qed

text \<open>
  Size suffixes are not read: with a limit of \<open>m\<close> megabytes, say, a value of \<open>n \<le> m\<close>
  gigabytes is accepted, whatever the letters behind the two numbers are.
\<close>

theorem ini_suffix_ignored:
  assumes "name \<noteq> []" "zh_find (ini_entries (cfg_ini g)) name = Some e" "\<not> SP_INI_ACCESS_READONLY e (cfg_ini g)"
    "ie_min e = None" "ie_max e = Some (show_nat m @ [u])" "ie_regexp e = None"
    "0 < n" "n \<le> m" "m < 2 ^ 63" "digit_in 10 u = None" "digit_in 10 w = None" "u \<noteq> NUL" "w \<noteq> NUL"
  shows "sp_ini_check E G g (Some name) (Some (show_nat n @ [w])) = ret True"
proof -
  have "NUL \<notin> set (show_nat k)" for k
    using show_nat_digits [of NUL k] by (auto simp: is_digit_def)
  then have "c_str (show_nat k @ [x]) = show_nat k @ [x]" if "x \<noteq> NUL" for k x using that by simp
  then show ?thesis
    using assms ZEND_STRTOL_suffix [of n w "[]"] ZEND_STRTOL_suffix [of m u "[]"]
    by (simp add: sp_ini_check_def Let_def out_of_range_def regexp_rejects_def)
qed

definition suffix_entry :: sp_ini_entry where
  "suffix_entry = zero_ini_entry\<lparr>ie_key := Some ''memory_limit'', ie_max := Some ''256M''\<rparr>"

theorem ini_suffix_ignored_witness:
  "sp_ini_check sample_php sample_ini (put_entries [(''memory_limit'', suffix_entry)] sample_globals) (Some ''memory_limit'')
     (Some (show_nat 64 @ ''G'')) = ret True"
proof (rule ini_suffix_ignored [where m = 256 and u = "CHR ''M''" and e = suffix_entry])
  show "ie_max suffix_entry = Some (show_nat 256 @ [CHR ''M''])"
    by (simp add: suffix_entry_def) code_simp
qed (simp_all add: put_entries_def suffix_entry_def zero_ini_entry_def sample_globals_def
    SP_INI_ACCESS_READONLY_def SP_INI_READONLY_def SP_INI_UNSET_def digit_in_def is_digit_def is_lower_def is_upper_def)

end
