(* ===== verification/Ifilter.thy ===== *)
theory Ifilter
  imports Disabled_Functions
begin

text \<open>
  The input filter for server variables, \<open>src/sp_ifilter.c\<close>: dangerous characters are replaced
  by underscores or percent-encoded before the script sees the variables.
\<close>

section \<open>Strings\<close>

definition sp_is_dangerous_char :: "char \<Rightarrow> bool" where
  "sp_is_dangerous_char c \<longleftrightarrow> byte c \<in> {0x0A, 0x0D, 0x22, 0x27, 0x3C, 0x3E, 0x60}"

definition sp_hexchars :: string where
  "sp_hexchars = ''0123456789ABCDEF''"

definition strip_string :: "string \<Rightarrow> string" where
  "strip_string s = map (\<lambda>c. if sp_is_dangerous_char c then CHR ''_'' else c) s"

definition encode_char :: "char \<Rightarrow> string" where
  "encode_char c =
     (if sp_is_dangerous_char c
      then [CHR ''%'', sp_hexchars ! (byte c div 16), sp_hexchars ! (byte c mod 16)] else [c])"

text \<open>
  The encoder counts first; \<open>extra\<close> is an \<open>int\<close>. The string is then filled up to the length
  that was counted: \<open>None\<close> when it would not be filled exactly.
\<close>

definition encode_extra :: "string \<Rightarrow> int" where
  "encode_extra s = to_int32 (2 * int (length (filter sp_is_dangerous_char s)))"

definition encode_string :: "string \<Rightarrow> string option" where
  "encode_string s =
     (if encode_extra s = 0 then Some s
      else
        let out = concat (map encode_char s)
        in if int (length out) = int (length s) + encode_extra s then Some out else None)"

section \<open>Variables\<close>

type_synonym svars = "(hkey \<times> zval) list"

definition sp_server_strip :: "svars \<Rightarrow> string \<Rightarrow> svars" where
  "sp_server_strip vars key =
     (case zh_find vars (HStr key) of
        Some (IS_STRING s) \<Rightarrow> zh_update vars (HStr key) (IS_STRING (strip_string s))
      | _ \<Rightarrow> vars)"

definition sp_server_encode :: "svars \<Rightarrow> string \<Rightarrow> svars eff" where
  "sp_server_encode vars key =
     (case zh_find vars (HStr key) of
        Some (IS_STRING s) \<Rightarrow>
          (case encode_string s of
             Some t \<Rightarrow> ret (zh_update vars (HStr key) (IS_STRING t))
           | None \<Rightarrow> crash)
      | _ \<Rightarrow> ret vars)"

definition encode_keys :: "string list" where
  "encode_keys = [''REQUEST_URI'', ''QUERY_STRING'']"

definition strip_keys :: "string list" where
  "strip_keys =
     [''PHP_SELF'', ''HTTP_HOST'', ''HTTP_USER_AGENT'', ''PATH_INFO'', ''PATH_TRANSLATED'', ''ORIG_PATH_TRANSLATED'', ''ORIG_PATH_INFO'']"

fun encode_all :: "string list \<Rightarrow> svars \<Rightarrow> svars eff" where
  "encode_all [] vars = ret vars"
| "encode_all (k # ks) vars = ebind (sp_server_encode vars k) (encode_all ks)"

text \<open>\<open>orig\<close> is what the SAPI's own function makes of the array.\<close>

definition sp_register_server_variables :: "sp_globals \<Rightarrow> (svars \<Rightarrow> svars) \<Rightarrow> svars \<Rightarrow> svars eff" where
  "sp_register_server_variables g orig track_vars =
     ebind (if cfg_server_encode g then encode_all encode_keys (orig track_vars) else ret (orig track_vars)) (\<lambda>vars.
       ret (if cfg_server_strip g then fold (\<lambda>k v. sp_server_strip v k) strip_keys vars else vars))"

datatype server_hook = Register_Engine nat | Register_Sp

record sapi =
  sapi_register :: "server_hook option"
  sapi_orig :: "server_hook option"

definition sp_hook_register_server_variables :: "sapi \<Rightarrow> sapi" where
  "sp_hook_register_server_variables s =
     (case sapi_register s of
        Some h \<Rightarrow> if h \<noteq> Register_Sp then \<lparr>sapi_register = Some Register_Sp, sapi_orig = Some h\<rparr> else s
      | None \<Rightarrow> s)"

section \<open>What the encoder keeps\<close>

text \<open>What the application gets when it decodes a percent-encoded string.\<close>

definition url_hex :: "char \<Rightarrow> nat option" where
  "url_hex c =
     (if is_digit c then Some (byte c - 48)
      else if 65 \<le> byte c \<and> byte c \<le> 70 then Some (byte c - 55)
      else if 97 \<le> byte c \<and> byte c \<le> 102 then Some (byte c - 87) else None)"

fun url_decode :: "string \<Rightarrow> string" where
  "url_decode (p # a # b # cs) =
     (case (if p = CHR ''%'' then url_hex a else None, url_hex b) of
        (Some x, Some y) \<Rightarrow> char_of (16 * x + y) # url_decode cs
      | _ \<Rightarrow> p # url_decode (a # b # cs))"
| "url_decode (p # cs) = p # url_decode cs"
| "url_decode [] = []"

lemma dangerous_cases:
  assumes "sp_is_dangerous_char c"
  shows "c \<in> {CHR 0x0A, CHR 0x0D, CHR 0x22, CHR 0x27, CHR 0x3C, CHR 0x3E, CHR 0x60}"
proof -
  have "byte c \<in> {byte CHR 0x0A, byte CHR 0x0D, byte CHR 0x22, byte CHR 0x27, byte CHR 0x3C, byte CHR 0x3E, byte CHR 0x60}"
    using assms by (simp add: sp_is_dangerous_char_def)
  then show ?thesis by (simp only: insert_iff empty_iff of_char_eq_iff)
qed

lemma encode_char_dangerous:
  assumes "sp_is_dangerous_char c"
  shows "\<exists>a b x y. encode_char c = [CHR ''%'', a, b] \<and> url_hex a = Some x \<and> url_hex b = Some y \<and> 16 * x + y = byte c \<and>
    \<not> sp_is_dangerous_char a \<and> \<not> sp_is_dangerous_char b"
  using dangerous_cases [OF assms]
  by (auto simp: encode_char_def sp_is_dangerous_char_def sp_hexchars_def url_hex_def is_digit_def)

lemma encode_char_safe: "\<not> sp_is_dangerous_char c \<Longrightarrow> encode_char c = [c]"
  by (simp add: encode_char_def)

lemma hex_not_dangerous: "url_hex c = Some x \<Longrightarrow> \<not> sp_is_dangerous_char c"
  by (auto simp: url_hex_def sp_is_dangerous_char_def is_digit_def split: if_splits)

lemma percent_not_hex [simp]: "url_hex CHR ''%'' = None"
  by (simp add: url_hex_def is_digit_def)

lemma percent_safe [simp]: "\<not> sp_is_dangerous_char CHR ''%''"
  by (simp add: sp_is_dangerous_char_def)

definition encode_all_chars :: "string \<Rightarrow> string" where
  "encode_all_chars s = concat (map encode_char s)"

lemma encode_all_chars_Cons: "encode_all_chars (c # cs) = encode_char c @ encode_all_chars cs"
  by (simp add: encode_all_chars_def)

text \<open>A character that does not start an encoded pair stays what it is.\<close>

lemma url_decode_plain:
  assumes "\<not> (\<exists>a b cs. p = CHR ''%'' \<and> s = a # b # cs \<and> url_hex a \<noteq> None \<and> url_hex b \<noteq> None)"
  shows "url_decode (p # s) = p # url_decode s"
  using assms by (cases s; cases "tl s") (auto split: option.splits)

lemma hd_encode:
  "encode_all_chars s = a # t \<Longrightarrow> url_hex a \<noteq> None \<Longrightarrow> \<exists>cs. s = a # cs \<and> t = encode_all_chars cs"
proof (cases s)
  case (Cons c cs)
  assume e: "encode_all_chars s = a # t" "url_hex a \<noteq> None"
  have "\<not> sp_is_dangerous_char c"
    using e Cons encode_char_dangerous [of c] by (auto simp: encode_all_chars_Cons)
  then show ?thesis using e Cons by (simp add: encode_all_chars_Cons encode_char_safe)
qed (simp add: encode_all_chars_def)

definition starts_pair :: "char \<Rightarrow> string \<Rightarrow> bool" where
  "starts_pair p s \<longleftrightarrow> p = CHR ''%'' \<and> (\<exists>a b cs. s = a # b # cs \<and> url_hex a \<noteq> None \<and> url_hex b \<noteq> None)"

lemma url_decode_not_pair: "\<not> starts_pair p s \<Longrightarrow> url_decode (p # s) = p # url_decode s"
  by (rule url_decode_plain) (simp add: starts_pair_def)

lemma starts_pair_encode: "starts_pair p (encode_all_chars s) \<Longrightarrow> starts_pair p s"
  unfolding starts_pair_def by (metis hd_encode)

lemma url_decode_encode: "url_decode (encode_all_chars s) = url_decode s"
proof (induction "length s" arbitrary: s rule: less_induct)
  case less
  show ?case
  proof (cases s)
    case (Cons p t)
    consider (pair) "starts_pair p t"
      | (dangerous) "sp_is_dangerous_char p" | (plain) "\<not> sp_is_dangerous_char p" "\<not> starts_pair p t"
      by blast
    then show ?thesis
    proof cases
      case pair
      then obtain a b cs where pair: "t = a # b # cs" "p = CHR ''%''" "url_hex a \<noteq> None" "url_hex b \<noteq> None"
        by (auto simp: starts_pair_def)
      then have "encode_all_chars s = p # a # b # encode_all_chars cs"
        using hex_not_dangerous [of a] hex_not_dangerous [of b]
        by (auto simp: Cons encode_all_chars_Cons encode_char_safe)
      then show ?thesis using pair less [of cs] by (auto simp: Cons)
    next
      case dangerous
      then have "\<not> starts_pair p t" by (auto simp: starts_pair_def)
      then show ?thesis using encode_char_dangerous [OF dangerous] less [of t]
        by (auto simp: Cons encode_all_chars_Cons url_decode_not_pair)
    next
      case plain
      then have "\<not> starts_pair p (encode_all_chars t)" using starts_pair_encode by blast
      then show ?thesis using plain less [of t]
        by (auto simp: Cons encode_all_chars_Cons encode_char_safe url_decode_not_pair)
    qed
  qed (simp add: encode_all_chars_def)
qed

lemma encode_all_safe: "c \<in> set (encode_all_chars s) \<Longrightarrow> \<not> sp_is_dangerous_char c"
proof (induction s)
  case (Cons d s)
  then show ?case using encode_char_dangerous [of d]
    by (cases "sp_is_dangerous_char d") (auto simp: encode_all_chars_Cons encode_char_safe)
qed (simp add: encode_all_chars_def)

lemma length_encode_all: "length (encode_all_chars s) = length s + 2 * length (filter sp_is_dangerous_char s)"
  by (induction s) (auto simp: encode_all_chars_def encode_char_def)

lemma encode_all_id: "filter sp_is_dangerous_char s = [] \<Longrightarrow> encode_all_chars s = s"
  by (induction s) (auto simp: encode_all_chars_def encode_char_def split: if_splits)

lemma encode_string_aux:
  assumes "length s < 2 ^ 30"
  shows "encode_string s = Some (encode_all_chars s)"
proof -
  let ?n = "length (filter sp_is_dangerous_char s)"
  have "?n < 2 ^ 30" using assms length_filter_le [of sp_is_dangerous_char s] by linarith
  then have e: "encode_extra s = 2 * int ?n"
    unfolding encode_extra_def by (intro to_int32_id) simp_all
  show ?thesis
  proof (cases "?n = 0")
    case True
    then show ?thesis using e encode_all_id [of s] by (simp add: encode_string_def)
  next
    case False
    then show ?thesis using e length_encode_all [of s]
      by (simp add: encode_string_def encode_all_chars_def Let_def)
  qed
qed

section \<open>Properties\<close>

text \<open>
  C38. Encoding a server variable is exact: for a string below \<open>2 ^ 30\<close> bytes the buffer that was
  counted is filled to the last byte, the result has no dangerous character, and an application
  that percent-decodes it reads what it would have read from the original.
\<close>

theorem server_encode_safe:
  assumes "length s < 2 ^ 30" "zh_find vars (HStr key) = Some (IS_STRING s)"
  shows "\<exists>t. sp_server_encode vars key = ret (zh_update vars (HStr key) (IS_STRING t)) \<and>
    (\<forall>c\<in>set t. \<not> sp_is_dangerous_char c) \<and> url_decode t = url_decode s \<and>
    length t = length s + 2 * length (filter sp_is_dangerous_char s)"
  using assms encode_string_aux [OF assms(1)] encode_all_safe [of _ s] url_decode_encode [of s] length_encode_all [of s]
  by (intro exI [of _ "encode_all_chars s"]) (simp add: sp_server_encode_def)

theorem server_encode_safe_witness:
  "sp_server_encode [(HStr ''QUERY_STRING'', IS_STRING ''q=<b>'')] ''QUERY_STRING'' =
     ret [(HStr ''QUERY_STRING'', IS_STRING ''q=%3Cb%3E'')] \<and>
   (\<exists>t. sp_server_encode [(HStr ''QUERY_STRING'', IS_STRING ''q=<b>'')] ''QUERY_STRING'' =
     ret (zh_update [(HStr ''QUERY_STRING'', IS_STRING ''q=<b>'')] (HStr ''QUERY_STRING'') (IS_STRING t)) \<and>
    (\<forall>c\<in>set t. \<not> sp_is_dangerous_char c))"
proof
  show "sp_server_encode [(HStr ''QUERY_STRING'', IS_STRING ''q=<b>'')] ''QUERY_STRING'' =
     ret [(HStr ''QUERY_STRING'', IS_STRING ''q=%3Cb%3E'')]" by code_simp
qed (use server_encode_safe [of "''q=<b>''" "[(HStr ''QUERY_STRING'', IS_STRING ''q=<b>'')]" "''QUERY_STRING''"] in auto)

lemma strip_find: "zh_find (sp_server_strip vars k) (HStr key) =
    (case zh_find vars (HStr key) of
       Some (IS_STRING s) \<Rightarrow> Some (IS_STRING (if key = k then strip_string s else s)) | z \<Rightarrow> z)"
  by (auto simp: sp_server_strip_def zh_find_update split: option.splits zval.splits)

lemma strip_string_safe: "c \<in> set (strip_string s) \<Longrightarrow> \<not> sp_is_dangerous_char c"
  by (auto simp: strip_string_def sp_is_dangerous_char_def)

lemma strip_string_id: "\<forall>c\<in>set s. \<not> sp_is_dangerous_char c \<Longrightarrow> strip_string s = s"
  by (simp add: strip_string_def map_idI)

lemma strip_all_find: "zh_find (fold (\<lambda>k v. sp_server_strip v k) ks vars) (HStr key) =
    (case zh_find vars (HStr key) of
       Some (IS_STRING s) \<Rightarrow> Some (IS_STRING (if key \<in> set ks then strip_string s else s)) | z \<Rightarrow> z)"
proof (induction ks arbitrary: vars)
  case (Cons k ks)
  have "strip_string (strip_string s) = strip_string s" for s
    using strip_string_safe by (blast intro: strip_string_id)
  then show ?case using Cons [of "sp_server_strip vars k"]
    by (auto simp: strip_find split: option.splits zval.splits)
qed (auto split: option.splits zval.splits)

text \<open>
  With \<open>server_strip\<close> on and \<open>server_encode\<close> off, no stripped server variable that is a string
  has a dangerous character, its length is unchanged, and every other variable is untouched.
\<close>

theorem server_strip_effect:
  assumes "cfg_server_strip g" "\<not> cfg_server_encode g"
  shows "\<exists>vars. sp_register_server_variables g orig vars0 = ret vars \<and>
    (\<forall>key. zh_find vars (HStr key) =
       (case zh_find (orig vars0) (HStr key) of
          Some (IS_STRING s) \<Rightarrow> Some (IS_STRING (if key \<in> set strip_keys then strip_string s else s)) | z \<Rightarrow> z)) \<and>
    (\<forall>key s. key \<in> set strip_keys \<longrightarrow> zh_find vars (HStr key) = Some (IS_STRING s) \<longrightarrow> (\<forall>c\<in>set s. \<not> sp_is_dangerous_char c))"
proof -
  let ?vars = "fold (\<lambda>k v. sp_server_strip v k) strip_keys (orig vars0)"
  have "sp_register_server_variables g orig vars0 = ret ?vars"
    using assms by (simp add: sp_register_server_variables_def)
  moreover have "\<forall>c\<in>set s. \<not> sp_is_dangerous_char c"
    if "key \<in> set strip_keys" "zh_find ?vars (HStr key) = Some (IS_STRING s)" for key s
    using that strip_string_safe by (auto simp: strip_all_find split: option.splits zval.splits)
  ultimately show ?thesis using strip_all_find [of strip_keys "orig vars0"] by blast
qed

theorem server_strip_effect_witness:
  "\<exists>vars. sp_register_server_variables (sample_globals\<lparr>cfg_server_strip := True\<rparr>) id [(HStr ''PHP_SELF'', IS_STRING ''/a<b'')] = ret vars \<and>
     zh_find vars (HStr ''PHP_SELF'') = Some (IS_STRING ''/a_b'')"
proof -
  have "strip_string ''/a<b'' = ''/a_b''" by code_simp
  then show ?thesis
    using server_strip_effect [of "sample_globals\<lparr>cfg_server_strip := True\<rparr>" id "[(HStr ''PHP_SELF'', IS_STRING ''/a<b'')]"]
    by (fastforce simp: sample_globals_def strip_keys_def)
qed

end
