(* ===== verification/Execute.thy ===== *)
theory Execute
  imports Config_Parse
begin

text \<open>
  The execution hooks, \<open>src/sp_execute.c\<close>: what runs before and after every function call and
  every included file. The engine's own executors are the parameter \<open>run\<close>, which gets the
  globals (the script it runs may call functions, and so get here again) and gives them restored
  with the value the frame returned. The file system is a record of the calls the code makes;
  opcodes, which frames do not hold, are arguments.
\<close>

section \<open>Read-only execution\<close>

text \<open>
  \<open>fs_access\<close> is \<open>access(\<dots>, W_OK)\<close>: no error means writable. The errors the code knows are
  \<open>EACCES\<close>, \<open>EROFS\<close> and \<open>EPERM\<close>; any other has its message.
\<close>

datatype errno = EACCES | EROFS | EPERM | Errno string

record file_system =
  fs_access :: "string \<Rightarrow> errno option"
  fs_stat :: "string \<Rightarrow> errno + nat"
  fs_geteuid :: nat
  fs_dirname :: "string \<Rightarrow> string"
  fs_strerror :: "errno \<Rightarrow> string"

definition access_denied :: "errno \<Rightarrow> bool" where
  "access_denied e \<longleftrightarrow> e = EACCES \<or> e = EROFS \<or> e = EPERM"

definition ro_violation ::
  "php \<Rightarrow> sp_globals \<Rightarrow> zend_execute_data list \<Rightarrow> string \<Rightarrow> string \<Rightarrow> unit eff" where
  "ro_violation E g stack filename errmsg =
     (let ro = cfg_readonly_exec g in
      eseq (dump_of E g stack (ro_dump ro) (ro_textual_representation ro))
        (if ro_simulation ro
         then sp_log_simulation (sp_env E g) ''readonly_exec'' (errmsg @ '' ('' @ filename @ '')'')
         else sp_log_drop (sp_env E g) ''readonly_exec'' (errmsg @ '' ('' @ filename @ '')'')))"

definition ro_error :: "php \<Rightarrow> file_system \<Rightarrow> sp_globals \<Rightarrow> string \<Rightarrow> errno \<Rightarrow> unit eff" where
  "ro_error E F g filename e =
     sp_log_err (sp_env E g) ''readonly_exec'' (''Error while accessing '' @ filename @ '': '' @ fs_strerror F e)"

definition terminate_if_writable ::
  "php \<Rightarrow> file_system \<Rightarrow> sp_globals \<Rightarrow> zend_execute_data list \<Rightarrow> string \<Rightarrow> unit eff" where
  "terminate_if_writable E F g stack filename =
     (let violation = ro_violation E g stack filename; err = ro_error E F g filename; dirname = fs_dirname F filename in
      case fs_access F filename of
        None \<Rightarrow> violation ''Attempted execution of a writable file''
      | Some e \<Rightarrow>
          if \<not> access_denied e then err e
          else if \<not> ro_extended_checks (cfg_readonly_exec g) then ret ()
          else (case fs_stat F filename of
            Inl e \<Rightarrow> err e
          | Inr uid \<Rightarrow>
              if uid = fs_geteuid F then violation ''Attempted execution of a file owned by the PHP process''
              else (case fs_access F dirname of
                None \<Rightarrow> violation ''Attempted execution of a file in a writable directory''
              | Some e \<Rightarrow>
                  if \<not> access_denied e then err e
                  else (case fs_stat F dirname of
                    Inl e \<Rightarrow> err e
                  | Inr uid \<Rightarrow>
                      if uid = fs_geteuid F then violation ''Attempted execution of a file in directory owned by the PHP process''
                      else ret ()))))"

definition sp_check_writable ::
  "php \<Rightarrow> file_system \<Rightarrow> sp_globals \<Rightarrow> zend_execute_data list \<Rightarrow> unit eff" where
  "sp_check_writable E F g stack =
     (case stack of
        ed # _ \<Rightarrow> (case ex_func ed of
            Some f \<Rightarrow> if ro_enable (cfg_readonly_exec g) then terminate_if_writable E F g stack (c_str (fn_filename f)) else ret ()
          | None \<Rightarrow> ret ())
      | [] \<Rightarrow> ret ())"

section \<open>Builtins and the eval whitelist\<close>

definition is_builtin_matching ::
  "php \<Rightarrow> sp_globals \<Rightarrow> zend_execute_data list \<Rightarrow> string \<Rightarrow> string \<Rightarrow> string \<Rightarrow> sp_disabled_function list option \<Rightarrow>
   df_table \<Rightarrow> unit eff" where
  "is_builtin_matching E g current param_value fname param_name config ht =
     (if config = None \<or> config = Some [] then ret ()
      else should_disable_ht E g current fname (Some param_value) (Some param_name) (cfg_disabled_functions_reg g) ht)"

definition is_in_eval_and_whitelisted ::
  "php \<Rightarrow> sp_globals \<Rightarrow> bool \<Rightarrow> zend_execute_data list \<Rightarrow> unit eff" where
  "is_in_eval_and_whitelisted E g executing stack =
     (let ev = cfg_eval g; frame = (case stack of ed # _ \<Rightarrow> Some ed | [] \<Rightarrow> None) in
      if spg_in_eval g = 0 then ret ()
      else if ev_whitelist ev = [] then ret ()
      else if executing \<and> (case frame of Some ed \<Rightarrow> ex_func ed = None | None \<Rightarrow> False) then ret ()
      else (case get_complete_function_path frame of
        None \<Rightarrow> ret ()
      | Some fname \<Rightarrow>
          if check_is_in_eval_whitelist g fname then ret ()
          else eseq (dump_of E g stack (ev_dump ev) (ev_textual_representation ev))
            (if ev_simulation ev
             then sp_log_simulation (sp_env E g) ''Eval_whitelist''
                    (''The function '' @ [CHR 0x27] @ fname @ [CHR 0x27] @ '' isn't in the eval whitelist, logging its call.'')
             else sp_log_drop (sp_env E g) ''Eval_whitelist''
                    (''The function '' @ [CHR 0x27] @ fname @ [CHR 0x27] @ '' isn't in the eval whitelist, dropping its call.''))))"

section \<open>Running a frame\<close>

type_synonym run = "sp_globals \<Rightarrow> (sp_globals \<times> zval) eff"

text \<open>The counters are unsigned longs.\<close>

definition put_depth :: "nat \<Rightarrow> sp_globals \<Rightarrow> sp_globals" where
  "put_depth n g = g\<lparr>spg_execution_depth := n mod 2 ^ 64\<rparr>"

definition put_in_eval :: "nat \<Rightarrow> sp_globals \<Rightarrow> sp_globals" where
  "put_in_eval n g = g\<lparr>spg_in_eval := n mod 2 ^ 64\<rparr>"

definition sp_orig_execute :: "php \<Rightarrow> run \<Rightarrow> run" where
  "sp_orig_execute E orig_execute_ex g =
     (let g1 = put_depth (spg_execution_depth g + 1) g in
      eseq (if cfg_max_execution_depth g1 > 0 \<and> spg_execution_depth g1 > cfg_max_execution_depth g1
            then sp_log_drop (sp_env E g1) ''execute'' ''Maximum recursion limit reached. Script terminated.'' else ret ())
        (ebind (orig_execute_ex g1) (\<lambda>(g2, z). ret (put_depth (spg_execution_depth g2 + 2 ^ 64 - 1) g2, z))))"

text \<open>
  \<open>sp_call_orig_execute\<close>: a native function runs by \<open>orig_zend_execute_internal\<close> or its own
  handler; either way \<open>run\<close> is what the engine does with it.
\<close>

definition sp_call_orig_execute :: "php \<Rightarrow> bool \<Rightarrow> run \<Rightarrow> run" where
  "sp_call_orig_execute E internal run = (if internal then run else sp_orig_execute E run)"

datatype include_kind = ZEND_INCLUDE | ZEND_REQUIRE | ZEND_REQUIRE_ONCE | ZEND_INCLUDE_ONCE | ZEND_EVAL

datatype opcode =
    ZEND_DO_FCALL | ZEND_DO_FCALL_BY_NAME | ZEND_DO_ICALL | ZEND_DO_UCALL | ZEND_TICKS
  | ZEND_INCLUDE_OR_EVAL include_kind | ZEND_OTHER_OPCODE

definition call_opcode :: "opcode \<Rightarrow> bool" where
  "call_opcode op \<longleftrightarrow> op \<in> {ZEND_DO_FCALL, ZEND_DO_FCALL_BY_NAME, ZEND_DO_ICALL, ZEND_DO_UCALL, ZEND_TICKS}"

text \<open>
  Whether the rules apply to the call: always when it does not come from PHP code, and for the
  calling opcodes when it does. \<open>caller_op\<close> is the opline of the caller's frame.
\<close>

definition call_is_checked :: "zend_execute_data list \<Rightarrow> opcode option \<Rightarrow> bool" where
  "call_is_checked stack caller_op \<longleftrightarrow>
     (case stack of
        _ # prev # _ \<Rightarrow>
          (case ex_func prev of
             Some f \<Rightarrow> if ZEND_USER_CODE (fn_type f) then (case caller_op of Some op \<Rightarrow> call_opcode op | None \<Rightarrow> True) else True
           | None \<Rightarrow> True)
      | _ \<Rightarrow> True)"

text \<open>
  \<open>sp_execute_handler\<close>: \<open>stack\<close> is the frame with its callers, \<open>current\<close> the engine's current
  frame with its own. The frame's type is read for PHP code only, whose frames have a function.
  \<open>sp_execute_frame\<close> is what follows the whitelist.
\<close>

definition sp_execute_frame ::
  "php \<Rightarrow> file_system \<Rightarrow> zend_execute_data list \<Rightarrow> zend_execute_data list \<Rightarrow> opcode option \<Rightarrow> bool \<Rightarrow> run \<Rightarrow>
   sp_globals \<Rightarrow> (sp_globals \<times> zval option) eff" where
  "sp_execute_frame E F current stack caller_op internal run g =
     (let through = (\<lambda>m. ebind m (\<lambda>(g', z). ret (g', Some z)));
          frame = (case stack of ed # _ \<Rightarrow> Some ed | [] \<Rightarrow> None);
          func = (case frame of Some ed \<Rightarrow> ex_func ed | None \<Rightarrow> None) in
      if \<not> internal \<and> func = None then crash
         else if \<not> internal \<and> fn_type (the func) = ZEND_EVAL_CODE then
           eseq (is_builtin_matching E g current (spg_eval_source_string g) ''eval'' ''code''
                   (zh_find (cfg_disabled_functions g) (HStr ''eval'')) (cfg_disabled_functions g))
             (ebind (sp_orig_execute E run (put_in_eval (spg_in_eval g + 1) g)) (\<lambda>(g1, z).
                ret (put_in_eval (spg_in_eval g1 + 2 ^ 64 - 1) g1, Some z)))
         else eseq (if internal then ret () else sp_check_writable E F g stack)
           (if \<not> spg_hook_execute g then through (sp_call_orig_execute E internal run g)
            else (case get_complete_function_path frame of
              None \<Rightarrow> through (sp_call_orig_execute E internal run g)
            | Some fname \<Rightarrow>
                if zh_find (spg_disabled_functions_hook g) fname \<noteq> None
                then through (sp_call_orig_execute E internal run g)
                else eseq (if call_is_checked stack caller_op
                           then should_disable_ht E g stack fname None None
                                  (cfg_disabled_functions_reg g) (cfg_disabled_functions g)
                           else ret ())
                  (ebind (sp_call_orig_execute E internal run g) (\<lambda>(g1, z).
                     eseq (should_drop_on_ret_ht E g1 stack (Some fname) (Some z)
                             (cfg_disabled_functions_reg_ret g1) (cfg_disabled_functions_ret g1))
                       (ret (g1, Some z)))))))"

definition sp_execute_handler ::
  "php \<Rightarrow> file_system \<Rightarrow> bool \<Rightarrow> zend_execute_data list \<Rightarrow> zend_execute_data list \<Rightarrow> opcode option \<Rightarrow> bool \<Rightarrow> run \<Rightarrow>
   sp_globals \<Rightarrow> (sp_globals \<times> zval option) eff" where
  "sp_execute_handler E F executing current stack caller_op internal run g =
     (if stack = [] then ret (g, None)
      else eseq (is_in_eval_and_whitelisted E g executing stack)
             (sp_execute_frame E F current stack caller_op internal run g))"

section \<open>Included files\<close>

definition file_scheme :: string where
  "file_scheme = ''file://''"

fun has_infix :: "string \<Rightarrow> string \<Rightarrow> bool" where
  "has_infix p [] = (p = [])"
| "has_infix p (c # cs) = (prefix p (c # cs) \<or> has_infix p cs)"

text \<open>The rules for the four ways to include; any other value does not occur at this opcode.\<close>

definition include_name :: "include_kind \<Rightarrow> string option" where
  "include_name k =
     (case k of ZEND_INCLUDE \<Rightarrow> Some ''include'' | ZEND_REQUIRE \<Rightarrow> Some ''require''
      | ZEND_REQUIRE_ONCE \<Rightarrow> Some ''require_once'' | ZEND_INCLUDE_ONCE \<Rightarrow> Some ''include_once'' | ZEND_EVAL \<Rightarrow> None)"

definition sp_stream_open_checks ::
  "php \<Rightarrow> file_system \<Rightarrow> sp_globals \<Rightarrow> zend_execute_data list \<Rightarrow> opcode option \<Rightarrow> string \<Rightarrow> unit eff" where
  "sp_stream_open_checks E F g current op zend_filename =
     (case (current, op) of
        (ed # _, Some opc) \<Rightarrow>
          (case ex_func ed of
             None \<Rightarrow> crash
           | Some f \<Rightarrow>
               if fn_type f \<noteq> ZEND_USER_FUNCTION then ret ()
               else (case opc of
                 ZEND_INCLUDE_OR_EVAL k \<Rightarrow>
                   eseq (if ro_enable (cfg_readonly_exec g) then
                           (if prefix file_scheme zend_filename then ret ()
                            else if \<not> has_infix ''://'' zend_filename
                            then terminate_if_writable E F g current (c_str zend_filename) else ret ())
                         else ret ())
                     (case include_name k of
                        Some n \<Rightarrow> is_builtin_matching E g current zend_filename n ''inclusion path''
                                   (zh_find (cfg_disabled_functions_hooked g) (HStr n)) (cfg_disabled_functions_hooked g)
                      | None \<Rightarrow> crash)
               | _ \<Rightarrow> ret ()))
      | _ \<Rightarrow> ret ())"

definition sp_stream_open ::
  "php \<Rightarrow> file_system \<Rightarrow> sp_globals \<Rightarrow> zend_execute_data list \<Rightarrow> opcode option \<Rightarrow> (string \<Rightarrow> zend_result eff) \<Rightarrow> string \<Rightarrow> zend_result eff" where
  "sp_stream_open E F g current op orig_zend_stream_open filename =
     eseq (sp_stream_open_checks E F g current op filename) (orig_zend_stream_open filename)"

section \<open>Compilation\<close>

text \<open>
  The compilers are parameters; \<open>modify\<close> is \<open>sp_sloppy_modify_opcode\<close> on what they give.
\<close>

definition sp_compile_string :: "(string \<Rightarrow> 'op) \<Rightarrow> ('op \<Rightarrow> 'op) \<Rightarrow> string \<Rightarrow> sp_globals \<Rightarrow> sp_globals \<times> 'op" where
  "sp_compile_string orig_zend_compile_string modify source_string g =
     (let g1 = g\<lparr>spg_eval_source_string := source_string\<rparr>; opline = orig_zend_compile_string source_string
      in (g1, if cfg_sloppy_enable g1 then modify opline else opline))"

definition sp_compile_file :: "('f \<Rightarrow> 'op) \<Rightarrow> ('op \<Rightarrow> 'op) \<Rightarrow> 'f \<Rightarrow> sp_globals \<Rightarrow> 'op" where
  "sp_compile_file orig_zend_compile_file modify file_handle g =
     (let opline = orig_zend_compile_file file_handle in if cfg_sloppy_enable g then modify opline else opline)"

section \<open>The hooks\<close>

datatype fnptr = Fn_Null | Fn_Engine nat | Fn_Sp

record engine_hooks =
  zend_execute_ex :: fnptr
  zend_execute_internal :: fnptr
  zend_stream_open :: fnptr
  zend_compile_file :: fnptr
  zend_compile_string :: fnptr
  orig_execute_ex :: fnptr
  orig_execute_internal :: fnptr
  orig_stream_open :: fnptr
  orig_compile_file :: fnptr
  orig_compile_string :: fnptr

definition hook_executors :: "engine_hooks \<Rightarrow> engine_hooks" where
  "hook_executors h =
     (let h1 = (if zend_execute_ex h \<noteq> Fn_Sp then h\<lparr>orig_execute_ex := zend_execute_ex h, zend_execute_ex := Fn_Sp\<rparr> else h);
          h2 = (if zend_execute_internal h1 \<noteq> Fn_Sp
                then h1\<lparr>orig_execute_internal := zend_execute_internal h1, zend_execute_internal := Fn_Sp\<rparr> else h1)
      in if zend_stream_open h2 \<noteq> Fn_Sp then h2\<lparr>orig_stream_open := zend_stream_open h2, zend_stream_open := Fn_Sp\<rparr> else h2)"

definition hook_execute :: "engine_hooks \<Rightarrow> engine_hooks" where
  "hook_execute h =
     (let h1 = (if orig_execute_ex h = Fn_Null \<and> orig_stream_open h = Fn_Null then hook_executors h else h);
          h2 = (if orig_compile_file h1 = Fn_Null \<and> zend_compile_file h1 \<noteq> Fn_Sp
                then h1\<lparr>orig_compile_file := zend_compile_file h1, zend_compile_file := Fn_Sp\<rparr> else h1)
      in if orig_compile_string h2 = Fn_Null \<and> zend_compile_string h2 \<noteq> Fn_Sp
         then h2\<lparr>orig_compile_string := zend_compile_string h2, zend_compile_string := Fn_Sp\<rparr> else h2)"

section \<open>Counters\<close>

definition counters :: "sp_globals \<Rightarrow> nat \<times> nat" where
  "counters g = (spg_execution_depth g, spg_in_eval g)"

definition keeps_counters :: "run \<Rightarrow> bool" where
  "keeps_counters run \<longleftrightarrow> (\<forall>g g' z. snd (run g) = Done (g', z) \<longrightarrow> counters g' = counters g)"

lemma down_up: "n < 2 ^ 64 \<Longrightarrow> ((n + 1) mod 2 ^ 64 + 2 ^ 64 - 1) mod 2 ^ 64 = (n :: nat)"
proof -
  assume n: "n < 2 ^ 64"
  show "((n + 1) mod 2 ^ 64 + 2 ^ 64 - 1) mod 2 ^ 64 = n"
  proof (cases "n + 1 = 2 ^ 64")
    case True
    then show ?thesis by simp
  next
    case False
    then have "(n + 1) mod 2 ^ 64 = n + 1" using n by simp
    then show ?thesis using n by simp
  qed
qed

lemma sp_orig_execute_keeps:
  assumes "keeps_counters run" "spg_execution_depth g < 2 ^ 64" "snd (sp_orig_execute E run g) = Done (g', z)"
  shows "counters g' = counters g"
proof -
  let ?g1 = "put_depth (spg_execution_depth g + 1) g"
  obtain g2 where r: "snd (run ?g1) = Done (g2, z)" and g': "g' = put_depth (spg_execution_depth g2 + 2 ^ 64 - 1) g2"
    using assms(3) by (auto simp: sp_orig_execute_def Let_def eseq_Done_iff ebind_Done_iff)
  have "counters g2 = counters ?g1" using assms(1) r by (simp add: keeps_counters_def)
  then show ?thesis using down_up [OF assms(2)] by (simp add: g' counters_def put_depth_def)
qed

lemma sp_call_orig_execute_keeps:
  assumes "keeps_counters run" "spg_execution_depth g < 2 ^ 64" "snd (sp_call_orig_execute E internal run g) = Done (g', z)"
  shows "counters g' = counters g"
  using assms sp_orig_execute_keeps [OF assms(1, 2)]
  by (cases internal) (auto simp: sp_call_orig_execute_def keeps_counters_def)

lemma put_in_eval_depth [simp]: "spg_execution_depth (put_in_eval n g) = spg_execution_depth g"
  by (simp add: put_in_eval_def)

text \<open>
  C35. The counters are balanced: whenever the handler of a call returns, the execution depth and
  the number of nested evals are what they were before, provided the executors themselves keep
  them.
\<close>

theorem handler_balances_counters:
  assumes "keeps_counters run" "spg_execution_depth g < 2 ^ 64" "spg_in_eval g < 2 ^ 64"
    and d: "snd (sp_execute_handler E F executing current stack caller_op internal run g) = Done (g', z)"
  shows "counters g' = counters g"
proof -
  let ?gi = "put_in_eval (spg_in_eval g + 1) g"
  have call: "counters g1 = counters g" if "snd (sp_call_orig_execute E internal run g) = Done (g1, v)" for g1 v
    using sp_call_orig_execute_keeps [OF assms(1, 2) that] .
  have eval: "counters g1 = counters ?gi" if "snd (sp_orig_execute E run ?gi) = Done (g1, v)" for g1 v
    using sp_orig_execute_keeps [OF assms(1) _ that] assms(2) by simp
  have restored: "counters (put_in_eval (spg_in_eval g1 + 2 ^ 64 - 1) g1) = counters g" if "counters g1 = counters ?gi" for g1
    using that down_up [OF assms(3)] by (simp add: counters_def put_in_eval_def)
  from d show ?thesis
    by (auto simp: sp_execute_handler_def sp_execute_frame_def Let_def eseq_Done_iff ebind_Done_iff
        intro: call restored [simplified] eval [simplified] split: if_splits option.splits)
qed

definition sample_run :: run where
  "sample_run g = ret (g, IS_TRUE)"

definition sample_fs :: file_system where
  "sample_fs = \<lparr>fs_access = (\<lambda>f. if f = ''/tmp/x.php'' then None else Some EACCES), fs_stat = (\<lambda>f. Inr 0), fs_geteuid = 33,
     fs_dirname = (\<lambda>f. ''/tmp''), fs_strerror = (\<lambda>e. ''error'')\<rparr>"

definition eval_frame :: zend_execute_data where
  "eval_frame = \<lparr>ex_func = Some \<lparr>fn_type = ZEND_EVAL_CODE, function_name = None, fn_scope = None, fn_filename = ''/a.php'',
     arg_info = [], num_args = 0\<rparr>, ex_num_args = 0, ex_slots = [], ex_symtable = None\<rparr>"

theorem handler_balances_counters_witness:
  "\<exists>g' z. snd (sp_execute_handler sample_php sample_fs True [eval_frame] [eval_frame] None False sample_run sample_globals) = Done (g', z) \<and>
     counters g' = counters sample_globals"
proof -
  have d: "\<exists>g' z. snd (sp_execute_handler sample_php sample_fs True [eval_frame] [eval_frame] None False sample_run sample_globals) = Done (g', z)"
    by (simp add: sp_execute_handler_def sp_execute_frame_def is_in_eval_and_whitelisted_def eval_frame_def is_builtin_matching_def
        sp_orig_execute_def put_depth_def put_in_eval_def sample_run_def sample_globals_def Let_def snd_eseq snd_ebind)
  have "keeps_counters sample_run" by (simp add: keeps_counters_def sample_run_def)
  moreover have "spg_execution_depth sample_globals < 2 ^ 64" "spg_in_eval sample_globals < 2 ^ 64"
    by (simp_all add: sample_globals_def)
  ultimately show ?thesis using d handler_balances_counters by blast
qed

section \<open>The depth limit\<close>

text \<open>
  A script seen from the depth counter: a frame and the PHP calls its body makes, one after the
  other. Its height is the deepest nesting.
\<close>

datatype calls = Call "calls list"

fun run_script :: "php \<Rightarrow> calls \<Rightarrow> run" and run_body :: "php \<Rightarrow> calls list \<Rightarrow> run" where
  "run_script E (Call cs) g = sp_orig_execute E (run_body E cs) g"
| "run_body E [] g = ret (g, IS_NULL)"
| "run_body E (c # cs) g = ebind (run_script E c g) (\<lambda>(g1, _). run_body E cs g1)"

fun height :: "calls \<Rightarrow> nat" and heights :: "calls list \<Rightarrow> nat" where
  "height (Call cs) = Suc (heights cs)"
| "heights [] = 0"
| "heights (c # cs) = max (height c) (heights cs)"

lemma put_depth_same [simp]: "spg_execution_depth g < 2 ^ 64 \<Longrightarrow> put_depth (spg_execution_depth g) g = g"
  by (simp add: put_depth_def)

lemma depth_limit_aux:
  assumes "0 < cfg_max_execution_depth g" "cfg_max_execution_depth g < 2 ^ 64 - 1"
  shows "spg_execution_depth g \<le> cfg_max_execution_depth g \<Longrightarrow>
      snd (run_script E t g) =
        (if spg_execution_depth g + height t \<le> cfg_max_execution_depth g then Done (g, IS_NULL) else Bailout)"
    and "spg_execution_depth g \<le> cfg_max_execution_depth g \<Longrightarrow>
      snd (run_body E ts g) =
        (if spg_execution_depth g + heights ts \<le> cfg_max_execution_depth g then Done (g, IS_NULL) else Bailout)"
  using assms
proof (induction E t g and E ts g rule: run_script_run_body.induct)
  case (1 E cs g)
  let ?d = "spg_execution_depth g" and ?g1 = "put_depth (spg_execution_depth g + 1) g"
  have n: "?d + 1 < 2 ^ 64" using 1 by simp
  have g1: "spg_execution_depth ?g1 = ?d + 1" "cfg_max_execution_depth ?g1 = cfg_max_execution_depth g"
    using n by (simp_all add: put_depth_def)
  have restored: "put_depth (?d + 1 + 2 ^ 64 - 1) ?g1 = g" using n by (simp add: put_depth_def)
  show ?case
  proof (cases "?d + 1 \<le> cfg_max_execution_depth g")
    case True
    then show ?thesis using 1 g1 restored by (simp add: sp_orig_execute_def Let_def snd_eseq snd_ebind)
  next
    case False
    then show ?thesis using 1 g1 by (simp add: sp_orig_execute_def Let_def snd_eseq)
  qed
next
  case (3 E c cs g)
  then show ?case by (auto simp: snd_ebind)
qed simp_all

text \<open>
  C28. The depth limit is exact: a script runs to its end, and leaves the globals as they were,
  when its calls nest at most \<open>max_execution_depth\<close> deep from where it starts, and is ended
  otherwise.
\<close>

theorem depth_limit_exact:
  assumes "0 < cfg_max_execution_depth g" "cfg_max_execution_depth g < 2 ^ 64 - 1"
    and "spg_execution_depth g \<le> cfg_max_execution_depth g"
  shows "snd (run_script E t g) =
    (if spg_execution_depth g + height t \<le> cfg_max_execution_depth g then Done (g, IS_NULL) else Bailout)"
  by (rule depth_limit_aux(1) [OF assms])

theorem depth_limit_exact_witness:
  "snd (run_script sample_php (Call [Call [], Call [Call []]]) (sample_globals\<lparr>cfg_max_execution_depth := 3\<rparr>)) =
     Done (sample_globals\<lparr>cfg_max_execution_depth := 3\<rparr>, IS_NULL) \<and>
   snd (run_script sample_php (Call [Call [], Call [Call []]]) (sample_globals\<lparr>cfg_max_execution_depth := 2\<rparr>)) = Bailout"
proof -
  have h: "height (Call [Call [], Call [Call []]]) = 3" by simp
  show ?thesis
    by (intro conjI; subst depth_limit_exact) (simp_all add: h sample_globals_def)
qed

section \<open>What is blocked\<close>

lemma eseq_Bailout: "snd m = Bailout \<Longrightarrow> eseq m n = eseq m n'"
  by (cases m) (simp add: eseq_def)

text \<open>
  C15. The eval whitelist holds: in evaluated code, with a whitelist, a call of a function that is
  not on it ends the request before anything else, whatever the function would do. In simulation
  it is logged, and goes on as without a whitelist. (Where the request is to be dumped, it has no variable
  with an integer key.)
\<close>

theorem eval_whitelist_blocks:
  assumes "0 < spg_in_eval g" "ev_whitelist (cfg_eval g) \<noteq> []" "get_complete_function_path (Some ed) = Some n"
    and "n \<notin> set (ev_whitelist (cfg_eval g))" "dumpable E (ev_dump (cfg_eval g)) (ev_textual_representation (cfg_eval g))"
  shows "if ev_simulation (cfg_eval g)
    then \<exists>log. log \<noteq> [] \<and> sp_execute_handler E F executing current (ed # stack) caller_op internal run g =
      (log @ fst (sp_execute_frame E F current (ed # stack) caller_op internal run g),
       snd (sp_execute_frame E F current (ed # stack) caller_op internal run g))
    else snd (sp_execute_handler E F executing current (ed # stack) caller_op internal run g) = Bailout \<and>
      sp_execute_handler E F executing current (ed # stack) caller_op internal run g =
      sp_execute_handler E F executing current (ed # stack) caller_op internal run' g"
proof -
  have f: "ex_func ed \<noteq> None" using assms(3) by (cases "ex_func ed") (auto simp: get_complete_function_path_def)
  let ?w = "is_in_eval_and_whitelisted E g executing (ed # stack)" and ?dump = "dump_of E g (ed # stack) (ev_dump (cfg_eval g)) (ev_textual_representation (cfg_eval g))"
  have "\<not> check_is_in_eval_whitelist g n" using assms(4) by (simp add: check_is_in_eval_whitelist_def list_ex_iff)
  then obtain msg msg' where w: "?w = eseq ?dump (if ev_simulation (cfg_eval g) then sp_log_simulation (sp_env E g) ''Eval_whitelist'' msg
      else sp_log_drop (sp_env E g) ''Eval_whitelist'' msg')"
    using assms(1-3) f by (simp add: is_in_eval_and_whitelisted_def Let_def)
  have d: "snd ?dump = Done ()" by (rule snd_dump_of [OF assms(5)])
  show ?thesis
  proof (cases "ev_simulation (cfg_eval g)")
    case True
    have "length (fst (sp_log_simulation (sp_env E g) ''Eval_whitelist'' msg)) = 1" by (simp add: sp_log_simulation_def)
    then have "fst ?w \<noteq> []" "snd ?w = Done ()" using w d True by (auto simp: fst_eseq snd_eseq)
    then show ?thesis using True by (auto simp: sp_execute_handler_def prod_eq_iff fst_eseq snd_eseq)
  next
    case False
    then have "snd ?w = Bailout" using w d by (simp add: snd_eseq)
    then show ?thesis using False by (simp add: sp_execute_handler_def snd_eseq) (rule eseq_Bailout)
  qed
qed

definition whitelist_globals :: sp_globals where
  "whitelist_globals = sample_globals\<lparr>spg_in_eval := 1, cfg_eval := (cfg_eval sample_globals)\<lparr>ev_whitelist := [''strlen'']\<rparr>\<rparr>"

theorem eval_whitelist_blocks_witness:
  "snd (sp_execute_handler sample_php sample_fs True [] [system_call ''id''] None True sample_run whitelist_globals) = Bailout"
proof -
  have p: "get_complete_function_path (Some (system_call ''id'')) = Some ''system''"
    by (simp add: get_complete_function_path_def system_call_def system_function_def)
  show ?thesis
    using eval_whitelist_blocks [OF _ _ p, of whitelist_globals sample_php sample_fs True "[]" "[]" None True sample_run sample_run]
    by (simp add: whitelist_globals_def sample_globals_def dumpable_def)
qed

text \<open>What the read-only checks ask of a file, in no particular order.\<close>

definition file_protected :: "file_system \<Rightarrow> bool \<Rightarrow> string \<Rightarrow> bool" where
  "file_protected F extended filename \<longleftrightarrow>
     (let denied = (\<lambda>f. \<exists>e. fs_access F f = Some e \<and> access_denied e);
          foreign = (\<lambda>f. \<exists>uid. fs_stat F f = Inr uid \<and> uid \<noteq> fs_geteuid F)
      in denied filename \<and>
         (extended \<longrightarrow> foreign filename \<and> denied (fs_dirname F filename) \<and> foreign (fs_dirname F filename)))"

lemma logged_not_ret: "length (fst m) = 1 \<Longrightarrow> m \<noteq> ret x"
  by (auto simp: ret_def)

lemma ro_violation_not_ret: "ro_violation E g stack filename errmsg \<noteq> ret ()"
proof
  assume "ro_violation E g stack filename errmsg = ret ()"
  then have e: "fst (ro_violation E g stack filename errmsg) = []" "snd (ro_violation E g stack filename errmsg) = Done ()"
    by (simp_all add: ret_def)
  then show False
    by (auto simp: ro_violation_def Let_def fst_eseq eseq_Done_iff sp_log_simulation_def sp_log_drop_def
        simp flip: length_0_conv split: if_splits)
qed

lemma ro_error_not_ret: "ro_error E F g filename e \<noteq> ret ()"
  by (rule logged_not_ret) (simp add: ro_error_def sp_log_err_def)

text \<open>
  C16. Read-only execution lets exactly the protected files pass silently: the check returns
  without a word if and only if the process can write neither the file nor, with the extended
  checks, the directory, and owns neither; anything else, a failing system call included, is
  logged.
\<close>

theorem readonly_exec_exact:
  "terminate_if_writable E F g stack filename = ret () \<longleftrightarrow>
     file_protected F (ro_extended_checks (cfg_readonly_exec g)) filename"
  using ro_violation_not_ret ro_error_not_ret
  by (auto simp: terminate_if_writable_def file_protected_def Let_def split: option.splits sum.splits if_splits)

text \<open>
  A file URL is not checked: including \<open>file:///x\<close> asks the file system nothing, although
  the same file included by its path is dropped when it is writable.
\<close>

theorem file_url_not_checked:
  assumes "ex_func ed = Some f" "fn_type f = ZEND_USER_FUNCTION" "ro_enable (cfg_readonly_exec g)"
    and "include_name k = Some n" "zh_find (cfg_disabled_functions_hooked g) (HStr n) = None"
    and "prefix ''/'' path" "\<not> has_infix ''://'' path" "fs_access F (c_str path) = None"
    and "\<not> ro_simulation (cfg_readonly_exec g)" "ro_dump (cfg_readonly_exec g) = None"
  shows "sp_stream_open_checks E F g (ed # stack) (Some (ZEND_INCLUDE_OR_EVAL k)) (file_scheme @ path) = ret () \<and>
    snd (sp_stream_open_checks E F g (ed # stack) (Some (ZEND_INCLUDE_OR_EVAL k)) path) = Bailout"
proof -
  have "\<not> prefix file_scheme path" using assms(6) by (cases path) (auto simp: file_scheme_def)
  moreover have "snd (terminate_if_writable E F g (ed # stack) (c_str path)) = Bailout"
    using assms(8-10) by (simp add: terminate_if_writable_def Let_def ro_violation_def dump_of_def snd_eseq)
  ultimately show ?thesis
    using assms(1-5, 7) by (simp add: sp_stream_open_checks_def is_builtin_matching_def snd_eseq)
qed

definition user_frame :: zend_execute_data where
  "user_frame = eval_frame\<lparr>ex_func := Some \<lparr>fn_type = ZEND_USER_FUNCTION, function_name = None, fn_scope = None,
     fn_filename = ''/a.php'', arg_info = [], num_args = 0\<rparr>\<rparr>"

definition ro_globals :: sp_globals where
  "ro_globals = sample_globals\<lparr>cfg_readonly_exec := (cfg_readonly_exec sample_globals)\<lparr>ro_enable := True\<rparr>\<rparr>"

theorem file_url_not_checked_witness:
  "sp_stream_open_checks sample_php sample_fs ro_globals [user_frame] (Some (ZEND_INCLUDE_OR_EVAL ZEND_INCLUDE)) (file_scheme @ ''/tmp/x.php'') = ret () \<and>
   snd (sp_stream_open_checks sample_php sample_fs ro_globals [user_frame] (Some (ZEND_INCLUDE_OR_EVAL ZEND_INCLUDE)) ''/tmp/x.php'') = Bailout"
  by (rule file_url_not_checked [where n = "''include''" and
        f = "\<lparr>fn_type = ZEND_USER_FUNCTION, function_name = None, fn_scope = None, fn_filename = ''/a.php'', arg_info = [], num_args = 0\<rparr>"])
    (simp_all add: user_frame_def ro_globals_def sample_globals_def include_name_def sample_fs_def)

text \<open>Hooking the engine: every saved pointer is the engine's own, and hooking again does nothing.\<close>

definition fresh_hooks :: "engine_hooks \<Rightarrow> bool" where
  "fresh_hooks h \<longleftrightarrow>
     Fn_Sp \<notin> {zend_execute_ex h, zend_execute_internal h, zend_stream_open h, zend_compile_file h, zend_compile_string h} \<and>
     Fn_Null \<notin> {zend_execute_ex h, zend_stream_open h, zend_compile_file h, zend_compile_string h} \<and>
     {orig_execute_ex h, orig_execute_internal h, orig_stream_open h, orig_compile_file h, orig_compile_string h} = {Fn_Null}"

lemma hook_execute_installs:
  assumes "fresh_hooks h"
  shows "{zend_execute_ex (hook_execute h), zend_execute_internal (hook_execute h), zend_stream_open (hook_execute h),
      zend_compile_file (hook_execute h), zend_compile_string (hook_execute h)} = {Fn_Sp}"
    and "orig_execute_ex (hook_execute h) = zend_execute_ex h" "orig_execute_internal (hook_execute h) = zend_execute_internal h"
    and "orig_stream_open (hook_execute h) = zend_stream_open h" "orig_compile_file (hook_execute h) = zend_compile_file h"
    and "orig_compile_string (hook_execute h) = zend_compile_string h" "hook_execute (hook_execute h) = hook_execute h"
proof -
  have f: "zend_execute_ex h \<noteq> Fn_Sp" "zend_execute_internal h \<noteq> Fn_Sp" "zend_stream_open h \<noteq> Fn_Sp"
      "zend_compile_file h \<noteq> Fn_Sp" "zend_compile_string h \<noteq> Fn_Sp"
    and n: "zend_execute_ex h \<noteq> Fn_Null" "zend_compile_file h \<noteq> Fn_Null" "zend_compile_string h \<noteq> Fn_Null"
    and o: "orig_execute_ex h = Fn_Null" "orig_stream_open h = Fn_Null" "orig_compile_file h = Fn_Null" "orig_compile_string h = Fn_Null"
    using assms by (auto simp: fresh_hooks_def)
  have e: "hook_execute h = h\<lparr>zend_execute_ex := Fn_Sp, zend_execute_internal := Fn_Sp, zend_stream_open := Fn_Sp,
      zend_compile_file := Fn_Sp, zend_compile_string := Fn_Sp, orig_execute_ex := zend_execute_ex h,
      orig_execute_internal := zend_execute_internal h, orig_stream_open := zend_stream_open h,
      orig_compile_file := zend_compile_file h, orig_compile_string := zend_compile_string h\<rparr>"
    by (simp add: hook_execute_def hook_executors_def Let_def f o)
  show "{zend_execute_ex (hook_execute h), zend_execute_internal (hook_execute h), zend_stream_open (hook_execute h),
      zend_compile_file (hook_execute h), zend_compile_string (hook_execute h)} = {Fn_Sp}"
    "orig_execute_ex (hook_execute h) = zend_execute_ex h" "orig_execute_internal (hook_execute h) = zend_execute_internal h"
    "orig_stream_open (hook_execute h) = zend_stream_open h" "orig_compile_file (hook_execute h) = zend_compile_file h"
    "orig_compile_string (hook_execute h) = zend_compile_string h"
    by (simp_all add: e)
  show "hook_execute (hook_execute h) = hook_execute h" unfolding e by (simp add: hook_execute_def Let_def n)
qed

end
