(* ===== verification/Crypt.thy ===== *)
theory Crypt
  imports Config_Parse Tweetnacl
begin

text \<open>
  Encryption of cookie values and session data, \<open>src/sp_crypt.c\<close>: the key is a digest of the
  client, a value of the environment and the configured secret; what is stored is the base64 of
  the nonce and the box. SHA-256, base64 and the source of random bytes are the engine's.
\<close>

section \<open>The engine's part\<close>

record crypto =
  ce_base64_encode :: "string \<Rightarrow> string"
  ce_base64_decode :: "string \<Rightarrow> string option"

definition bytes_of :: "string \<Rightarrow> bytes" where
  "bytes_of s = map byte s"

definition string_of :: "bytes \<Rightarrow> string" where
  "string_of bs = map char_of bs"

lemma bytes_of_ok [simp]: "bytes_ok (bytes_of s)"
  by (auto simp: bytes_ok_def bytes_of_def)

lemma length_bytes_of [simp]: "length (bytes_of s) = length s"
  by (simp add: bytes_of_def)

lemma length_string_of [simp]: "length (string_of bs) = length bs"
  by (simp add: string_of_def)

lemma string_of_bytes_of [simp]: "string_of (bytes_of s) = s"
  by (simp add: string_of_def bytes_of_def comp_def)

lemma bytes_of_string_of: "bytes_ok bs \<Longrightarrow> bytes_of (string_of bs) = bs"
  by (auto simp: bytes_ok_def string_of_def bytes_of_def comp_def intro!: map_idI)

section \<open>The key\<close>

definition crypto_secretbox_KEYBYTES :: nat where "crypto_secretbox_KEYBYTES = 32"
definition crypto_secretbox_NONCEBYTES :: nat where "crypto_secretbox_NONCEBYTES = 24"
definition crypto_secretbox_ZEROBYTES :: nat where "crypto_secretbox_ZEROBYTES = 32"

lemmas crypto_sizes = crypto_secretbox_KEYBYTES_def crypto_secretbox_NONCEBYTES_def crypto_secretbox_ZEROBYTES_def

text \<open>
  What is hashed, and the key: with no value for the environment variable a warning names the
  variable, through a NULL pointer when none is configured.
\<close>

definition key_material :: "php \<Rightarrow> sp_globals \<Rightarrow> string" where
  "key_material E g =
     (let text = (\<lambda>v. case v of Some s \<Rightarrow> s | None \<Rightarrow> [])
      in text (e_getenv E ''HTTP_USER_AGENT'') @
         text (case cfg_cookies_env_var g of Some v \<Rightarrow> e_getenv E (c_str v) | None \<Rightarrow> None) @
         text (map_option c_str (cfg_encryption_key g)))"

definition generate_key :: "php \<Rightarrow> sp_globals \<Rightarrow> bytes eff" where
  "generate_key E g =
     (let env_var = (case cfg_cookies_env_var g of Some v \<Rightarrow> e_getenv E (c_str v) | None \<Rightarrow> None) in
      eseq (c_assert (sp_env E g) (cfg_encryption_key g \<noteq> None))
        (eseq (if env_var \<noteq> None then ret ()
               else (case cfg_cookies_env_var g of
                  Some v \<Rightarrow> sp_log_warn (sp_env E g) ''cookie_encryption''
                             (''The environment variable '' @ [CHR 0x27] @ c_str v @ [CHR 0x27] @
                              '' is empty, cookies are weakly encrypted'')
                | None \<Rightarrow> crash))
          (ret (bytes_of (e_sha256 E (key_material E g))))))"

section \<open>Decryption\<close>

datatype zend_hash_apply = ZEND_HASH_APPLY_KEEP | ZEND_HASH_APPLY_REMOVE

definition what_for :: "string option \<Rightarrow> string" where
  "what_for hash_key = (case hash_key of Some k \<Rightarrow> c_str k | None \<Rightarrow> ''the session'')"

text \<open>
  The result with the value that the zval has then. \<open>decrypt_box\<close> is what follows the length
  checks; the last length is computed in \<open>size_t\<close>, and a copy past the buffer crashes.
\<close>

definition decrypt_box ::
  "php \<Rightarrow> sp_globals \<Rightarrow> bool \<Rightarrow> string option \<Rightarrow> string \<Rightarrow> bytes \<Rightarrow> (zend_hash_apply \<times> string) eff" where
  "decrypt_box E g simulation hash_key value debase64 =
     ebind (generate_key E g) (\<lambda>key.
       case crypto_secretbox_open (drop crypto_secretbox_NONCEBYTES debase64)
              (length debase64 - crypto_secretbox_NONCEBYTES) (take crypto_secretbox_NONCEBYTES debase64) key of
         None \<Rightarrow>
           if simulation
           then eseq (sp_log_simulation (sp_env E g) ''cookie_encryption''
                  (''Something went wrong with the decryption of '' @ what_for hash_key @
                   ''. Using the cookie '' @ [CHR 0x27] @ ''as is'' @ [CHR 0x27] @ '' instead of decrypting it''))
                (ret (ZEND_HASH_APPLY_KEEP, value))
           else eseq (sp_log_warn (sp_env E g) ''cookie_encryption''
                  (''Something went wrong with the decryption of '' @ what_for hash_key))
                (ret (ZEND_HASH_APPLY_REMOVE, value))
       | Some decrypted \<Rightarrow>
           (let n = (length debase64 + 2 ^ 64 - crypto_secretbox_NONCEBYTES - 1 - crypto_secretbox_ZEROBYTES) mod 2 ^ 64
            in if length debase64 < n then crash
               else ret (ZEND_HASH_APPLY_KEEP, string_of (take n (drop crypto_secretbox_ZEROBYTES decrypted)))))"

definition decrypt_zval ::
  "php \<Rightarrow> crypto \<Rightarrow> sp_globals \<Rightarrow> bool \<Rightarrow> string option \<Rightarrow> string \<Rightarrow> (zend_hash_apply \<times> string) eff" where
  "decrypt_zval E C g simulation hash_key value =
     (case ce_base64_decode C value of
        None \<Rightarrow> eseq (sp_log_drop (sp_env E g) ''cookie_encryption'' ''Unable to base64-decode the cookie'')
                 (ret (ZEND_HASH_APPLY_REMOVE, value))
      | Some debase64 \<Rightarrow>
          if length debase64 < crypto_secretbox_NONCEBYTES then
            (if simulation
             then eseq (sp_log_simulation (sp_env E g) ''cookie_encryption''
                    (''Buffer underflow tentative detected in cookie encryption handling for '' @ what_for hash_key @
                     ''. Using the cookie '' @ [CHR 0x27] @ ''as is'' @ [CHR 0x27] @ '' instead of decrypting it''))
                  (ret (ZEND_HASH_APPLY_KEEP, value))
             else eseq (sp_log_drop (sp_env E g) ''cookie_encryption''
                    ''Buffer underflow (tentative) detected in cookie encryption handling'')
                  (ret (ZEND_HASH_APPLY_REMOVE, value)))
          else if (length debase64 + crypto_secretbox_ZEROBYTES) mod 2 ^ 64 < length debase64 then
            (if simulation
             then eseq (sp_log_simulation (sp_env E g) ''cookie_encryption''
                    (''Integer overflow (tentative) detected in cookie encryption handling for '' @ what_for hash_key @
                     ''. Using the cookie '' @ [CHR 0x27] @ ''as it'' @ [CHR 0x27] @ '' instead of decrypting it.''))
                  (ret (ZEND_HASH_APPLY_KEEP, value))
             else eseq (sp_log_drop (sp_env E g) ''cookie_encryption''
                    ''Integer overflow (tentative) detected in cookie encryption handling.'')
                  (ret (ZEND_HASH_APPLY_REMOVE, value)))
          else decrypt_box E g simulation hash_key value (bytes_of debase64))"

section \<open>Encryption\<close>

text \<open>
  \<open>nonce\<close> is the array after \<open>php_random_bytes\<close>, whose failure is not looked at and leaves the
  zeroes that were there.
\<close>

definition encrypt_zval :: "php \<Rightarrow> crypto \<Rightarrow> sp_globals \<Rightarrow> bytes \<Rightarrow> string \<Rightarrow> string eff" where
  "encrypt_zval E C g nonce data =
     (let encrypted_msg_len = crypto_secretbox_ZEROBYTES + length data + 1 in
      ebind (generate_key E g) (\<lambda>key.
        case crypto_secretbox (replicate crypto_secretbox_ZEROBYTES 0 @ bytes_of data @ [0]) encrypted_msg_len nonce key of
          None \<Rightarrow> eseq (sp_log_err (sp_env E g) ''cookie_encryption'' ''something went wrong during encryption'')
                    (ret ''<sp_encryption_error>'')
        | Some c \<Rightarrow> ret (ce_base64_encode C (string_of (take crypto_secretbox_NONCEBYTES nonce @ c)))))"

section \<open>Properties\<close>

lemma generate_key_Done: "snd (generate_key E g) = Done key \<Longrightarrow> key = bytes_of (e_sha256 E (key_material E g))"
  by (simp add: generate_key_def Let_def eseq_Done_iff)

lemma generate_key_configured:
  assumes "cfg_encryption_key g \<noteq> None" "cfg_cookies_env_var g \<noteq> None"
  shows "snd (generate_key E g) = Done (bytes_of (e_sha256 E (key_material E g)))"
  using assms by (auto simp: generate_key_def Let_def snd_eseq)

definition crypt_key :: "php \<Rightarrow> sp_globals \<Rightarrow> bytes" where
  "crypt_key E g = bytes_of (e_sha256 E (key_material E g))"

lemma crypt_roundtrip_aux:
  assumes base64: "\<And>s. ce_base64_decode C (ce_base64_encode C s) = Some s"
    and nonce: "length nonce = 24" "bytes_ok nonce" and size: "length data < 2 ^ 63"
    and enc: "snd (encrypt_zval E C g nonce data) = Done z"
  shows "snd (decrypt_zval E C g simulation hash_key z) = Done (ZEND_HASH_APPLY_KEEP, data)"
proof -
  let ?x = "bytes_of data @ [0]" and ?k = "crypt_key E g"
  have key: "snd (generate_key E g) = Done ?k"
    using enc generate_key_Done by (auto simp: encrypt_zval_def Let_def ebind_Done_iff crypt_key_def)
  let ?c = "replicate 16 0 @ sealed ?x nonce ?k"
  have box: "crypto_secretbox (replicate 32 0 @ ?x) (32 + length data + 1) nonce ?k = Some ?c"
    using crypto_secretbox_sealed [of ?x nonce ?k] by simp
  have z: "z = ce_base64_encode C (string_of (nonce @ ?c))"
    using enc key box nonce by (auto simp: encrypt_zval_def Let_def ebind_Done_iff crypto_sizes)
  have c: "bytes_ok ?c" "length ?c = 33 + length data"
    using bytes_ok_sealed [of ?x nonce ?k] by (simp_all add: sealed_def Let_def)
  have open_c: "crypto_secretbox_open ?c (33 + length data) nonce ?k = Some (replicate 32 0 @ ?x)"
    using box by (subst secretbox_open_iff) (use c in \<open>simp_all add: algebra_simps\<close>)
  have n: "(33 + length data + 24 + 2 ^ 64 - 24 - 1 - 32) mod 2 ^ 64 = length data" using size by simp
  have "snd (decrypt_box E g simulation hash_key z (nonce @ ?c)) = Done (ZEND_HASH_APPLY_KEEP, data)"
    unfolding decrypt_box_def using key open_c n nonce c(2)
    by (simp add: snd_ebind crypto_sizes string_of_def [symmetric] algebra_simps Let_def)
  then show ?thesis
    using size nonce c by (simp add: decrypt_zval_def z base64 bytes_of_string_of crypto_sizes)
qed

lemma encrypt_zval_encoded:
  assumes "length nonce = 24" "snd (encrypt_zval E C g nonce data) = Done z"
  shows "\<exists>s. z = ce_base64_encode C s \<and> s \<noteq> [] \<and> length s = length data + 57"
proof -
  obtain key where key: "snd (generate_key E g) = Done key" using assms(2) by (auto simp: encrypt_zval_def Let_def ebind_Done_iff)
  let ?x = "bytes_of data @ [0]"
  have "crypto_secretbox (replicate 32 0 @ ?x) (32 + length data + 1) nonce key = Some (replicate 16 0 @ sealed ?x nonce key)"
    using crypto_secretbox_sealed [of ?x nonce key] by simp
  moreover have "length (sealed ?x nonce key) = 17 + length data" by (simp add: sealed_def Let_def)
  ultimately show ?thesis
    using assms key by (auto simp: encrypt_zval_def Let_def ebind_Done_iff crypto_sizes string_of_def)
qed

text \<open>
  Decryption undoes encryption: whatever \<open>encrypt_zval\<close> made of a value, for any nonce,
  \<open>decrypt_zval\<close> gives the value back, byte for byte, when the client, the environment and the
  secret are the same.
\<close>

theorem crypt_roundtrip:
  assumes base64: "\<And>s. ce_base64_decode C (ce_base64_encode C s) = Some s"
    and nonce: "length nonce = 24" "bytes_ok nonce" and size: "length data < 2 ^ 63"
    and enc: "snd (encrypt_zval E C g nonce data) = Done z"
  shows "snd (decrypt_zval E C g simulation hash_key z) = Done (ZEND_HASH_APPLY_KEEP, data)"
  by (rule crypt_roundtrip_aux [OF assms])

definition sample_crypto :: crypto where
  "sample_crypto = \<lparr>ce_base64_encode = (\<lambda>s. s), ce_base64_decode = Some\<rparr>"

definition crypt_globals :: sp_globals where
  "crypt_globals = sample_globals\<lparr>cfg_encryption_key := Some ''secret'', cfg_cookies_env_var := Some ''REMOTE_ADDR''\<rparr>"

theorem crypt_roundtrip_witness:
  "\<exists>z. snd (encrypt_zval sample_php sample_crypto crypt_globals (replicate 24 3) ''abc'') = Done z \<and>
     snd (decrypt_zval sample_php sample_crypto crypt_globals False None z) = Done (ZEND_HASH_APPLY_KEEP, ''abc'')"
proof -
  let ?k = "crypt_key sample_php crypt_globals"
  have key: "snd (generate_key sample_php crypt_globals) = Done ?k"
    using generate_key_configured [of crypt_globals sample_php] by (simp add: crypt_globals_def crypt_key_def)
  have box: "crypto_secretbox (replicate 32 0 @ bytes_of ''abc'' @ [0]) 36 (replicate 24 3) ?k =
      Some (replicate 16 0 @ sealed (bytes_of ''abc'' @ [0]) (replicate 24 3) ?k)"
    using crypto_secretbox_sealed [of "bytes_of ''abc'' @ [0]" "replicate 24 3" ?k] by simp
  obtain z where z: "snd (encrypt_zval sample_php sample_crypto crypt_globals (replicate 24 3) ''abc'') = Done z"
    using key box by (simp add: encrypt_zval_def Let_def snd_ebind crypto_sizes)
  have "snd (decrypt_zval sample_php sample_crypto crypt_globals False None z) = Done (ZEND_HASH_APPLY_KEEP, ''abc'')"
    by (rule crypt_roundtrip [OF _ _ _ _ z]) (simp_all add: sample_crypto_def bytes_ok_def)
  then show ?thesis using z by blast
qed

lemma decrypt_authentic_aux:
  assumes "snd (decrypt_zval E C g False hash_key z) = Done (ZEND_HASH_APPLY_KEEP, v)"
    and "\<And>d. ce_base64_decode C z = Some d \<Longrightarrow> length d < 2 ^ 63"
  shows "\<exists>d x. ce_base64_decode C z = Some d \<and> bytes_ok x \<and> x \<noteq> [] \<and> bytes_of v = butlast x \<and>
    crypto_secretbox (replicate 32 0 @ x) (length d - 24) (take 24 (bytes_of d)) (crypt_key E g) =
      Some (replicate 16 0 @ drop 40 (bytes_of d))"
proof -
  obtain d where d: "ce_base64_decode C z = Some d" "24 \<le> length d"
    and box: "snd (decrypt_box E g False hash_key z (bytes_of d)) = Done (ZEND_HASH_APPLY_KEEP, v)"
    using assms(1) by (auto simp: decrypt_zval_def eseq_Done_iff crypto_sizes split: option.splits if_splits)
  have size: "length d < 2 ^ 63" using assms(2) d(1) by blast
  let ?b = "bytes_of d" and ?k = "crypt_key E g"
  obtain key m where key: "snd (generate_key E g) = Done key"
    and m: "crypto_secretbox_open (drop 24 ?b) (length ?b - 24) (take 24 ?b) key = Some m"
    and n: "\<not> length d < (length d + 2 ^ 64 - 57) mod 2 ^ 64"
    and v: "v = string_of (take ((length d + 2 ^ 64 - 57) mod 2 ^ 64) (drop 32 m))"
    using box by (auto simp: decrypt_box_def ebind_Done_iff eseq_Done_iff crypto_sizes Let_def split: option.splits if_splits)
  have k: "key = ?k" using generate_key_Done [OF key] by (simp add: crypt_key_def)
  have long: "32 \<le> length d - 24" using m by (auto simp: crypto_secretbox_open_def split: if_splits)
  have "length m = length d - 24 \<and> take 32 m = replicate 32 0 \<and>
      crypto_secretbox m (length d - 24) (take 24 ?b) ?k = Some (replicate 16 0 @ drop 16 (drop 24 ?b))"
    using m long by (subst (asm) length_bytes_of, subst (asm) secretbox_open_iff) (simp_all add: k bytes_ok_drop)
  then have lm: "length m = length d - 24" and tm: "take 32 m = replicate 32 0"
    and s: "crypto_secretbox m (length d - 24) (take 24 ?b) ?k = Some (replicate 16 0 @ drop 40 ?b)" by simp_all
  have "length d \<noteq> 56" using n by auto
  then have nz: "57 \<le> length d" using long by simp
  then obtain e where e: "length d = e + 57" by (metis add.commute le_add_diff_inverse)
  have "(length d + 2 ^ 64 - 57) mod 2 ^ 64 = length d - 57" unfolding e using size e by simp
  then have v': "v = string_of (butlast (drop 32 m))"
    using v lm nz by (simp add: butlast_conv_take)
  have mx: "m = replicate 32 0 @ drop 32 m" using tm by (metis append_take_drop_id)
  let ?x = "drop 32 m"
  have ok: "bytes_ok ?x"
    using crypto_secretbox_open_bytes [OF m] by (simp add: bytes_ok_drop)
  have "?x \<noteq> []" using lm nz by simp
  moreover have "bytes_of v = butlast ?x"
    unfolding v' using ok by (intro bytes_of_string_of) (auto simp: bytes_ok_def dest: in_set_butlastD)
  moreover have "crypto_secretbox (replicate 32 0 @ ?x) (length d - 24) (take 24 ?b) ?k = Some (replicate 16 0 @ drop 40 ?b)"
    using s mx by simp
  ultimately show ?thesis using d(1) ok by blast
qed

text \<open>In simulation a value that does not decrypt is kept as it is, with a line in the log.\<close>

lemma decrypt_simulated:
  assumes "snd (decrypt_zval E C g True hash_key z) = Done (ZEND_HASH_APPLY_KEEP, v)"
  shows "snd (decrypt_zval E C g False hash_key z) = Done (ZEND_HASH_APPLY_KEEP, v) \<or>
    v = z \<and> fst (decrypt_zval E C g True hash_key z) \<noteq> []"
proof -
  have log: "fst (eseq (sp_log_simulation L feature msg) n) \<noteq> []" for L feature msg and n :: "'x eff"
  proof -
    have "length (fst (sp_log_simulation L feature msg)) = 1" by (simp add: sp_log_simulation_def)
    then have "fst (sp_log_simulation L feature msg) \<noteq> []" by auto
    then show ?thesis by (simp add: fst_eseq)
  qed
  have box: "snd (decrypt_box E g False hash_key z b) = Done (ZEND_HASH_APPLY_KEEP, v) \<or> v = z \<and> fst (decrypt_box E g True hash_key z b) \<noteq> []"
    if kept: "snd (decrypt_box E g True hash_key z b) = Done (ZEND_HASH_APPLY_KEEP, v)" for b
  proof -
    obtain key where key: "snd (generate_key E g) = Done key" using kept unfolding decrypt_box_def ebind_Done_iff by blast
    show ?thesis
    proof (cases "crypto_secretbox_open (drop crypto_secretbox_NONCEBYTES b) (length b - crypto_secretbox_NONCEBYTES)
        (take crypto_secretbox_NONCEBYTES b) key")
      case None
      then show ?thesis using kept key by (simp add: decrypt_box_def snd_ebind fst_ebind eseq_Done_iff log)
    next
      case (Some m)
      then show ?thesis using kept key by (simp add: decrypt_box_def snd_ebind)
    qed
  qed
  show ?thesis
  proof (cases "ce_base64_decode C z")
    case None
    then show ?thesis using assms by (simp add: decrypt_zval_def eseq_Done_iff)
  next
    case (Some d)
    then show ?thesis
      using assms box [of "bytes_of d"] by (simp add: decrypt_zval_def eseq_Done_iff log split: if_splits)
  qed
qed

text \<open>
  C32. Only authentic values get in: a value that \<open>decrypt_zval\<close> lets in
  comes from a message that, sealed under the nonce it carries and the key of this client and this
  secret, gives exactly the bytes received behind their first 40; and it is this message without
  its last byte. The one exception is simulation, where a value that is not of this kind is kept unchanged
  and logged.
\<close>

theorem decrypt_authentic:
  assumes "snd (decrypt_zval E C g simulation hash_key z) = Done (ZEND_HASH_APPLY_KEEP, v)"
    and "\<And>d. ce_base64_decode C z = Some d \<Longrightarrow> length d < 2 ^ 63"
  shows "(\<exists>d x. ce_base64_decode C z = Some d \<and> bytes_ok x \<and> x \<noteq> [] \<and> bytes_of v = butlast x \<and>
      crypto_secretbox (replicate 32 0 @ x) (length d - 24) (take 24 (bytes_of d)) (crypt_key E g) =
        Some (replicate 16 0 @ drop 40 (bytes_of d))) \<or>
    simulation \<and> v = z \<and> fst (decrypt_zval E C g simulation hash_key z) \<noteq> []"
proof (cases simulation)
  case True
  then show ?thesis using decrypt_simulated [of E C g hash_key z v] decrypt_authentic_aux [OF _ assms(2)] assms(1) by auto
next
  case False
  then show ?thesis using decrypt_authentic_aux [OF _ assms(2)] assms(1) by auto
qed

theorem decrypt_authentic_witness:
  "\<exists>z d x. snd (decrypt_zval sample_php sample_crypto crypt_globals False None z) = Done (ZEND_HASH_APPLY_KEEP, ''abc'') \<and>
     ce_base64_decode sample_crypto z = Some d \<and> bytes_of ''abc'' = butlast x \<and>
     crypto_secretbox (replicate 32 0 @ x) (length d - 24) (take 24 (bytes_of d)) (crypt_key sample_php crypt_globals) =
       Some (replicate 16 0 @ drop 40 (bytes_of d))"
proof -
  let ?k = "crypt_key sample_php crypt_globals" and ?x = "bytes_of ''abc'' @ [0]"
  have key: "snd (generate_key sample_php crypt_globals) = Done ?k"
    using generate_key_configured [of crypt_globals sample_php] by (simp add: crypt_globals_def crypt_key_def)
  have box: "crypto_secretbox (replicate 32 0 @ ?x) 36 (replicate 24 3) ?k = Some (replicate 16 0 @ sealed ?x (replicate 24 3) ?k)"
    using crypto_secretbox_sealed [of ?x "replicate 24 3" ?k] by simp
  define z where "z = string_of (replicate 24 3 @ replicate 16 0 @ sealed ?x (replicate 24 3) ?k)"
  have "snd (encrypt_zval sample_php sample_crypto crypt_globals (replicate 24 3) ''abc'') = Done z"
    using key box by (simp add: encrypt_zval_def Let_def snd_ebind crypto_sizes sample_crypto_def z_def)
  then have "snd (decrypt_zval sample_php sample_crypto crypt_globals False None z) = Done (ZEND_HASH_APPLY_KEEP, ''abc'')"
    by (rule crypt_roundtrip [rotated 4]) (simp_all add: sample_crypto_def bytes_ok_def)
  moreover have "length d < 2 ^ 63" if "ce_base64_decode sample_crypto z = Some d" for d
    using that by (auto simp: sample_crypto_def z_def sealed_def Let_def)
  ultimately show ?thesis using decrypt_authentic [of sample_php sample_crypto crypt_globals False None z "''abc''"] by blast
qed

end
