(* ===== verification/Cookie_Encryption.thy ===== *)
theory Cookie_Encryption
  imports Crypt
begin

text \<open>
  Cookies, \<open>src/sp_cookie_encryption.c\<close>: what is decrypted when a request starts, and what
  \<open>setcookie\<close> sends instead of what the script asked for. The branches are those of PHP 8.3 and
  8.4. The engine's conversions of values and \<open>php_setcookie\<close> are parameters.
\<close>

section \<open>Lookup and decryption\<close>

fun find_cookie :: "php \<Rightarrow> sp_cookie list \<Rightarrow> string \<Rightarrow> sp_cookie option" where
  "find_cookie E [] key = None"
| "find_cookie E (c # cs) key = (if sp_match_value E key (ck_name c) (ck_name_r c) then Some c else find_cookie E cs key)"

definition sp_lookup_cookie_config :: "php \<Rightarrow> sp_globals \<Rightarrow> string \<Rightarrow> sp_cookie option" where
  "sp_lookup_cookie_config E g key = find_cookie E (cfg_cookies g) key"

definition decrypt_cookie :: "php \<Rightarrow> crypto \<Rightarrow> sp_globals \<Rightarrow> hkey \<Rightarrow> zval \<Rightarrow> (zend_hash_apply \<times> zval) eff" where
  "decrypt_cookie E C g hash_key pDest =
     (case hash_key of
        HIdx i \<Rightarrow> ret (ZEND_HASH_APPLY_KEEP, pDest)
      | HStr key \<Rightarrow>
          (case sp_lookup_cookie_config E g key of
             None \<Rightarrow> ret (ZEND_HASH_APPLY_KEEP, pDest)
           | Some cookie \<Rightarrow>
               if \<not> ck_encrypt cookie then ret (ZEND_HASH_APPLY_KEEP, pDest)
               else (case pDest of
                  IS_STRING s \<Rightarrow>
                    if s = [] then ret (ZEND_HASH_APPLY_KEEP, pDest)
                    else ebind (decrypt_zval E C g (ck_simulation cookie) (Some key) s)
                           (\<lambda>(r, s'). ret (r, IS_STRING s'))
                | _ \<Rightarrow> ret (ZEND_HASH_APPLY_KEEP, pDest))))"

text \<open>\<open>zend_hash_apply_with_arguments\<close> on the request's cookies.\<close>

fun decrypt_cookies :: "php \<Rightarrow> crypto \<Rightarrow> sp_globals \<Rightarrow> (hkey \<times> zval) list \<Rightarrow> (hkey \<times> zval) list eff" where
  "decrypt_cookies E C g [] = ret []"
| "decrypt_cookies E C g ((k, v) # ht) =
     ebind (decrypt_cookie E C g k v) (\<lambda>(r, v').
       ebind (decrypt_cookies E C g ht) (\<lambda>ht'.
         ret (if r = ZEND_HASH_APPLY_KEEP then (k, v') # ht' else ht')))"

definition encrypt_data :: "php \<Rightarrow> crypto \<Rightarrow> sp_globals \<Rightarrow> bytes \<Rightarrow> string \<Rightarrow> string eff" where
  "encrypt_data E C g nonce data = encrypt_zval E C g nonce data"

section \<open>The options array\<close>

text \<open>What \<open>php_setcookie\<close> is called with.\<close>

record cookie_call =
  cc_name :: string
  cc_value :: "string option"
  cc_expires :: int
  cc_path :: "string option"
  cc_domain :: "string option"
  cc_secure :: bool
  cc_httponly :: bool
  cc_samesite :: "string option"

record zval_conv =
  zval_get_long :: "zval \<Rightarrow> int"
  zval_get_string :: "zval \<Rightarrow> string"
  zend_is_true :: "zval \<Rightarrow> bool"

definition php_warning :: "string \<Rightarrow> unit eff" where
  "php_warning msg = emit (Ev_Log (Sink_Zend E_WARNING) msg)"

definition set_option :: "zval_conv \<Rightarrow> string \<Rightarrow> zval \<Rightarrow> cookie_call \<Rightarrow> cookie_call option" where
  "set_option V key v c =
     (if equals_ci key ''expires'' then Some (c\<lparr>cc_expires := zval_get_long V v\<rparr>)
      else if equals_ci key ''path'' then Some (c\<lparr>cc_path := Some (zval_get_string V v)\<rparr>)
      else if equals_ci key ''domain'' then Some (c\<lparr>cc_domain := Some (zval_get_string V v)\<rparr>)
      else if equals_ci key ''secure'' then Some (c\<lparr>cc_secure := zend_is_true V v\<rparr>)
      else if equals_ci key ''httponly'' then Some (c\<lparr>cc_httponly := zend_is_true V v\<rparr>)
      else if equals_ci key ''samesite'' then Some (c\<lparr>cc_samesite := Some (zval_get_string V v)\<rparr>)
      else None)"

fun parse_options :: "zval_conv \<Rightarrow> (hkey \<times> zval) list \<Rightarrow> nat \<Rightarrow> cookie_call \<Rightarrow> (nat \<times> cookie_call) eff" where
  "parse_options V [] found c = ret (found, c)"
| "parse_options V ((HStr key, v) # opts) found c =
     (case set_option V key v c of
        Some c' \<Rightarrow> parse_options V opts (found + 1) c'
      | None \<Rightarrow> eseq (php_warning (''Unrecognized key '' @ [CHR 0x27] @ c_str key @ [CHR 0x27] @ '' found in the options array''))
                  (parse_options V opts found c))"
| "parse_options V ((HIdx i, v) # opts) found c =
     eseq (php_warning ''Numeric key found in the options array'') (parse_options V opts found c)"

definition php_head_parse_cookie_options_array :: "zval_conv \<Rightarrow> (hkey \<times> zval) list \<Rightarrow> cookie_call \<Rightarrow> cookie_call eff" where
  "php_head_parse_cookie_options_array V options c =
     ebind (parse_options V options 0 c) (\<lambda>(found, c').
       eseq (if found = 0 \<and> 0 < length options
             then php_warning ''No valid options were found in the given array'' else ret ())
         (ret c'))"

section \<open>setcookie\<close>

text \<open>The arguments as the engine parsed them.\<close>

record setcookie_args =
  sa_name :: string
  sa_value :: "string option"
  sa_expires :: "zval option"
  sa_path :: "string option"
  sa_domain :: "string option"
  sa_secure :: bool
  sa_httponly :: bool
  sa_num_args :: nat

definition wanted_call :: "setcookie_args \<Rightarrow> cookie_call" where
  "wanted_call a =
     \<lparr>cc_name = sa_name a, cc_value = sa_value a, cc_expires = 0, cc_path = sa_path a, cc_domain = sa_domain a,
      cc_secure = sa_secure a, cc_httponly = sa_httponly a, cc_samesite = None\<rparr>"

definition samesite_token :: "samesite_type \<Rightarrow> string" where
  "samesite_token s = (if s = lax then ''Lax'' else ''Strict'')"

definition encrypt_value :: "php \<Rightarrow> crypto \<Rightarrow> sp_globals \<Rightarrow> bytes \<Rightarrow> sp_cookie \<Rightarrow> cookie_call \<Rightarrow> cookie_call eff" where
  "encrypt_value E C g nonce node c =
     (case cc_value c of
        Some v \<Rightarrow> if ck_encrypt node then ebind (encrypt_data E C g nonce v) (\<lambda>z. ret (c\<lparr>cc_value := Some z\<rparr>)) else ret c
      | None \<Rightarrow> ret c)"

definition set_samesite :: "sp_cookie \<Rightarrow> cookie_call \<Rightarrow> cookie_call" where
  "set_samesite node c =
     (if ck_samesite node \<noteq> samesite_unset
      then c\<lparr>cc_path := Some (case cc_path c of Some p \<Rightarrow> p | None \<Rightarrow> []),
             cc_samesite := Some (samesite_token (ck_samesite node))\<rparr>
      else c)"

text \<open>The changes the configuration asks for.\<close>

definition enforce_cookie :: "php \<Rightarrow> crypto \<Rightarrow> sp_globals \<Rightarrow> bytes \<Rightarrow> cookie_call \<Rightarrow> cookie_call eff" where
  "enforce_cookie E C g nonce c =
     (let c1 = (if cfg_auto_cookie_secure_enable g \<and>
                   (case e_http_globals E ''SERVER'' of Some ht \<Rightarrow> zh_find ht (HStr ''HTTPS'') \<noteq> None | None \<Rightarrow> False)
                then c\<lparr>cc_secure := True\<rparr> else c);
          cookie_node = sp_lookup_cookie_config E g (cc_name c1)
      in case cookie_node of
           None \<Rightarrow> ret c1
         | Some node \<Rightarrow>
             ebind (encrypt_value E C g nonce node (if ck_encrypt node then c1\<lparr>cc_httponly := True\<rparr> else c1))
               (\<lambda>c2. ret (set_samesite node c2)))"

definition sp_setcookie ::
  "php \<Rightarrow> crypto \<Rightarrow> zval_conv \<Rightarrow> sp_globals \<Rightarrow> bytes \<Rightarrow> (cookie_call \<Rightarrow> bool eff) \<Rightarrow> setcookie_args \<Rightarrow> bool eff" where
  "sp_setcookie E C V g nonce php_setcookie a =
     (let c = wanted_call a; send = (\<lambda>c. ebind (enforce_cookie E C g nonce c) php_setcookie) in
      case sa_expires a of
        None \<Rightarrow> send c
      | Some (IS_ARRAY options) \<Rightarrow>
          if 3 < sa_num_args a
          then eseq (php_warning ''Cannot pass arguments after the options array'') (ret False)
          else ebind (php_head_parse_cookie_options_array V options c) send
      | Some z \<Rightarrow> send (c\<lparr>cc_expires := zval_get_long V z\<rparr>))"

definition hook_cookies :: "bool \<Rightarrow> hook_table \<Rightarrow> function_table \<Rightarrow> hook_table \<times> function_table" where
  "hook_cookies multibyte ht ft = snd (hook_function multibyte ''setcookie'' ht (Zif_Sp ''sp_setcookie'') ft)"

section \<open>What is sent\<close>

text \<open>
  The configuration's demands on a call of \<open>php_setcookie\<close> for the script's arguments: the flags,
  and a value that comes back as what the script gave.
\<close>

definition https_request :: "php \<Rightarrow> bool" where
  "https_request E \<longleftrightarrow> (\<exists>ht. e_http_globals E ''SERVER'' = Some ht \<and> zh_find ht (HStr ''HTTPS'') \<noteq> None)"

definition value_kept :: "php \<Rightarrow> crypto \<Rightarrow> sp_globals \<Rightarrow> setcookie_args \<Rightarrow> cookie_call \<Rightarrow> bool" where
  "value_kept E C g a c \<longleftrightarrow>
     (case sa_value a of
        None \<Rightarrow> cc_value c = None
      | Some v \<Rightarrow> (\<exists>z. cc_value c = Some z \<and>
          snd (decrypt_cookie E C g (HStr (cc_name c)) (IS_STRING z)) = Done (ZEND_HASH_APPLY_KEEP, IS_STRING v)))"

definition cookie_enforced :: "php \<Rightarrow> crypto \<Rightarrow> sp_globals \<Rightarrow> setcookie_args \<Rightarrow> cookie_call \<Rightarrow> bool" where
  "cookie_enforced E C g a c \<longleftrightarrow>
     cc_name c = sa_name a \<and> value_kept E C g a c \<and>
     (cfg_auto_cookie_secure_enable g \<and> https_request E \<longrightarrow> cc_secure c) \<and>
     (\<forall>node. sp_lookup_cookie_config E g (sa_name a) = Some node \<longrightarrow>
        (ck_encrypt node \<longrightarrow> cc_httponly c) \<and>
        (ck_samesite node \<noteq> samesite_unset \<longrightarrow> cc_samesite c = Some (samesite_token (ck_samesite node)) \<and> cc_path c \<noteq> None))"

lemma decrypt_cookie_encrypted:
  assumes "\<And>s. ce_base64_decode C (ce_base64_encode C s) = Some s" "ce_base64_decode C [] = Some []"
    and "length nonce = 24" "bytes_ok nonce" "length v < 2 ^ 63"
    and "sp_lookup_cookie_config E g name = Some node" "ck_encrypt node"
    and enc: "snd (encrypt_data E C g nonce v) = Done z"
  shows "snd (decrypt_cookie E C g (HStr name) (IS_STRING z)) = Done (ZEND_HASH_APPLY_KEEP, IS_STRING v)"
proof -
  have d: "snd (decrypt_zval E C g (ck_simulation node) (Some name) z) = Done (ZEND_HASH_APPLY_KEEP, v)"
    by (rule crypt_roundtrip_aux [OF assms(1,3,4,5) enc [unfolded encrypt_data_def]])
  have "z \<noteq> []"
  proof
    assume z: "z = []"
    obtain s where "z = ce_base64_encode C s" "s \<noteq> []"
      using encrypt_zval_encoded [OF assms(3) enc [unfolded encrypt_data_def]] by blast
    then show False using assms(1) [of s] assms(2) z by simp
  qed
  then show ?thesis using assms(6,7) d by (simp add: decrypt_cookie_def snd_ebind)
qed

lemma decrypt_cookie_other:
  "\<forall>node. sp_lookup_cookie_config E g name = Some node \<longrightarrow> \<not> ck_encrypt node \<Longrightarrow>
   snd (decrypt_cookie E C g (HStr name) z) = Done (ZEND_HASH_APPLY_KEEP, z)"
  by (auto simp: decrypt_cookie_def split: option.split)

lemma parse_options_keeps:
  "snd (parse_options V opts found c) = Done (n, c') \<Longrightarrow> cc_name c' = cc_name c \<and> cc_value c' = cc_value c"
proof (induction V opts found c rule: parse_options.induct)
  case (2 V key v opts found c)
  then show ?case by (fastforce simp: eseq_Done_iff set_option_def split: option.splits if_splits)
qed (auto simp: eseq_Done_iff)

lemma set_samesite_fields:
  "cc_name (set_samesite node c) = cc_name c" "cc_httponly (set_samesite node c) = cc_httponly c"
  "cc_secure (set_samesite node c) = cc_secure c" "value_kept E C g a (set_samesite node c) = value_kept E C g a c"
  "ck_samesite node \<noteq> samesite_unset \<Longrightarrow> cc_samesite (set_samesite node c) = Some (samesite_token (ck_samesite node))"
  "ck_samesite node \<noteq> samesite_unset \<Longrightarrow> cc_path (set_samesite node c) \<noteq> None"
  by (simp_all add: set_samesite_def value_kept_def split: option.split)

lemma enforce_cookie_enforces:
  assumes laws: "\<And>s. ce_base64_decode C (ce_base64_encode C s) = Some s" "ce_base64_decode C [] = Some []"
    and nonce: "length nonce = 24" "bytes_ok nonce" and size: "\<forall>v. sa_value a = Some v \<longrightarrow> length v < 2 ^ 63"
    and c: "cc_name c = sa_name a" "cc_value c = sa_value a"
    and d: "snd (enforce_cookie E C g nonce c) = Done c'"
  shows "cookie_enforced E C g a c'"
proof -
  let ?look = "sp_lookup_cookie_config E g (sa_name a)"
  have https: "https_request E \<longleftrightarrow> (case e_http_globals E ''SERVER'' of Some ht \<Rightarrow> zh_find ht (HStr ''HTTPS'') \<noteq> None | None \<Rightarrow> False)"
    by (auto simp: https_request_def split: option.split)
  define c1 where "c1 = (if cfg_auto_cookie_secure_enable g \<and> https_request E then c\<lparr>cc_secure := True\<rparr> else c)"
  have c1: "cc_name c1 = sa_name a" "cc_value c1 = sa_value a"
    "cfg_auto_cookie_secure_enable g \<and> https_request E \<longrightarrow> cc_secure c1" using c by (simp_all add: c1_def)
  show ?thesis
  proof (cases ?look)
    case None
    then have "c' = c1" using d c c1(1) by (auto simp: enforce_cookie_def Let_def https [symmetric] c1_def split: if_splits)
    then show ?thesis
      using c1 None decrypt_cookie_other [of E g "sa_name a" C]
      by (auto simp: cookie_enforced_def value_kept_def split: option.split)
  next
    case (Some node)
    define c2 where "c2 = (if ck_encrypt node then c1\<lparr>cc_httponly := True\<rparr> else c1)"
    have c2: "cc_name c2 = sa_name a" "cc_value c2 = sa_value a" "ck_encrypt node \<longrightarrow> cc_httponly c2"
      "cfg_auto_cookie_secure_enable g \<and> https_request E \<longrightarrow> cc_secure c2" using c1 by (simp_all add: c2_def)
    obtain c3 where c3: "snd (encrypt_value E C g nonce node c2) = Done c3" and c': "c' = set_samesite node c3"
      using d Some c(1) unfolding enforce_cookie_def Let_def https [symmetric] c1_def [symmetric]
      by (simp add: c1 ebind_Done_iff c2_def [symmetric]) blast
    have kept: "cc_name c3 = sa_name a \<and> value_kept E C g a c3 \<and> cc_httponly c3 = cc_httponly c2 \<and> cc_secure c3 = cc_secure c2"
    proof (cases "ck_encrypt node")
      case True
      show ?thesis
      proof (cases "sa_value a")
        case None
        then show ?thesis using c3 c2 by (simp add: encrypt_value_def value_kept_def)
      next
        case v: (Some v)
        obtain z where z: "snd (encrypt_data E C g nonce v) = Done z" "c3 = c2\<lparr>cc_value := Some z\<rparr>"
          using c3 c2 v True by (auto simp: encrypt_value_def ebind_Done_iff)
        show ?thesis
          using decrypt_cookie_encrypted [OF laws nonce _ Some True z(1)] size v c2 z(2) by (simp add: value_kept_def)
      qed
    next
      case False
      then have "c3 = c2" using c3 by (simp add: encrypt_value_def split: option.splits)
      then show ?thesis
        using c2 Some False decrypt_cookie_other [of E g "sa_name a" C]
        by (auto simp: value_kept_def split: option.split)
    qed
    then show ?thesis using c2 Some unfolding c' by (auto simp: cookie_enforced_def set_samesite_fields)
  qed
qed

lemma ebind_cong_Done: "(\<And>v. snd m = Done v \<Longrightarrow> f v = f' v) \<Longrightarrow> ebind m f = ebind m f'"
  by (cases m rule: prod.exhaust, rename_tac l r, case_tac r) auto

text \<open>
  C22. The cookie policy is enforced: whatever the script asks for, \<open>php_setcookie\<close> is only called
  with arguments that meet the configuration, \<open>secure\<close> over HTTPS, \<open>httponly\<close> and an encrypted
  value for an encrypted cookie, the configured \<open>SameSite\<close>; and the value, when the client sends it
  back, is decrypted to the one the script gave. Two functions that agree on such calls cannot be
  told apart.
\<close>

theorem setcookie_enforces:
  assumes "\<And>s. ce_base64_decode C (ce_base64_encode C s) = Some s" "ce_base64_decode C [] = Some []"
    and "length nonce = 24" "bytes_ok nonce" "\<forall>v. sa_value a = Some v \<longrightarrow> length v < 2 ^ 63"
    and same: "\<And>c. cookie_enforced E C g a c \<Longrightarrow> php_setcookie c = php_setcookie' c"
  shows "sp_setcookie E C V g nonce php_setcookie a = sp_setcookie E C V g nonce php_setcookie' a"
proof -
  let ?send = "\<lambda>f c. ebind (enforce_cookie E C g nonce c) f"
  have send: "?send php_setcookie c = ?send php_setcookie' c" if "cc_name c = sa_name a" "cc_value c = sa_value a" for c
    by (rule ebind_cong_Done) (rule same [OF enforce_cookie_enforces [OF assms(1-5) that]])
  have w: "cc_name (wanted_call a) = sa_name a" "cc_value (wanted_call a) = sa_value a" by (simp_all add: wanted_call_def)
  have opts: "ebind (php_head_parse_cookie_options_array V o1 (wanted_call a)) (?send php_setcookie) =
      ebind (php_head_parse_cookie_options_array V o1 (wanted_call a)) (?send php_setcookie')" for o1
  proof (rule ebind_cong_Done)
    fix c assume "snd (php_head_parse_cookie_options_array V o1 (wanted_call a)) = Done c"
    then have "cc_name c = sa_name a" "cc_value c = sa_value a"
      using parse_options_keeps w by (fastforce simp: php_head_parse_cookie_options_array_def ebind_Done_iff eseq_Done_iff)+
    then show "?send php_setcookie c = ?send php_setcookie' c" by (rule send)
  qed
  show ?thesis
    unfolding sp_setcookie_def Let_def using send w opts by (simp split: option.split zval.split)
qed

definition session_cookie :: sp_cookie where
  "session_cookie = \<lparr>ck_samesite = lax, ck_encrypt = True, ck_name = Some ''sid'', ck_name_r = None, ck_simulation = False\<rparr>"

definition cookie_globals :: sp_globals where
  "cookie_globals = crypt_globals\<lparr>cfg_cookies := [session_cookie]\<rparr>"

definition set_sid :: setcookie_args where
  "set_sid = \<lparr>sa_name = ''sid'', sa_value = Some ''abc'', sa_expires = None, sa_path = None, sa_domain = None, sa_secure = False,
     sa_httponly = False, sa_num_args = 2\<rparr>"

definition sample_conv :: zval_conv where
  "sample_conv = \<lparr>zval_get_long = (\<lambda>z. 0), zval_get_string = (\<lambda>z. []), zend_is_true = (\<lambda>z. True)\<rparr>"

lemma lookup_sid: "sp_lookup_cookie_config sample_php cookie_globals ''sid'' = Some session_cookie"
  by (simp add: sp_lookup_cookie_config_def cookie_globals_def session_cookie_def sp_match_value_def)

theorem setcookie_enforces_witness:
  "sp_setcookie sample_php sample_crypto sample_conv cookie_globals (replicate 24 3) (\<lambda>c. ret True) set_sid =
   sp_setcookie sample_php sample_crypto sample_conv cookie_globals (replicate 24 3)
     (\<lambda>c. ret (cc_httponly c \<and> cc_samesite c = Some ''Lax'')) set_sid"
  by (rule setcookie_enforces)
    (auto simp: sample_crypto_def bytes_ok_def set_sid_def cookie_enforced_def lookup_sid session_cookie_def samesite_token_def)

section \<open>What comes in\<close>

definition authentic :: "php \<Rightarrow> crypto \<Rightarrow> sp_globals \<Rightarrow> string \<Rightarrow> string \<Rightarrow> bool" where
  "authentic E C g z v \<longleftrightarrow>
     (\<exists>d x. ce_base64_decode C z = Some d \<and> bytes_ok x \<and> x \<noteq> [] \<and> bytes_of v = butlast x \<and>
        crypto_secretbox (replicate 32 0 @ x) (length d - 24) (take 24 (bytes_of d)) (crypt_key E g) =
          Some (replicate 16 0 @ drop 40 (bytes_of d)))"

text \<open>The cookies that are to be decrypted: named in the configuration, strings, not empty.\<close>

definition to_decrypt :: "php \<Rightarrow> sp_globals \<Rightarrow> hkey \<Rightarrow> zval \<Rightarrow> sp_cookie option" where
  "to_decrypt E g k v =
     (case (k, v) of
        (HStr key, IS_STRING s) \<Rightarrow>
          (case sp_lookup_cookie_config E g key of
             Some cookie \<Rightarrow> if ck_encrypt cookie \<and> s \<noteq> [] then Some cookie else None
           | None \<Rightarrow> None)
      | _ \<Rightarrow> None)"

lemma decrypt_cookie_spec:
  assumes d: "snd (decrypt_cookie E C g k v) = Done (ZEND_HASH_APPLY_KEEP, v')"
    and small: "\<And>z d. v = IS_STRING z \<Longrightarrow> ce_base64_decode C z = Some d \<Longrightarrow> length d < 2 ^ 63"
  shows "case to_decrypt E g k v of None \<Rightarrow> v' = v
    | Some cookie \<Rightarrow> ck_simulation cookie \<or> (\<exists>z t. v = IS_STRING z \<and> v' = IS_STRING t \<and> authentic E C g z t)"
proof (cases "to_decrypt E g k v")
  case None
  then show ?thesis using d
    by (auto simp: to_decrypt_def decrypt_cookie_def split: hkey.splits zval.splits option.splits if_splits)
next
  case (Some cookie)
  obtain key s where k: "k = HStr key" "v = IS_STRING s" "sp_lookup_cookie_config E g key = Some cookie" "ck_encrypt cookie" "s \<noteq> []"
    using Some by (auto simp: to_decrypt_def split: hkey.splits zval.splits option.splits if_splits)
  show ?thesis
  proof (cases "ck_simulation cookie")
    case False
    obtain t where t: "snd (decrypt_zval E C g False (Some key) s) = Done (ZEND_HASH_APPLY_KEEP, t)" "v' = IS_STRING t"
      using d k False by (auto simp: decrypt_cookie_def ebind_Done_iff)
    show ?thesis using decrypt_authentic_aux [OF t(1) small [OF k(2)]] Some k(2) t(2) by (auto simp: authentic_def)
  qed (simp add: Some)
qed

text \<open>
  C21. Forged cookies do not reach the script: after the request's cookies are decrypted, every one
  left was sent under its name; one that is to be encrypted carries an authentic value, unless its
  rule only simulates, and all others are as they were sent.
\<close>

theorem forged_cookies_removed:
  assumes "snd (decrypt_cookies E C g ht) = Done ht'" "(k, v') \<in> set ht'"
    and "\<And>n z d. (n, IS_STRING z) \<in> set ht \<Longrightarrow> ce_base64_decode C z = Some d \<Longrightarrow> length d < 2 ^ 63"
  shows "\<exists>v. (k, v) \<in> set ht \<and>
    (case to_decrypt E g k v of None \<Rightarrow> v' = v
     | Some cookie \<Rightarrow> ck_simulation cookie \<or> (\<exists>z t. v = IS_STRING z \<and> v' = IS_STRING t \<and> authentic E C g z t))"
  using assms
proof (induction ht arbitrary: ht')
  case (Cons e ht)
  obtain k0 v0 where e: "e = (k0, v0)" by (cases e)
  obtain r w ht1 where d: "snd (decrypt_cookie E C g k0 v0) = Done (r, w)" and h: "snd (decrypt_cookies E C g ht) = Done ht1"
    and ht': "ht' = (if r = ZEND_HASH_APPLY_KEEP then (k0, w) # ht1 else ht1)"
    using Cons.prems(1) by (auto simp: e ebind_Done_iff)
  show ?case
  proof (cases "(k, v') \<in> set ht1")
    case True
    then show ?thesis using Cons.IH [OF h] Cons.prems(3) by (auto simp: e)
  next
    case False
    then have "r = ZEND_HASH_APPLY_KEEP" "k = k0" "v' = w" using Cons.prems(2) ht' by (auto split: if_splits)
    then show ?thesis using decrypt_cookie_spec [of E C g k0 v0 w] d Cons.prems(3) by (auto simp: e)
  qed
qed simp

definition forged :: "(hkey \<times> zval) list" where
  "forged = [(HStr ''sid'', IS_STRING (replicate 30 (CHR ''a''))), (HStr ''lang'', IS_STRING ''en'')]"

theorem forged_cookies_removed_witness:
  "\<exists>ht'. snd (decrypt_cookies sample_php sample_crypto cookie_globals forged) = Done ht' \<and> (HStr ''lang'', IS_STRING ''en'') \<in> set ht' \<and>
     (\<exists>v. (HStr ''lang'', v) \<in> set forged \<and> IS_STRING ''en'' = v)"
proof -
  let ?c = cookie_globals
  have key: "snd (generate_key sample_php ?c) = Done (crypt_key sample_php ?c)"
    using generate_key_configured [of ?c sample_php] by (simp add: cookie_globals_def crypt_globals_def crypt_key_def)
  have lang: "sp_lookup_cookie_config sample_php ?c ''lang'' = None"
    by (simp add: sp_lookup_cookie_config_def cookie_globals_def session_cookie_def sp_match_value_def)
  have sid: "snd (decrypt_cookie sample_php sample_crypto ?c (HStr ''sid'') (IS_STRING (replicate 30 (CHR ''a'')))) =
      Done (ZEND_HASH_APPLY_REMOVE, IS_STRING (replicate 30 (CHR ''a'')))"
    using key by (simp add: decrypt_cookie_def lookup_sid session_cookie_def decrypt_zval_def sample_crypto_def crypto_sizes
        decrypt_box_def crypto_secretbox_open_def snd_ebind snd_eseq)
  have d: "snd (decrypt_cookies sample_php sample_crypto ?c forged) = Done [(HStr ''lang'', IS_STRING ''en'')]"
    using sid lang by (simp add: forged_def snd_ebind decrypt_cookie_def [of _ _ _ "HStr ''lang''"])
  have "\<exists>v. (HStr ''lang'', v) \<in> set forged \<and>
    (case to_decrypt sample_php ?c (HStr ''lang'') v of None \<Rightarrow> IS_STRING ''en'' = v
     | Some cookie \<Rightarrow> ck_simulation cookie \<or> (\<exists>z t. v = IS_STRING z \<and> IS_STRING ''en'' = IS_STRING t \<and> authentic sample_php sample_crypto ?c z t))"
    by (rule forged_cookies_removed [OF d]) (auto simp: forged_def sample_crypto_def)
  then show ?thesis using d by (auto simp: forged_def to_decrypt_def lang)
qed

end
