(* ===== verification/Session.thy ===== *)
theory Session
  imports Cookie_Encryption
begin

text \<open>
  Sessions, \<open>src/sp_session.c\<close>: the checks on session identifiers, the encryption of what the
  engine's save handler reads and writes, and the way the extension keeps itself in front of
  whatever save handler the engine selects. The handlers are parameters, modules are numbered.
\<close>

section \<open>Reading and writing\<close>

definition check_sid_length :: "php \<Rightarrow> sp_globals \<Rightarrow> string option \<Rightarrow> unit eff" where
  "check_sid_length E g sid =
     (let cfg = cfg_session g in
      case sid of
        None \<Rightarrow> ret ()
      | Some sid \<Rightarrow>
          eseq (if se_sid_min_length cfg \<noteq> 0 \<and> length sid < se_sid_min_length cfg
                then sp_log_auto (sp_env E g) ''session'' (se_simulation cfg)
                  (''Session ID is too short (sid='' @ show_nat (length sid) @ '' min='' @ show_nat (se_sid_min_length cfg) @ '')'')
                else ret ())
            (if se_sid_max_length cfg \<noteq> 0 \<and> length sid > se_sid_max_length cfg
             then sp_log_auto (sp_env E g) ''session'' (se_simulation cfg)
               (''Session ID is too long (sid='' @ show_nat (length sid) @ '' max='' @ show_nat (se_sid_max_length cfg) @ '')'')
             else ret ()))"

text \<open>A read gives a result and, when there is one, the session's data.\<close>

definition sp_hook_s_read ::
  "php \<Rightarrow> crypto \<Rightarrow> sp_globals \<Rightarrow> (string option \<Rightarrow> (zend_result \<times> string option) eff) \<Rightarrow> string option \<Rightarrow>
   (zend_result \<times> string option) eff" where
  "sp_hook_s_read E C g old_s_read key =
     eseq (check_sid_length E g key)
       (ebind (old_s_read key) (\<lambda>(r, val).
          case val of
            None \<Rightarrow> ret (r, val)
          | Some v \<Rightarrow>
              if v = [] then ret (r, val)
              else if r = SUCCESS \<and> se_encrypt (cfg_session g)
              then ebind (decrypt_zval E C g (se_simulation (cfg_session g)) None v) (\<lambda>(res, v').
                     if res \<noteq> ZEND_HASH_APPLY_KEEP then zend_bailout else ret (r, Some v'))
              else ret (r, val)))"

definition sp_hook_s_write ::
  "php \<Rightarrow> crypto \<Rightarrow> sp_globals \<Rightarrow> bytes \<Rightarrow> (string option \<Rightarrow> string \<Rightarrow> zend_result eff) \<Rightarrow> string option \<Rightarrow> string \<Rightarrow>
   zend_result eff" where
  "sp_hook_s_write E C g nonce old_s_write key val =
     eseq (check_sid_length E g key)
       (if 0 < length val \<and> se_encrypt (cfg_session g)
        then ebind (encrypt_zval E C g nonce val) (old_s_write key) else old_s_write key val)"

section \<open>The save handler\<close>

text \<open>
  The engine's modules are numbered; the extension's own copy is \<open>Mod_Sp\<close>. A handler of a module
  is the engine's for the module's number or the extension's.
\<close>

datatype ps_module = Mod_Engine nat | Mod_Sp

datatype save_handler_mh = Mh_Engine | Mh_Sp
datatype rinit_fn = Rinit_Engine | Rinit_Sp

record session_state =
  session_mod :: "ps_module option"
  s_module :: bool
  s_original_mod :: "ps_module option"
  old_s_read :: "ps_module option"
  old_s_write :: "ps_module option"
  session_rinit :: rinit_fn
  previous_sessionRINIT :: "rinit_fn option"
  save_handler :: "save_handler_mh option"
  old_OnUpdateSaveHandler :: "save_handler_mh option"

text \<open>
  \<open>s_module\<close> says whether the copy is allocated; filling it again replaces what it was a copy of,
  and \<open>malloc\<close> does not fail.
\<close>

definition sp_hook_session_module :: "session_state \<Rightarrow> session_state" where
  "sp_hook_session_module s =
     (case session_mod s of
        None \<Rightarrow> s
      | Some old_mod \<Rightarrow>
          if s_module s \<and> old_mod = Mod_Sp then s
          else s\<lparr>s_module := True, s_original_mod := Some old_mod, old_s_read := Some old_mod, old_s_write := Some old_mod,
                 session_mod := Some Mod_Sp\<rparr>)"

text \<open>
  \<open>select\<close> is the engine's own handler of the setting: it may set another module, or refuse and
  leave the module alone.
\<close>

definition sp_OnUpdateSaveHandler ::
  "(ps_module option \<Rightarrow> ps_module option \<times> zend_result) \<Rightarrow> session_state \<Rightarrow> session_state \<times> zend_result" where
  "sp_OnUpdateSaveHandler select s =
     (let s1 = s\<lparr>session_mod := s_original_mod s\<rparr>;
          (m, r) = select (session_mod s1)
      in (sp_hook_session_module (s1\<lparr>session_mod := m\<rparr>), r))"

definition sp_hook_session_RINIT ::
  "(ps_module option \<Rightarrow> ps_module option \<times> zend_result) \<Rightarrow> session_state \<Rightarrow> session_state \<times> zend_result" where
  "sp_hook_session_RINIT previous s =
     (let (m, r) = previous (session_mod s) in (sp_hook_session_module (s\<lparr>session_mod := m\<rparr>), r))"

definition hook_session :: "php \<Rightarrow> sp_globals \<Rightarrow> bool \<Rightarrow> session_state \<Rightarrow> session_state eff" where
  "hook_session E g session_module_found s =
     (if \<not> session_module_found
      then eseq (sp_log_err (sp_env E g) ''session''
             (''You are trying to use session encryption or session ID restrictions, but your PHP installation has no session support. '' @
              ''Please install the PHP session module or recompile PHP with session support.''))
           (ret s)
      else if old_OnUpdateSaveHandler s \<noteq> None then ret s
      else
        (let s1 = s\<lparr>previous_sessionRINIT := Some (session_rinit s), session_rinit := Rinit_Sp\<rparr>;
             s2 = (case save_handler s1 of
                     None \<Rightarrow> s1
                   | Some mh \<Rightarrow> s1\<lparr>old_OnUpdateSaveHandler := Some mh, save_handler := Some Mh_Sp\<rparr>)
         in ret (sp_hook_session_module (s2\<lparr>s_module := False\<rparr>))))"

section \<open>Properties\<close>

text \<open>What the engine may do to the current module: leave it, clear it, or select one of its own.\<close>

definition engine_choice :: "(ps_module option \<Rightarrow> ps_module option \<times> zend_result) \<Rightarrow> bool" where
  "engine_choice f \<longleftrightarrow> (\<forall>m. fst (f m) = m \<or> fst (f m) = None \<or> (\<exists>n. fst (f m) = Some (Mod_Engine n)))"

inductive session_step :: "session_state \<Rightarrow> session_state \<Rightarrow> bool" where
  Request: "engine_choice f \<Longrightarrow> session_step s (fst (sp_hook_session_RINIT f s))"
| Save_Handler: "engine_choice f \<Longrightarrow> session_step s (fst (sp_OnUpdateSaveHandler f s))"

inductive_cases session_stepE: "session_step s s'"

inductive session_reach :: "session_state \<Rightarrow> session_state \<Rightarrow> bool" for s0 where
  Start: "session_reach s0 s0"
| Step: "session_reach s0 s \<Longrightarrow> session_step s s' \<Longrightarrow> session_reach s0 s'"

definition in_front :: "session_state \<Rightarrow> bool" where
  "in_front s \<longleftrightarrow>
     session_mod s \<in> {None, Some Mod_Sp} \<and>
     (s_original_mod s = None \<or> (\<exists>n. s_original_mod s = Some (Mod_Engine n))) \<and>
     (session_mod s = Some Mod_Sp \<longrightarrow>
        s_module s \<and> s_original_mod s \<noteq> None \<and> old_s_read s = s_original_mod s \<and> old_s_write s = s_original_mod s)"

text \<open>The state before the extension hooks: a module of the engine or none, nothing saved.\<close>

definition unhooked_session :: "session_state \<Rightarrow> bool" where
  "unhooked_session s \<longleftrightarrow> session_mod s \<noteq> Some Mod_Sp \<and> s_original_mod s = None \<and> old_OnUpdateSaveHandler s = None"

lemma in_front_hook:
  assumes "session_mod s = None \<or> (\<exists>n. session_mod s = Some (Mod_Engine n)) \<or> in_front s"
    and "s_original_mod s = None \<or> (\<exists>n. s_original_mod s = Some (Mod_Engine n))"
  shows "in_front (sp_hook_session_module s)"
  using assms by (auto simp: sp_hook_session_module_def in_front_def split: option.split)

lemma session_step_in_front: "session_step s s' \<Longrightarrow> in_front s \<Longrightarrow> in_front s'"
proof (erule session_stepE)
  fix f assume s: "in_front s" and f: "engine_choice f" and s': "s' = fst (sp_hook_session_RINIT f s)"
  have "fst (f (session_mod s)) = session_mod s \<or> fst (f (session_mod s)) = None \<or> (\<exists>n. fst (f (session_mod s)) = Some (Mod_Engine n))"
    using f by (simp add: engine_choice_def)
  then show "in_front s'"
    unfolding s' sp_hook_session_RINIT_def Let_def split_beta fst_conv
    using s by (intro in_front_hook) (auto simp: in_front_def)
next
  fix f assume s: "in_front s" and f: "engine_choice f" and s': "s' = fst (sp_OnUpdateSaveHandler f s)"
  have "fst (f (s_original_mod s)) = s_original_mod s \<or> fst (f (s_original_mod s)) = None \<or>
      (\<exists>n. fst (f (s_original_mod s)) = Some (Mod_Engine n))"
    using f by (simp add: engine_choice_def)
  then show "in_front s'"
    unfolding s' sp_OnUpdateSaveHandler_def Let_def split_beta fst_conv
    using s by (intro in_front_hook) (auto simp: in_front_def)
qed

lemma hook_session_in_front:
  "unhooked_session s \<Longrightarrow> snd (hook_session E g True s) = Done s' \<Longrightarrow> in_front s'"
proof -
  assume a: "unhooked_session s" "snd (hook_session E g True s) = Done s'"
  have m: "session_mod s = None \<or> (\<exists>n. session_mod s = Some (Mod_Engine n))"
    using a(1) by (cases "session_mod s") (auto simp: unhooked_session_def intro: ps_module.exhaust)
  show ?thesis
    using a m by (auto simp: hook_session_def unhooked_session_def Let_def intro!: in_front_hook split: option.splits)
qed

text \<open>
  C18. The extension stays in front of the save handler: from the moment sessions are hooked, after
  any sequence of requests and changes of \<open>session.save_handler\<close>, whatever the engine selects or
  refuses, there is no save handler at all or the current one is the extension's, and behind it
  its reads and writes go to a module of the engine, never to itself.
\<close>

theorem session_always_hooked:
  assumes "unhooked_session s0" "snd (hook_session E g True s0) = Done s1" "session_reach s1 s" "session_mod s \<noteq> None"
  shows "session_mod s = Some Mod_Sp \<and> (\<exists>n. old_s_read s = Some (Mod_Engine n) \<and> old_s_write s = Some (Mod_Engine n))"
proof -
  have "in_front s" using assms(3) by induction (use hook_session_in_front [OF assms(1,2)] session_step_in_front in blast)+
  then show ?thesis using assms(4) by (auto simp: in_front_def)
qed

definition files_session :: session_state where
  "files_session = \<lparr>session_mod = Some (Mod_Engine 0), s_module = False, s_original_mod = None, old_s_read = None, old_s_write = None,
     session_rinit = Rinit_Engine, previous_sessionRINIT = None, save_handler = Some Mh_Engine, old_OnUpdateSaveHandler = None\<rparr>"

definition select_user :: "ps_module option \<Rightarrow> ps_module option \<times> zend_result" where
  "select_user m = (Some (Mod_Engine 1), SUCCESS)"

theorem session_always_hooked_witness:
  "\<exists>s1. snd (hook_session sample_php sample_globals True files_session) = Done s1 \<and>
     (let s = fst (sp_OnUpdateSaveHandler select_user s1)
      in session_reach s1 s \<and> session_mod s = Some Mod_Sp \<and> (\<exists>n. old_s_read s = Some (Mod_Engine n) \<and> old_s_write s = Some (Mod_Engine n)))"
proof -
  have f: "engine_choice select_user" by (simp add: engine_choice_def select_user_def)
  obtain s1 where s1: "snd (hook_session sample_php sample_globals True files_session) = Done s1"
    by (simp add: hook_session_def files_session_def Let_def)
  let ?s = "fst (sp_OnUpdateSaveHandler select_user s1)"
  have r: "session_reach s1 ?s" by (rule session_reach.Step [OF session_reach.Start session_step.Save_Handler [OF f]])
  have u: "unhooked_session files_session" by (simp add: unhooked_session_def files_session_def)
  have m: "session_mod ?s \<noteq> None"
    by (simp add: sp_OnUpdateSaveHandler_def select_user_def sp_hook_session_module_def Let_def)
  show ?thesis using s1 r session_always_hooked [OF u s1 r m] by (simp add: Let_def)
qed

lemma eseq_cong_Done: "(snd m = Done () \<Longrightarrow> n = n') \<Longrightarrow> eseq m n = eseq m n'"
  by (cases m rule: prod.exhaust, rename_tac l r, case_tac r) (auto simp: eseq_def)

text \<open>
  C33. Session data survives, sealed: the save handler is only given data that, when the session is read
  back under the same identifier, gives the script exactly what it stored; and when sessions are
  encrypted what it is given is the stored data sealed under the key of this client and this secret
  (empty data is not encrypted, and without encryption the data is passed on). Two handlers that
  agree on all such data cannot be told apart.
\<close>

theorem session_roundtrip:
  assumes base64: "\<And>s. ce_base64_decode C (ce_base64_encode C s) = Some s" "ce_base64_decode C [] = Some []"
    and nonce: "length nonce = 24" "bytes_ok nonce" and size: "length data + 57 < 2 ^ 63"
    and same: "\<And>z. snd (sp_hook_s_read E C g (\<lambda>k. ret (SUCCESS, Some z)) key) = Done (SUCCESS, Some data) \<Longrightarrow>
      (if se_encrypt (cfg_session g) \<and> data \<noteq> [] then authentic E C g z data else z = data) \<Longrightarrow>
      handler key z = handler' key z"
  shows "sp_hook_s_write E C g nonce handler key data = sp_hook_s_write E C g nonce handler' key data"
  unfolding sp_hook_s_write_def
proof (rule eseq_cong_Done)
  assume sid: "snd (check_sid_length E g key) = Done ()"
  show "(if 0 < length data \<and> se_encrypt (cfg_session g) then ebind (encrypt_zval E C g nonce data) (handler key) else handler key data) =
    (if 0 < length data \<and> se_encrypt (cfg_session g) then ebind (encrypt_zval E C g nonce data) (handler' key) else handler' key data)"
  proof (cases "0 < length data \<and> se_encrypt (cfg_session g)")
    case True
    have "ebind (encrypt_zval E C g nonce data) (handler key) = ebind (encrypt_zval E C g nonce data) (handler' key)"
    proof (rule ebind_cong_Done)
      fix z assume z: "snd (encrypt_zval E C g nonce data) = Done z"
      have small: "length data < 2 ^ 63" using size by simp
      obtain t where t: "z = ce_base64_encode C t" "t \<noteq> []" "length t = length data + 57"
        using encrypt_zval_encoded [OF nonce(1) z] by blast
      then have nz: "z \<noteq> []" using base64(1) [of t] base64(2) by auto
      have dec: "snd (decrypt_zval E C g sim None z) = Done (ZEND_HASH_APPLY_KEEP, data)" for sim
        by (rule crypt_roundtrip_aux [OF base64(1) nonce small z])
      have "authentic E C g z data"
        using decrypt_authentic_aux [OF dec [of False]] size base64(1) t by (simp add: authentic_def)
      then show "handler key z = handler' key z"
        using sid nz True dec by (intro same) (simp_all add: sp_hook_s_read_def snd_eseq snd_ebind)
    qed
    then show ?thesis using True by simp
  next
    case False
    then show ?thesis using sid by (auto simp: sp_hook_s_read_def snd_eseq intro!: same)
  qed
qed

definition session_globals :: sp_globals where
  "session_globals = crypt_globals\<lparr>cfg_session := \<lparr>se_encrypt = True, se_simulation = False, se_sid_min_length = 0, se_sid_max_length = 0\<rparr>\<rparr>"

theorem session_roundtrip_witness:
  "sp_hook_s_write sample_php sample_crypto session_globals (replicate 24 3) (\<lambda>k z. ret SUCCESS) (Some ''id'') ''user=1'' =
   sp_hook_s_write sample_php sample_crypto session_globals (replicate 24 3)
     (\<lambda>k z. ret (if snd (sp_hook_s_read sample_php sample_crypto session_globals (\<lambda>k. ret (SUCCESS, Some z)) k) = Done (SUCCESS, Some ''user=1'')
                 then SUCCESS else FAILURE)) (Some ''id'') ''user=1''"
  by (rule session_roundtrip) (simp_all add: sample_crypto_def bytes_ok_def)

text \<open>Outside simulation, data the script gets from an encrypted session is authentic.\<close>

lemma session_authentic:
  assumes "snd (sp_hook_s_read E C g (\<lambda>k. ret (SUCCESS, Some z)) key) = Done (SUCCESS, Some v)"
    and "se_encrypt (cfg_session g)" "\<not> se_simulation (cfg_session g)" "z \<noteq> []"
    and "\<And>d. ce_base64_decode C z = Some d \<Longrightarrow> length d < 2 ^ 63"
  shows "authentic E C g z v"
proof -
  have "snd (decrypt_zval E C g False None z) = Done (ZEND_HASH_APPLY_KEEP, v)"
    using assms(1-4) by (auto simp: sp_hook_s_read_def eseq_Done_iff ebind_Done_iff zend_bailout_def split: if_splits)
  then show ?thesis using decrypt_authentic_aux assms(5) by (auto simp: authentic_def)
qed

end
