(* ===== verification/Unserialize.thy ===== *)
theory Unserialize
  imports Config_Parse Tweetnacl
begin

text \<open>
  \<open>serialize\<close> and \<open>unserialize\<close>, \<open>src/sp_unserialize.c\<close>: the signature behind serialized data, with
  the HMAC of \<open>src/sp_php_compat.h\<close>, and its verification, in the branches of PHP 8.3 and 8.4. The engine's SHA-256
  and its own serializers are parameters.
\<close>

section \<open>The signature\<close>

text \<open>
  The engine's hash operations: whether SHA-256 is there and cryptographic, its sizes, the digest of
  what an initialised context was updated with, and hexadecimal digits.
\<close>

record hash_ops =
  ops_is_crypto :: bool
  ops_block_size :: nat
  ops_digest_size :: nat
  ops_hash :: "string \<Rightarrow> string"
  ops_bin2hex :: "string \<Rightarrow> string"

definition php_hash_string_xor_char :: "string \<Rightarrow> nat \<Rightarrow> nat \<Rightarrow> string" where
  "php_hash_string_xor_char s xor_with len = map (\<lambda>c. char_of (xor (byte c) xor_with)) (take len s)"

text \<open>Writing to the front of a buffer.\<close>

definition overwrite :: "string \<Rightarrow> string \<Rightarrow> string" where
  "overwrite buf s = s @ drop (length s) buf"

definition php_hash_hmac_prep_key :: "hash_ops \<Rightarrow> string \<Rightarrow> string" where
  "php_hash_hmac_prep_key H key =
     (let K = replicate (ops_block_size H) NUL;
          K = (if length key > ops_block_size H then overwrite K (ops_hash H key) else overwrite K key)
      in php_hash_string_xor_char K 0x36 (ops_block_size H))"

definition php_hash_hmac_round :: "hash_ops \<Rightarrow> string \<Rightarrow> string \<Rightarrow> string" where
  "php_hash_hmac_round H key data = ops_hash H (take (ops_block_size H) key @ data)"

definition sp_do_hash_hmac_sha256 :: "php \<Rightarrow> hash_ops \<Rightarrow> sp_globals \<Rightarrow> string \<Rightarrow> string \<Rightarrow> string option eff" where
  "sp_do_hash_hmac_sha256 E H g data key =
     (if \<not> ops_is_crypto H
      then eseq (sp_log_err (sp_env E g) ''hmac'' ''unsupported hash algorithm: sha256'') (ret None)
      else (let K = php_hash_hmac_prep_key H key;
                digest = php_hash_hmac_round H K data;
                K = php_hash_string_xor_char K 0x6A (ops_block_size H);
                digest = php_hash_hmac_round H K (take (ops_digest_size H) digest)
            in ret (Some (ops_bin2hex H digest))))"

section \<open>serialize\<close>

text \<open>The secret is read through its pointer: without one the read faults.\<close>

definition secret_of :: "sp_globals \<Rightarrow> string eff" where
  "secret_of g = (case cfg_encryption_key g of Some k \<Rightarrow> ret k | None \<Rightarrow> crash)"

definition sp_serialize :: "php \<Rightarrow> hash_ops \<Rightarrow> sp_globals \<Rightarrow> string eff \<Rightarrow> string eff" where
  "sp_serialize E H g orig_handler =
     ebind orig_handler (\<lambda>return_value.
       if \<not> us_enable (cfg_unserialize g) then ret return_value
       else ebind (secret_of g) (\<lambda>key. ebind (sp_do_hash_hmac_sha256 E H g return_value key) (\<lambda>hmac.
         case hmac of
           None \<Rightarrow> zend_bailout
         | Some hmac \<Rightarrow>
             if (length return_value + length hmac) mod 2 ^ 64 < length return_value
             then eseq (sp_log_err (sp_env E g) ''overflow_error'' ''Overflow tentative detected in sp_serialize.'') zend_bailout
             else ret (return_value @ hmac))))"

section \<open>unserialize\<close>

type_synonym opts = "(hkey \<times> zval) list option"

text \<open>The comparison accumulates the differences of all 64 bytes.\<close>

definition hmac_status :: "string \<Rightarrow> string \<Rightarrow> nat" where
  "hmac_status hmac expected = fold (\<lambda>i status. or status (xor (byte (hmac ! i)) (byte (expected ! i)))) [0..<64] 0"

text \<open>\<open>unser\<close> is \<open>php_unserialize_with_options\<close>; \<open>stack\<close> is for the dump of the request.\<close>

definition unserialize_signed ::
  "php \<Rightarrow> hash_ops \<Rightarrow> sp_globals \<Rightarrow> zend_execute_data list \<Rightarrow> (string \<Rightarrow> opts \<Rightarrow> zval eff) \<Rightarrow> string \<Rightarrow> opts \<Rightarrow> zval eff" where
  "unserialize_signed E H g stack unser buf opts =
     (let cfg = cfg_unserialize g; n = length buf - 64; hmac = drop n buf; serialized_str = take n buf in
      ebind (secret_of g) (\<lambda>key. ebind (sp_do_hash_hmac_sha256 E H g serialized_str key) (\<lambda>expected_hmac.
        let status = (case expected_hmac of Some h \<Rightarrow> hmac_status hmac h | None \<Rightarrow> 1) in
        if status = 0 then unser serialized_str opts
        else eseq (dump_of E g stack (us_dump cfg) (us_textual_representation cfg))
               (if us_simulation cfg
                then eseq (sp_log_simulation (sp_env E g) ''unserialize'' (''Invalid HMAC for '' @ c_str serialized_str))
                       (unser serialized_str opts)
                else eseq (sp_log_drop (sp_env E g) ''unserialize'' (''Invalid HMAC for '' @ c_str serialized_str)) (ret IS_NULL)))))"

definition sp_unserialize ::
  "php \<Rightarrow> hash_ops \<Rightarrow> sp_globals \<Rightarrow> zend_execute_data list \<Rightarrow> (string \<Rightarrow> opts \<Rightarrow> zval eff) \<Rightarrow> string \<Rightarrow> opts \<Rightarrow> zval eff" where
  "sp_unserialize E H g stack unser buf opts =
     (let cfg = cfg_unserialize g in
      if un_enable (cfg_unserialize_noclass g) then unser buf (Some [(HStr ''allowed_classes'', IS_FALSE)])
      else if length buf < 64 then
        (if us_simulation cfg
         then eseq (sp_log_simulation (sp_env E g) ''unserialize'' ''The serialized object is smaller than 64: assuming there is no HMAC'')
                (unser buf opts)
         else eseq (sp_log_drop (sp_env E g) ''unserialize'' ''The serialized object is too small.'')
                (unserialize_signed E H g stack unser buf opts))
      else unserialize_signed E H g stack unser buf opts)"

definition hook_serialize :: "bool \<Rightarrow> hook_table \<Rightarrow> function_table \<Rightarrow> hook_table \<times> function_table" where
  "hook_serialize multibyte ht ft =
     (let (_, ht1, ft1) = hook_function multibyte ''serialize'' ht (Zif_Sp ''sp_serialize'') ft
      in snd (hook_function multibyte ''unserialize'' ht1 (Zif_Sp ''sp_unserialize'') ft1))"

section \<open>Properties\<close>

text \<open>The signature of a string under the configured secret.\<close>

definition signature :: "hash_ops \<Rightarrow> sp_globals \<Rightarrow> string \<Rightarrow> string" where
  "signature H g s =
     (let K = php_hash_hmac_prep_key H (the (cfg_encryption_key g))
      in ops_bin2hex H (php_hash_hmac_round H (php_hash_string_xor_char K 0x6A (ops_block_size H))
           (take (ops_digest_size H) (php_hash_hmac_round H K s))))"

lemma hmac_value:
  "ops_is_crypto H \<Longrightarrow> cfg_encryption_key g = Some key \<Longrightarrow> sp_do_hash_hmac_sha256 E H g s key = ret (Some (signature H g s))"
  by (simp add: sp_do_hash_hmac_sha256_def signature_def Let_def)

lemma hmac_status_zero:
  assumes "length hmac = 64" "length expected = 64"
  shows "hmac_status hmac expected = 0 \<longleftrightarrow> hmac = expected"
proof -
  have "byte a = byte b \<longleftrightarrow> a = b" for a b :: char by simp
  then show ?thesis
    using assms by (simp add: hmac_status_def fold_or_zero xor_zero_iff list_eq_iff_nth_eq Ball_def del: of_char_eq_iff)
qed

lemma sp_log_drop_stops: "eseq (sp_log_drop L f m) n = eseq (sp_log_drop L f m) n'"
proof -
  have "snd (sp_log_drop L f m) = Bailout" by simp
  then show ?thesis by (cases "sp_log_drop L f m") (simp add: eseq_def)
qed

definition sample_ops :: hash_ops where
  "sample_ops = \<lparr>ops_is_crypto = True, ops_block_size = 64, ops_digest_size = 32,
     ops_hash = (\<lambda>m. take 32 (rev m @ replicate 32 (CHR ''p''))), ops_bin2hex = (\<lambda>d. d @ d)\<rparr>"

lemma length_sample_hash: "length (ops_hash sample_ops m) = 32"
  by (simp add: sample_ops_def del: take_append)

text \<open>HMAC as RFC 2104 has it: the key padded with zeros to a block, and two hashes.\<close>

definition rfc2104_key :: "hash_ops \<Rightarrow> string \<Rightarrow> string" where
  "rfc2104_key H key =
     (let k = (if length key > ops_block_size H then ops_hash H key else key)
      in k @ replicate (ops_block_size H - length k) NUL)"

definition rfc2104 :: "hash_ops \<Rightarrow> string \<Rightarrow> string \<Rightarrow> string" where
  "rfc2104 H key msg =
     (let pad = (\<lambda>b. map (\<lambda>c. char_of (xor (byte c) b)) (rfc2104_key H key))
      in ops_hash H (pad 0x5C @ ops_hash H (pad 0x36 @ msg)))"

lemma byte_xor: "b < 256 \<Longrightarrow> xor (byte c) (b :: nat) mod 256 = xor (byte c) b"
proof -
  assume "b < 256"
  then have "take_bit 8 b = b" by (simp add: take_bit_nat_eq_self)
  moreover have "take_bit 8 (byte c) = (byte c :: nat)" by (simp add: take_bit_nat_eq_self)
  ultimately have "take_bit 8 (xor (byte c) b) = xor (byte c) b" by simp
  then show ?thesis by (simp add: take_bit_eq_mod)
qed

lemma pads: "xor (xor (byte c) 0x36 mod 256) 0x6A = (xor (byte c) 0x5C :: nat)"
  by (simp add: byte_xor xor.assoc)

lemma prep_key_pad:
  assumes "\<And>m. length (ops_hash H m) \<le> ops_block_size H"
  shows "php_hash_hmac_prep_key H key = map (\<lambda>c. char_of (xor (byte c) 0x36)) (rfc2104_key H key)"
    "length (rfc2104_key H key) = ops_block_size H"
proof -
  show len: "length (rfc2104_key H key) = ops_block_size H" using assms by (simp add: rfc2104_key_def Let_def)
  have "(if length key > ops_block_size H then overwrite (replicate (ops_block_size H) NUL) (ops_hash H key)
      else overwrite (replicate (ops_block_size H) NUL) key) = rfc2104_key H key"
    by (simp add: rfc2104_key_def overwrite_def Let_def)
  then show "php_hash_hmac_prep_key H key = map (\<lambda>c. char_of (xor (byte c) 0x36)) (rfc2104_key H key)"
    using len by (simp add: php_hash_hmac_prep_key_def php_hash_string_xor_char_def Let_def)
qed

text \<open>
  C20. The signature is HMAC: the two rounds with one key buffer, whose inner pad is turned into the
  outer pad in place, compute the function of RFC 2104, for keys of any length and any hash whose
  digests have the size it states and fit in a block.
\<close>

theorem hmac_is_rfc2104:
  assumes "ops_is_crypto H" "\<And>m. length (ops_hash H m) = ops_digest_size H" "ops_digest_size H \<le> ops_block_size H"
  shows "sp_do_hash_hmac_sha256 E H g data key = ret (Some (ops_bin2hex H (rfc2104 H key data)))"
proof -
  have "length (ops_hash H m) \<le> ops_block_size H" for m using assms(2,3) by simp
  from prep_key_pad [OF this] show ?thesis
    using assms(1,2)
    by (simp add: sp_do_hash_hmac_sha256_def Let_def rfc2104_def php_hash_hmac_round_def php_hash_string_xor_char_def comp_def pads)
qed

theorem hmac_is_rfc2104_witness:
  "sp_do_hash_hmac_sha256 sample_php sample_ops sample_globals ''i:1;'' ''secret'' =
     ret (Some (ops_bin2hex sample_ops (rfc2104 sample_ops ''secret'' ''i:1;'')))"
  by (rule hmac_is_rfc2104) (simp_all add: length_sample_hash sample_ops_def [THEN arg_cong, of ops_digest_size]
      sample_ops_def [THEN arg_cong, of ops_block_size] sample_ops_def [THEN arg_cong, of ops_is_crypto])

text \<open>
  C19. Only signed data is unserialized: outside simulation, with \<open>unserialize_noclass\<close> off and a secret key
  configured, the engine is only given a string that was followed by its own signature; two
  unserializers that agree on such strings cannot be told apart, whatever the input. (With
  \<open>unserialize_noclass\<close> on nothing is verified.)
\<close>

theorem unserialize_only_signed:
  assumes "\<not> un_enable (cfg_unserialize_noclass g)" "\<not> us_simulation (cfg_unserialize g)"
    and ops: "ops_is_crypto H" "cfg_encryption_key g = Some key" "\<And>s. length (signature H g s) = 64"
    and same: "\<And>s. buf = s @ signature H g s \<Longrightarrow> unser s opts = unser' s opts"
  shows "sp_unserialize E H g stack unser buf opts = sp_unserialize E H g stack unser' buf opts"
proof (cases "length buf < 64")
  case True
  show ?thesis unfolding sp_unserialize_def Let_def using True assms(1,2) by (simp, intro sp_log_drop_stops)
next
  case False
  let ?s = "take (length buf - 64) buf"
  have "unser ?s opts = unser' ?s opts" if "hmac_status (drop (length buf - 64) buf) (signature H g ?s) = 0"
  proof (rule same)
    have "drop (length buf - 64) buf = signature H g ?s"
      using that False ops(3) hmac_status_zero [of "drop (length buf - 64) buf"] by simp
    then show "buf = ?s @ signature H g ?s" by (metis append_take_drop_id)
  qed
  then show ?thesis
    using assms(1,2) False ops(1,2)
    by (simp add: sp_unserialize_def unserialize_signed_def secret_of_def hmac_value Let_def)
qed

definition signed_globals :: sp_globals where
  "signed_globals = sample_globals\<lparr>cfg_encryption_key := Some ''secret'',
     cfg_unserialize := (cfg_unserialize sample_globals)\<lparr>us_enable := True, us_simulation := False\<rparr>\<rparr>"

lemma length_sample_signature [simp]: "length (signature sample_ops g s) = 64"
proof -
  have "ops_bin2hex sample_ops d = d @ d" for d by (simp add: sample_ops_def)
  then show ?thesis by (simp add: signature_def php_hash_hmac_round_def Let_def length_sample_hash)
qed

theorem unserialize_only_signed_witness:
  "sp_unserialize sample_php sample_ops signed_globals [] (\<lambda>s opts. ret IS_TRUE) (replicate 70 (CHR ''a'')) None =
   sp_unserialize sample_php sample_ops signed_globals []
     (\<lambda>s opts. ret (if replicate 70 (CHR ''a'') = s @ signature sample_ops signed_globals s then IS_TRUE else IS_FALSE)) (replicate 70 (CHR ''a'')) None"
  by (rule unserialize_only_signed [where key = "''secret''"]) (simp_all add: signed_globals_def sample_globals_def sample_ops_def [THEN arg_cong, of ops_is_crypto])

text \<open>
  C34. Signing and verifying are inverse: with \<open>unserialize_hmac\<close> on, \<open>unserialize_noclass\<close> off and a secret
  key configured, what \<open>serialize\<close> returned is accepted by \<open>unserialize\<close>, which hands the engine the engine's own serialization, without the signature, and does nothing
  else, in simulation mode or not.
\<close>

theorem serialize_roundtrip:
  assumes "us_enable (cfg_unserialize g)" "\<not> un_enable (cfg_unserialize_noclass g)"
    and ops: "ops_is_crypto H" "cfg_encryption_key g = Some key" "\<And>s. length (signature H g s) = 64"
    and "snd orig_handler = Done s" "snd (sp_serialize E H g orig_handler) = Done t"
  shows "sp_unserialize E H g stack unser t opts = unser s opts"
proof -
  have t: "t = s @ signature H g s"
    using assms by (auto simp: sp_serialize_def ebind_Done_iff eseq_Done_iff secret_of_def hmac_value zend_bailout_def split: if_splits)
  have "hmac_status (signature H g s) (signature H g s) = 0" by (simp add: hmac_status_zero ops(3))
  then show ?thesis
    using assms(2) ops by (simp add: sp_unserialize_def unserialize_signed_def secret_of_def hmac_value t Let_def)
qed

theorem serialize_roundtrip_witness:
  "\<exists>t. snd (sp_serialize sample_php sample_ops signed_globals (ret ''i:1;'')) = Done t \<and>
     sp_unserialize sample_php sample_ops signed_globals [] (\<lambda>s opts. ret (IS_STRING s)) t None = ret (IS_STRING ''i:1;'')"
proof -
  have e: "us_enable (cfg_unserialize signed_globals)" "\<not> un_enable (cfg_unserialize_noclass signed_globals)"
    "cfg_encryption_key signed_globals = Some ''secret''" "ops_is_crypto sample_ops"
    by (simp_all add: signed_globals_def sample_globals_def sample_ops_def)
  have t: "snd (sp_serialize sample_php sample_ops signed_globals (ret ''i:1;'')) = Done (''i:1;'' @ signature sample_ops signed_globals ''i:1;'')"
    using e by (simp add: sp_serialize_def secret_of_def hmac_value)
  show ?thesis
    using serialize_roundtrip [OF e(1,2,4,3) length_sample_signature snd_ret t] t by blast
qed

end
