(* ===== verification/Sloppy.thy ===== *)
theory Sloppy
  imports Config_Parse
begin

text \<open>
  Prevention of sloppy comparisons, \<open>src/sp_sloppy.c\<close>: the rewriting of compiled code, and the
  functions on arrays that are called in strict mode.
\<close>

section \<open>Compiled code\<close>

text \<open>An instruction has an opcode, and the handler the virtual machine runs it with.\<close>

datatype zend_opcode =
  ZEND_IS_EQUAL | ZEND_IS_NOT_EQUAL | ZEND_IS_IDENTICAL | ZEND_IS_NOT_IDENTICAL | ZEND_OPCODE nat

record zend_op =
  op_opcode :: zend_opcode
  op_handler :: zend_opcode
  op_operands :: "nat \<times> nat \<times> nat"

definition zend_vm_set_opcode_handler :: "zend_op \<Rightarrow> zend_op" where
  "zend_vm_set_opcode_handler op = op\<lparr>op_handler := op_opcode op\<rparr>"

definition modify_op :: "zend_op \<Rightarrow> zend_op" where
  "modify_op op =
     (if op_opcode op = ZEND_IS_EQUAL then zend_vm_set_opcode_handler (op\<lparr>op_opcode := ZEND_IS_IDENTICAL\<rparr>)
      else if op_opcode op = ZEND_IS_NOT_EQUAL then zend_vm_set_opcode_handler (op\<lparr>op_opcode := ZEND_IS_NOT_IDENTICAL\<rparr>)
      else op)"

fun sp_sloppy_modify_opcode :: "zend_op list option \<Rightarrow> zend_op list option" where
  "sp_sloppy_modify_opcode None = None"
| "sp_sloppy_modify_opcode (Some ops) = Some (map modify_op ops)"

section \<open>Functions on arrays\<close>

text \<open>
  A call of the engine runs on its function table and ends in a new one, whether it returns or
  the request ends: a long jump does not come back to \<open>array_handler\<close>. \<open>array_handler\<close> gets the
  arguments as parsed; a missing function or saved handler is a NULL pointer that is followed.
\<close>

type_synonym engine_call = "function_table \<Rightarrow> string \<Rightarrow> zval list \<Rightarrow> function_table \<times> zval outcome"

definition array_handler ::
  "hook_table \<Rightarrow> engine_call \<Rightarrow> string \<Rightarrow> zif_handler \<Rightarrow> nat \<Rightarrow> zval \<Rightarrow> zval option \<Rightarrow> function_table \<Rightarrow> function_table \<times> zval outcome" where
  "array_handler hooks call_user_function name orig_handler nargs val array ft =
     (let (params, nb_params) = (case array of Some a \<Rightarrow> ([val, a, IS_TRUE], 3) | None \<Rightarrow> ([val, IS_NULL, IS_TRUE], nargs)) in
      case (zh_find hooks name, zh_find ft name) of
        (Some handler, Some (ty, _)) \<Rightarrow>
          (let (ft1, r) = call_user_function (zh_update ft name (ty, handler)) name (take nb_params params)
           in case r of
                Done z \<Rightarrow> (case zh_find ft1 name of Some (ty, _) \<Rightarrow> (zh_update ft1 name (ty, orig_handler), r) | None \<Rightarrow> (ft1, Crash))
              | _ \<Rightarrow> (ft1, r))
      | _ \<Rightarrow> (ft, Crash))"

definition sp_in_array :: "hook_table \<Rightarrow> engine_call \<Rightarrow> nat \<Rightarrow> zval \<Rightarrow> zval option \<Rightarrow> function_table \<Rightarrow> function_table \<times> zval outcome" where
  "sp_in_array hooks call = array_handler hooks call ''in_array'' (Zif_Sp ''sp_in_array'')"

definition sp_array_search :: "hook_table \<Rightarrow> engine_call \<Rightarrow> nat \<Rightarrow> zval \<Rightarrow> zval option \<Rightarrow> function_table \<Rightarrow> function_table \<times> zval outcome" where
  "sp_array_search hooks call = array_handler hooks call ''array_search'' (Zif_Sp ''sp_array_search'')"

definition sp_array_keys :: "hook_table \<Rightarrow> engine_call \<Rightarrow> nat \<Rightarrow> zval \<Rightarrow> zval option \<Rightarrow> function_table \<Rightarrow> function_table \<times> zval outcome" where
  "sp_array_keys hooks call = array_handler hooks call ''array_keys'' (Zif_Sp ''sp_array_keys'')"

definition hook_sloppy :: "bool \<Rightarrow> hook_table \<Rightarrow> function_table \<Rightarrow> hook_table \<times> function_table" where
  "hook_sloppy multibyte ht ft =
     fold (\<lambda>(name, h) (ht, ft). snd (hook_function multibyte name ht (Zif_Sp h) ft))
       [(''in_array'', ''sp_in_array''), (''array_search'', ''sp_array_search''), (''array_keys'', ''sp_array_keys'')] (ht, ft)"

section \<open>Properties\<close>

text \<open>
  Rewriting leaves no instruction with one of the two loose comparisons, and those that it put in their
  place have the handler of their opcode; operands, order and all other instructions stay (among them
  \<open>ZEND_CASE\<close>, whose comparison is loose too), and rewriting twice is rewriting once.
\<close>

lemma sloppy_rewrite:
  "\<exists>ops'. sp_sloppy_modify_opcode (Some ops) = Some ops' \<and> map op_operands ops' = map op_operands ops \<and>
    (\<forall>op\<in>set ops'. op_opcode op \<notin> {ZEND_IS_EQUAL, ZEND_IS_NOT_EQUAL}) \<and>
    (\<forall>op\<in>set ops' - set ops. op_handler op = op_opcode op \<and> op_opcode op \<in> {ZEND_IS_IDENTICAL, ZEND_IS_NOT_IDENTICAL}) \<and>
    sp_sloppy_modify_opcode (Some ops') = Some ops'"
  by (auto simp: modify_op_def zend_vm_set_opcode_handler_def)

text \<open>
  A call that does not come back takes the protection away: when the array function called in
  strict mode ends the request, by a timeout say, the function table keeps the engine's own
  handler, and later calls in this process are no longer made strict; when it returns, the
  extension's handler is back.
\<close>

theorem array_handler_bailout:
  assumes "zh_find hooks ''in_array'' = Some h" "zh_find ft ''in_array'' = Some (ty, Zif_Sp ''sp_in_array'')"
    and keeps: "\<And>ft params. fst (call ft ''in_array'' params) = ft"
    and r: "sp_in_array hooks call n val (Some arr) ft = (ft', r)"
  shows "zh_find ft' ''in_array'' = Some (ty, case r of Done z \<Rightarrow> Zif_Sp ''sp_in_array'' | _ \<Rightarrow> h) \<and>
    r = snd (call (zh_update ft ''in_array'' (ty, h)) ''in_array'' [val, arr, IS_TRUE])"
proof -
  let ?ft = "zh_update ft ''in_array'' (ty, h)" and ?p = "[val, arr, IS_TRUE]"
  obtain ft1 r1 where c: "call ?ft ''in_array'' ?p = (ft1, r1)" by (metis surj_pair)
  have "ft1 = ?ft" using keeps [of ?ft ?p] c by simp
  then show ?thesis
    using r c assms(1,2) by (auto simp: sp_in_array_def array_handler_def Let_def zh_find_update split: outcome.splits)
qed

theorem array_handler_bailout_witness:
  "\<exists>ft'. sp_in_array [(''in_array'', Zif_Engine ''in_array'')] (\<lambda>ft n ps. (ft, Bailout)) 2 IS_NULL (Some (IS_ARRAY []))
      [(''in_array'', ZEND_INTERNAL_FUNCTION, Zif_Sp ''sp_in_array'')] = (ft', Bailout) \<and>
     zh_find ft' ''in_array'' = Some (ZEND_INTERNAL_FUNCTION, Zif_Engine ''in_array'')"
proof -
  let ?hooks = "[(''in_array'', Zif_Engine ''in_array'')]" and ?ft = "[(''in_array'', ZEND_INTERNAL_FUNCTION, Zif_Sp ''sp_in_array'')]"
  obtain ft' r where e: "sp_in_array ?hooks (\<lambda>ft n ps. (ft, Bailout)) 2 IS_NULL (Some (IS_ARRAY [])) ?ft = (ft', r)" by (metis surj_pair)
  have "zh_find ft' ''in_array'' = Some (ZEND_INTERNAL_FUNCTION, case r of Done z \<Rightarrow> Zif_Sp ''sp_in_array'' | _ \<Rightarrow> Zif_Engine ''in_array'') \<and> r = Bailout"
    using array_handler_bailout [OF _ _ _ e] by simp
  then show ?thesis using e by auto
qed

end
