(* ===== verification/Harden_Rand.thy ===== *)
theory Harden_Rand
  imports Config_Parse
begin

text \<open>
  Secure random numbers, \<open>src/sp_harden_rand.c\<close>, and the XXE protection, \<open>src/sp_disable_xxe.c\<close>:
  \<open>rand\<close> and \<open>mt_rand\<close> give what \<open>random_int\<close> gives, and the functions that could bring external
  entities back do nothing. The engine's \<open>php_random_int_throw\<close> and its conversion of arguments
  are parameters.
\<close>

section \<open>Random numbers\<close>

definition PHP_MT_RAND_MAX :: int where
  "PHP_MT_RAND_MAX = 0x7FFFFFFF"

text \<open>
  \<open>Z_PARAM_LONG\<close> in quiet mode: \<open>to_long\<close> gives the number, or nothing, and then parsing stops and
  the variables keep what they have. With more than two arguments nothing is parsed.
\<close>

definition rand_range :: "(zval \<Rightarrow> int option) \<Rightarrow> zval list \<Rightarrow> int \<times> int" where
  "rand_range to_long args =
     (case args of
        [] \<Rightarrow> (0, PHP_MT_RAND_MAX)
      | [a] \<Rightarrow> (case to_long a of Some lo \<Rightarrow> (lo, PHP_MT_RAND_MAX) | None \<Rightarrow> (0, PHP_MT_RAND_MAX))
      | [a, b] \<Rightarrow>
          (case to_long a of
             None \<Rightarrow> (0, PHP_MT_RAND_MAX)
           | Some lo \<Rightarrow> (case to_long b of Some hi \<Rightarrow> (lo, hi) | None \<Rightarrow> (lo, PHP_MT_RAND_MAX)))
      | _ \<Rightarrow> (0, PHP_MT_RAND_MAX))"

text \<open>\<open>random_int\<close> is \<open>php_random_int_throw\<close>, \<open>None\<close> its failure, which leaves the return value alone.\<close>

definition random_int_wrapper ::
  "(zval \<Rightarrow> int option) \<Rightarrow> (int \<Rightarrow> int \<Rightarrow> int option eff) \<Rightarrow> zval list \<Rightarrow> zval \<Rightarrow> zval eff" where
  "random_int_wrapper to_long random_int args return_value =
     (let (lo, hi) = rand_range to_long args in
      ebind (if lo > hi then random_int hi lo else random_int lo hi) (\<lambda>result.
        case result of Some r \<Rightarrow> ret (IS_LONG r) | None \<Rightarrow> ret return_value))"

definition harden_rand ::
  "string \<Rightarrow> hook_table \<Rightarrow> (zif_handler \<Rightarrow> zval eff) \<Rightarrow> (zval \<Rightarrow> int option) \<Rightarrow> (int \<Rightarrow> int \<Rightarrow> int option eff) \<Rightarrow> zval list \<Rightarrow> zval eff" where
  "harden_rand name hooks call to_long random_int args =
     (case zh_find hooks name of
        Some orig_handler \<Rightarrow> ebind (call orig_handler) (random_int_wrapper to_long random_int args)
      | None \<Rightarrow> crash)"

definition sp_rand ::
  "hook_table \<Rightarrow> (zif_handler \<Rightarrow> zval eff) \<Rightarrow> (zval \<Rightarrow> int option) \<Rightarrow> (int \<Rightarrow> int \<Rightarrow> int option eff) \<Rightarrow> zval list \<Rightarrow> zval eff" where
  "sp_rand = harden_rand ''rand''"

definition sp_mt_rand ::
  "hook_table \<Rightarrow> (zif_handler \<Rightarrow> zval eff) \<Rightarrow> (zval \<Rightarrow> int option) \<Rightarrow> (int \<Rightarrow> int \<Rightarrow> int option eff) \<Rightarrow> zval list \<Rightarrow> zval eff" where
  "sp_mt_rand = harden_rand ''mt_rand''"

text \<open>\<open>HOOK_FUNCTION\<close> several times.\<close>

definition hook_all :: "bool \<Rightarrow> (string \<times> string) list \<Rightarrow> hook_table \<times> function_table \<Rightarrow> hook_table \<times> function_table" where
  "hook_all multibyte names s = fold (\<lambda>(name, h) (ht, ft). snd (hook_function multibyte name ht (Zif_Sp h) ft)) names s"

definition hook_rand :: "bool \<Rightarrow> hook_table \<Rightarrow> function_table \<Rightarrow> hook_table \<times> function_table" where
  "hook_rand multibyte ht ft = hook_all multibyte [(''rand'', ''sp_rand''), (''mt_rand'', ''sp_mt_rand'')] (ht, ft)"

section \<open>External entities\<close>

definition sp_libxml_disable_entity_loader :: "php \<Rightarrow> sp_globals \<Rightarrow> zval eff" where
  "sp_libxml_disable_entity_loader E g =
     eseq (sp_log_warn (sp_env E g) ''xxe'' ''A call to libxml_disable_entity_loader was tried and nopped'') (ret IS_TRUE)"

definition sp_libxml_set_external_entity_loader :: "php \<Rightarrow> sp_globals \<Rightarrow> zval eff" where
  "sp_libxml_set_external_entity_loader E g =
     eseq (sp_log_warn (sp_env E g) ''xxe'' ''A call to libxml_set_external_entity_loader was tried and nopped'') (ret IS_TRUE)"

text \<open>\<open>call_user_function\<close> appears as the event of the call with its arguments, \<open>null\<close> being the only one.\<close>

definition hook_libxml_disable_entity_loader ::
  "php \<Rightarrow> sp_globals \<Rightarrow> bool \<Rightarrow> bool \<Rightarrow> hook_table \<Rightarrow> function_table \<Rightarrow> (hook_table \<times> function_table) eff" where
  "hook_libxml_disable_entity_loader E g xml_module multibyte ht ft =
     eseq (if xml_module then ret ()
           else sp_log_warn (sp_env E g) ''xxe'' ''Cannot enable XXE protection. XML support is disabled in PHP.'')
       (eseq (emit (Ev_Call ''libxml_set_external_entity_loader'' [''null'']))
         (ret (hook_all multibyte
           [(''libxml_disable_entity_loader'', ''sp_libxml_disable_entity_loader''),
            (''libxml_set_external_entity_loader'', ''sp_libxml_set_external_entity_loader'')] (ht, ft))))"

section \<open>Properties\<close>

text \<open>
  The number is in range and never from the weak generator: \<open>random_int\<close> is only asked for
  ranges that are not empty, whatever the arguments and in whatever order they come, so a result
  lies between the smaller and the larger bound; the original function's own result is discarded.
\<close>

theorem rand_in_range:
  assumes ok: "\<And>lo hi. lo \<le> hi \<Longrightarrow> \<exists>r. snd (random_int lo hi) = Done (Some r) \<and> lo \<le> r \<and> r \<le> hi"
    and orig: "zh_find hooks name = Some h" "snd (call h) = Done z0"
  shows "\<exists>r. snd (harden_rand name hooks call to_long random_int args) = Done (IS_LONG r) \<and>
    (let (a, b) = rand_range to_long args in min a b \<le> r \<and> r \<le> max a b)"
proof -
  obtain a b where ab: "rand_range to_long args = (a, b)" by (metis surj_pair)
  obtain r where "snd (if a > b then random_int b a else random_int a b) = Done (Some r)" "min a b \<le> r" "r \<le> max a b"
    using ok [of a b] ok [of b a] by (cases "a > b") auto
  then show ?thesis
    using orig by (auto simp: harden_rand_def random_int_wrapper_def ab snd_ebind)
qed

theorem rand_in_range_witness:
  "\<exists>r. snd (harden_rand ''rand'' [(''rand'', Zif_Engine ''rand'')] (\<lambda>h. ret (IS_LONG 4)) (\<lambda>z. case z of IS_LONG n \<Rightarrow> Some n | _ \<Rightarrow> None)
      (\<lambda>lo hi. ret (Some lo)) [IS_LONG 10, IS_LONG 3]) = Done (IS_LONG r) \<and> 3 \<le> r \<and> r \<le> 10"
  using rand_in_range [of "\<lambda>lo hi. ret (Some lo)" "[(''rand'', Zif_Engine ''rand'')]" "''rand''" "Zif_Engine ''rand''"
      "\<lambda>h. ret (IS_LONG 4)" "IS_LONG 4" "\<lambda>z. case z of IS_LONG n \<Rightarrow> Some n | _ \<Rightarrow> None" "[IS_LONG 10, IS_LONG 3]"]
  by (simp add: rand_range_def)

end
