(* ===== verification/Wrapper.thy ===== *)
theory Wrapper
  imports Config_Parse
begin

text \<open>
  The whitelist of stream wrappers, \<open>src/sp_wrapper.c\<close>: which wrappers stay registered, which
  streams \<open>php://\<close> opens, and the two functions by which scripts could register wrappers again.
  Wrappers are entries of the engine's table; \<open>Wrap_Sp\<close> is the extension's own for \<open>php\<close>.
\<close>

section \<open>The whitelists\<close>

fun list_equals_ci :: "string list \<Rightarrow> string \<Rightarrow> bool" where
  "list_equals_ci [] s = False"
| "list_equals_ci (w # ws) s = (if equals_ci s w then True else list_equals_ci ws s)"

definition wrapper_is_whitelisted :: "sp_globals \<Rightarrow> string option \<Rightarrow> bool" where
  "wrapper_is_whitelisted g zs =
     (case zs of None \<Rightarrow> False | Some s \<Rightarrow> list_equals_ci (wr_whitelist (cfg_wrapper g)) s)"

definition sp_php_stream_is_filtered :: "sp_globals \<Rightarrow> bool" where
  "sp_php_stream_is_filtered g \<longleftrightarrow> wr_php_stream_allowlist (cfg_wrapper g) \<noteq> []"

definition sp_php_stream_is_whitelisted :: "sp_globals \<Rightarrow> string \<Rightarrow> bool" where
  "sp_php_stream_is_whitelisted g kind = list_equals_ci (map c_str (wr_php_stream_allowlist (cfg_wrapper g))) kind"

section \<open>Opening a stream\<close>

text \<open>
  The branches in their order: the kind a path is tested for, and whether by its whole name or by
  its first characters.
\<close>

definition php_stream_kinds :: "(bool \<times> string \<times> string) list" where
  "php_stream_kinds =
     [(True, ''temp'', ''temp''), (False, ''memory'', ''memory''), (False, ''output'', ''output''), (False, ''input'', ''input''),
      (False, ''stdin'', ''stdin''), (False, ''stdout'', ''stdout''), (False, ''stderr'', ''stderr''),
      (True, ''fd/'', ''fd''), (True, ''filter/'', ''filter'')]"

definition path_is :: "string \<Rightarrow> bool \<times> string \<times> string \<Rightarrow> bool" where
  "path_is path e = (case e of (by_prefix, name, kind) \<Rightarrow> if by_prefix then prefix_ci name path else equals_ci path name)"

fun php_stream_verdict :: "sp_globals \<Rightarrow> string \<Rightarrow> (bool \<times> string \<times> string) list \<Rightarrow> string option" where
  "php_stream_verdict g path [] = Some ''Call to unknown php stream type dropped''"
| "php_stream_verdict g path (e # es) =
     (if path_is path e
      then (if sp_php_stream_is_whitelisted g (snd (snd e)) then None
            else Some (''Call to not allowed php stream type '' @ [CHR 0x22] @ snd (snd e) @ [CHR 0x22] @ '' dropped''))
      else php_stream_verdict g path es)"

definition strip_scheme :: "string \<Rightarrow> string" where
  "strip_scheme path = (if prefix_ci ''php://'' path then drop 6 path else path)"

text \<open>\<open>opener\<close> is the \<open>stream_opener\<close> of the engine's wrapper; \<open>path\<close> is a C string.\<close>

definition sp_php_stream_url_wrap_php ::
  "php \<Rightarrow> sp_globals \<Rightarrow> (string \<Rightarrow> 's option eff) \<Rightarrow> string \<Rightarrow> 's option eff" where
  "sp_php_stream_url_wrap_php E g opener path =
     (if \<not> sp_php_stream_is_filtered g then opener path
      else (let path = strip_scheme path in
        case php_stream_verdict g path php_stream_kinds of
          None \<Rightarrow> opener path
        | Some msg \<Rightarrow> eseq (sp_log_warn (sp_env E g) ''wrappers_whitelist'' msg) (ret None)))"

section \<open>The table of wrappers\<close>

datatype stream_wrapper = Wrap_Engine nat | Wrap_Sp

type_synonym wrapper_tab = "(string \<times> stream_wrapper) list"

text \<open>
  The engine's functions on the table: unregistering fails for a name that is not there,
  registering for one that is.
\<close>

definition sp_reregister_php_wrapper :: "php \<Rightarrow> sp_globals \<Rightarrow> wrapper_tab \<Rightarrow> wrapper_tab eff" where
  "sp_reregister_php_wrapper E g ws =
     (if \<not> sp_php_stream_is_filtered g then ret ws
      else if zh_find ws ''php'' = None
      then eseq (sp_log_warn (sp_env E g) ''wrappers_whitelist''
             (''Failed to unregister stream wrapper '' @ [CHR 0x22] @ ''php'' @ [CHR 0x22])) (ret ws)
      else (let ws1 = zh_del ws ''php'' in
        if zh_find ws1 ''php'' \<noteq> None
        then eseq (sp_log_warn (sp_env E g) ''wrappers_whitelist''
               (''Failed to register custom stream wrapper '' @ [CHR 0x22] @ ''php'' @ [CHR 0x22])) (ret ws1)
        else ret (zh_add ws1 ''php'' Wrap_Sp)))"

definition sp_disable_wrapper :: "sp_globals \<Rightarrow> wrapper_tab \<Rightarrow> sp_globals \<times> wrapper_tab" where
  "sp_disable_wrapper g orig =
     (let orig' = fold (\<lambda>(zs, zv) t. if wrapper_is_whitelisted g (Some zs) then zh_add t zs zv else t) orig []
      in (g\<lparr>cfg_wrapper := (cfg_wrapper g)\<lparr>wr_num_wrapper := length orig'\<rparr>\<rparr>, orig'))"

section \<open>The script's functions\<close>

text \<open>
  \<open>protocol_name\<close> is the first argument, when there is a string; \<open>orig\<close> the engine's function on
  its table and the arguments.
\<close>

definition sp_stream_wrapper_register ::
  "sp_globals \<Rightarrow> (wrapper_tab \<Rightarrow> (wrapper_tab \<times> zval) eff) \<Rightarrow> string option \<Rightarrow> wrapper_tab \<Rightarrow> (wrapper_tab \<times> zval) eff" where
  "sp_stream_wrapper_register g orig protocol_name ws =
     (if protocol_name = None \<or> wrapper_is_whitelisted g protocol_name then
        (if (case protocol_name of Some p \<Rightarrow> equals_ci (c_str p) ''php'' | None \<Rightarrow> False) \<and> sp_php_stream_is_filtered g
         then ret (ws, IS_NULL) else orig ws)
      else ret (ws, IS_NULL))"

definition sp_stream_wrapper_restore ::
  "php \<Rightarrow> sp_globals \<Rightarrow> (wrapper_tab \<Rightarrow> (wrapper_tab \<times> zval) eff) \<Rightarrow> string option \<Rightarrow> wrapper_tab \<Rightarrow> (wrapper_tab \<times> zval) eff" where
  "sp_stream_wrapper_restore E g orig protocol_name ws =
     ebind (orig ws) (\<lambda>(ws1, z).
       if (case protocol_name of Some p \<Rightarrow> equals_ci (c_str p) ''php'' | None \<Rightarrow> False)
       then ebind (sp_reregister_php_wrapper E g ws1) (\<lambda>ws2. ret (ws2, z)) else ret (ws1, z))"

definition hook_stream_wrappers ::
  "php \<Rightarrow> sp_globals \<Rightarrow> bool \<Rightarrow> hook_table \<Rightarrow> function_table \<Rightarrow> wrapper_tab \<Rightarrow> ((hook_table \<times> function_table) \<times> wrapper_tab) eff" where
  "hook_stream_wrappers E g multibyte ht ft ws =
     (let (_, ht1, ft1) = hook_function multibyte ''stream_wrapper_register'' ht (Zif_Sp ''sp_stream_wrapper_register'') ft;
          (_, ht2, ft2) = hook_function multibyte ''stream_wrapper_restore'' ht1 (Zif_Sp ''sp_stream_wrapper_restore'') ft1
      in ebind (sp_reregister_php_wrapper E g ws) (\<lambda>ws1. ret ((ht2, ft2), ws1)))"

section \<open>Properties\<close>

lemma list_equals_ci_iff: "list_equals_ci ws s \<longleftrightarrow> (\<exists>w\<in>set ws. equals_ci s w)"
  by (induction ws) auto

definition lowered :: "string \<Rightarrow> string" where
  "lowered s = map to_lower s"

lemma prefix_ci_lowered: "prefix_ci n path \<longleftrightarrow> take (length n) (lowered path) = lowered n"
  by (auto simp: prefix_ci_def equals_ci_def lowered_def take_map dest: map_eq_imp_length_eq)

lemma kind_names:
  "\<forall>e\<in>set php_stream_kinds. lowered (fst (snd e)) = fst (snd e) \<and> 3 \<le> length (fst (snd e))"
  by code_simp

lemma kind_starts:
  "\<forall>e\<in>set php_stream_kinds. \<forall>e'\<in>set php_stream_kinds. take 3 (fst (snd e)) = take 3 (fst (snd e')) \<longrightarrow>
     e = e' \<or> \<not> fst e \<and> \<not> fst e'"
  by code_simp

lemma kind_inj:
  "\<forall>e\<in>set php_stream_kinds. \<forall>e'\<in>set php_stream_kinds. fst (snd e) = fst (snd e') \<longrightarrow> e = e'"
  by code_simp

lemma path_is_name:
  assumes "e \<in> set php_stream_kinds" "path_is path e"
  shows "take (length (fst (snd e))) (lowered path) = fst (snd e)" "\<not> fst e \<longrightarrow> lowered path = fst (snd e)"
proof -
  have n: "lowered (fst (snd e)) = fst (snd e)" using kind_names assms(1) by blast
  have "if fst e then prefix_ci (fst (snd e)) path else equals_ci path (fst (snd e))"
    using assms(2) by (simp add: path_is_def split: prod.splits)
  then show "take (length (fst (snd e))) (lowered path) = fst (snd e)" "\<not> fst e \<longrightarrow> lowered path = fst (snd e)"
    using n by (auto simp: prefix_ci_lowered equals_ci_def simp flip: lowered_def split: if_splits)
qed

lemma path_is_start: "e \<in> set php_stream_kinds \<Longrightarrow> path_is path e \<Longrightarrow> take 3 (lowered path) = take 3 (fst (snd e))"
  using path_is_name(1) [of e path] kind_names by (metis min.absorb1 take_take)

text \<open>No path is of two kinds, so the order of the tests does not matter.\<close>

lemma kinds_exclusive:
  assumes "e \<in> set php_stream_kinds" "e' \<in> set php_stream_kinds" "path_is path e" "path_is path e'"
  shows "e = e'"
proof -
  have "take 3 (fst (snd e)) = take 3 (fst (snd e'))"
    using path_is_start assms by metis
  then consider "e = e'" | "\<not> fst e" "\<not> fst e'" using kind_starts assms(1,2) by blast
  then show ?thesis
  proof cases
    case 2
    then have "fst (snd e) = fst (snd e')" using path_is_name(2) assms by metis
    then show ?thesis using kind_inj assms(1,2) by blast
  qed
qed

lemma verdict_None:
  "\<forall>e\<in>set es. \<forall>e'\<in>set es. path_is path e \<longrightarrow> path_is path e' \<longrightarrow> e = e' \<Longrightarrow>
   php_stream_verdict g path es = None \<longleftrightarrow> (\<exists>e\<in>set es. path_is path e \<and> sp_php_stream_is_whitelisted g (snd (snd e)))"
  by (induction es) auto

text \<open>
  What PHP's manual calls the kind of a \<open>php://\<close> stream, read off the path behind the scheme, in any spelling.
\<close>

definition stream_kind :: "string \<Rightarrow> string option" where
  "stream_kind path =
     (let s = lowered path in
      if s \<in> {''memory'', ''output'', ''input'', ''stdin'', ''stdout'', ''stderr''} then Some s
      else if take 3 s = ''fd/'' then Some ''fd''
      else if take 4 s = ''temp'' then Some ''temp''
      else if take 7 s = ''filter/'' then Some ''filter''
      else None)"

definition behind_scheme :: "string \<Rightarrow> string" where
  "behind_scheme path = (if take 6 (lowered path) = ''php://'' then drop 6 path else path)"

definition stream_allowed :: "sp_globals \<Rightarrow> string \<Rightarrow> bool" where
  "stream_allowed g path \<longleftrightarrow>
     (\<exists>kind. stream_kind path = Some kind \<and> kind \<in> (\<lambda>w. lowered (c_str w)) ` set (wr_php_stream_allowlist (cfg_wrapper g)))"

lemma strip_scheme_behind: "strip_scheme path = behind_scheme path"
proof -
  have "lowered ''php://'' = ''php://''" by code_simp
  then show ?thesis by (simp add: strip_scheme_def behind_scheme_def prefix_ci_lowered eval_nat_numeral)
qed

lemma kinds_by_name:
  "e \<in> set php_stream_kinds \<longleftrightarrow>
     e \<in> {(True, ''temp'', ''temp''), (True, ''fd/'', ''fd''), (True, ''filter/'', ''filter'')} \<or>
     (\<exists>n \<in> {''memory'', ''output'', ''input'', ''stdin'', ''stdout'', ''stderr''}. e = (False, n, n))"
  by (auto simp: php_stream_kinds_def)

lemma lowered_plain:
  "lowered ''temp'' = ''temp''" "lowered ''fd/'' = ''fd/''" "lowered ''filter/'' = ''filter/''" "lowered ''fd'' = ''fd''"
  "lowered ''filter'' = ''filter''" "\<forall>n \<in> {''memory'', ''output'', ''input'', ''stdin'', ''stdout'', ''stderr''}. lowered n = n"
  by code_simp+

lemma path_is_plain:
  "lowered n = n \<Longrightarrow> path_is path (True, n, k) \<longleftrightarrow> take (length n) (lowered path) = n"
  "lowered n = n \<Longrightarrow> path_is path (False, n, k) \<longleftrightarrow> lowered path = n"
  by (simp_all add: path_is_def prefix_ci_lowered equals_ci_def lowered_def)

lemma kind_tests:
  "path_is path (True, ''temp'', k) \<longleftrightarrow> take 4 (lowered path) = ''temp''"
  "path_is path (True, ''fd/'', k) \<longleftrightarrow> take 3 (lowered path) = ''fd/''"
  "path_is path (True, ''filter/'', k) \<longleftrightarrow> take 7 (lowered path) = ''filter/''"
  using path_is_plain(1) [OF lowered_plain(1)] path_is_plain(1) [OF lowered_plain(2)] path_is_plain(1) [OF lowered_plain(3)]
  by (simp_all add: eval_nat_numeral)

lemma stream_kind_iff:
  "stream_kind path = Some kind \<longleftrightarrow>
     lowered path \<in> {''memory'', ''output'', ''input'', ''stdin'', ''stdout'', ''stderr''} \<and> kind = lowered path \<or>
     take 4 (lowered path) = ''temp'' \<and> kind = ''temp'' \<or> take 3 (lowered path) = ''fd/'' \<and> kind = ''fd'' \<or>
     take 7 (lowered path) = ''filter/'' \<and> kind = ''filter''"
proof -
  define names temp fd fil tempk fdk where
    defs: "names = {''memory'', ''output'', ''input'', ''stdin'', ''stdout'', ''stderr''}" "temp = ''temp''" "fd = ''fd/''"
      "fil = ''filter/''" "tempk = ''fd''" "fdk = ''filter''"
  have plain: "\<forall>n\<in>names. take 4 n \<noteq> temp \<and> take 3 n \<noteq> fd \<and> take 7 n \<noteq> fil" unfolding defs by code_simp
  have "take 3 temp \<noteq> fd" "take 3 fil \<noteq> fd" "take 3 temp \<noteq> take 3 fil" unfolding defs by code_simp+
  then have starts: "take 4 s = temp \<Longrightarrow> take 3 s \<noteq> fd" "take 7 s = fil \<Longrightarrow> take 3 s \<noteq> fd"
      "take 4 s = temp \<Longrightarrow> take 7 s \<noteq> fil" for s
    using take_take [of 3 4 s] take_take [of 3 7 s] by auto
  show ?thesis
    unfolding stream_kind_def Let_def defs [symmetric] using plain starts [of "lowered path"] by auto
qed

lemma bex_kinds:
  assumes "\<And>e. e \<in> K \<longleftrightarrow> e \<in> {a, b, c} \<or> (\<exists>n\<in>N. e = f n)"
  shows "(\<exists>e\<in>K. Q e) \<longleftrightarrow> (\<exists>n\<in>N. Q (f n)) \<or> Q a \<or> Q b \<or> Q c"
proof -
  have "K = {a, b, c} \<union> f ` N" by (rule set_eqI) (simp only: assms Un_iff image_iff)
  then show ?thesis by blast
qed

lemma path_is_stream_kind: "(\<exists>e \<in> set php_stream_kinds. path_is path e \<and> snd (snd e) = kind) \<longleftrightarrow> stream_kind path = Some kind"
proof -
  define names where "names = {''memory'', ''output'', ''input'', ''stdin'', ''stdout'', ''stderr''}"
  have low: "\<forall>n\<in>names. lowered n = n" using lowered_plain(6) by (simp only: names_def)
  then have "(\<exists>n\<in>names. path_is path (False, n, n) \<and> n = kind) \<longleftrightarrow> lowered path \<in> names \<and> kind = lowered path"
    using path_is_plain(2) by auto
  then show ?thesis
    using bex_kinds [OF kinds_by_name, where Q = "\<lambda>e. path_is path e \<and> snd (snd e) = kind"]
    unfolding names_def stream_kind_iff kind_tests snd_conv eq_commute [of _ kind] by (simp only:)
qed

lemma verdict_allowed: "php_stream_verdict g path php_stream_kinds = None \<longleftrightarrow> stream_allowed g path"
proof -
  have "sp_php_stream_is_whitelisted g (snd (snd e)) \<longleftrightarrow> snd (snd e) \<in> (\<lambda>w. lowered (c_str w)) ` set (wr_php_stream_allowlist (cfg_wrapper g))"
    if "e \<in> set php_stream_kinds" for e
  proof -
    have "lowered (snd (snd e)) = snd (snd e)" using that lowered_plain by (auto simp: kinds_by_name)
    then show ?thesis
      by (auto simp: sp_php_stream_is_whitelisted_def list_equals_ci_iff equals_ci_def simp flip: lowered_def)
  qed
  moreover have "\<forall>e\<in>set php_stream_kinds. \<forall>e'\<in>set php_stream_kinds. path_is path e \<longrightarrow> path_is path e' \<longrightarrow> e = e'"
    using kinds_exclusive by blast
  ultimately have "php_stream_verdict g path php_stream_kinds = None \<longleftrightarrow>
      (\<exists>e\<in>set php_stream_kinds. path_is path e \<and> snd (snd e) \<in> (\<lambda>w. lowered (c_str w)) ` set (wr_php_stream_allowlist (cfg_wrapper g)))"
    by (simp add: verdict_None)
  also have "\<dots> \<longleftrightarrow> (\<exists>kind. (\<exists>e\<in>set php_stream_kinds. path_is path e \<and> snd (snd e) = kind) \<and>
      kind \<in> (\<lambda>w. lowered (c_str w)) ` set (wr_php_stream_allowlist (cfg_wrapper g)))"
    by blast
  finally show ?thesis by (simp only: path_is_stream_kind stream_allowed_def)
qed

text \<open>
  C24. The list of \<open>php://\<close> streams is exact: with a list, the engine's opener is reached for the
  paths of a kind on the list, in any spelling of upper and lower case, with or without the scheme,
  and for no other; for every other path one line is logged and there is no stream, whatever the opener.
\<close>

theorem php_stream_allowlist_exact:
  assumes "wr_php_stream_allowlist (cfg_wrapper g) \<noteq> []"
  shows "if stream_allowed g (behind_scheme path)
    then sp_php_stream_url_wrap_php E g opener path = opener (behind_scheme path)
    else snd (sp_php_stream_url_wrap_php E g opener path) = Done None \<and>
      length (fst (sp_php_stream_url_wrap_php E g opener path)) = 1 \<and>
      sp_php_stream_url_wrap_php E g opener path = sp_php_stream_url_wrap_php E g opener' path"
proof -
  have "length (fst (sp_log_warn L f m)) = 1" "fst (ret x) = []" for L f m and x :: "'a option"
    by (simp_all add: sp_log_warn_def ret_def)
  then show ?thesis
    using assms verdict_allowed [of g "behind_scheme path"]
    by (auto simp: sp_php_stream_url_wrap_php_def sp_php_stream_is_filtered_def strip_scheme_behind Let_def snd_eseq fst_eseq
        split: option.split)
qed

definition stream_globals :: sp_globals where
  "stream_globals = sample_globals\<lparr>cfg_wrapper := \<lparr>wr_whitelist = [''file'', ''php''], wr_php_stream_allowlist = [''stdin'', ''temp''],
     wr_enabled = True, wr_num_wrapper = 0\<rparr>\<rparr>"

theorem php_stream_allowlist_exact_witness:
  "sp_php_stream_url_wrap_php sample_php stream_globals (\<lambda>p. ret (Some p)) ''PHP://Temp/x'' = ret (Some ''Temp/x'') \<and>
   snd (sp_php_stream_url_wrap_php sample_php stream_globals (\<lambda>p. ret (Some p)) ''php://filter/read'') = Done None"
proof -
  have a: "wr_php_stream_allowlist (cfg_wrapper stream_globals) \<noteq> []" by (simp add: stream_globals_def)
  have "behind_scheme ''PHP://Temp/x'' = ''Temp/x''" "behind_scheme ''php://filter/read'' = ''filter/read''"
    "stream_kind ''Temp/x'' = Some ''temp''" "stream_kind ''filter/read'' = Some ''filter''"
    "lowered (c_str ''stdin'') = ''stdin''" "lowered (c_str ''temp'') = ''temp''"
    by code_simp+
  then show ?thesis
    using php_stream_allowlist_exact [OF a, of "''PHP://Temp/x''" sample_php "\<lambda>p. ret (Some p)"]
      php_stream_allowlist_exact [OF a, of "''php://filter/read''" sample_php "\<lambda>p. ret (Some p)"]
    by (simp add: stream_allowed_def stream_globals_def)
qed

section \<open>The table stays whitelisted\<close>

text \<open>
  What the engine's functions do to the table: registering adds an entry of its own under the
  protocol's name, or fails; restoring brings one of the wrappers that were there before the
  script ran, or fails. Names of the table are in lower case.
\<close>

definition engine_register :: "string option \<Rightarrow> wrapper_tab \<Rightarrow> wrapper_tab \<Rightarrow> bool" where
  "engine_register p ws ws' \<longleftrightarrow> ws' = ws \<or> (\<exists>name n. p = Some name \<and> ws' = zh_add ws name (Wrap_Engine n))"

definition engine_restore :: "wrapper_tab \<Rightarrow> string option \<Rightarrow> wrapper_tab \<Rightarrow> wrapper_tab \<Rightarrow> bool" where
  "engine_restore before p ws ws' \<longleftrightarrow>
     ws' = ws \<or> (\<exists>name w. p = Some name \<and> zh_find before name \<noteq> None \<and> ws' = zh_update ws name w)"

definition whitelisted_table :: "sp_globals \<Rightarrow> wrapper_tab \<Rightarrow> bool" where
  "whitelisted_table g ws \<longleftrightarrow>
     zh_wf ws \<and> (\<forall>name w. zh_find ws name = Some w \<longrightarrow>
       wrapper_is_whitelisted g (Some name) \<and> (sp_php_stream_is_filtered g \<and> name = ''php'' \<longrightarrow> w = Wrap_Sp))"

inductive script_step :: "php \<Rightarrow> sp_globals \<Rightarrow> wrapper_tab \<Rightarrow> wrapper_tab \<Rightarrow> wrapper_tab \<Rightarrow> bool"
  for E g before where
  Register: "(\<And>ws1 ws2 z. snd (orig ws1) = Done (ws2, z) \<Longrightarrow> engine_register p ws1 ws2) \<Longrightarrow>
    snd (sp_stream_wrapper_register g orig p ws) = Done (ws', z) \<Longrightarrow> script_step E g before ws ws'"
| Restore: "(\<And>ws1 ws2 z. snd (orig ws1) = Done (ws2, z) \<Longrightarrow> engine_restore before p ws1 ws2) \<Longrightarrow>
    snd (sp_stream_wrapper_restore E g orig p ws) = Done (ws', z) \<Longrightarrow> script_step E g before ws ws'"
| Unregister: "script_step E g before ws (zh_del ws name)"

lemma whitelisted_del: "whitelisted_table g ws \<Longrightarrow> whitelisted_table g (zh_del ws name)"
  by (auto simp: whitelisted_table_def zh.wf_del zh.find_del)

lemma whitelisted_add:
  "whitelisted_table g ws \<Longrightarrow> wrapper_is_whitelisted g (Some name) \<Longrightarrow> (sp_php_stream_is_filtered g \<and> name = ''php'' \<longrightarrow> w = Wrap_Sp) \<Longrightarrow>
   whitelisted_table g (zh_add ws name w)"
  by (auto simp: whitelisted_table_def zh.wf_add zh_find_add split: if_splits)

lemma whitelisted_update:
  "whitelisted_table g ws \<Longrightarrow> wrapper_is_whitelisted g (Some name) \<Longrightarrow> \<not> (sp_php_stream_is_filtered g \<and> name = ''php'') \<Longrightarrow>
   whitelisted_table g (zh_update ws name w)"
  by (auto simp: whitelisted_table_def zh.wf_upd zh_find_update split: if_splits)

text \<open>Registering \<open>php\<close> again repairs that entry, whatever it was.\<close>

lemma whitelisted_reregister:
  assumes "zh_wf ws" "\<forall>name w. zh_find ws name = Some w \<longrightarrow> wrapper_is_whitelisted g (Some name)"
    and "snd (sp_reregister_php_wrapper E g ws) = Done ws'"
  shows "whitelisted_table g ws'"
proof (cases "sp_php_stream_is_filtered g \<and> zh_find ws ''php'' \<noteq> None")
  case True
  have "zh_find (zh_del ws ''php'') ''php'' = None" by (simp add: zh.find_del assms(1))
  then have ws': "ws' = zh_add (zh_del ws ''php'') ''php'' Wrap_Sp"
    using assms(3) True by (simp add: sp_reregister_php_wrapper_def Let_def)
  have "whitelisted_table g (zh_del ws ''php'')"
    using assms(1,2) by (auto simp: whitelisted_table_def zh.wf_del zh.find_del)
  then show ?thesis unfolding ws' using assms(2) True by (intro whitelisted_add) auto
next
  case False
  then have "ws' = ws"
    using assms(3) by (cases "sp_php_stream_is_filtered g") (simp_all add: sp_reregister_php_wrapper_def eseq_Done_iff)
  then show ?thesis using assms False by (auto simp: whitelisted_table_def)
qed

lemma script_step_whitelisted:
  assumes "script_step E g before ws ws'" "whitelisted_table g ws" "whitelisted_table g before"
  shows "whitelisted_table g ws'"
  using assms
proof (cases rule: script_step.cases)
  case (Register orig p z)
  show ?thesis
  proof (cases p)
    case None
    then show ?thesis using Register assms(2) by (auto simp: sp_stream_wrapper_register_def engine_register_def dest!: Register(1))
  next
    case (Some name)
    show ?thesis
    proof (cases "wrapper_is_whitelisted g p \<and> \<not> (equals_ci (c_str name) ''php'' \<and> sp_php_stream_is_filtered g)")
      case True
      then have "snd (orig ws) = Done (ws', z)" using Register(2) Some by (auto simp: sp_stream_wrapper_register_def)
      then have "engine_register p ws ws'" by (rule Register(1))
      moreover have "name = ''php'' \<Longrightarrow> equals_ci (c_str name) ''php''" by simp
      ultimately show ?thesis using True Some assms(2) by (auto simp: engine_register_def intro!: whitelisted_add)
    next
      case False
      then show ?thesis using Register(2) Some assms(2) by (auto simp: sp_stream_wrapper_register_def split: if_splits)
    qed
  qed
next
  case (Restore orig p z)
  obtain ws1 z1 where o: "snd (orig ws) = Done (ws1, z1)"
    and r: "snd (if (case p of Some p \<Rightarrow> equals_ci (c_str p) ''php'' | None \<Rightarrow> False)
       then ebind (sp_reregister_php_wrapper E g ws1) (\<lambda>ws2. ret (ws2, z1)) else ret (ws1, z1)) = Done (ws', z)"
    using Restore(2) by (auto simp: sp_stream_wrapper_restore_def ebind_Done_iff)
  have e: "engine_restore before p ws ws1" by (rule Restore(1) [OF o])
  have w: "wrapper_is_whitelisted g (Some name)" if "zh_find before name \<noteq> None" for name
    using that assms(3) by (auto simp: whitelisted_table_def)
  have 1: "zh_wf ws1 \<and> (\<forall>name w. zh_find ws1 name = Some w \<longrightarrow> wrapper_is_whitelisted g (Some name))"
    using e assms(2) w by (auto simp: engine_restore_def whitelisted_table_def zh.wf_upd zh_find_update split: if_splits)
  show ?thesis
  proof (cases "case p of Some p \<Rightarrow> equals_ci (c_str p) ''php'' | None \<Rightarrow> False")
    case True
    then have "snd (sp_reregister_php_wrapper E g ws1) = Done ws'" using r by (auto simp: ebind_Done_iff)
    then show ?thesis using whitelisted_reregister 1 by blast
  next
    case False
    then have "ws' = ws1" "p \<noteq> Some ''php''" using r by auto
    then show ?thesis using e assms(2) w by (auto simp: engine_restore_def intro!: whitelisted_update)
  qed
next
  case (Unregister name)
  then show ?thesis using assms(2) whitelisted_del by simp
qed

inductive script_reach :: "php \<Rightarrow> sp_globals \<Rightarrow> wrapper_tab \<Rightarrow> wrapper_tab \<Rightarrow> bool" for E g before where
  Start: "script_reach E g before before"
| Step: "script_reach E g before ws \<Longrightarrow> script_step E g before ws ws' \<Longrightarrow> script_reach E g before ws'"

definition keep_whitelisted :: "sp_globals \<Rightarrow> wrapper_tab \<Rightarrow> wrapper_tab" where
  "keep_whitelisted g ws = filter (\<lambda>e. wrapper_is_whitelisted g (Some (fst e))) ws"

lemma fold_add_filter:
  "distinct (map fst (t @ ws)) \<Longrightarrow>
   fold (\<lambda>(zs, zv) t. if P zs then zh_add t zs zv else t) ws t = t @ filter (\<lambda>e. P (fst e)) ws"
proof (induction ws arbitrary: t)
  case (Cons e ws)
  obtain k v where e: "e = (k, v)" by (cases e)
  have n: "zh_find t k = None" using Cons.prems by (auto simp: e zh_find_None_iff)
  show ?case
  proof (cases "P k")
    case True
    have "distinct (map fst ((t @ [(k, v)]) @ ws))" using Cons.prems by (simp add: e)
    from Cons.IH [OF this] show ?thesis using True n by (simp add: e zh_add_def)
  next
    case False
    then show ?thesis using Cons by (simp add: e)
  qed
qed simp

lemma sp_disable_wrapper_filter:
  "zh_wf ws \<Longrightarrow> snd (sp_disable_wrapper g ws) = keep_whitelisted g ws \<and>
     wr_num_wrapper (cfg_wrapper (fst (sp_disable_wrapper g ws))) = length (keep_whitelisted g ws)"
  using fold_add_filter [of "[]" ws "\<lambda>zs. wrapper_is_whitelisted g (Some zs)"]
  by (simp add: sp_disable_wrapper_def keep_whitelisted_def zh_wf_def Let_def)

lemma zh_find_filter: "zh_wf ws \<Longrightarrow> zh_find (filter (\<lambda>e. P (fst e)) ws) k = (if P k then zh_find ws k else None)"
proof (induction ws)
  case (Cons e ws)
  then have "zh_wf ws" by (simp add: zh_wf_def)
  then show ?case using Cons.IH by (cases e) auto
qed simp

lemma zh_wf_filter: "zh_wf ws \<Longrightarrow> zh_wf (filter Q ws)"
  by (simp add: zh_wf_def distinct_map_filter)

lemma reregister_php:
  assumes "zh_wf ws" "snd (sp_reregister_php_wrapper E g ws) = Done ws'"
  shows "zh_wf ws' \<and> (sp_php_stream_is_filtered g \<longrightarrow> zh_find ws' ''php'' \<in> {None, Some Wrap_Sp})"
  using assms zh_find_add [of "zh_del ws ''php''" "''php''" Wrap_Sp "''php''"]
  by (auto simp: sp_reregister_php_wrapper_def eseq_Done_iff zh.find_del zh.wf_add zh.wf_del Let_def split: if_splits)

text \<open>
  C23. Only whitelisted wrappers are ever registered: once the wrappers are hooked and those not on
  the list disabled, no sequence of calls by which the script registers, restores and unregisters
  wrappers makes another one usable, and with a list of \<open>php://\<close> streams \<open>php\<close> is always the
  extension's own wrapper.
\<close>

theorem wrappers_stay_whitelisted:
  assumes "zh_wf ws0" "snd (hook_stream_wrappers E g multibyte ht ft ws0) = Done (hooks, ws1)"
    and "snd (sp_disable_wrapper g ws1) = ws2" "script_reach E g ws2 ws"
  shows "whitelisted_table g ws"
proof -
  have h: "snd (sp_reregister_php_wrapper E g ws0) = Done ws1"
    using assms(2) by (auto simp: hook_stream_wrappers_def Let_def ebind_Done_iff split: prod.splits)
  note ws1 = reregister_php [OF assms(1) h]
  have ws2: "ws2 = keep_whitelisted g ws1" using sp_disable_wrapper_filter ws1 assms(3) by blast
  have "whitelisted_table g ws2"
    unfolding ws2 keep_whitelisted_def whitelisted_table_def
    using ws1 by (auto simp: zh_wf_filter zh_find_filter [where P = "\<lambda>k. wrapper_is_whitelisted g (Some k)"] split: if_splits)
  from assms(4) this show ?thesis
    by (induction) (auto intro: script_step_whitelisted)
qed

theorem wrappers_stay_whitelisted_witness:
  "\<exists>hooks ws1. snd (hook_stream_wrappers sample_php stream_globals False [] [] [(''php'', Wrap_Engine 0), (''http'', Wrap_Engine 1)]) = Done (hooks, ws1) \<and>
     whitelisted_table stream_globals (zh_del (snd (sp_disable_wrapper stream_globals ws1)) ''file'')"
proof -
  let ?ws0 = "[(''php'', Wrap_Engine 0), (''http'', Wrap_Engine 1)]"
  have "sp_php_stream_is_filtered stream_globals" by (simp add: sp_php_stream_is_filtered_def stream_globals_def)
  then obtain hooks ws1 where h: "snd (hook_stream_wrappers sample_php stream_globals False [] [] ?ws0) = Done (hooks, ws1)"
    by (simp add: hook_stream_wrappers_def sp_reregister_php_wrapper_def Let_def split_beta)
  have w: "zh_wf ?ws0" by (simp add: zh_wf_def)
  have "script_reach sample_php stream_globals (snd (sp_disable_wrapper stream_globals ws1)) (zh_del (snd (sp_disable_wrapper stream_globals ws1)) ''file'')"
    by (rule script_reach.Step [OF script_reach.Start script_step.Unregister])
  then show ?thesis using h wrappers_stay_whitelisted [OF w h refl] by blast
qed

end
