(* ===== verification/Upload_Validation.thy ===== *)
theory Upload_Validation
  imports Config_Parse
begin

text \<open>
  Validation of uploads, \<open>src/sp_upload_validation.c\<close>: the script that is run for every uploaded
  file. \<open>fork\<close>, \<open>execve\<close> and \<open>waitpid\<close> are the parameter \<open>run_script\<close>; a string or a number read
  from a value that is neither, through the wrong member of its union, faults.
\<close>

section \<open>A file\<close>

definition str_member :: "(hkey \<times> zval) list \<Rightarrow> string \<Rightarrow> string eff" where
  "str_member ht key = (case zh_find ht (HStr key) of Some (IS_STRING s) \<Rightarrow> ret (c_str s) | _ \<Rightarrow> crash)"

definition long_member :: "(hkey \<times> zval) list \<Rightarrow> string \<Rightarrow> int eff" where
  "long_member ht key = (case zh_find ht (HStr key) of Some (IS_LONG n) \<Rightarrow> ret n | _ \<Rightarrow> crash)"

text \<open>\<open>fork\<close> fails, the child cannot execute the script, or it ends with the status that \<open>waitpid\<close> gives.\<close>

datatype child = Fork_Failed string | Exec_Failed string | Wait_Status nat

definition WEXITSTATUS :: "nat \<Rightarrow> nat" where
  "WEXITSTATUS waitstatus = waitstatus div 256 mod 256"

text \<open>The child of a failed \<open>execve\<close> warns and leaves with status 1.\<close>

definition child_status :: "php \<Rightarrow> sp_globals \<Rightarrow> string \<Rightarrow> child \<Rightarrow> nat eff" where
  "child_status E g script r =
     (case r of
        Exec_Failed err \<Rightarrow>
          eseq (sp_log_warn (sp_env E g) ''upload_validation'' (''Could not call '' @ quoted script @ '' : '' @ err)) (ret 256)
      | Wait_Status waitstatus \<Rightarrow> ret waitstatus
      | Fork_Failed err \<Rightarrow> crash)"

definition script_env :: "php \<Rightarrow> string \<Rightarrow> int \<Rightarrow> string list" where
  "script_env E filename filesize =
     [''SP_FILENAME='' @ filename,
      ''SP_REMOTE_ADDR='' @ (case e_getenv E ''REMOTE_ADDR'' of Some a \<Rightarrow> a | None \<Rightarrow> []),
      ''SP_CURRENT_FILE='' @ e_executed_filename E,
      ''SP_FILESIZE='' @ show_nat (nat (filesize mod 2 ^ 64))]"

definition check_upload ::
  "php \<Rightarrow> sp_globals \<Rightarrow> (string list \<Rightarrow> string list \<Rightarrow> child) \<Rightarrow> zval \<Rightarrow> unit eff" where
  "check_upload E g run_script file =
     (case file of
        IS_ARRAY ht \<Rightarrow>
          ebind (str_member ht ''name'') (\<lambda>filename. ebind (str_member ht ''tmp_name'') (\<lambda>tmp_name.
          ebind (long_member ht ''size'') (\<lambda>filesize.
            (case up_script (cfg_upload_validation g) of
               None \<Rightarrow> crash
             | Some script \<Rightarrow>
                 (case run_script [c_str script, tmp_name] (script_env E filename filesize) of
                    Fork_Failed err \<Rightarrow>
                      sp_log_err (sp_env E g) ''upload_validation'' (''Could not fork process : '' @ err @ [CHR 0x0A])
                  | r \<Rightarrow>
                      ebind (child_status E g (c_str script) r) (\<lambda>waitstatus.
                        if WEXITSTATUS waitstatus \<noteq> 0
                        then sp_log_auto (sp_env E g) ''upload_validation'' (up_simulation (cfg_upload_validation g))
                          (''The upload of '' @ filename @ '' on '' @
                           (case e_getenv E ''REQUEST_URI'' of Some u \<Rightarrow> u | None \<Rightarrow> ''?'') @ '' was rejected.'')
                        else ret ()))))))
      | _ \<Rightarrow> crash)"

section \<open>The callback\<close>

fun check_uploads :: "php \<Rightarrow> sp_globals \<Rightarrow> (string list \<Rightarrow> string list \<Rightarrow> child) \<Rightarrow> (hkey \<times> zval) list \<Rightarrow> unit eff" where
  "check_uploads E g run_script [] = ret ()"
| "check_uploads E g run_script ((k, file) # files) = eseq (check_upload E g run_script file) (check_uploads E g run_script files)"

datatype multipart_event = MULTIPART_EVENT_END | MULTIPART_EVENT_OTHER nat

definition sp_rfc1867_callback ::
  "php \<Rightarrow> sp_globals \<Rightarrow> (string list \<Rightarrow> string list \<Rightarrow> child) \<Rightarrow> (multipart_event \<Rightarrow> int eff) option \<Rightarrow> (hkey \<times> zval) list \<Rightarrow>
   multipart_event \<Rightarrow> int eff" where
  "sp_rfc1867_callback E g run_script orig_callback files event =
     ebind (case orig_callback of Some f \<Rightarrow> f event | None \<Rightarrow> ret 0) (\<lambda>retval.
       eseq (if event = MULTIPART_EVENT_END \<and> up_enable (cfg_upload_validation g)
             then check_uploads E g run_script files else ret ())
         (ret retval))"

datatype rfc1867 = Callback_Null | Callback_Engine nat | Callback_Sp

record upload_hooks =
  php_rfc1867_callback :: rfc1867
  sp_rfc1867_orig_callback :: rfc1867

definition hook_upload :: "upload_hooks \<Rightarrow> upload_hooks" where
  "hook_upload h =
     (if php_rfc1867_callback h = Callback_Sp then h
      else if sp_rfc1867_orig_callback h = Callback_Null
      then h\<lparr>sp_rfc1867_orig_callback := php_rfc1867_callback h, php_rfc1867_callback := Callback_Sp\<rparr>
      else h)"

section \<open>Properties\<close>

text \<open>A file as the engine describes a single upload, and one of a field that takes several.\<close>

definition single_upload :: "string \<Rightarrow> string \<Rightarrow> int \<Rightarrow> zval" where
  "single_upload filename tmp filesize =
     IS_ARRAY [(HStr ''name'', IS_STRING filename), (HStr ''type'', IS_STRING []), (HStr ''tmp_name'', IS_STRING tmp),
       (HStr ''error'', IS_LONG 0), (HStr ''size'', IS_LONG filesize)]"

definition multiple_upload :: "string list \<Rightarrow> string list \<Rightarrow> int list \<Rightarrow> zval" where
  "multiple_upload filenames tmps filesizes =
     IS_ARRAY [(HStr ''name'', IS_ARRAY (zip (map (HIdx \<circ> int) [0..<length filenames]) (map IS_STRING filenames))),
       (HStr ''type'', IS_ARRAY []), (HStr ''tmp_name'', IS_ARRAY (zip (map (HIdx \<circ> int) [0..<length tmps]) (map IS_STRING tmps))),
       (HStr ''error'', IS_ARRAY []), (HStr ''size'', IS_ARRAY (zip (map (HIdx \<circ> int) [0..<length filesizes]) (map IS_LONG filesizes)))]"

text \<open>
  What the validator says of a file. The status of a process that ended by itself holds the value it
  returned above its lowest byte, which is 0; a child that cannot execute the script returns 1. The
  validator accepts with the value 0 and no other.
\<close>

definition upload_status :: "php \<Rightarrow> (string list \<Rightarrow> string list \<Rightarrow> child) \<Rightarrow> string \<Rightarrow> string \<times> string \<times> int \<Rightarrow> child" where
  "upload_status E run_script script f =
     (case f of (filename, tmp, filesize) \<Rightarrow>
        run_script [c_str script, c_str tmp] (script_env E (c_str filename) filesize))"

definition accepts :: "child \<Rightarrow> bool" where
  "accepts r \<longleftrightarrow> r = Wait_Status 0"

definition returns_value :: "child \<Rightarrow> bool" where
  "returns_value r = (case r of Wait_Status w \<Rightarrow> w mod 256 = 0 \<and> w div 256 < 256 | Exec_Failed err \<Rightarrow> True | Fork_Failed err \<Rightarrow> False)"

lemma returned_status:
  assumes "returns_value (Wait_Status w)"
  shows "WEXITSTATUS w = 0 \<longleftrightarrow> w = 0"
proof -
  have "w = 256 * (w div 256)" "w div 256 < 256" using assms by (auto simp: returns_value_def)
  then show ?thesis unfolding WEXITSTATUS_def by (metis mod_less mult_0_right div_0 mod_0)
qed

lemma check_upload_single:
  assumes script: "up_script (cfg_upload_validation g) = Some script"
    and returns: "returns_value (upload_status E run_script script (filename, tmp, filesize))"
  shows "snd (check_upload E g run_script (single_upload filename tmp filesize)) =
      (if accepts (upload_status E run_script script (filename, tmp, filesize)) \<or> up_simulation (cfg_upload_validation g)
       then Done () else Bailout)"
proof -
  have members: "str_member [(HStr ''name'', IS_STRING filename), (HStr ''type'', IS_STRING []),
         (HStr ''tmp_name'', IS_STRING tmp), (HStr ''error'', IS_LONG 0), (HStr ''size'', IS_LONG filesize)] ''name'' = ret (c_str filename)"
      "str_member [(HStr ''name'', IS_STRING filename), (HStr ''type'', IS_STRING []),
         (HStr ''tmp_name'', IS_STRING tmp), (HStr ''error'', IS_LONG 0), (HStr ''size'', IS_LONG filesize)] ''tmp_name'' = ret (c_str tmp)"
      "long_member [(HStr ''name'', IS_STRING filename), (HStr ''type'', IS_STRING []),
         (HStr ''tmp_name'', IS_STRING tmp), (HStr ''error'', IS_LONG 0), (HStr ''size'', IS_LONG filesize)] ''size'' = ret filesize"
    by (simp_all add: str_member_def long_member_def)
  show ?thesis
  proof (cases "upload_status E run_script script (filename, tmp, filesize)")
    case (Wait_Status w)
    then show ?thesis
      using returned_status [of w] returned_status [of 0] returns
      by (cases "w = 0") (simp_all add: check_upload_def single_upload_def members script upload_status_def accepts_def
          returns_value_def child_status_def snd_ebind snd_eseq)
  qed (use returns in \<open>simp_all add: check_upload_def single_upload_def members script upload_status_def returns_value_def accepts_def
        child_status_def snd_ebind snd_eseq WEXITSTATUS_def\<close>)
qed

lemma check_uploads_single:
  assumes "up_script (cfg_upload_validation g) = Some script"
    and "\<forall>f \<in> set files. returns_value (upload_status E run_script script f)"
  shows "snd (check_uploads E g run_script (zip keys (map (\<lambda>(filename, tmp, filesize). single_upload filename tmp filesize) files))) =
      (if up_simulation (cfg_upload_validation g) \<or> (\<forall>(k, f) \<in> set (zip keys files). accepts (upload_status E run_script script f))
       then Done () else Bailout)"
  using assms
proof (induction files arbitrary: keys)
  case (Cons f files)
  then show ?case
    by (cases f; cases keys) (auto simp: snd_eseq check_upload_single)
qed (simp add: ret_def)

lemma check_uploads_quiet:
  assumes "up_script (cfg_upload_validation g) = Some script"
    and "\<forall>f \<in> set files. \<exists>w. upload_status E run_script script f = Wait_Status w \<and> WEXITSTATUS w = 0"
  shows "check_uploads E g run_script (zip keys (map (\<lambda>(filename, tmp, filesize). single_upload filename tmp filesize) files)) = ret ()"
  using assms
proof (induction files arbitrary: keys)
  case (Cons f files)
  obtain filename tmp filesize where f: "f = (filename, tmp, filesize)" by (cases f)
  have "check_upload E g run_script (single_upload filename tmp filesize) = ret ()"
    using Cons.prems f
    by (auto simp: check_upload_def single_upload_def str_member_def long_member_def upload_status_def child_status_def)
  then show ?case
    using Cons f by (cases keys) auto
qed simp

text \<open>
  C37. Upload validation is exact: of a form whose fields each hold one file, and when for each file the
  script could be started and returned a value (the process could fork, and no signal ended it), the
  request goes on, with the value of the callback that was there before, exactly when the script returned 0
  for every file or validation is simulated; otherwise it is ended.
\<close>

theorem uploads_validated:
  assumes "up_enable (cfg_upload_validation g)" and "up_script (cfg_upload_validation g) = Some script"
    and "\<forall>f \<in> set files. returns_value (upload_status E run_script script f)"
    and "length keys = length files"
    and "snd (case orig of Some f \<Rightarrow> f MULTIPART_EVENT_END | None \<Rightarrow> ret 0) = Done v"
  shows "snd (sp_rfc1867_callback E g run_script orig
        (zip keys (map (\<lambda>(filename, tmp, filesize). single_upload filename tmp filesize) files)) MULTIPART_EVENT_END) =
      (if up_simulation (cfg_upload_validation g) \<or> (\<forall>f \<in> set files. accepts (upload_status E run_script script f))
       then Done v else Bailout)"
proof -
  have "(\<forall>(k, f) \<in> set (zip keys files). accepts (upload_status E run_script script f)) \<longleftrightarrow>
      (\<forall>f \<in> set files. accepts (upload_status E run_script script f))"
    using assms(4) by (fastforce simp: in_set_zip in_set_conv_nth)
  then show ?thesis
    using assms by (simp add: sp_rfc1867_callback_def snd_eseq snd_ebind check_uploads_single)
qed

definition upload_globals :: sp_globals where
  "upload_globals = sample_globals\<lparr>cfg_upload_validation :=
     (cfg_upload_validation sample_globals)\<lparr>up_enable := True, up_simulation := False, up_script := Some ''/scan.sh''\<rparr>\<rparr>"

definition scan :: "string list \<Rightarrow> string list \<Rightarrow> child" where
  "scan args envs = (if args ! 1 = ''/tmp/phpA'' then Wait_Status 0 else Wait_Status 256)"

theorem uploads_validated_witness:
  "snd (sp_rfc1867_callback sample_php upload_globals scan None
      (zip [HStr ''a'', HStr ''b''] (map (\<lambda>(filename, tmp, filesize). single_upload filename tmp filesize)
         [(''a.jpg'', ''/tmp/phpA'', 10), (''b.php'', ''/tmp/phpB'', 20)])) MULTIPART_EVENT_END) = Bailout"
  using uploads_validated [of upload_globals "''/scan.sh''" "[(''a.jpg'', ''/tmp/phpA'', 10), (''b.php'', ''/tmp/phpB'', 20)]"
      sample_php scan "[HStr ''a'', HStr ''b'']" None 0]
  by (simp add: upload_globals_def upload_status_def scan_def returns_value_def accepts_def c_str_def)

text \<open>
  A validator that is killed accepts: a script that dies of a signal has the exit status 0 of
  \<open>WEXITSTATUS\<close>, and nothing asks \<open>WIFEXITED\<close>, so every file of the form passes without a
  word.
\<close>

theorem killed_validator_accepts:
  assumes "up_script (cfg_upload_validation g) = Some script" and "signal < 127"
  shows "sp_rfc1867_callback E g (\<lambda>args envs. Wait_Status signal) None
      (zip keys (map (\<lambda>(filename, tmp, filesize). single_upload filename tmp filesize) files)) MULTIPART_EVENT_END = ret 0"
  using assms check_uploads_quiet [of g script files E "\<lambda>args envs. Wait_Status signal" keys]
  by (simp add: sp_rfc1867_callback_def upload_status_def WEXITSTATUS_def split: prod.split)

theorem killed_validator_accepts_witness:
  "sp_rfc1867_callback sample_php upload_globals (\<lambda>args envs. Wait_Status 9) None
      (zip [HStr ''a''] (map (\<lambda>(filename, tmp, filesize). single_upload filename tmp filesize)
         [(''a.php'', ''/tmp/phpA'', 10)])) MULTIPART_EVENT_END = ret 0"
  using killed_validator_accepts [of upload_globals "''/scan.sh''" 9 sample_php "[HStr ''a'']" "[(''a.php'', ''/tmp/phpA'', 10)]"]
  by (simp add: upload_globals_def)

text \<open>
  A field that takes several files is read through the wrong type: its name, place and size
  are arrays, which the callback reads as a string, a string and a number before it has
  asked the script anything.
\<close>

theorem multiple_upload_faults:
  "check_upload E g run_script (multiple_upload filenames tmps filesizes) = crash"
  by (simp add: check_upload_def multiple_upload_def str_member_def)

text \<open>The hook is installed once, over the callback it keeps.\<close>

lemma hook_upload_idem: "hook_upload (hook_upload h) = hook_upload h"
  by (simp add: hook_upload_def)

end
