(* ===== verification/Dump_Config.thy ===== *)
theory Dump_Config
  imports Config_Parse
begin

text \<open>
  The dump of the configuration that \<open>SP_DUMP_CONFIG\<close> asks for, \<open>add_df_to_arr\<close> and \<open>dump_config\<close>
  of \<open>src/snuffleupagus.c\<close>: an array with an entry per option, which the engine serializes. The
  members \<open>param_is_array\<close> and \<open>var_is_array\<close> of a rule are nowhere set and stay false.
\<close>

section \<open>Entries\<close>

text \<open>\<open>add_assoc_\<dots>\<close>, whose keys are no numbers, and \<open>add_next_index_\<dots>\<close>.\<close>

definition assoc :: "(string \<times> zval) list \<Rightarrow> zval" where
  "assoc kvs = IS_ARRAY (fold (\<lambda>(k, v) arr. zh_update arr (HStr k) v) kvs [])"

definition indexed :: "zval list \<Rightarrow> zval" where
  "indexed vs = IS_ARRAY (zip (map (HIdx \<circ> int) [0..<length vs]) vs)"

definition z_bool :: "bool \<Rightarrow> zval" where
  "z_bool b = (if b then IS_TRUE else IS_FALSE)"

definition z_ulong :: "nat \<Rightarrow> zval" where
  "z_ulong n = IS_LONG (signed_take_bit 63 (int n))"

definition z_str :: "string option \<Rightarrow> zval" where
  "z_str s = (case s of Some s \<Rightarrow> IS_STRING s | None \<Rightarrow> IS_NULL)"

definition z_regexp :: "sp_regexp option \<Rightarrow> zval" where
  "z_regexp r = (case r of Some r \<Rightarrow> IS_STRING (rx_pattern r) | None \<Rightarrow> IS_NULL)"

definition z_splist :: "string list \<Rightarrow> zval" where
  "z_splist ss = (if ss = [] then IS_NULL else indexed (map IS_STRING ss))"

definition z_tree :: "sp_tree \<Rightarrow> zval" where
  "z_tree t = (case t of n # _ \<Rightarrow> (case nvalue n of Some v \<Rightarrow> IS_STRING (c_str v) | None \<Rightarrow> IS_NULL) | [] \<Rightarrow> IS_NULL)"

definition z_type_number :: "sp_php_type \<Rightarrow> int" where
  "z_type_number t =
     (case t of SP_PHP_TYPE_UNDEF \<Rightarrow> 0 | SP_PHP_TYPE_NULL \<Rightarrow> 1 | SP_PHP_TYPE_FALSE \<Rightarrow> 2 | SP_PHP_TYPE_TRUE \<Rightarrow> 3
      | SP_PHP_TYPE_LONG \<Rightarrow> 4 | SP_PHP_TYPE_DOUBLE \<Rightarrow> 5 | SP_PHP_TYPE_STRING \<Rightarrow> 6 | SP_PHP_TYPE_ARRAY \<Rightarrow> 7
      | SP_PHP_TYPE_OBJECT \<Rightarrow> 8 | SP_PHP_TYPE_RESOURCE \<Rightarrow> 9 | SP_PHP_TYPE_REFERENCE \<Rightarrow> 10)"

definition samesite_number :: "samesite_type \<Rightarrow> int" where
  "samesite_number s = (case s of samesite_unset \<Rightarrow> 0 | strict \<Rightarrow> 1 | lax \<Rightarrow> 2)"

definition log_media_number :: "sp_log_media_type \<Rightarrow> int" where
  "log_media_number m = (case m of SP_LOG_ZEND \<Rightarrow> 0 | SP_LOG_SYSLOG \<Rightarrow> 1 | SP_LOG_FILE \<Rightarrow> 2)"

section \<open>A rule\<close>

text \<open>\<open>INET6_ADDRSTRLEN + 5\<close> bytes are enough for an address with its mask.\<close>

definition df_to_arr :: "php \<Rightarrow> sp_disabled_function \<Rightarrow> zval" where
  "df_to_arr E df = assoc
     [(''filename'', z_str (df_filename df)), (''filename_r'', z_regexp (df_r_filename df)),
      (''function'', z_str (df_function df)), (''function_r'', z_regexp (df_r_function df)),
      (''function_list'', if df_functions_list df = [] then IS_NULL
                          else indexed (map (\<lambda>p. IS_STRING (c_str p)) (df_functions_list df))),
      (''hash'', z_str (df_hash df)), (''sim'', z_bool (df_simulation df)),
      (''param'', z_tree (df_param df)), (''param_r'', z_regexp (df_r_param df)),
      (''param_type'', IS_LONG (z_type_number (df_param_type df))), (''pos'', IS_LONG (df_pos df)),
      (''line'', z_ulong (df_line df)), (''ret'', z_str (df_ret df)), (''ret_r'', z_regexp (df_r_ret df)),
      (''ret_type'', IS_LONG (z_type_number (df_ret_type df))), (''value'', z_str (df_value df)),
      (''value_r'', z_regexp (df_r_value df)), (''key'', z_str (df_key df)), (''key_r'', z_regexp (df_r_key df)),
      (''dump'', z_str (df_dump df)), (''alias'', z_str (df_alias df)),
      (''param_is_array'', IS_FALSE), (''var_is_array'', IS_FALSE), (''allow'', z_bool (df_allow df)),
      (''var'', z_tree (df_var df)), (''param'', z_tree (df_param df)),
      (''cidr'', case df_cidr df of
                   Some cidr \<Rightarrow> z_str (map_option c_str (get_ip_str (e_inet E) 51 cidr))
                 | None \<Rightarrow> IS_NULL)]"

definition ini_entry_to_arr :: "sp_ini_entry \<Rightarrow> zval" where
  "ini_entry_to_arr e = assoc
     [(''sim'', z_bool (ie_simulation e)), (''key'', z_str (ie_key e)), (''msg'', z_str (ie_msg e)),
      (''set'', z_str (ie_set e)), (''min'', z_str (ie_min e)), (''max'', z_str (ie_max e)),
      (''access'', IS_LONG (ie_access e)), (''drop'', z_bool (ie_drop e)),
      (''allow_null'', z_bool (ie_allow_null e)), (''regexp'', z_regexp (ie_regexp e))]"

definition cookie_to_arr :: "sp_cookie \<Rightarrow> zval" where
  "cookie_to_arr cookie = assoc
     [(''samesite'', IS_LONG (samesite_number (ck_samesite cookie))), (''encrypt'', z_bool (ck_encrypt cookie)),
      (''name'', z_str (ck_name cookie)), (''name_r'', z_regexp (ck_name_r cookie)),
      (''sim'', z_bool (ck_simulation cookie))]"

section \<open>The configuration\<close>

definition dumped_rules :: "sp_globals \<Rightarrow> sp_disabled_function list" where
  "dumped_rules g =
     concat (map snd (cfg_disabled_functions g)) @ concat (map snd (cfg_disabled_functions_ret g)) @
     cfg_disabled_functions_reg g @ cfg_disabled_functions_reg_ret g"

definition list_or_null :: "zval list \<Rightarrow> zval" where
  "list_or_null vs = (if vs = [] then IS_NULL else indexed vs)"

definition config_entries :: "php \<Rightarrow> sp_globals \<Rightarrow> (string \<times> zval) list" where
  "config_entries E g =
     [(''version'', IS_STRING ''0.14.0''),
      (''unserialize_noclass.enable'', z_bool (un_enable (cfg_unserialize_noclass g))),
      (''unserialize_hmac.enable'', z_bool (us_enable (cfg_unserialize g))),
      (''unserialize_hmac.sim'', z_bool (us_simulation (cfg_unserialize g))),
      (''unserialize_hmac.dump'', z_str (us_dump (cfg_unserialize g))),
      (''harden_random.enable'', z_bool (cfg_random_enable g)),
      (''readonly_exec.enable'', z_bool (ro_enable (cfg_readonly_exec g))),
      (''readonly_exec.sim'', z_bool (ro_simulation (cfg_readonly_exec g))),
      (''readonly_exec.dump'', z_str (ro_dump (cfg_readonly_exec g))),
      (''readonly_exec.extended_checks'', z_bool (ro_extended_checks (cfg_readonly_exec g))),
      (''global_strict.enable'', z_bool (cfg_global_strict_enable g)),
      (''upload_validation.enable'', z_bool (up_enable (cfg_upload_validation g))),
      (''upload_validation.sim'', z_bool (up_simulation (cfg_upload_validation g))),
      (''upload_validation.script'', z_str (up_script (cfg_upload_validation g))),
      (''global.secret_key'', z_bool (cfg_encryption_key g \<noteq> None \<and> cfg_encryption_key g \<noteq> Some [])),
      (''global.cookie_env_var'', z_str (cfg_cookies_env_var g)),
      (''global.log_media'', IS_LONG (log_media_number (log_type (cfg_log_media g))))] @
     (if log_type (cfg_log_media g) = SP_LOG_FILE
      then [(''global.log_media'', IS_STRING (c_str (the (log_path (cfg_log_media g)))))] else []) @
     [(''global.log_max_len'', IS_LONG (cfg_log_max_len g)),
      (''global.max_execution_depth'', z_ulong (cfg_max_execution_depth g)),
      (''global.server_encode'', z_bool (cfg_server_encode g)),
      (''global.server_strip'', z_bool (cfg_server_strip g)),
      (''auto_cookie_secure'', z_bool (cfg_auto_cookie_secure_enable g)),
      (''xxe_protection'', z_bool (cfg_xxe_protection_enable g)),
      (''eval_blacklist.sim'', z_bool (ev_simulation (cfg_eval g))),
      (''eval_blacklist.dump'', z_str (ev_dump (cfg_eval g))),
      (''eval_blacklist.list'', z_splist (ev_blacklist (cfg_eval g))),
      (''eval_whitelist.list'', z_splist (ev_whitelist (cfg_eval g))),
      (''session.encrypt'', z_bool (se_encrypt (cfg_session g))),
      (''session.sim'', z_bool (se_simulation (cfg_session g))),
      (''session.sid_min_length'', z_ulong (se_sid_min_length (cfg_session g))),
      (''session.sid_max_length'', z_ulong (se_sid_max_length (cfg_session g))),
      (''sloppy_comparison.enable'', z_bool (cfg_sloppy_enable g)),
      (''wrappers_whitelist.list'', z_splist (wr_whitelist (cfg_wrapper g))),
      (''wrappers_whitelist.php_list'', z_splist (wr_php_stream_allowlist (cfg_wrapper g))),
      (''ini_protection.enable'', z_bool (ini_enable (cfg_ini g))),
      (''ini_protection.sim'', z_bool (ini_simulation (cfg_ini g))),
      (''ini_protection.policy_ro'', z_bool (ini_policy_readonly (cfg_ini g))),
      (''ini_protection.policy_silent_ro'', z_bool (ini_policy_silent_ro (cfg_ini g))),
      (''ini_protection.policy_silent_fail'', z_bool (ini_policy_silent_fail (cfg_ini g))),
      (''ini_protection.policy_drop'', z_bool (ini_policy_drop (cfg_ini g))),
      (''ini'', list_or_null (map (\<lambda>e. ini_entry_to_arr (snd e)) (ini_entries (cfg_ini g)))),
      (''cookie'', list_or_null (map cookie_to_arr (cfg_cookies g))),
      (''disable_function'', list_or_null (map (df_to_arr E) (dumped_rules g)))]"

text \<open>\<open>serialize\<close> is \<open>php_var_serialize\<close>; \<open>printf\<close> stops at a NUL.\<close>

definition dump_config :: "php \<Rightarrow> (zval \<Rightarrow> string) \<Rightarrow> sp_globals \<Rightarrow> unit eff" where
  "dump_config E serialize g =
     (if log_type (cfg_log_media g) = SP_LOG_FILE \<and> log_path (cfg_log_media g) = None then crash
      else emit (Ev_Call ''printf'' [c_str (serialize (assoc (config_entries E g)))]))"

section \<open>Properties\<close>

definition dumped :: "zval \<Rightarrow> string \<Rightarrow> zval option" where
  "dumped z k = (case z of IS_ARRAY arr \<Rightarrow> zh_find arr (HStr k) | _ \<Rightarrow> None)"

lemma zh_find_fold_update:
  "zh_find (fold (\<lambda>(k, v) arr. zh_update arr (HStr k) v) kvs arr) (HStr n) =
     (case map_of (rev kvs) n of Some v \<Rightarrow> Some v | None \<Rightarrow> zh_find arr (HStr n))"
  by (induction kvs arbitrary: arr) (auto simp: zh_find_update map_add_def split: option.split)

text \<open>An entry of the dump is the last one added under its name.\<close>

lemma dumped_assoc: "dumped (assoc kvs) n = map_of (rev kvs) n"
  by (simp add: dumped_def assoc_def zh_find_fold_update split: option.split)

text \<open>
  The dump keeps the secret and loses no rule: what is printed says only whether an
  encryption key is set, and is the same for every key; and under \<open>disable_function\<close> there is
  one array for each rule of the four tables, in their order.
\<close>

theorem dump_secret_and_complete:
  assumes "k1 \<noteq> []" "k2 \<noteq> []"
  shows "dump_config E ser (g\<lparr>cfg_encryption_key := Some k1\<rparr>) = dump_config E ser (g\<lparr>cfg_encryption_key := Some k2\<rparr>) \<and>
    dumped (assoc (config_entries E g)) ''disable_function'' = Some (list_or_null (map (df_to_arr E) (dumped_rules g)))"
  using assms by (simp add: dump_config_def config_entries_def dumped_rules_def dumped_assoc)

theorem dump_secret_and_complete_witness:
  "dump_config sample_php (\<lambda>z. ''x'') (sample_globals\<lparr>cfg_encryption_key := Some ''one''\<rparr>) =
     dump_config sample_php (\<lambda>z. ''x'') (sample_globals\<lparr>cfg_encryption_key := Some ''two''\<rparr>)"
  using dump_secret_and_complete [of "''one''" "''two''" sample_php "\<lambda>z. ''x''" sample_globals] by simp

end
