(* ===== verification/Snuffleupagus.thy ===== *)
theory Snuffleupagus
  imports Ini_Protection Ifilter Execute Session Unserialize Sloppy Harden_Rand Wrapper Upload_Validation Dump_Config
begin

text \<open>
  The module itself, \<open>src/snuffleupagus.c\<close>: its globals from start to shutdown, loading a
  configuration and loading another one, and the start of a request. The state holds what the
  extension changes in the engine: the function table, the settings, the hooks of the components.
  What the engine and the system do is a parameter: the contents of files, \<open>glob\<close>, the settings, serialization.
\<close>

section \<open>State\<close>

datatype write_hook = Write_Null | Write_Engine nat | Write_Sp

record module_state =
  ms_g :: sp_globals
  ms_ft :: function_table
  ms_dirs :: ini_directives
  ms_engine :: engine_hooks
  ms_upload :: upload_hooks
  ms_session :: session_state
  ms_sapi :: sapi
  ms_wrappers :: wrapper_tab
  zend_write :: write_hook
  zend_write_default :: write_hook
  ms_extension_registered :: bool
  ms_handle_op_array :: bool

text \<open>The process the module lives in.\<close>

record process =
  pr_config :: config_source
  pr_glob :: "string \<Rightarrow> string list option"
  pr_ini :: ini_engine
  pr_multibyte :: bool
  pr_xml_module :: bool
  pr_session_module :: bool
  pr_sapi_name :: string
  pr_serialize :: "zval \<Rightarrow> string"

definition put_g :: "(sp_globals \<Rightarrow> sp_globals) \<Rightarrow> module_state \<Rightarrow> module_state" where
  "put_g f ms = ms\<lparr>ms_g := f (ms_g ms)\<rparr>"

section \<open>Start and end of the process\<close>

text \<open>
  Modules are listed in the order of the registry; the ones behind the extension are started, and
  one that fails is left to be started later.
\<close>

fun sp_load_other_modules :: "(string \<Rightarrow> bool) \<Rightarrow> bool \<Rightarrow> (string \<times> bool) list \<Rightarrow> (string \<times> bool) list" where
  "sp_load_other_modules startup should_start [] = []"
| "sp_load_other_modules startup should_start ((name, started) # modules) =
     (name, if should_start then startup name else started) #
       sp_load_other_modules startup (should_start \<or> name = ''snuffleupagus'') modules"

definition GINIT :: "sp_globals \<Rightarrow> sp_globals" where
  "GINIT g = g\<lparr>spg_is_config_valid := SP_CONFIG_NONE, spg_config_filename := None, spg_config_lineno := 0,
     spg_config_parsing := False, spg_config_nonfatal := False, spg_in_eval := 0, cfg_log_max_len := 255,
     spg_disabled_functions_hook := [], spg_sp_internal_functions_hook := [], spg_sp_eval_blacklist_functions_hook := [],
     cfg_disabled_functions := [], cfg_disabled_functions_hooked := [], cfg_disabled_functions_ret := [],
     cfg_disabled_functions_ret_hooked := [], cfg_ini := (cfg_ini g)\<lparr>ini_entries := []\<rparr>,
     cfg_encryption_key := None, cfg_cookies_env_var := None, cfg_disabled_functions_reg := [],
     cfg_disabled_functions_reg_ret := [], cfg_cookies := [],
     cfg_eval := (cfg_eval g)\<lparr>ev_blacklist := [], ev_whitelist := []\<rparr>,
     cfg_wrapper := (cfg_wrapper g)\<lparr>wr_whitelist := [], wr_php_stream_allowlist := []\<rparr>\<rparr>"

text \<open>\<open>memset\<close> to zero of the options; the tables are emptied and stay.\<close>

definition sp_free_config :: "sp_globals \<Rightarrow> sp_globals" where
  "sp_free_config g = g\<lparr>
     cfg_disabled_functions := [], cfg_disabled_functions_hooked := [], cfg_disabled_functions_ret := [],
     cfg_disabled_functions_ret_hooked := [],
     cfg_random_enable := False, cfg_sloppy_enable := False,
     cfg_unserialize := \<lparr>us_enable = False, us_simulation = False, us_dump = None, us_textual_representation = None\<rparr>,
     cfg_unserialize_noclass := \<lparr>un_enable = False, un_textual_representation = None\<rparr>,
     cfg_readonly_exec := \<lparr>ro_enable = False, ro_simulation = False, ro_extended_checks = False, ro_dump = None,
       ro_textual_representation = None\<rparr>,
     cfg_upload_validation := \<lparr>up_script = None, up_simulation = False, up_enable = False\<rparr>,
     cfg_cookies := [], cfg_auto_cookie_secure_enable := False, cfg_global_strict_enable := False,
     cfg_xxe_protection_enable := False,
     cfg_eval := \<lparr>ev_blacklist = [], ev_whitelist = [], ev_simulation = False, ev_dump = None,
       ev_textual_representation = None\<rparr>,
     cfg_wrapper := \<lparr>wr_whitelist = [], wr_php_stream_allowlist = [], wr_enabled = False, wr_num_wrapper = 0\<rparr>,
     cfg_session := \<lparr>se_encrypt = False, se_simulation = False, se_sid_min_length = 0, se_sid_max_length = 0\<rparr>,
     cfg_log_media := \<lparr>log_type = SP_LOG_ZEND, log_path = None\<rparr>,
     cfg_disabled_functions_reg := [], cfg_disabled_functions_reg_ret := [],
     cfg_ini := \<lparr>ini_enable = False, ini_simulation = False, ini_policy_readonly = False, ini_policy_silent_ro = False,
       ini_policy_silent_fail = False, ini_policy_drop = False, ini_entries = []\<rparr>,
     cfg_log_max_len := 255, spg_config_filename := None, spg_config_lineno := 0, spg_config_parsing := False,
     cfg_max_execution_depth := 0, cfg_server_encode := False, cfg_server_strip := False,
     cfg_encryption_key := None, cfg_cookies_env_var := None, spg_hook_execute := False\<rparr>"

definition GSHUTDOWN :: "sp_globals \<Rightarrow> sp_globals" where
  "GSHUTDOWN g = (sp_free_config g)\<lparr>spg_disabled_functions_hook := [], spg_sp_internal_functions_hook := [],
     spg_sp_eval_blacklist_functions_hook := []\<rparr>"

definition unhook_ini :: "module_state \<Rightarrow> module_state" where
  "unhook_ini ms =
     (if ini_enable (cfg_ini (ms_g ms))
      then (let (g, dirs) = sp_unhook_ini (ms_g ms) (ms_dirs ms) in ms\<lparr>ms_g := g, ms_dirs := dirs\<rparr>)
      else ms)"

definition unhook_table :: "hook_table \<Rightarrow> module_state \<Rightarrow> module_state" where
  "unhook_table ht ms = ms\<lparr>ms_ft := unhook_functions ht (ms_ft ms)\<rparr>"

definition MSHUTDOWN :: "module_state \<Rightarrow> module_state" where
  "MSHUTDOWN ms =
     (let g = ms_g ms
      in unhook_ini (unhook_table (spg_sp_eval_blacklist_functions_hook g) (unhook_table (spg_disabled_functions_hook g)
           (unhook_table (spg_sp_internal_functions_hook g) ms))))"

section \<open>Loading a configuration\<close>

definition sp_config_failed :: "php \<Rightarrow> module_state \<Rightarrow> (module_state \<times> zend_result) eff" where
  "sp_config_failed E ms =
     (let g = ms_g ms;
          g1 = (sp_free_config g)\<lparr>spg_config_filename := spg_config_filename g, spg_config_lineno := spg_config_lineno g,
                  spg_is_config_valid := SP_CONFIG_INVALID\<rparr>
      in eseq (if spg_allow_broken_configuration g1
               then sp_log_warn (sp_env E g1) ''config'' ''Invalid configuration; all Snuffleupagus protections are disabled''
               else ret ())
           (ret (ms\<lparr>ms_g := g1\<rparr>, FAILURE)))"

text \<open>What an earlier load left is taken away, in the reverse order of the hooks.\<close>

definition unload_config :: "module_state \<Rightarrow> module_state" where
  "unload_config ms0 =
     (if spg_is_config_valid (ms_g ms0) = SP_CONFIG_NONE then ms0
      else (let ms = unhook_ini ms0; g = ms_g ms;
                ms1 = unhook_table (spg_sp_internal_functions_hook g) (unhook_table (spg_disabled_functions_hook g)
                        (unhook_table (spg_sp_eval_blacklist_functions_hook g) ms))
            in ms1\<lparr>ms_g := sp_free_config (ms_g ms1\<lparr>spg_sp_eval_blacklist_functions_hook := [],
                             spg_disabled_functions_hook := [], spg_sp_internal_functions_hook := []\<rparr>)\<rparr>))"

text \<open>The files of one pattern, and the patterns; the result is whether everything parsed.\<close>

fun parse_files :: "php \<Rightarrow> process \<Rightarrow> string list \<Rightarrow> sp_globals \<Rightarrow> (sp_globals \<times> bool) eff" where
  "parse_files E P [] g = ret (g, True)"
| "parse_files E P (f # fs) g =
     ebind (sp_parse_config E (pr_config P) f g) (\<lambda>(g', r). if r = SUCCESS then parse_files E P fs g' else ret (g', False))"

text \<open>The number says how many patterns were taken off the value.\<close>

fun parse_patterns :: "php \<Rightarrow> process \<Rightarrow> string list \<Rightarrow> sp_globals \<Rightarrow> (sp_globals \<times> bool \<times> nat) eff" where
  "parse_patterns E P [] g = ret (g, True, 0)"
| "parse_patterns E P (config_file # pats) g =
     (case pr_glob P config_file of
        None \<Rightarrow> eseq (sp_log_err (sp_env E g) ''config'' (''Could not expand configuration file pattern '' @ config_file))
                  (ret (g, False, 1))
      | Some files \<Rightarrow>
          ebind (parse_files E P files g) (\<lambda>(g', ok).
            if ok then ebind (parse_patterns E P pats g') (\<lambda>(g2, ok, n). ret (g2, ok, Suc n))
            else ret (g', False, 1)))"

text \<open>\<open>strsep\<close> overwrites the commas it found in the value.\<close>

fun cut_commas :: "nat \<Rightarrow> string \<Rightarrow> string" where
  "cut_commas n [] = []"
| "cut_commas 0 cs = cs"
| "cut_commas (Suc n) (c # cs) =
     (if c = NUL then c # cs else if c = CHR '','' then NUL # cut_commas n cs else c # cut_commas (Suc n) cs)"

section \<open>Starting the hooks\<close>

text \<open>A hook of native functions changes the table of saved handlers and the function table.\<close>

definition hook_internal :: "(hook_table \<Rightarrow> function_table \<Rightarrow> hook_table \<times> function_table) \<Rightarrow> module_state \<Rightarrow> module_state" where
  "hook_internal hook ms =
     (let (ht, ft) = hook (spg_sp_internal_functions_hook (ms_g ms)) (ms_ft ms)
      in ms\<lparr>ms_g := (ms_g ms)\<lparr>spg_sp_internal_functions_hook := ht\<rparr>, ms_ft := ft\<rparr>)"

definition start_xxe :: "php \<Rightarrow> process \<Rightarrow> module_state \<Rightarrow> module_state eff" where
  "start_xxe E P ms =
     ebind (hook_libxml_disable_entity_loader E (ms_g ms) (pr_xml_module P) (pr_multibyte P)
              (spg_sp_internal_functions_hook (ms_g ms)) (ms_ft ms))
       (\<lambda>hooks. ret (hook_internal (\<lambda>ht ft. hooks) ms))"

definition start_wrappers :: "php \<Rightarrow> process \<Rightarrow> module_state \<Rightarrow> module_state eff" where
  "start_wrappers E P ms =
     ebind (hook_stream_wrappers E (ms_g ms) (pr_multibyte P) (spg_sp_internal_functions_hook (ms_g ms)) (ms_ft ms) (ms_wrappers ms))
       (\<lambda>(hooks, ws). ret ((hook_internal (\<lambda>ht ft. hooks) ms)\<lparr>ms_wrappers := ws\<rparr>))"

definition start_session :: "php \<Rightarrow> process \<Rightarrow> module_state \<Rightarrow> module_state eff" where
  "start_session E P ms =
     ebind (hook_session E (ms_g ms) (pr_session_module P) (ms_session ms)) (\<lambda>s. ret (ms\<lparr>ms_session := s\<rparr>))"

definition start_ini :: "php \<Rightarrow> process \<Rightarrow> module_state \<Rightarrow> module_state eff" where
  "start_ini E P ms =
     ebind (sp_hook_ini E (pr_ini P) (ms_g ms) (ms_dirs ms)) (\<lambda>(g, dirs). ret (ms\<lparr>ms_g := g, ms_dirs := dirs\<rparr>))"

definition start_disabled_functions :: "php \<Rightarrow> process \<Rightarrow> module_state \<Rightarrow> module_state eff" where
  "start_disabled_functions E P ms =
     ebind (hook_disabled_functions E (pr_multibyte P) (ms_g ms) (ms_ft ms)) (\<lambda>(g, ft). ret (ms\<lparr>ms_g := g, ms_ft := ft\<rparr>))"

text \<open>The callback for compiled code, for which the extension registers itself once.\<close>

definition start_op_array_handler :: "module_state \<Rightarrow> module_state" where
  "start_op_array_handler ms =
     (if cfg_global_strict_enable (ms_g ms)
      then ms\<lparr>ms_extension_registered := True, ms_handle_op_array := True\<rparr> else ms)"

definition start_echo :: "module_state \<Rightarrow> module_state" where
  "start_echo ms =
     (if (zh_find (cfg_disabled_functions_hooked (ms_g ms)) (HStr ''echo'') \<noteq> None \<or>
          zh_find (cfg_disabled_functions_ret_hooked (ms_g ms)) (HStr ''echo'') \<noteq> None) \<and>
         zend_write_default ms = Write_Null \<and> zend_write ms \<noteq> Write_Sp
      then ms\<lparr>zend_write_default := zend_write ms, zend_write := Write_Sp\<rparr> else ms)"

definition set_hook_execute :: "module_state \<Rightarrow> module_state" where
  "set_hook_execute = put_g (\<lambda>g. g\<lparr>spg_hook_execute :=
     0 < cfg_max_execution_depth g \<or> cfg_disabled_functions_reg g \<noteq> [] \<or> cfg_disabled_functions_reg_ret g \<noteq> [] \<or>
     cfg_disabled_functions g \<noteq> [] \<or> cfg_disabled_functions_ret g \<noteq> []\<rparr>)"

definition when_set :: "bool \<Rightarrow> (module_state \<Rightarrow> module_state eff) \<Rightarrow> module_state \<Rightarrow> module_state eff" where
  "when_set c f ms = (if c then f ms else ret ms)"

definition pure_step :: "(module_state \<Rightarrow> module_state) \<Rightarrow> module_state \<Rightarrow> module_state eff" where
  "pure_step f ms = ret (f ms)"

definition session_hooked :: "sp_config_session \<Rightarrow> bool" where
  "session_hooked c \<longleftrightarrow> se_encrypt c \<or> se_sid_min_length c \<noteq> 0 \<or> se_sid_max_length c \<noteq> 0"

definition serialize_hooked :: "sp_globals \<Rightarrow> bool" where
  "serialize_hooked g \<longleftrightarrow>
     cfg_encryption_key g \<noteq> None \<and> us_enable (cfg_unserialize g) \<or> un_enable (cfg_unserialize_noclass g)"

text \<open>
  The hooks in their order; none of them changes an option, so that the conditions are those of
  the globals \<open>g\<close> after parsing.
\<close>

definition hook_steps :: "php \<Rightarrow> process \<Rightarrow> sp_globals \<Rightarrow> (module_state \<Rightarrow> module_state eff) list" where
  "hook_steps E P g =
     [when_set (cfg_sloppy_enable g) (pure_step (hook_internal (hook_sloppy (pr_multibyte P)))),
      when_set (cfg_random_enable g) (pure_step (hook_internal (hook_rand (pr_multibyte P)))),
      when_set (up_enable (cfg_upload_validation g)) (pure_step (\<lambda>ms. ms\<lparr>ms_upload := hook_upload (ms_upload ms)\<rparr>)),
      when_set (cfg_xxe_protection_enable g) (start_xxe E P),
      when_set (wr_enabled (cfg_wrapper g)) (start_wrappers E P),
      when_set (session_hooked (cfg_session g)) (start_session E P),
      when_set (serialize_hooked g) (pure_step (hook_internal (hook_serialize (pr_multibyte P)))),
      pure_step (\<lambda>ms. ms\<lparr>ms_engine := hook_execute (ms_engine ms)\<rparr>),
      pure_step (hook_internal (hook_cookies (pr_multibyte P))),
      when_set (ini_enable (cfg_ini g)) (start_ini E P),
      pure_step (\<lambda>ms. ms\<lparr>ms_sapi := sp_hook_register_server_variables (ms_sapi ms)\<rparr>),
      pure_step start_op_array_handler,
      start_disabled_functions E P,
      pure_step start_echo,
      pure_step set_hook_execute]"

fun run_steps :: "(module_state \<Rightarrow> module_state eff) list \<Rightarrow> module_state \<Rightarrow> module_state eff" where
  "run_steps [] ms = ret ms"
| "run_steps (f # fs) ms = ebind (f ms) (run_steps fs)"

definition start_hooks :: "php \<Rightarrow> process \<Rightarrow> module_state \<Rightarrow> module_state eff" where
  "start_hooks E P ms = run_steps (hook_steps E P (ms_g ms)) ms"

section \<open>The directive\<close>

text \<open>The new value comes back as \<open>strsep\<close> left it.\<close>

definition sp_load_config :: "php \<Rightarrow> process \<Rightarrow> string \<Rightarrow> module_state \<Rightarrow> (module_state \<times> string \<times> zend_result) eff" where
  "sp_load_config E P new_value ms0 =
     (let ms1 = put_g (\<lambda>g. g\<lparr>cfg_readonly_exec := (cfg_readonly_exec g)\<lparr>ro_extended_checks := True\<rparr>\<rparr>) (unload_config ms0) in
      ebind (parse_patterns E P (strsep_all (CHR '','') (c_str new_value)) (ms_g ms1)) (\<lambda>(g, ok, n).
        let v = cut_commas n new_value; ms2 = ms1\<lparr>ms_g := g\<rparr> in
        if \<not> ok then ebind (sp_config_failed E ms2) (\<lambda>(ms, r). ret (ms, v, r))
        else
          (let ms3 = put_g (\<lambda>g. g\<lparr>spg_is_config_valid := SP_CONFIG_VALID\<rparr>) ms2 in
           if pr_sapi_name P = ''cli'' \<and> e_getenv E ''SP_DUMP_CONFIG'' \<noteq> None
           then eseq (dump_config E (pr_serialize P) (ms_g ms3)) (ret (ms3, v, SUCCESS))
           else ebind (start_hooks E P ms3) (\<lambda>ms. ret (ms, v, SUCCESS)))))"

text \<open>\<open>started\<close> says whether the modules of the engine are initialized.\<close>

definition OnUpdateConfiguration ::
  "php \<Rightarrow> process \<Rightarrow> bool \<Rightarrow> string option \<Rightarrow> module_state \<Rightarrow> (module_state \<times> string option \<times> zend_result) eff" where
  "OnUpdateConfiguration E P started new_value ms =
     (case new_value of
        None \<Rightarrow> ret (ms, None, FAILURE)
      | Some v \<Rightarrow>
          if v = [] then ret (ms, Some v, FAILURE)
          else ebind (sp_load_config E P v
                 (put_g (\<lambda>g. g\<lparr>spg_config_nonfatal := (spg_allow_broken_configuration g \<or> started)\<rparr>) ms))
               (\<lambda>(ms', v', r). ret (put_g (\<lambda>g. g\<lparr>spg_config_nonfatal := False\<rparr>) ms', Some v', r)))"

section \<open>Requests\<close>

definition RINIT :: "php \<Rightarrow> crypto \<Rightarrow> (hkey \<times> zval) list \<Rightarrow> module_state \<Rightarrow> (module_state \<times> (hkey \<times> zval) list) eff" where
  "RINIT E C cookies ms0 =
     (let ms = put_g (\<lambda>g. g\<lparr>spg_execution_depth := 0, spg_in_eval := 0\<rparr>) ms0; g = ms_g ms; L = sp_env E g in
      if spg_is_config_valid g = SP_CONFIG_INVALID then
        (if spg_allow_broken_configuration g then ret (ms, cookies)
         else eseq (sp_log_err (sp_env E (g\<lparr>spg_config_parsing := True\<rparr>)) ''config'' ''Invalid configuration file'')
               (eseq (zend_error L E_ERROR ''Invalid Snuffleupagus configuration'')
                 (ret (put_g (\<lambda>g. g\<lparr>spg_config_parsing := False\<rparr>) ms, cookies))))
      else if \<not> spg_allow_broken_configuration g \<and> spg_is_config_valid g = SP_CONFIG_NONE then
        eseq (sp_log_warn L ''config'' ''No configuration specified via sp.configuration_file'') (ret (ms, cookies))
      else
        (let ms1 = (if wr_enabled (cfg_wrapper g) \<and> length (ms_wrappers ms) \<noteq> wr_num_wrapper (cfg_wrapper g)
                    then (let (g', ws) = sp_disable_wrapper g (ms_wrappers ms) in ms\<lparr>ms_g := g', ms_wrappers := ws\<rparr>)
                    else ms)
         in if cfg_encryption_key g \<noteq> None \<and> cfg_cookies g \<noteq> []
            then ebind (decrypt_cookies E C (ms_g ms1) cookies) (\<lambda>cookies'. ret (ms1, cookies'))
            else ret (ms1, cookies)))"

text \<open>
  The globals and the wrappers as a request finds them that \<open>RINIT\<close> ends: after the long jump out of the first
  message about a broken configuration \<open>config_parsing\<close> stays set; out of the decryption of the cookies the wrappers stay disabled.
\<close>

definition RINIT_left :: "php \<Rightarrow> module_state \<Rightarrow> module_state" where
  "RINIT_left E ms0 =
     (let ms = put_g (\<lambda>g. g\<lparr>spg_execution_depth := 0, spg_in_eval := 0\<rparr>) ms0; g = ms_g ms in
      if spg_is_config_valid g = SP_CONFIG_INVALID
      then put_g (\<lambda>g. g\<lparr>spg_config_parsing :=
             (snd (sp_log_err (sp_env E (g\<lparr>spg_config_parsing := True\<rparr>)) ''config'' ''Invalid configuration file'') = Bailout)\<rparr>) ms
      else if wr_enabled (cfg_wrapper g) \<and> length (ms_wrappers ms) \<noteq> wr_num_wrapper (cfg_wrapper g)
      then (let (g', ws) = sp_disable_wrapper g (ms_wrappers ms) in ms\<lparr>ms_g := g', ms_wrappers := ws\<rparr>)
      else ms)"

text \<open>The table \<open>phpinfo\<close> shows.\<close>

definition MINFO :: "sp_globals \<Rightarrow> (string \<times> string) list" where
  "MINFO g =
     [(''snuffleupagus support'', if spg_is_config_valid g = SP_CONFIG_VALID then ''enabled'' else ''disabled''),
      (''Version'', ''0.14.0''),
      (''Valid config'', if spg_is_config_valid g = SP_CONFIG_VALID then ''yes''
                         else if spg_is_config_valid g = SP_CONFIG_INVALID then ''invalid'' else ''no'')]"

section \<open>Compiled code\<close>

record op_array =
  oa_filename :: "string option"
  oa_strict_types :: bool

definition sp_op_array_handler :: "sp_globals \<Rightarrow> op_array \<Rightarrow> op_array" where
  "sp_op_array_handler g op =
     (if oa_filename op \<noteq> None \<and> cfg_global_strict_enable g then op\<lparr>oa_strict_types := True\<rparr> else op)"

end
