(* ===== verification/Module_Lifecycle.thy ===== *)
theory Module_Lifecycle
  imports Snuffleupagus
begin

text \<open>
  What holds of the module from the first configuration to the end of the process: every hook can be
  taken away, a configuration in force is well-formed, and one that is not stops the requests.
\<close>

section \<open>Hooks can be taken away\<close>

lemma hook_all_restored: "same_restored (ht, ft) (hook_all mb names (ht, ft))"
  unfolding hook_all_def by (rule fold_restored) (auto simp: hook_function_restored split: prod.split)

lemma hook_sloppy_restored: "same_restored (ht, ft) (hook_sloppy mb ht ft)"
  unfolding hook_sloppy_def by (rule fold_restored) (auto simp: hook_function_restored split: prod.split)

lemma hook_rand_restored: "same_restored (ht, ft) (hook_rand mb ht ft)"
  unfolding hook_rand_def by (rule hook_all_restored)

lemma hook_cookies_restored: "same_restored (ht, ft) (hook_cookies mb ht ft)"
  unfolding hook_cookies_def by (rule hook_function_restored)

lemma hook_two_restored:
  "hook_function mb n1 ht new1 ft = (r, ht1, ft1) \<Longrightarrow> same_restored (ht, ft) (snd (hook_function mb n2 ht1 new2 ft1))"
proof -
  assume h: "hook_function mb n1 ht new1 ft = (r, ht1, ft1)"
  have "same_restored (ht, ft) (ht1, ft1)" using hook_function_restored [of ht ft mb n1 new1] by (simp add: h)
  then show ?thesis by (rule same_restored_trans) (rule hook_function_restored)
qed

lemma hook_serialize_restored: "same_restored (ht, ft) (hook_serialize mb ht ft)"
proof -
  obtain r1 ht1 ft1 where 1: "hook_function mb ''serialize'' ht (Zif_Sp ''sp_serialize'') ft = (r1, ht1, ft1)" by (metis surj_pair)
  show ?thesis using hook_two_restored [OF 1] by (simp add: hook_serialize_def 1)
qed

lemma hook_libxml_restored:
  "snd (hook_libxml_disable_entity_loader E g xml mb ht ft) = Done hooks \<Longrightarrow> same_restored (ht, ft) hooks"
  using hook_all_restored by (auto simp: hook_libxml_disable_entity_loader_def eseq_Done_iff)

lemma hook_stream_wrappers_restored:
  "snd (hook_stream_wrappers E g mb ht ft ws) = Done (hooks, ws') \<Longrightarrow> same_restored (ht, ft) hooks"
proof -
  assume d: "snd (hook_stream_wrappers E g mb ht ft ws) = Done (hooks, ws')"
  obtain r1 ht1 ft1 where 1: "hook_function mb ''stream_wrapper_register'' ht (Zif_Sp ''sp_stream_wrapper_register'') ft = (r1, ht1, ft1)"
    by (metis surj_pair)
  obtain r2 ht2 ft2 where 2: "hook_function mb ''stream_wrapper_restore'' ht1 (Zif_Sp ''sp_stream_wrapper_restore'') ft1 = (r2, ht2, ft2)"
    by (metis surj_pair)
  have "hooks = (ht2, ft2)" using d by (auto simp: hook_stream_wrappers_def 1 2 ebind_Done_iff)
  then show "same_restored (ht, ft) hooks"
    using hook_two_restored [OF 1, of "''stream_wrapper_restore''" "Zif_Sp ''sp_stream_wrapper_restore''"] by (simp add: 2)
qed

lemma hook_functions_restored:
  assumes "hook_functions mb to0 hooked0 ht ft = (to1, hooked1, ht1, ft1)"
  shows "same_restored (ht, ft) (ht1, ft1)"
proof -
  have "same_restored (snd (snd st)) (snd (snd (fold (hook_functions_step mb) xs st)))" for xs st
  proof (induction xs arbitrary: st)
    case (Cons x xs)
    obtain a b c d where st: "st = (a, b, c, d)" by (metis surj_pair)
    obtain r ht' ft' where h: "hook_function mb (c_str (key_text (fst x))) c check_disabled_function_handler d = (r, ht', ft')"
      by (metis surj_pair)
    have "same_restored (c, d) (snd (snd (hook_functions_step mb x st)))"
      using hook_function_restored [of c d mb "c_str (key_text (fst x))" check_disabled_function_handler] h
      by (simp add: hook_functions_step_def st Let_def)
    then show ?case using Cons [of "hook_functions_step mb x st"] st by (auto intro: same_restored_trans)
  qed simp
  from this [of "(to0, hooked0, ht, ft)" to0] show ?thesis
    using assms by (simp add: hook_functions_def)
qed

lemma hook_functions_regexp_restored:
  "snd (hook_functions_regexp E L mb cs (ht, ft)) = Done st' \<Longrightarrow> same_restored (ht, ft) st'"
proof (induction cs arbitrary: ht ft)
  case (Cons c cs)
  show ?case
  proof (cases "df_function c")
    case (Some f)
    obtain r ht1 ft1 where h: "hook_function mb (c_str f) ht check_disabled_function_handler ft = (r, ht1, ft1)"
      by (metis surj_pair)
    show ?thesis
      using Cons Some h hook_function_restored [of ht ft mb "c_str f" check_disabled_function_handler]
      by (auto simp: eseq_Done_iff intro: same_restored_trans)
  next
    case None
    then obtain r where r: "df_r_function c = Some r" using Cons.prems by (cases "df_r_function c") (auto simp: eseq_Done_iff)
    obtain ht1 ft1 where h: "hook_regexp E mb (c_str (rx_pattern r)) ht check_disabled_function_handler ft = (ht1, ft1)"
      by (metis surj_pair)
    show ?thesis
      using Cons None r h hook_regexp_restored [of ht ft E mb "c_str (rx_pattern r)" check_disabled_function_handler]
      by (auto simp: eseq_Done_iff intro: same_restored_trans)
  qed
qed (simp add: ret_def)

section \<open>The rules stay well-formed\<close>

lemma set_zh_del_subset: "set (zh_del ht k) \<subseteq> set ht"
  by (induction ht k rule: zh_del.induct) auto

lemma hook_functions_table:
  assumes "hook_functions mb to0 hooked0 ht ft = (to1, hooked1, ht1, ft1)" "table_ok E b to0"
  shows "table_ok E b to1"
proof -
  have del: "table_ok E b (zh_del t k)" if "table_ok E b t" for t k
    using that set_zh_del_subset [of t k] zh_wf_del [of t k] by (fastforce simp: table_ok_def)
  have "table_ok E b (fst (fold (hook_functions_step mb) xs st))" if "table_ok E b (fst st)" for xs st
    using that
  proof (induction xs arbitrary: st)
    case (Cons x xs)
    then show ?case
      by (auto simp: hook_functions_step_def Let_def del split: prod.split)
  qed simp
  from this [of "(to0, hooked0, ht, ft)" to0] show ?thesis
    using assms by (simp add: hook_functions_def)
qed

lemma sp_hook_ini_config_ok:
  assumes "snd (sp_hook_ini E' G g dirs) = Done (g', dirs')" "config_ok E g"
  shows "config_ok E g'" "ini_enable (cfg_ini g') = ini_enable (cfg_ini g)"
proof -
  obtain es where es: "snd (hook_ini_all E' G g (ini_entries (cfg_ini g)) dirs) = Done (es, dirs')" "g' = put_entries es g"
    using assms(1) by (auto simp: sp_hook_ini_def ebind_Done_iff)
  note m = hook_ini_all_entries [OF es(1)]
  have "map fst es = map fst (ini_entries (cfg_ini g))"
    using arg_cong [OF m, of "map fst"] by (simp add: comp_def split_beta)
  moreover have "\<forall>(k, e)\<in>set es. ie_key e = Some k \<and> ie_access e \<in> {-1, 0, 1}"
    using assms(2) arg_cong [OF m, of set] by (fastforce simp: config_ok_def image_iff)
  ultimately show "config_ok E g'"
    using assms(2) es(2) by (auto simp: config_ok_def put_entries_def zh_wf_def)
  show "ini_enable (cfg_ini g') = ini_enable (cfg_ini g)" by (simp add: es(2) put_entries_def)
qed

definition small_config :: "process \<Rightarrow> bool" where
  "small_config P \<longleftrightarrow> small_files (pr_config P)"

lemma parse_files_keeps:
  "small_config P \<Longrightarrow> config_in E R g \<Longrightarrow> snd (parse_files E P fs g) = Done (g', ok) \<Longrightarrow> config_in E R g'"
proof (induction fs arbitrary: g)
  case (Cons f fs)
  obtain g1 r where p: "snd (sp_parse_config E (pr_config P) f g) = Done (g1, r)"
    using Cons.prems(3) by (auto simp: ebind_Done_iff)
  have "config_in E R g1" using parse_config_keeps [OF Cons.prems(2) _ p] Cons.prems(1) by (simp add: small_config_def)
  then show ?case using Cons p by (auto simp: snd_ebind split: if_splits)
qed simp

lemma parse_patterns_keeps:
  "small_config P \<Longrightarrow> config_in E R g \<Longrightarrow> snd (parse_patterns E P pats g) = Done (g', ok, n) \<Longrightarrow> config_in E R g'"
proof (induction pats arbitrary: g ok n)
  case (Cons pat pats)
  show ?case
  proof (cases "pr_glob P pat")
    case None
    then show ?thesis using Cons.prems by (auto simp: eseq_Done_iff)
  next
    case (Some files)
    obtain g1 r where p: "snd (parse_files E P files g) = Done (g1, r)"
      using Cons.prems(3) Some by (auto simp: ebind_Done_iff)
    note ok1 = parse_files_keeps [OF Cons.prems(1,2) p]
    show ?thesis
    proof (cases r)
      case True
      then obtain ok2 n2 where "snd (parse_patterns E P pats g1) = Done (g', ok2, n2)"
        using Cons.prems(3) Some p by (auto simp: ebind_Done_iff)
      then show ?thesis using Cons.IH Cons.prems(1) ok1 by blast
    next
      case False
      then show ?thesis using Cons.prems(3) Some p ok1 by (simp add: snd_ebind)
    qed
  qed
qed simp

section \<open>What the hooks keep\<close>

text \<open>The engine's function table: what is left when the three tables of hooks are undone, the last one first.\<close>

definition native_table :: "module_state \<Rightarrow> function_table" where
  "native_table ms =
     unhook_functions (spg_sp_internal_functions_hook (ms_g ms))
       (unhook_functions (spg_disabled_functions_hook (ms_g ms))
         (unhook_functions (spg_sp_eval_blacklist_functions_hook (ms_g ms)) (ms_ft ms)))"

text \<open>The handlers of the settings, when those of the extension are taken away.\<close>

definition native_handler :: "module_state \<Rightarrow> string \<Rightarrow> on_modify option option" where
  "native_handler ms n = handler_of (ms_dirs (unhook_ini ms)) n"

lemma native_handler_cong:
  "cfg_ini (ms_g ms') = cfg_ini (ms_g ms) \<Longrightarrow> ms_dirs ms' = ms_dirs ms \<Longrightarrow> native_handler ms' = native_handler ms"
  by (rule ext) (simp add: native_handler_def unhook_ini_def sp_unhook_ini_def Let_def split_beta)

lemma unhook_functions_Nil [simp]: "unhook_functions [] ft = ft"
  by (simp add: unhook_functions_def)

lemma keyed_entries: "config_ok E g \<Longrightarrow> keyed (ini_entries (cfg_ini g))"
  by (auto simp: config_ok_def keyed_def)

lemma unhook_functions_same: "same_restored (ht, ft) (ht', ft') \<Longrightarrow> unhook_functions ht' ft' = unhook_functions ht ft"
  by (simp add: same_restored_def)

text \<open>The phases of \<open>hook_steps\<close>: only internal hooks, before and after the settings are hooked, and all.\<close>

definition internal_phase :: "php \<Rightarrow> bool \<Rightarrow> function_table \<Rightarrow> module_state \<Rightarrow> bool" where
  "internal_phase E en ft0 ms \<longleftrightarrow>
     spg_disabled_functions_hook (ms_g ms) = [] \<and> spg_sp_eval_blacklist_functions_hook (ms_g ms) = [] \<and>
     native_table ms = ft0 \<and> config_ok E (ms_g ms) \<and> ini_enable (cfg_ini (ms_g ms)) = en \<and>
     spg_is_config_valid (ms_g ms) = SP_CONFIG_VALID"

definition before_ini :: "php \<Rightarrow> bool \<Rightarrow> function_table \<Rightarrow> (string \<Rightarrow> on_modify option option) \<Rightarrow> module_state \<Rightarrow> bool" where
  "before_ini E en ft0 h0 ms \<longleftrightarrow> internal_phase E en ft0 ms \<and> handler_of (ms_dirs ms) = h0"

definition after_ini :: "php \<Rightarrow> bool \<Rightarrow> function_table \<Rightarrow> (string \<Rightarrow> on_modify option option) \<Rightarrow> module_state \<Rightarrow> bool" where
  "after_ini E en ft0 h0 ms \<longleftrightarrow> internal_phase E en ft0 ms \<and> native_handler ms = h0"

definition all_hooked :: "php \<Rightarrow> function_table \<Rightarrow> (string \<Rightarrow> on_modify option option) \<Rightarrow> module_state \<Rightarrow> bool" where
  "all_hooked E ft0 h0 ms \<longleftrightarrow>
     native_table ms = ft0 \<and> native_handler ms = h0 \<and> config_ok E (ms_g ms) \<and>
     spg_is_config_valid (ms_g ms) = SP_CONFIG_VALID"

definition triple :: "(module_state \<Rightarrow> bool) \<Rightarrow> (module_state \<Rightarrow> module_state eff) \<Rightarrow> (module_state \<Rightarrow> bool) \<Rightarrow> bool" where
  "triple I f J \<longleftrightarrow> (\<forall>ms ms'. I ms \<longrightarrow> snd (f ms) = Done ms' \<longrightarrow> J ms')"

lemma triple_run_Nil: "triple I (run_steps []) I"
  by (simp add: triple_def)

lemma triple_run_Cons: "triple I f J \<Longrightarrow> triple J (run_steps fs) K \<Longrightarrow> triple I (run_steps (f # fs)) K"
  unfolding triple_def by (auto simp: ebind_Done_iff)

lemma triple_when_set: "triple I f I \<Longrightarrow> triple I (when_set c f) I"
  by (simp add: triple_def when_set_def)

lemma triple_pure: "(\<And>ms. I ms \<Longrightarrow> J (f ms)) \<Longrightarrow> triple I (pure_step f) J"
  by (simp add: triple_def pure_step_def)

lemma config_ok_internal [simp]: "config_ok E (g\<lparr>spg_sp_internal_functions_hook := ht\<rparr>) = config_ok E g"
  by (simp add: config_ok_def)

lemma internal_phase_hook:
  assumes "internal_phase E en ft0 ms" "same_restored (spg_sp_internal_functions_hook (ms_g ms), ms_ft ms) hooks"
  shows "internal_phase E en ft0 (hook_internal (\<lambda>ht ft. hooks) ms)"
proof -
  obtain ht ft where h: "hooks = (ht, ft)" by (cases hooks)
  show ?thesis
    using assms unhook_functions_same [of "spg_sp_internal_functions_hook (ms_g ms)" "ms_ft ms" ht ft]
    by (auto simp: internal_phase_def hook_internal_def h native_table_def)
qed

lemma hook_internal_simps [simp]:
  "ms_dirs (hook_internal f ms) = ms_dirs ms" "cfg_ini (ms_g (hook_internal f ms)) = cfg_ini (ms_g ms)"
  by (simp_all add: hook_internal_def Let_def split_beta)

lemma before_ini_hook:
  assumes "before_ini E en ft0 h0 ms" "same_restored (spg_sp_internal_functions_hook (ms_g ms), ms_ft ms) hooks"
  shows "before_ini E en ft0 h0 (hook_internal (\<lambda>ht ft. hooks) ms)"
  using assms by (simp add: before_ini_def internal_phase_hook)

lemma triple_internal:
  assumes "\<And>ht ft. same_restored (ht, ft) (f ht ft)"
  shows "triple (before_ini E en ft0 h0) (pure_step (hook_internal f)) (before_ini E en ft0 h0)"
proof (rule triple_pure)
  fix ms
  assume "before_ini E en ft0 h0 ms"
  from before_ini_hook [OF this assms]
  show "before_ini E en ft0 h0 (hook_internal f ms)" by (simp add: hook_internal_def)
qed

text \<open>A change of the state that these predicates do not see.\<close>

lemma before_ini_other:
  "before_ini E en ft0 h0 (ms\<lparr>ms_upload := u\<rparr>) = before_ini E en ft0 h0 ms"
  "before_ini E en ft0 h0 (ms\<lparr>ms_session := s\<rparr>) = before_ini E en ft0 h0 ms"
  "before_ini E en ft0 h0 (ms\<lparr>ms_engine := h\<rparr>) = before_ini E en ft0 h0 ms"
  "before_ini E en ft0 h0 (ms\<lparr>ms_wrappers := w\<rparr>) = before_ini E en ft0 h0 ms"
  by (simp_all add: before_ini_def internal_phase_def native_table_def)

lemma after_ini_frame:
  assumes "after_ini E en ft0 h0 ms" "ms_g ms' = ms_g ms" "ms_ft ms' = ms_ft ms" "ms_dirs ms' = ms_dirs ms"
  shows "after_ini E en ft0 h0 ms'"
  using assms native_handler_cong [of ms' ms] by (auto simp: after_ini_def internal_phase_def native_table_def)

lemma triple_xxe: "triple (before_ini E en ft0 h0) (start_xxe E' P) (before_ini E en ft0 h0)"
  unfolding triple_def start_xxe_def
  by (auto simp: ebind_Done_iff intro!: before_ini_hook dest: hook_libxml_restored)

lemma triple_wrappers: "triple (before_ini E en ft0 h0) (start_wrappers E' P) (before_ini E en ft0 h0)"
  unfolding triple_def start_wrappers_def
  by (auto simp: ebind_Done_iff before_ini_other intro!: before_ini_hook dest: hook_stream_wrappers_restored)

lemma triple_session: "triple (before_ini E en ft0 h0) (start_session E' P) (before_ini E en ft0 h0)"
  unfolding triple_def start_session_def by (auto simp: ebind_Done_iff before_ini_other)

lemma before_after_ini:
  assumes "before_ini E en ft0 h0 ms" "\<forall>n. h0 n \<noteq> Some (Some OnModify_Sp)"
  shows "after_ini E en ft0 h0 ms"
proof -
  have "native_handler ms n = h0 n" for n
  proof (cases "ini_enable (cfg_ini (ms_g ms))")
    case True
    obtain es1 dirs1 where u: "unhook_ini_all (ini_entries (cfg_ini (ms_g ms))) (ms_dirs ms) = (es1, dirs1)" by fastforce
    have k: "keyed (ini_entries (cfg_ini (ms_g ms)))" using assms(1) by (auto simp: before_ini_def internal_phase_def intro: keyed_entries)
    have "native_handler ms n = handler_of dirs1 n"
      using u True by (simp add: native_handler_def unhook_ini_def sp_unhook_ini_def Let_def)
    also have "\<dots> = handler_of (ms_dirs ms) n"
    proof (cases "n \<in> fst ` set (ini_entries (cfg_ini (ms_g ms)))")
      case in_es: True
      then obtain e where e: "(n, e) \<in> set (ini_entries (cfg_ini (ms_g ms)))" by auto
      have "handler_of (ms_dirs ms) n \<noteq> Some (Some OnModify_Sp)" using assms by (auto simp: before_ini_def)
      then show ?thesis using bspec [OF unhook_ini_all_spec [OF k u, THEN conjunct2] e] by auto
    next
      case False
      then show ?thesis using unhook_ini_all_spec [OF k u] by simp
    qed
    finally show ?thesis using assms(1) by (auto simp: before_ini_def)
  next
    case False
    then show ?thesis using assms(1) by (auto simp: before_ini_def native_handler_def unhook_ini_def)
  qed
  then show ?thesis using assms(1) by (auto simp: before_ini_def after_ini_def)
qed

lemma sp_hook_ini_tables:
  "snd (sp_hook_ini E G g dirs) = Done (g', dirs') \<Longrightarrow>
   spg_sp_internal_functions_hook g' = spg_sp_internal_functions_hook g \<and> spg_disabled_functions_hook g' = spg_disabled_functions_hook g \<and>
   spg_sp_eval_blacklist_functions_hook g' = spg_sp_eval_blacklist_functions_hook g \<and> spg_is_config_valid g' = spg_is_config_valid g"
  by (auto simp: sp_hook_ini_def ebind_Done_iff put_entries_def)

lemma triple_ini:
  assumes "\<forall>n. h0 n \<noteq> Some (Some OnModify_Sp)"
  shows "triple (before_ini E en ft0 h0) (when_set en (start_ini E' P)) (after_ini E en ft0 h0)"
  unfolding triple_def
proof (intro allI impI)
  fix ms ms'
  assume b: "before_ini E en ft0 h0 ms" and d: "snd (when_set en (start_ini E' P) ms) = Done ms'"
  show "after_ini E en ft0 h0 ms'"
  proof (cases en)
    case False
    then show ?thesis using b d before_after_ini assms by (auto simp: when_set_def)
  next
    case True
    obtain g' dirs' where h: "snd (sp_hook_ini E' (pr_ini P) (ms_g ms) (ms_dirs ms)) = Done (g', dirs')"
        "ms' = ms\<lparr>ms_g := g', ms_dirs := dirs'\<rparr>"
      using d True by (auto simp: when_set_def start_ini_def ebind_Done_iff)
    have ok: "config_ok E (ms_g ms)" "ini_enable (cfg_ini (ms_g ms))" "handler_of (ms_dirs ms) = h0"
      using b True by (simp_all add: before_ini_def internal_phase_def)
    note kept = sp_hook_ini_config_ok [OF h(1) ok(1)] sp_hook_ini_tables [OF h(1)]
    have plain: "\<forall>n. handler_of (ms_dirs ms) n \<noteq> Some (Some OnModify_Sp)"
      using assms ok(3) by (metis fun_cong)
    from ini_hook_restored [OF keyed_entries [OF ok(1)] plain, of E' "pr_ini P"] h(1)
    have "\<forall>n. handler_of (snd (sp_unhook_ini g' dirs')) n = handler_of (ms_dirs ms) n" by auto
    then have "native_handler ms' = h0"
      using h(2) kept ok by (auto simp: native_handler_def unhook_ini_def Let_def split_beta)
    then show ?thesis
      using b kept h(2) by (auto simp: after_ini_def before_ini_def internal_phase_def native_table_def)
  qed
qed

lemma hook_disabled_functions_kept:
  assumes d: "snd (hook_disabled_functions E' mb g ft) = Done (g', ft')" and ok: "config_ok E g"
    and empty: "spg_disabled_functions_hook g = []" "spg_sp_eval_blacklist_functions_hook g = []"
  shows "unhook_functions (spg_disabled_functions_hook g') (unhook_functions (spg_sp_eval_blacklist_functions_hook g') ft') = ft"
    and "config_ok E g'" "cfg_ini g' = cfg_ini g" "spg_is_config_valid g' = spg_is_config_valid g"
      "spg_sp_internal_functions_hook g' = spg_sp_internal_functions_hook g"
proof -
  obtain to1 hooked1 ht1 ft1 where 1: "hook_functions mb (cfg_disabled_functions g) (cfg_disabled_functions_hooked g) [] ft = (to1, hooked1, ht1, ft1)"
    by (metis surj_pair)
  obtain to2 hooked2 ht2 ft2 where 2: "hook_functions mb (cfg_disabled_functions_ret g) (cfg_disabled_functions_ret_hooked g) ht1 ft1 = (to2, hooked2, ht2, ft2)"
    by (metis surj_pair)
  obtain st3 ht4 ft4 where 3: "snd (hook_functions_regexp E' (sp_env E' g) mb (cfg_disabled_functions_reg g) (ht2, ft2)) = Done st3"
      and 4: "snd (hook_functions_regexp E' (sp_env E' g) mb (cfg_disabled_functions_reg_ret g) st3) = Done (ht4, ft4)"
    using d 1 2 empty by (auto simp: hook_disabled_functions_def ebind_Done_iff)
  obtain eht ft5 where 5: "fold (\<lambda>f (eht, ft). snd (hook_function mb (c_str f) eht eval_blacklist_handler ft)) (ev_blacklist (cfg_eval g)) ([], ft4) = (eht, ft5)"
    by (metis surj_pair)
  have g': "g' = g\<lparr>cfg_disabled_functions := to1, cfg_disabled_functions_hooked := hooked1,
      cfg_disabled_functions_ret := to2, cfg_disabled_functions_ret_hooked := hooked2,
      spg_disabled_functions_hook := ht4, spg_sp_eval_blacklist_functions_hook := eht\<rparr>" "ft' = ft5"
    using d 1 2 3 4 5 empty by (simp_all add: hook_disabled_functions_def snd_ebind)
  have e: "same_restored ([], ft4) (eht, ft5)"
    unfolding 5 [symmetric] by (rule fold_restored) (auto simp: hook_function_restored split: prod.split)
  have "same_restored ([], ft) (ht4, ft4)"
    using hook_functions_restored [OF 1] hook_functions_restored [OF 2] hook_functions_regexp_restored [OF 3]
      hook_functions_regexp_restored [of E' "sp_env E' g" mb "cfg_disabled_functions_reg_ret g" "fst st3" "snd st3" "(ht4, ft4)"] 4
    by (simp add: same_restored_def)
  then show "unhook_functions (spg_disabled_functions_hook g') (unhook_functions (spg_sp_eval_blacklist_functions_hook g') ft') = ft"
    using e by (simp add: g' same_restored_def)
  show "config_ok E g'"
    using ok hook_functions_table [OF 1] hook_functions_table [OF 2] by (simp add: g' config_ok_def)
  show "cfg_ini g' = cfg_ini g" "spg_is_config_valid g' = spg_is_config_valid g"
    "spg_sp_internal_functions_hook g' = spg_sp_internal_functions_hook g" by (simp_all add: g')
qed

lemma triple_disabled_functions: "triple (after_ini E en ft0 h0) (start_disabled_functions E' P) (all_hooked E ft0 h0)"
  unfolding triple_def start_disabled_functions_def
proof (intro allI impI)
  fix ms ms'
  assume a: "after_ini E en ft0 h0 ms"
    and d: "snd (ebind (hook_disabled_functions E' (pr_multibyte P) (ms_g ms) (ms_ft ms)) (\<lambda>(g, ft). ret (ms\<lparr>ms_g := g, ms_ft := ft\<rparr>))) = Done ms'"
  obtain g' ft' where h: "snd (hook_disabled_functions E' (pr_multibyte P) (ms_g ms) (ms_ft ms)) = Done (g', ft')"
      "ms' = ms\<lparr>ms_g := g', ms_ft := ft'\<rparr>"
    using d by (auto simp: ebind_Done_iff)
  have ok: "config_ok E (ms_g ms)" "spg_disabled_functions_hook (ms_g ms) = []" "spg_sp_eval_blacklist_functions_hook (ms_g ms) = []"
    "native_table ms = ft0" "spg_is_config_valid (ms_g ms) = SP_CONFIG_VALID" "native_handler ms = h0"
    using a by (simp_all add: after_ini_def internal_phase_def)
  note k = hook_disabled_functions_kept [OF h(1) ok(1-3)]
  show "all_hooked E ft0 h0 ms'"
    using k ok native_handler_cong [of ms' ms] by (simp add: all_hooked_def h(2) native_table_def)
qed

lemma all_hooked_g:
  assumes "ms_g ms' = (ms_g ms)\<lparr>spg_hook_execute := b\<rparr> \<or> ms_g ms' = ms_g ms" "ms_ft ms' = ms_ft ms" "ms_dirs ms' = ms_dirs ms"
  shows "all_hooked E ft0 h0 ms \<Longrightarrow> all_hooked E ft0 h0 ms'"
  using assms native_handler_cong [of ms' ms] by (auto simp: all_hooked_def native_table_def config_ok_def)

lemma triple_start_hooks:
  assumes "\<forall>n. h0 n \<noteq> Some (Some OnModify_Sp)" "before_ini E (ini_enable (cfg_ini (ms_g ms))) ft0 h0 ms"
    and "snd (start_hooks E' P ms) = Done ms'"
  shows "all_hooked E ft0 h0 ms'"
proof -
  let ?b = "before_ini E (ini_enable (cfg_ini (ms_g ms))) ft0 h0" and ?a = "after_ini E (ini_enable (cfg_ini (ms_g ms))) ft0 h0"
  have "triple ?b (run_steps (hook_steps E' P (ms_g ms))) (all_hooked E ft0 h0)"
    unfolding hook_steps_def
    apply (rule triple_run_Cons [where J = ?b], rule triple_when_set, rule triple_internal, rule hook_sloppy_restored)
    apply (rule triple_run_Cons [where J = ?b], rule triple_when_set, rule triple_internal, rule hook_rand_restored)
    apply (rule triple_run_Cons [where J = ?b], rule triple_when_set, rule triple_pure, simp add: before_ini_other)
    apply (rule triple_run_Cons [where J = ?b], rule triple_when_set, rule triple_xxe)
    apply (rule triple_run_Cons [where J = ?b], rule triple_when_set, rule triple_wrappers)
    apply (rule triple_run_Cons [where J = ?b], rule triple_when_set, rule triple_session)
    apply (rule triple_run_Cons [where J = ?b], rule triple_when_set, rule triple_internal, rule hook_serialize_restored)
    apply (rule triple_run_Cons [where J = ?b], rule triple_pure, simp add: before_ini_other)
    apply (rule triple_run_Cons [where J = ?b], rule triple_internal, rule hook_cookies_restored)
    apply (rule triple_run_Cons [where J = ?a], rule triple_ini [OF assms(1)])
    apply (rule triple_run_Cons [where J = ?a], rule triple_pure, erule after_ini_frame, simp, simp, simp)
    apply (rule triple_run_Cons [where J = ?a], rule triple_pure, erule after_ini_frame,
        simp add: start_op_array_handler_def, simp add: start_op_array_handler_def, simp add: start_op_array_handler_def)
    apply (rule triple_run_Cons [where J = "all_hooked E ft0 h0"], rule triple_disabled_functions)
    apply (rule triple_run_Cons [where J = "all_hooked E ft0 h0"], rule triple_pure, rule all_hooked_g [rotated 3], assumption,
        simp add: start_echo_def, simp add: start_echo_def, simp add: start_echo_def)
    apply (rule triple_run_Cons [where J = "all_hooked E ft0 h0"], rule triple_pure, rule all_hooked_g [rotated 3], assumption,
        rule disjI1, simp add: set_hook_execute_def put_g_def, simp add: set_hook_execute_def put_g_def,
        simp add: set_hook_execute_def put_g_def)
    apply (rule triple_run_Nil)
    done
  then show ?thesis using assms(2,3) by (auto simp: triple_def start_hooks_def)
qed

section \<open>The module's invariant\<close>

text \<open>The options of the globals: what a configuration can set. \<open>blank\<close>: all have their default.\<close>

definition options :: "sp_globals \<Rightarrow> (bool \<times> bool \<times> bool \<times> bool \<times> bool \<times> bool \<times> bool) \<times> (int \<times> nat) \<times>
    (string option \<times> string option) \<times>
    (sp_config_unserialize \<times> sp_config_unserialize_noclass \<times> sp_config_readonly_exec \<times> sp_config_upload_validation \<times>
     sp_config_eval \<times> sp_config_wrapper \<times> sp_config_session \<times> sp_config_ini \<times> sp_config_log) \<times> sp_cookie list \<times>
    (df_table \<times> df_table \<times> df_table \<times> df_table) \<times> sp_disabled_function list \<times> sp_disabled_function list" where
  "options g =
     ((cfg_random_enable g, cfg_sloppy_enable g, cfg_auto_cookie_secure_enable g, cfg_global_strict_enable g,
       cfg_xxe_protection_enable g, cfg_server_encode g, cfg_server_strip g),
      (cfg_log_max_len g, cfg_max_execution_depth g), (cfg_encryption_key g, cfg_cookies_env_var g),
      (cfg_unserialize g, cfg_unserialize_noclass g, cfg_readonly_exec g, cfg_upload_validation g, cfg_eval g,
       cfg_wrapper g, cfg_session g, cfg_ini g, cfg_log_media g), cfg_cookies g,
      (cfg_disabled_functions g, cfg_disabled_functions_hooked g, cfg_disabled_functions_ret g,
       cfg_disabled_functions_ret_hooked g), cfg_disabled_functions_reg g, cfg_disabled_functions_reg_ret g)"

definition blank :: "sp_globals \<Rightarrow> bool" where
  "blank g \<longleftrightarrow> options g = options (sp_free_config g)"

definition no_hooks :: "sp_globals \<Rightarrow> bool" where
  "no_hooks g \<longleftrightarrow> spg_sp_internal_functions_hook g = [] \<and> spg_disabled_functions_hook g = [] \<and>
     spg_sp_eval_blacklist_functions_hook g = []"

definition module_inv :: "php \<Rightarrow> function_table \<Rightarrow> (string \<Rightarrow> on_modify option option) \<Rightarrow> module_state \<Rightarrow> bool" where
  "module_inv E ft0 h0 ms \<longleftrightarrow>
     native_table ms = ft0 \<and> native_handler ms = h0 \<and> config_ok E (ms_g ms) \<and>
     (spg_is_config_valid (ms_g ms) = SP_CONFIG_VALID \<or>
      no_hooks (ms_g ms) \<and> \<not> ini_enable (cfg_ini (ms_g ms)) \<and>
      (spg_is_config_valid (ms_g ms) = SP_CONFIG_INVALID \<longrightarrow> blank (ms_g ms)))"

lemma config_ok_free [simp]: "config_ok E (sp_free_config g)"
  by (simp add: sp_free_config_def config_ok_def table_ok_def list_ok_def zh_wf_def)

lemma no_hooks_native: "no_hooks (ms_g ms) \<Longrightarrow> native_table ms = ms_ft ms"
  by (simp add: no_hooks_def native_table_def)

lemma unhook_ini_kept:
  "ms_ft (unhook_ini ms) = ms_ft ms"
  "spg_sp_internal_functions_hook (ms_g (unhook_ini ms)) = spg_sp_internal_functions_hook (ms_g ms)"
  "spg_disabled_functions_hook (ms_g (unhook_ini ms)) = spg_disabled_functions_hook (ms_g ms)"
  "spg_sp_eval_blacklist_functions_hook (ms_g (unhook_ini ms)) = spg_sp_eval_blacklist_functions_hook (ms_g ms)"
  "spg_is_config_valid (ms_g (unhook_ini ms)) = spg_is_config_valid (ms_g ms)"
  by (simp_all add: unhook_ini_def sp_unhook_ini_def put_entries_def Let_def split_beta)

text \<open>Unloading restores the engine's functions and settings.\<close>

lemma unload_config_native:
  assumes "module_inv E ft0 h0 ms"
  shows "no_hooks (ms_g (unload_config ms))" "ms_ft (unload_config ms) = ft0" "handler_of (ms_dirs (unload_config ms)) = h0"
    "config_ok E (ms_g (unload_config ms))"
proof -
  have "no_hooks (ms_g (unload_config ms)) \<and> ms_ft (unload_config ms) = ft0 \<and> handler_of (ms_dirs (unload_config ms)) = h0 \<and>
    config_ok E (ms_g (unload_config ms))"
  proof (cases "spg_is_config_valid (ms_g ms) = SP_CONFIG_NONE")
    case True
    then have n: "no_hooks (ms_g ms)" "\<not> ini_enable (cfg_ini (ms_g ms))"
      using assms by (auto simp: module_inv_def SP_CONFIG_NONE_def SP_CONFIG_VALID_def)
    then show ?thesis
      using assms True no_hooks_native [OF n(1)]
      by (auto simp: unload_config_def module_inv_def native_handler_def [abs_def] unhook_ini_def)
  next
    case False
    then show ?thesis
      using assms unhook_ini_kept [of ms]
      by (auto simp: unload_config_def unhook_table_def Let_def module_inv_def no_hooks_def native_table_def
          native_handler_def [abs_def] sp_free_config_def config_ok_def table_ok_def list_ok_def zh_wf_def)
  qed
  then show "no_hooks (ms_g (unload_config ms))" "ms_ft (unload_config ms) = ft0" "handler_of (ms_dirs (unload_config ms)) = h0"
    "config_ok E (ms_g (unload_config ms))" by simp_all
qed

lemma module_inv_valid:
  "all_hooked E ft0 h0 ms \<Longrightarrow> module_inv E ft0 h0 ms"
  by (simp add: all_hooked_def module_inv_def)

lemma snd_sp_config_failed:
  "snd (sp_config_failed E ms) = Done (ms\<lparr>ms_g := (sp_free_config (ms_g ms))\<lparr>spg_config_filename := spg_config_filename (ms_g ms),
     spg_config_lineno := spg_config_lineno (ms_g ms), spg_is_config_valid := SP_CONFIG_INVALID\<rparr>\<rparr>, FAILURE)"
  by (simp add: sp_config_failed_def Let_def snd_eseq)

lemma sp_load_config_inv:
  assumes inv: "module_inv E ft0 h0 ms" and h0: "\<forall>n. h0 n \<noteq> Some (Some OnModify_Sp)" and P: "small_config P"
    and d: "snd (sp_load_config E P v ms) = Done (ms', v', r)"
  shows "module_inv E ft0 h0 ms' \<and> (r = FAILURE \<longrightarrow> spg_is_config_valid (ms_g ms') = SP_CONFIG_INVALID)"
proof -
  note u = unload_config_native [OF inv]
  define ms1 where "ms1 = put_g (\<lambda>g. g\<lparr>cfg_readonly_exec := (cfg_readonly_exec g)\<lparr>ro_extended_checks := True\<rparr>\<rparr>) (unload_config ms)"
  have m1: "no_hooks (ms_g ms1)" "ms_ft ms1 = ft0" "handler_of (ms_dirs ms1) = h0" "config_ok E (ms_g ms1)"
    using u by (simp_all add: ms1_def put_g_def no_hooks_def config_ok_def)
  obtain g ok n where p: "snd (parse_patterns E P (strsep_all (CHR '','') (c_str v)) (ms_g ms1)) = Done (g, ok, n)"
    using d by (auto simp: sp_load_config_def Let_def ebind_Done_iff ms1_def [symmetric])
  have "config_in E (runtime (ms_g ms1)) g"
    by (rule parse_patterns_keeps [OF P _ p]) (simp add: config_in_def m1(4))
  then have g: "config_ok E g" "no_hooks g" using m1(1) by (simp_all add: config_in_def runtime_def no_hooks_def)
  show ?thesis
  proof (cases ok)
    case False
    define g1 where "g1 = (sp_free_config g)\<lparr>spg_config_filename := spg_config_filename g, spg_config_lineno := spg_config_lineno g,
      spg_is_config_valid := SP_CONFIG_INVALID\<rparr>"
    have m: "ms' = ms1\<lparr>ms_g := g1\<rparr>"
      using d p False by (simp add: sp_load_config_def Let_def snd_ebind ms1_def [symmetric] snd_sp_config_failed g1_def)
    have "blank g1" "no_hooks g1" "\<not> ini_enable (cfg_ini g1)" "config_ok E g1"
      using g(2) config_ok_free [of E g] by (simp_all add: g1_def blank_def options_def no_hooks_def sp_free_config_def config_ok_def)
    moreover have "spg_is_config_valid g1 = SP_CONFIG_INVALID" by (simp add: g1_def)
    ultimately show ?thesis
      using m1 by (auto simp: m module_inv_def no_hooks_native native_handler_def [abs_def] unhook_ini_def)
  next
    case True
    define ms3 where "ms3 = put_g (\<lambda>g. g\<lparr>spg_is_config_valid := SP_CONFIG_VALID\<rparr>) (ms1\<lparr>ms_g := g\<rparr>)"
    have b: "before_ini E (ini_enable (cfg_ini (ms_g ms3))) ft0 h0 ms3"
      using g m1 by (simp add: ms3_def put_g_def before_ini_def internal_phase_def no_hooks_def native_table_def config_ok_def)
    show ?thesis
    proof (cases "pr_sapi_name P = ''cli'' \<and> e_getenv E ''SP_DUMP_CONFIG'' \<noteq> None")
      case dump: True
      then have "ms' = ms3 \<and> r = SUCCESS"
        using d p True by (auto simp: sp_load_config_def Let_def snd_ebind ms1_def [symmetric] ms3_def [symmetric] eseq_Done_iff)
      moreover have "after_ini E (ini_enable (cfg_ini (ms_g ms3))) ft0 h0 ms3" by (rule before_after_ini [OF b h0])
      ultimately show ?thesis by (simp add: module_inv_def after_ini_def internal_phase_def)
    next
      case False
      then have "snd (start_hooks E P ms3) = Done ms' \<and> r = SUCCESS"
        using d p True by (auto simp: sp_load_config_def Let_def snd_ebind ms1_def [symmetric] ms3_def [symmetric] ebind_Done_iff
            split: outcome.splits)
      then show ?thesis using triple_start_hooks [OF h0 b] module_inv_valid by blast
    qed
  qed
qed

text \<open>Changes that the invariant does not see.\<close>

lemma module_inv_frame:
  assumes inv: "module_inv E ft0 h0 ms"
    and other: "ms_ft ms' = ms_ft ms" "ms_dirs ms' = ms_dirs ms"
      "spg_is_config_valid (ms_g ms') = spg_is_config_valid (ms_g ms)"
      "spg_sp_internal_functions_hook (ms_g ms') = spg_sp_internal_functions_hook (ms_g ms)"
      "spg_disabled_functions_hook (ms_g ms') = spg_disabled_functions_hook (ms_g ms)"
      "spg_sp_eval_blacklist_functions_hook (ms_g ms') = spg_sp_eval_blacklist_functions_hook (ms_g ms)"
    and options: "options (ms_g ms') = options (ms_g ms)"
  shows "module_inv E ft0 h0 ms'"
proof -
  have "options (sp_free_config g) = options (sp_free_config g')" for g g'
    by (simp add: options_def sp_free_config_def)
  then have "blank (ms_g ms') = blank (ms_g ms)" using options by (metis blank_def)
  moreover have "config_ok E (ms_g ms') = config_ok E (ms_g ms)" "cfg_ini (ms_g ms') = cfg_ini (ms_g ms)"
    using options by (simp_all add: options_def config_ok_def)
  ultimately show ?thesis
    using inv other native_handler_cong [of ms' ms] by (auto simp: module_inv_def native_table_def no_hooks_def)
qed

lemma module_inv_put:
  assumes "module_inv E ft0 h0 ms" "runtime (f (ms_g ms)) = runtime (ms_g ms)" "options (f (ms_g ms)) = options (ms_g ms)"
  shows "module_inv E ft0 h0 (put_g f ms)"
  using assms by (intro module_inv_frame [OF assms(1)]) (simp_all add: put_g_def runtime_def)

lemma on_update_inv:
  assumes inv: "module_inv E ft0 h0 ms" and h0: "\<forall>n. h0 n \<noteq> Some (Some OnModify_Sp)" and P: "small_config P"
    and d: "snd (OnUpdateConfiguration E P started v ms) = Done (ms', v', r)"
  shows "module_inv E ft0 h0 ms'"
    and "r = FAILURE \<Longrightarrow> v \<noteq> None \<Longrightarrow> v \<noteq> Some [] \<Longrightarrow> spg_is_config_valid (ms_g ms') = SP_CONFIG_INVALID"
    and "v \<noteq> None \<Longrightarrow> v \<noteq> Some [] \<Longrightarrow> \<not> spg_config_nonfatal (ms_g ms')"
proof -
  have nonfatal: "module_inv E ft0 h0 (put_g (\<lambda>g. g\<lparr>spg_config_nonfatal := b\<rparr>) m)" if "module_inv E ft0 h0 m" for b m
    by (rule module_inv_frame [OF that]) (simp_all add: put_g_def options_def)
  show "module_inv E ft0 h0 ms'"
    and "r = FAILURE \<Longrightarrow> v \<noteq> None \<Longrightarrow> v \<noteq> Some [] \<Longrightarrow> spg_is_config_valid (ms_g ms') = SP_CONFIG_INVALID"
    and "v \<noteq> None \<Longrightarrow> v \<noteq> Some [] \<Longrightarrow> \<not> spg_config_nonfatal (ms_g ms')"
    using d sp_load_config_inv [OF nonfatal [OF inv] h0 P] inv
    by (auto simp: OnUpdateConfiguration_def ebind_Done_iff put_g_def split: option.splits if_splits
        intro!: nonfatal [unfolded put_g_def])
qed

lemma options_request:
  "options (g\<lparr>spg_execution_depth := d, spg_in_eval := i\<rparr>) = options g" "options (g\<lparr>spg_config_parsing := b\<rparr>) = options g"
  by (simp_all add: options_def)

text \<open>A request may count the wrappers again.\<close>

lemma request_inv:
  fixes ms0 :: module_state
  defines "ms \<equiv> put_g (\<lambda>g. g\<lparr>spg_execution_depth := 0, spg_in_eval := 0\<rparr>) ms0"
  assumes inv: "module_inv E ft0 h0 ms0"
  shows "module_inv E ft0 h0 ms"
    and "module_inv E ft0 h0 (put_g (\<lambda>g. g\<lparr>spg_config_parsing := b g\<rparr>) ms)"
    and "sp_disable_wrapper (ms_g ms) ws0 = (g', ws) \<Longrightarrow> wr_enabled (cfg_wrapper (ms_g ms)) \<Longrightarrow>
      module_inv E ft0 h0 (ms\<lparr>ms_g := g', ms_wrappers := ws\<rparr>)"
proof -
  show 1: "module_inv E ft0 h0 ms"
    by (rule module_inv_frame [OF inv]) (simp_all add: ms_def put_g_def options_request)
  show "module_inv E ft0 h0 (put_g (\<lambda>g. g\<lparr>spg_config_parsing := b g\<rparr>) ms)"
    by (rule module_inv_frame [OF 1]) (simp_all add: put_g_def options_request)
  have 3: "module_inv E ft0 h0 (ms\<lparr>ms_g := (ms_g ms)\<lparr>cfg_wrapper := w\<rparr>, ms_wrappers := ws\<rparr>)"
    if "wr_enabled (cfg_wrapper (ms_g ms))" for w ws
  proof -
    have "\<not> blank (ms_g ms)" using that by (auto simp: blank_def options_def sp_free_config_def)
    then show ?thesis
      using 1 native_handler_cong [of "ms\<lparr>ms_g := (ms_g ms)\<lparr>cfg_wrapper := w\<rparr>, ms_wrappers := ws\<rparr>" ms]
      by (auto simp: module_inv_def native_table_def no_hooks_def config_ok_def)
  qed
  show "module_inv E ft0 h0 (ms\<lparr>ms_g := g', ms_wrappers := ws\<rparr>)"
    if "sp_disable_wrapper (ms_g ms) ws0 = (g', ws)" "wr_enabled (cfg_wrapper (ms_g ms))"
    using that 3 by (auto simp: sp_disable_wrapper_def Let_def)
qed

lemma RINIT_inv:
  assumes inv: "module_inv E ft0 h0 ms" and d: "snd (RINIT E' C cookies ms) = Done (ms', cookies')"
  shows "module_inv E ft0 h0 ms'"
  using d request_inv [OF inv] unfolding RINIT_def Let_def
  by (auto simp: eseq_Done_iff ebind_Done_iff split: if_splits prod.splits)

lemma RINIT_left_inv:
  assumes inv: "module_inv E ft0 h0 ms"
  shows "module_inv E ft0 h0 (RINIT_left E' ms)"
  using request_inv [OF inv] unfolding RINIT_left_def Let_def by (auto split: prod.splits)

section \<open>Properties\<close>

text \<open>
  What happens to the module after its start: the directive is applied, with whatever the scanner
  and the file system give at that time, or a request starts, or is ended at its start.
\<close>

inductive module_step :: "php \<Rightarrow> module_state \<Rightarrow> module_state \<Rightarrow> bool" for E where
  Directive: "small_config P \<Longrightarrow> snd (OnUpdateConfiguration E P started v ms) = Done (ms', v', r) \<Longrightarrow> module_step E ms ms'"
| Request: "snd (RINIT E' C cookies ms) = Done (ms', cookies') \<Longrightarrow> module_step E ms ms'"
| Ended_Request: "snd (RINIT E' C cookies ms) = Bailout \<Longrightarrow> module_step E ms (RINIT_left E' ms)"

inductive_cases module_stepE: "module_step E ms ms'"

inductive module_reach :: "php \<Rightarrow> module_state \<Rightarrow> module_state \<Rightarrow> bool" for E ms0 where
  Start: "module_reach E ms0 ms0"
| Step: "module_reach E ms0 ms \<Longrightarrow> module_step E ms ms' \<Longrightarrow> module_reach E ms0 ms'"

text \<open>After \<open>GINIT\<close> on zeroed memory nothing is hooked.\<close>

definition fresh_module :: "module_state \<Rightarrow> bool" where
  "fresh_module ms \<longleftrightarrow> (\<exists>g. ms_g ms = GINIT g \<and> \<not> ini_enable (cfg_ini g)) \<and>
     (\<forall>n. handler_of (ms_dirs ms) n \<noteq> Some (Some OnModify_Sp))"

lemma fresh_module_inv:
  assumes "fresh_module ms"
  shows "module_inv E (ms_ft ms) (handler_of (ms_dirs ms)) ms"
proof -
  obtain g where g: "ms_g ms = GINIT g" "\<not> ini_enable (cfg_ini g)" using assms by (auto simp: fresh_module_def)
  have n: "no_hooks (ms_g ms)" by (simp add: g GINIT_def no_hooks_def)
  have h: "native_handler ms = handler_of (ms_dirs ms)"
    using g by (auto simp: native_handler_def [abs_def] unhook_ini_def GINIT_def)
  have ok: "config_ok E (ms_g ms)" by (simp add: g GINIT_def config_ok_def table_ok_def list_ok_def zh_wf_def)
  have valid: "spg_is_config_valid (ms_g ms) = SP_CONFIG_NONE" "\<not> ini_enable (cfg_ini (ms_g ms))"
    using g by (simp_all add: GINIT_def)
  have "SP_CONFIG_NONE \<noteq> SP_CONFIG_INVALID" by (simp add: SP_CONFIG_NONE_def SP_CONFIG_INVALID_def)
  then show ?thesis using n h ok valid by (simp add: module_inv_def no_hooks_native)
qed

lemma module_reach_inv:
  assumes "module_reach E ms0 ms" "module_inv E ft0 h0 ms0" "\<forall>n. h0 n \<noteq> Some (Some OnModify_Sp)"
  shows "module_inv E ft0 h0 ms"
  using assms
proof (induction rule: module_reach.induct)
  case (Step ms ms')
  then show ?case by (auto elim!: module_stepE intro: on_update_inv(1) RINIT_inv RINIT_left_inv)
qed simp

text \<open>
  C2. The module can always be taken back: after any number of configurations, good and broken
  ones, and any number of requests, the function table without the hooks of the extension is the
  one the engine had, as are the handlers of all settings; the configuration in force is
  well-formed; and as long as none is in force there is no hook, so that the table is that of the
  engine, and after a broken one every option has its default.
\<close>

theorem module_invariant:
  assumes "fresh_module ms0" "module_reach E ms0 ms"
  shows "native_table ms = ms_ft ms0 \<and> (\<forall>n. native_handler ms n = handler_of (ms_dirs ms0) n) \<and> config_ok E (ms_g ms) \<and>
    (spg_is_config_valid (ms_g ms) \<noteq> SP_CONFIG_VALID \<longrightarrow> ms_ft ms = ms_ft ms0) \<and>
    (spg_is_config_valid (ms_g ms) = SP_CONFIG_INVALID \<longrightarrow> blank (ms_g ms))"
proof -
  have "\<forall>n. handler_of (ms_dirs ms0) n \<noteq> Some (Some OnModify_Sp)" using assms(1) by (simp add: fresh_module_def)
  from module_reach_inv [OF assms(2) fresh_module_inv [OF assms(1)] this] show ?thesis
    using no_hooks_native [of ms] by (auto simp: module_inv_def SP_CONFIG_INVALID_def SP_CONFIG_VALID_def)
qed

definition start_module :: module_state where
  "start_module =
     \<lparr>ms_g = GINIT sample_globals, ms_ft = [(''setcookie'', ZEND_INTERNAL_FUNCTION, Zif_Engine ''setcookie'')],
      ms_dirs = sample_directives,
      ms_engine = \<lparr>zend_execute_ex = Fn_Engine 0, zend_execute_internal = Fn_Null, zend_stream_open = Fn_Engine 1,
        zend_compile_file = Fn_Engine 2, zend_compile_string = Fn_Engine 3, orig_execute_ex = Fn_Null,
        orig_execute_internal = Fn_Null, orig_stream_open = Fn_Null, orig_compile_file = Fn_Null, orig_compile_string = Fn_Null\<rparr>,
      ms_upload = \<lparr>php_rfc1867_callback = Callback_Null, sp_rfc1867_orig_callback = Callback_Null\<rparr>,
      ms_session = files_session, ms_sapi = \<lparr>sapi_register = None, sapi_orig = None\<rparr>, ms_wrappers = [],
      zend_write = Write_Engine 0, zend_write_default = Write_Null, ms_extension_registered = False, ms_handle_op_array = False\<rparr>"

definition sample_process :: "(string \<Rightarrow> string + string) \<Rightarrow> process" where
  "sample_process files =
     \<lparr>pr_config = sample_source files, pr_glob = (\<lambda>p. Some [p]), pr_ini = sample_ini, pr_multibyte = False, pr_xml_module = True,
      pr_session_module = True, pr_sapi_name = ''fpm-fcgi'', pr_serialize = (\<lambda>z. [])\<rparr>"

lemma start_module_fresh: "fresh_module start_module"
  by (auto simp: fresh_module_def start_module_def sample_directives_def sample_globals_def)

text \<open>An empty file is a configuration: cookies are hooked.\<close>

lemma start_module_loaded:
  "\<exists>ms' v'. snd (OnUpdateConfiguration sample_php (sample_process (\<lambda>f. Inr [])) False (Some ''a'') start_module) = Done (ms', v', SUCCESS) \<and>
     ms_ft ms' = [(''setcookie'', ZEND_INTERNAL_FUNCTION, Zif_Sp ''sp_setcookie'')]"
  by (simp add: OnUpdateConfiguration_def sp_load_config_def unload_config_def start_module_def put_g_def GINIT_def sample_globals_def
      sample_process_def sample_source_def sp_parse_config_def start_hooks_def hook_steps_def when_set_def pure_step_def session_hooked_def
      serialize_hooked_def hook_internal_def hook_cookies_def hook_function_def hook_one_def start_op_array_handler_def
      start_disabled_functions_def hook_disabled_functions_def hook_functions_def start_echo_def set_hook_execute_def c_str_def Let_def)

theorem module_invariant_witness:
  "\<exists>ms. module_reach sample_php start_module ms \<and> native_table ms = ms_ft start_module \<and>
     zh_find (ms_ft ms) ''setcookie'' = Some (ZEND_INTERNAL_FUNCTION, Zif_Sp ''sp_setcookie'')"
proof -
  obtain ms v' where ms: "snd (OnUpdateConfiguration sample_php (sample_process (\<lambda>f. Inr [])) False (Some ''a'') start_module) = Done (ms, v', SUCCESS)"
      "ms_ft ms = [(''setcookie'', ZEND_INTERNAL_FUNCTION, Zif_Sp ''sp_setcookie'')]"
    using start_module_loaded by blast
  have "small_config (sample_process (\<lambda>f. Inr []))" by (simp add: small_config_def small_files_def sample_process_def sample_source_def)
  then have reach: "module_reach sample_php start_module ms"
    using ms(1) by (intro module_reach.Step [OF module_reach.Start] module_step.Directive)
  have "native_table ms = ms_ft start_module" using module_invariant [OF start_module_fresh reach] by blast
  with reach ms(2) show ?thesis by (intro exI [of _ ms]) simp
qed

text \<open>
  C12. A broken configuration stops the requests: when loading fails, in a state the module reaches,
  every option has its default again, and every native function and every setting of the engine has the handler it
  had before the module started. A request then ends before the script runs, wherever
  messages are logged, if fatal errors end requests; or, with \<open>sp.allow_broken_configuration\<close>, it goes on with its
  cookies as they came. (The hooks into the executor, sessions, uploads and the output, which unloading
  does not undo, stay.)
\<close>

theorem broken_config_rejects_requests:
  assumes "module_inv E ft0 h0 ms" "\<forall>n. h0 n \<noteq> Some (Some OnModify_Sp)" "small_config P" "v \<noteq> []"
    and load: "snd (OnUpdateConfiguration E P started (Some v) ms) = Done (ms', v', FAILURE)"
    and "e_fatal_bails E'"
  shows "blank (ms_g ms') \<and> ms_ft ms' = ft0 \<and> handler_of (ms_dirs ms') = h0 \<and>
    (if spg_allow_broken_configuration (ms_g ms')
     then \<exists>ms2. RINIT E' C cookies ms' = ret (ms2, cookies)
     else snd (RINIT E' C cookies ms') = Bailout)"
proof -
  note l = on_update_inv [OF assms(1-3) load]
  have valid: "spg_is_config_valid (ms_g ms') = SP_CONFIG_INVALID" using l(2) assms(4) by simp
  then have b: "no_hooks (ms_g ms')" "blank (ms_g ms')" "native_table ms' = ft0"
    using l(1) by (auto simp: module_inv_def SP_CONFIG_INVALID_def SP_CONFIG_VALID_def)
  let ?g = "(ms_g ms')\<lparr>spg_execution_depth := 0, spg_in_eval := 0\<rparr>"
  have "snd (RINIT E' C cookies ms') = Bailout" if "\<not> spg_allow_broken_configuration (ms_g ms')"
  proof -
    have z: "snd (zend_error (sp_env E' ?g) E_ERROR msg) = Bailout" for msg
      using assms(6) by (simp add: snd_zend_error sp_env_def)
    show ?thesis
      using valid that z snd_sp_log_err_cases [of "sp_env E' (?g\<lparr>spg_config_parsing := True\<rparr>)" "''config''" "''Invalid configuration file''"]
      by (auto simp: RINIT_def put_g_def Let_def snd_eseq)
  qed
  moreover have "\<exists>ms2. RINIT E' C cookies ms' = ret (ms2, cookies)" if "spg_allow_broken_configuration (ms_g ms')"
    using valid that by (simp add: RINIT_def put_g_def) blast
  moreover have "handler_of (ms_dirs ms') = h0"
    using l(1) valid by (auto simp: module_inv_def SP_CONFIG_INVALID_def SP_CONFIG_VALID_def native_handler_def [abs_def] unhook_ini_def)
  ultimately show ?thesis using b no_hooks_native [OF b(1)] by simp
qed

theorem broken_config_rejects_requests_witness:
  "\<exists>ms' v'. snd (OnUpdateConfiguration sample_php (sample_process (\<lambda>f. Inl ''gone'')) True (Some ''a'') start_module) = Done (ms', v', FAILURE) \<and>
     snd (RINIT sample_php sample_crypto [] ms') = Bailout"
proof -
  obtain ms' v' where l: "snd (OnUpdateConfiguration sample_php (sample_process (\<lambda>f. Inl ''gone'')) True (Some ''a'') start_module) = Done (ms', v', FAILURE)"
      and "\<not> spg_allow_broken_configuration (ms_g ms')"
    by (simp add: OnUpdateConfiguration_def sp_load_config_def unload_config_def start_module_def put_g_def GINIT_def sample_globals_def
        sample_process_def sample_source_def sp_parse_config_def c_str_def Let_def snd_ebind snd_eseq snd_sp_config_failed sp_log_err_def
        sp_log_msgf_def sp_env_def log_deliver_def sp_config_error_def sp_free_config_def)
  moreover have "small_config (sample_process (\<lambda>f. Inl ''gone''))" by (simp add: small_config_def small_files_def sample_process_def sample_source_def)
  moreover have "\<forall>n. handler_of (ms_dirs start_module) n \<noteq> Some (Some OnModify_Sp)" "e_fatal_bails sample_php"
    using start_module_fresh by (simp_all add: fresh_module_def sample_php_def)
  ultimately show ?thesis
    using broken_config_rejects_requests [OF fresh_module_inv [OF start_module_fresh], where P = "sample_process (\<lambda>f. Inl ''gone'')"
        and v = "''a''" and started = True and ms' = ms' and v' = v' and E' = sample_php and C = sample_crypto and cookies = "[]"] by auto
qed

text \<open>The flags that no configuration sets.\<close>

definition process_flags :: "sp_globals \<Rightarrow> bool \<times> bool \<times> int \<times> nat \<times> nat \<times> string" where
  "process_flags g = (spg_allow_broken_configuration g, spg_config_nonfatal g, spg_is_config_valid g, spg_in_eval g,
     spg_execution_depth g, spg_eval_source_string g)"

text \<open>
  C26. Loading forgets what unloading undoes: two processes that have loaded different configurations, so that their
  globals, function tables and settings differ, come to the same state, the same result and the same
  messages when both load a new one. Functions and settings without the hooks are those of the same
  engine; and the hooks that unloading leaves where they are (into the executor, the compiler, uploads, sessions,
  the SAPI, the output and the wrappers), as well as the flags no configuration sets, are the same in both.
\<close>

theorem reload_forgets:
  assumes "spg_is_config_valid (ms_g ms) \<noteq> SP_CONFIG_NONE" "process_flags g2 = process_flags (ms_g ms)"
    and ms2: "ms2 = ms\<lparr>ms_g := g2, ms_ft := ft2, ms_dirs := dirs2\<rparr>"
    and "native_table ms2 = native_table ms" "ms_dirs (unhook_ini ms2) = ms_dirs (unhook_ini ms)"
  shows "sp_load_config E P v ms2 = sp_load_config E P v ms"
proof -
  have free: "sp_free_config (g\<lparr>spg_sp_eval_blacklist_functions_hook := [], spg_disabled_functions_hook := [], spg_sp_internal_functions_hook := []\<rparr>) =
      sp_free_config (g'\<lparr>spg_sp_eval_blacklist_functions_hook := [], spg_disabled_functions_hook := [], spg_sp_internal_functions_hook := []\<rparr>)"
    if "process_flags g = process_flags g'" for g g'
    using that by (intro sp_globals.equality) (simp_all add: process_flags_def sp_free_config_def)
  have unload: "unload_config m = m\<lparr>ms_g := sp_free_config ((ms_g (unhook_ini m))\<lparr>spg_sp_eval_blacklist_functions_hook := [],
      spg_disabled_functions_hook := [], spg_sp_internal_functions_hook := []\<rparr>), ms_ft := native_table m, ms_dirs := ms_dirs (unhook_ini m)\<rparr>"
    if "spg_is_config_valid (ms_g m) \<noteq> SP_CONFIG_NONE" for m
    using that unhook_ini_kept [of m]
    by (simp add: unload_config_def unhook_table_def Let_def native_table_def)
      (simp add: unhook_ini_def Let_def split_beta)
  have flags: "process_flags (ms_g (unhook_ini m)) = process_flags (ms_g m)" for m
    by (simp add: unhook_ini_def sp_unhook_ini_def put_entries_def process_flags_def Let_def split_beta)
  have valid: "spg_is_config_valid (ms_g ms2) \<noteq> SP_CONFIG_NONE" using assms(1-3) by (simp add: process_flags_def)
  have "sp_free_config ((ms_g (unhook_ini ms2))\<lparr>spg_sp_eval_blacklist_functions_hook := [], spg_disabled_functions_hook := [],
      spg_sp_internal_functions_hook := []\<rparr>) = sp_free_config ((ms_g (unhook_ini ms))\<lparr>spg_sp_eval_blacklist_functions_hook := [],
      spg_disabled_functions_hook := [], spg_sp_internal_functions_hook := []\<rparr>)"
    by (rule free) (use assms(2) ms2 flags in simp)
  then have "unload_config ms2 = unload_config ms"
    using unload [OF valid] unload [OF assms(1)] assms(4,5) ms2 by simp
  then show ?thesis by (simp only: sp_load_config_def)
qed

text \<open>
  The order of unhooking matters, and the shutdown has it wrong: of a function that an option
  and a rule hook one after the other, loading another configuration gives the engine's handler
  back, while \<open>MSHUTDOWN\<close>, which starts with the table that was filled first, leaves the
  extension's handler.
\<close>

theorem shutdown_leaves_handler:
  assumes "spg_sp_internal_functions_hook (ms_g ms) = [(n, engine)]" "spg_disabled_functions_hook (ms_g ms) = [(n, own)]"
    and "spg_sp_eval_blacklist_functions_hook (ms_g ms) = []" "zh_find (ms_ft ms) n = Some (ZEND_INTERNAL_FUNCTION, h)"
    and "spg_is_config_valid (ms_g ms) \<noteq> SP_CONFIG_NONE"
  shows "zh_find (ms_ft (MSHUTDOWN ms)) n = Some (ZEND_INTERNAL_FUNCTION, own) \<and>
    zh_find (ms_ft (unload_config ms)) n = Some (ZEND_INTERNAL_FUNCTION, engine)"
  using assms unhook_ini_kept
  by (simp add: MSHUTDOWN_def unload_config_def unhook_table_def Let_def unhook_functions_def unhook_one_def zh_find_update)

text \<open>The state after an option hooked \<open>rand\<close> and a rule hooked it again.\<close>

definition rand_module :: module_state where
  "rand_module = start_module
     \<lparr>ms_g := sample_globals\<lparr>spg_sp_internal_functions_hook := [(''rand'', Zif_Engine ''rand'')],
        spg_disabled_functions_hook := [(''rand'', Zif_Sp ''sp_rand'')]\<rparr>,
      ms_ft := [(''rand'', ZEND_INTERNAL_FUNCTION, check_disabled_function_handler)]\<rparr>"

theorem shutdown_leaves_handler_witness:
  "zh_find (ms_ft (MSHUTDOWN rand_module)) ''rand'' = Some (ZEND_INTERNAL_FUNCTION, Zif_Sp ''sp_rand'')"
  using shutdown_leaves_handler [of rand_module "''rand''" "Zif_Engine ''rand''" "Zif_Sp ''sp_rand''" check_disabled_function_handler]
  by (simp add: rand_module_def sample_globals_def SP_CONFIG_VALID_def SP_CONFIG_NONE_def)

theorem reload_forgets_witness:
  "sp_load_config sample_php (sample_process (\<lambda>f. Inr [])) ''a'' (start_module\<lparr>ms_g := sample_globals,
      ms_ft := [(''rand'', ZEND_INTERNAL_FUNCTION, Zif_Engine ''rand'')]\<rparr>) =
   sp_load_config sample_php (sample_process (\<lambda>f. Inr [])) ''a'' rand_module \<and> sample_globals \<noteq> ms_g rand_module"
proof -
  let ?ft = "[(''rand'', ZEND_INTERNAL_FUNCTION, Zif_Engine ''rand'')]"
  let ?ms2 = "rand_module\<lparr>ms_g := sample_globals, ms_ft := ?ft, ms_dirs := ms_dirs rand_module\<rparr>"
  have "native_table ?ms2 = native_table rand_module" "ms_dirs (unhook_ini ?ms2) = ms_dirs (unhook_ini rand_module)"
    by (simp_all add: native_table_def unhook_ini_def rand_module_def start_module_def sample_globals_def
        unhook_functions_def unhook_one_def)
  moreover have "process_flags sample_globals = process_flags (ms_g rand_module)" "spg_is_config_valid (ms_g rand_module) \<noteq> SP_CONFIG_NONE"
    by (simp_all add: rand_module_def sample_globals_def process_flags_def SP_CONFIG_VALID_def SP_CONFIG_NONE_def)
  ultimately have "sp_load_config sample_php (sample_process (\<lambda>f. Inr [])) ''a'' ?ms2 =
      sp_load_config sample_php (sample_process (\<lambda>f. Inr [])) ''a'' rand_module"
    by (intro reload_forgets [OF _ _ refl])
  moreover have "?ms2 = start_module\<lparr>ms_g := sample_globals, ms_ft := ?ft\<rparr>" by (simp add: rand_module_def)
  moreover have "sample_globals \<noteq> ms_g rand_module" by (simp add: rand_module_def sample_globals_def)
  ultimately show ?thesis by simp
qed

section \<open>The value of the directive\<close>

lemma hd_strsep_all: "hd (strsep_all sep s) = takeWhile (\<lambda>c. c \<noteq> sep) s"
proof (induction s)
  case (Cons c s)
  then show ?case using strsep_all_nonempty [of sep s] by (auto split: list.splits)
qed simp

lemma c_str_cut_commas: "c_str (cut_commas (Suc n) s) = takeWhile (\<lambda>c. c \<noteq> CHR '','') (c_str s)"
  by (induction s) (auto simp: c_str_def)

lemma parse_patterns_taken:
  "snd (parse_patterns E P pats g) = Done (g', True, n) \<Longrightarrow> n = length pats"
proof (induction pats arbitrary: g n)
  case (Cons pat pats)
  then show ?case
    by (auto simp: ebind_Done_iff eseq_Done_iff split: option.splits if_splits prod.splits)
qed simp

text \<open>
  A value can be loaded once: when a list of files was loaded, what is left of the value names
  the first of them only, so that loading the same value again would skip every other file.
\<close>

theorem loaded_value_is_cut:
  assumes "snd (sp_load_config E P v ms) = Done (ms', v', SUCCESS)"
  shows "strsep_all (CHR '','') (c_str v') = [hd (strsep_all (CHR '','') (c_str v))]"
proof -
  let ?pats = "strsep_all (CHR '','') (c_str v)"
  obtain g ok n g0 where p: "snd (parse_patterns E P ?pats g0) = Done (g, ok, n)" "v' = cut_commas n v" "ok"
    using assms by (auto simp: sp_load_config_def Let_def ebind_Done_iff snd_sp_config_failed eseq_Done_iff split: if_splits)
  have "length ?pats \<noteq> 0" using strsep_all_nonempty by simp
  then obtain m where "n = Suc m" using parse_patterns_taken p not0_implies_Suc by metis
  then have "c_str v' = hd ?pats" by (simp add: p(2) c_str_cut_commas hd_strsep_all)
  moreover have "CHR '','' \<notin> set (hd ?pats)" by (auto simp: hd_strsep_all dest: set_takeWhileD)
  ultimately show ?thesis by (simp add: strsep_all_none)
qed

theorem loaded_value_is_cut_witness:
  "\<exists>ms' v'. snd (sp_load_config sample_php (sample_process (\<lambda>f. Inr [])) ''a,b'' start_module) = Done (ms', v', SUCCESS) \<and>
     strsep_all (CHR '','') (c_str v') = [''a'']"
proof -
  obtain ms' v' where l: "snd (sp_load_config sample_php (sample_process (\<lambda>f. Inr [])) ''a,b'' start_module) = Done (ms', v', SUCCESS)"
    by (simp add: sp_load_config_def unload_config_def start_module_def put_g_def GINIT_def sample_globals_def
        sample_process_def sample_source_def sp_parse_config_def start_hooks_def hook_steps_def when_set_def pure_step_def session_hooked_def
        serialize_hooked_def hook_internal_def hook_cookies_def hook_function_def hook_one_def start_op_array_handler_def
        start_disabled_functions_def hook_disabled_functions_def hook_functions_def start_echo_def set_hook_execute_def c_str_def Let_def)
  from loaded_value_is_cut [OF l] have "strsep_all (CHR '','') (c_str v') = [''a'']" by (simp add: c_str_def)
  with l show ?thesis by blast
qed

end
