(* ===== verification/Pcre_Compat.thy ===== *)
theory Pcre_Compat
  imports Sp_Types
begin

text \<open>
  \<open>src/sp_pcre_compat.c\<close> function by function, with its error paths. PCRE is a parameter
  here too, now with the number it answers: \<open>pcre2_match\<close> of a pattern and a subject is not negative
  for a match, \<open>PCRE2_ERROR_NOMATCH\<close> for none, another negative number for an error at run time, for
  instance when the match limit is reached. The other components use the truth value
  \<open>Sp_Types.sp_is_regexp_matching_len\<close>; the theory shows when it is enough and what an error does.
\<close>

section \<open>Compiling\<close>

text \<open>PCRE's code for a pattern is the pattern; what does not compile is logged. Both are parameters, as in \<open>Sp_Types\<close>.\<close>

definition sp_pcre_compile :: "php \<Rightarrow> sp_globals \<Rightarrow> string \<Rightarrow> string option eff" where
  "sp_pcre_compile E g pattern =
     (if e_rx_valid E pattern then ret (Some pattern)
      else eseq (sp_log_err (sp_env E g) ''config''
                   (''Failed to compile '' @ quoted pattern @ '': '' @ e_pcre_error E pattern @ ''.''))
             (ret None))"

lemma sp_regexp_compile_steps:
  "sp_regexp_compile E g zstr =
     ebind (sp_pcre_compile E g (c_str zstr)) (\<lambda>re. ret (case re of Some _ \<Rightarrow> Some \<lparr>rx_pattern = zstr\<rparr> | None \<Rightarrow> None))"
  by (simp add: sp_regexp_compile_def sp_pcre_compile_def prod_eq_iff eff_simps ret_def split: outcome.split)

section \<open>Matching\<close>

definition PCRE2_ERROR_NOMATCH :: int where
  "PCRE2_ERROR_NOMATCH = -1"

definition regexp_matching_len :: "(string \<Rightarrow> string \<Rightarrow> int) \<Rightarrow> php \<Rightarrow> sp_globals \<Rightarrow> string \<Rightarrow> string \<Rightarrow> bool eff" where
  "regexp_matching_len pcre2_match E g regexp str =
     (let r = pcre2_match regexp str in
      if r < 0 then
        eseq (if r \<noteq> PCRE2_ERROR_NOMATCH
              then sp_log_err (sp_env E g) ''regexp'' (''Something went wrong with a regexp ('' @ show_int r @ '').'')
              else ret ())
          (ret False)
      else ret True)"

text \<open>As long as PCRE meets no error the truth value is all there is.\<close>

lemma regexp_matching_pure:
  assumes "e_rx E re str \<longleftrightarrow> 0 \<le> pcre2_match re str" "PCRE2_ERROR_NOMATCH \<le> pcre2_match re str"
  shows "regexp_matching_len pcre2_match E g re str = ret (sp_is_regexp_matching_len E re str)"
  using assms
  by (auto simp: regexp_matching_len_def sp_is_regexp_matching_len_def PCRE2_ERROR_NOMATCH_def Let_def snd_eseq)

text \<open>
  After an error the answer, if there is one, is that the pattern does not match. There is one
  whenever the log is the system's or a file: a rule that must drop the call is then passed over, at
  the price of a line in the log. With the engine's log the line is a fatal error that ends the request.
\<close>

theorem regexp_error_passes_rule:
  assumes "pcre2_match re str < PCRE2_ERROR_NOMATCH"
    and "log_type (cfg_log_media g) = SP_LOG_SYSLOG \<or> log_type (cfg_log_media g) = SP_LOG_FILE \<and> (\<forall>f. e_can_open E f)"
  shows "snd (regexp_matching_len pcre2_match E g re str) = Done False \<and>
    length (fst (regexp_matching_len pcre2_match E g re str)) = 1"
  using assms
  by (auto simp: regexp_matching_len_def PCRE2_ERROR_NOMATCH_def Let_def snd_eseq fst_eseq sp_log_err_def sp_log_msgf_def
      log_deliver_def sp_env_def emit_def ret_def split: prod.split option.split)

theorem regexp_error_ends_request:
  assumes "pcre2_match re str < PCRE2_ERROR_NOMATCH"
    and "log_type (cfg_log_media g) = SP_LOG_ZEND" "e_fatal_bails E" "\<not> spg_config_nonfatal g"
  shows "snd (regexp_matching_len pcre2_match E g re str) = Bailout"
  using assms
  by (auto simp: regexp_matching_len_def PCRE2_ERROR_NOMATCH_def Let_def snd_eseq sp_log_err_def sp_log_msgf_def
      log_deliver_def sp_env_def snd_zend_error snd_sp_config_error split: prod.split option.split)

end
