(* ===== verification/Config_Release.thy ===== *)
theory Config_Release
  imports Snuffleupagus
begin

text \<open>
  What becomes of the memory of a configuration: the release functions of \<open>src/sp_config.c\<close>,
  \<open>sp_list.c\<close> and \<open>sp_pcre_compat.h\<close>, and \<open>sp_free_config\<close> of \<open>src/snuffleupagus.c\<close>
  that calls them before a configuration is loaded again. An operation is the list of what it gives
  back, in order. Against it stands what a configuration owns: one entry for every pointer of the
  structures that is not NULL, and for the structure behind it. The hash tables' buckets and keys are
  the engine's.
\<close>

section \<open>Pieces of memory\<close>

text \<open>
  A reference to a \<open>zend_string\<close>, a C string, PCRE's code of a pattern, or the structure of a kind.
\<close>

datatype piece =
  P_zstr string | P_chars string | P_code string | P_regexp | P_node | P_tree | P_cidr sp_cidr
  | P_rule | P_cookie | P_ini_entry

definition pieces_of :: "('a \<Rightarrow> piece list) \<Rightarrow> piece \<Rightarrow> 'a release list \<Rightarrow> piece list" where
  "pieces_of give node rs = concat (map (\<lambda>r. case r of Free_Data x \<Rightarrow> give x | Free_Node \<Rightarrow> [node]) rs)"

section \<open>The release functions\<close>

definition sp_free_zstr :: "string option \<Rightarrow> piece list" where
  "sp_free_zstr data = (case data of Some s \<Rightarrow> [P_zstr s] | None \<Rightarrow> [])"

text \<open>\<open>pefree\<close> and \<open>free\<close> of a pointer to characters that may be NULL.\<close>

definition free_chars :: "string option \<Rightarrow> piece list" where
  "free_chars data = (case data of Some s \<Rightarrow> [P_chars s] | None \<Rightarrow> [])"

definition sp_regexp_free :: "sp_regexp option \<Rightarrow> piece list" where
  "sp_regexp_free regexp = (case regexp of Some r \<Rightarrow> [P_code (rx_pattern r), P_zstr (rx_pattern r), P_regexp] | None \<Rightarrow> [])"

text \<open>\<open>sp_list_free\<close> with a release function, and \<open>sp_list_free2\<close>, which frees the data itself.\<close>

definition list_free :: "('a \<Rightarrow> piece list) \<Rightarrow> 'a list \<Rightarrow> piece list" where
  "list_free give xs = pieces_of give P_node (sp_list_free True (map Some xs))"

fun sp_list_free2 :: "'a option list \<Rightarrow> 'a release list" where
  "sp_list_free2 [] = []"
| "sp_list_free2 (d # ds) = (case d of Some x \<Rightarrow> [Free_Data x] | None \<Rightarrow> []) @ Free_Node # sp_list_free2 ds"

definition tree_free :: "sp_tree \<Rightarrow> piece list" where
  "tree_free tree = pieces_of free_chars P_tree (sp_tree_free tree)"

definition free_cidr :: "sp_cidr option \<Rightarrow> piece list" where
  "free_cidr c = (case c of Some x \<Rightarrow> [P_cidr x] | None \<Rightarrow> [])"

definition sp_free_disabled_function :: "sp_disabled_function \<Rightarrow> piece list" where
  "sp_free_disabled_function df =
     sp_free_zstr (df_textual_representation df) @
     sp_free_zstr (df_filename df) @ sp_regexp_free (df_r_filename df) @
     sp_free_zstr (df_function df) @ sp_regexp_free (df_r_function df) @
     list_free (\<lambda>f. [P_chars f]) (df_functions_list df) @
     sp_free_zstr (df_hash df) @
     tree_free (df_param df) @ sp_regexp_free (df_r_param df) @
     sp_regexp_free (df_r_ret df) @ sp_free_zstr (df_ret df) @
     sp_regexp_free (df_r_value df) @ sp_free_zstr (df_value df) @
     sp_regexp_free (df_r_key df) @ sp_free_zstr (df_key df) @
     sp_free_zstr (df_dump df) @ sp_free_zstr (df_alias df) @
     tree_free (df_var df) @ free_cidr (df_cidr df) @ [P_rule]"

text \<open>The structure of a cookie is left to the caller, like that of a setting.\<close>

definition sp_free_cookie :: "sp_cookie \<Rightarrow> piece list" where
  "sp_free_cookie c = sp_free_zstr (ck_name c) @ sp_regexp_free (ck_name_r c)"

definition sp_free_ini_entry :: "sp_ini_entry \<Rightarrow> piece list" where
  "sp_free_ini_entry e =
     sp_free_zstr (ie_key e) @ sp_free_zstr (ie_min e) @ sp_free_zstr (ie_max e) @
     sp_regexp_free (ie_regexp e) @ sp_free_zstr (ie_msg e) @ sp_free_zstr (ie_set e)"

definition free_disabled_functions_hashtable :: "df_table \<Rightarrow> piece list" where
  "free_disabled_functions_hashtable ht = concat (map (\<lambda>(_, rules). list_free sp_free_disabled_function rules) ht)"

definition free_config_ini_entries :: "(string \<times> sp_ini_entry) list \<Rightarrow> piece list" where
  "free_config_ini_entries ht = concat (map (\<lambda>(_, e). sp_free_ini_entry e @ [P_ini_entry]) ht)"

definition free_strings :: "string list \<Rightarrow> piece list" where
  "free_strings = list_free (\<lambda>s. sp_free_zstr (Some s))"

text \<open>\<open>sp_free_config\<close> of the module gives back, in this order (what it writes is \<open>Snuffleupagus.sp_free_config\<close>):\<close>

definition config_releases :: "sp_globals \<Rightarrow> piece list" where
  "config_releases g =
     free_disabled_functions_hashtable (cfg_disabled_functions g) @
     free_disabled_functions_hashtable (cfg_disabled_functions_hooked g) @
     free_disabled_functions_hashtable (cfg_disabled_functions_ret g) @
     free_disabled_functions_hashtable (cfg_disabled_functions_ret_hooked g) @
     free_config_ini_entries (ini_entries (cfg_ini g)) @
     list_free sp_free_disabled_function (cfg_disabled_functions_reg g) @
     list_free sp_free_disabled_function (cfg_disabled_functions_reg_ret g) @
     list_free sp_free_cookie (cfg_cookies g) @
     free_strings (ev_blacklist (cfg_eval g)) @ free_strings (ev_whitelist (cfg_eval g)) @
     free_strings (wr_whitelist (cfg_wrapper g)) @ free_strings (wr_php_stream_allowlist (cfg_wrapper g)) @
     sp_free_zstr (us_dump (cfg_unserialize g)) @ sp_free_zstr (us_textual_representation (cfg_unserialize g)) @
     sp_free_zstr (un_textual_representation (cfg_unserialize_noclass g)) @
     sp_free_zstr (ro_dump (cfg_readonly_exec g)) @ sp_free_zstr (ro_textual_representation (cfg_readonly_exec g)) @
     sp_free_zstr (up_script (cfg_upload_validation g)) @
     sp_free_zstr (ev_dump (cfg_eval g)) @ sp_free_zstr (ev_textual_representation (cfg_eval g)) @
     sp_free_zstr (cfg_encryption_key g) @ sp_free_zstr (cfg_cookies_env_var g) @
     free_chars (log_path (cfg_log_media g)) @
     sp_free_zstr (spg_config_filename g)"

section \<open>What a configuration owns\<close>

text \<open>
  The pointers of a structure, without regard to order: \<open>strings\<close> and \<open>regexps\<close> are the values of
  its members of these types.
\<close>

definition given :: "'a option list \<Rightarrow> 'a list" where
  "given os = concat (map (\<lambda>x. case x of Some y \<Rightarrow> [y] | None \<Rightarrow> []) os)"

definition own_strings :: "string option list \<Rightarrow> piece multiset" where
  "own_strings os = image_mset P_zstr (mset (given os))"

definition own_regexps :: "sp_regexp option list \<Rightarrow> piece multiset" where
  "own_regexps os = (\<Sum>r\<in>#mset (given os). {#P_regexp, P_code (rx_pattern r), P_zstr (rx_pattern r)#})"

fun own_tree :: "sp_tree \<Rightarrow> piece multiset" where
  "own_tree [] = {#}"
| "own_tree (Node ty v idx # rest) = image_mset P_chars (mset (given [v])) + {#P_tree#} + own_tree idx + own_tree rest"

definition own_list :: "('a \<Rightarrow> piece multiset) \<Rightarrow> 'a list \<Rightarrow> piece multiset" where
  "own_list own xs = replicate_mset (length xs) P_node + (\<Sum>x\<in>#mset xs. own x)"

definition own_rule :: "sp_disabled_function \<Rightarrow> piece multiset" where
  "own_rule df =
     {#P_rule#} +
     own_strings [df_textual_representation df, df_filename df, df_function df, df_hash df, df_ret df, df_value df,
       df_key df, df_dump df, df_alias df] +
     own_regexps [df_r_filename df, df_r_function df, df_r_param df, df_r_ret df, df_r_value df, df_r_key df] +
     own_list (\<lambda>f. {#P_chars f#}) (df_functions_list df) +
     own_tree (df_param df) + own_tree (df_var df) + image_mset P_cidr (mset (given [df_cidr df]))"

definition own_cookie :: "sp_cookie \<Rightarrow> piece multiset" where
  "own_cookie c = {#P_cookie#} + own_strings [ck_name c] + own_regexps [ck_name_r c]"

definition own_ini_entry :: "sp_ini_entry \<Rightarrow> piece multiset" where
  "own_ini_entry e =
     {#P_ini_entry#} + own_strings [ie_key e, ie_min e, ie_max e, ie_msg e, ie_set e] + own_regexps [ie_regexp e]"

definition own_table :: "df_table \<Rightarrow> piece multiset" where
  "own_table ht = (\<Sum>(k, rules)\<in>#mset ht. own_list own_rule rules)"

definition own_config :: "sp_globals \<Rightarrow> piece multiset" where
  "own_config g =
     (\<Sum>ht\<in>#mset [cfg_disabled_functions g, cfg_disabled_functions_hooked g, cfg_disabled_functions_ret g,
        cfg_disabled_functions_ret_hooked g]. own_table ht) +
     (\<Sum>rules\<in>#mset [cfg_disabled_functions_reg g, cfg_disabled_functions_reg_ret g]. own_list own_rule rules) +
     (\<Sum>(k, e)\<in>#mset (ini_entries (cfg_ini g)). own_ini_entry e) +
     own_list own_cookie (cfg_cookies g) +
     (\<Sum>l\<in>#mset [ev_blacklist (cfg_eval g), ev_whitelist (cfg_eval g), wr_whitelist (cfg_wrapper g),
        wr_php_stream_allowlist (cfg_wrapper g)]. own_list (\<lambda>s. {#P_zstr s#}) l) +
     own_strings [us_dump (cfg_unserialize g), us_textual_representation (cfg_unserialize g),
       un_textual_representation (cfg_unserialize_noclass g), ro_dump (cfg_readonly_exec g),
       ro_textual_representation (cfg_readonly_exec g), up_script (cfg_upload_validation g), ev_dump (cfg_eval g),
       ev_textual_representation (cfg_eval g), cfg_encryption_key g, cfg_cookies_env_var g, spg_config_filename g] +
     image_mset P_chars (mset (given [log_path (cfg_log_media g)]))"

section \<open>Releasing a list\<close>

lemma pieces_of_simps [simp]:
  "pieces_of give node [] = []"
  "pieces_of give node (Free_Data x # rs) = give x @ pieces_of give node rs"
  "pieces_of give node (Free_Node # rs) = node # pieces_of give node rs"
  "pieces_of give node (rs @ rs') = pieces_of give node rs @ pieces_of give node rs'"
  by (simp_all add: pieces_of_def)

lemma list_free_simps [simp]:
  "list_free give [] = []" "list_free give (x # xs) = give x @ P_node # list_free give xs"
  by (simp_all add: list_free_def)

lemma own_list_simps [simp]:
  "own_list own [] = {#}" "own_list own (x # xs) = own x + {#P_node#} + own_list own xs"
  by (simp_all add: own_list_def)

lemma sp_list_free2_eq: "sp_list_free2 ds = sp_list_free True ds"
  by (induction ds) (simp_all split: option.split)

text \<open>
  What a release function promises: with \<open>rest\<close>, which it leaves to its caller, it gives back what
  its argument owns. A list of such arguments then leaves the rests.
\<close>

locale releases =
  fixes give :: "'a \<Rightarrow> piece list" and rest :: "'a \<Rightarrow> piece multiset" and own :: "'a \<Rightarrow> piece multiset"
  assumes gives: "mset (give x) + rest x = own x"
begin

lemma list_gives: "mset (list_free give xs) + (\<Sum>x\<in>#mset xs. rest x) = own_list own xs"
proof (induction xs)
  case (Cons x xs)
  then show ?case by (simp flip: gives add: ac_simps)
qed simp

lemma list_gives_all: "(\<And>x. rest x = {#}) \<Longrightarrow> mset (list_free give xs) = own_list own xs"
  using list_gives [of xs] by simp

end

lemma sum_replicate_single: "\<Sum>\<^sub># (replicate_mset n {#a#}) = replicate_mset n a"
  by (induction n) simp_all

section \<open>The structures\<close>

lemma given_simps [simp]: "given [] = []" "given (None # os) = given os" "given (Some x # os) = x # given os"
  by (simp_all add: given_def)

lemma mset_sp_free_zstr: "mset (sp_free_zstr s) = own_strings [s]"
  by (cases s) (simp_all add: sp_free_zstr_def own_strings_def)

lemma mset_sp_regexp_free: "mset (sp_regexp_free r) = own_regexps [r]"
  by (cases r) (simp_all add: sp_regexp_free_def own_regexps_def)

lemma mset_free_chars: "mset (free_chars s) = image_mset P_chars (mset (given [s]))"
  by (cases s) (simp_all add: free_chars_def)

lemma mset_free_cidr: "mset (free_cidr c) = image_mset P_cidr (mset (given [c]))"
  by (cases c) (simp_all add: free_cidr_def)

lemma mset_tree_free: "mset (tree_free tree) = own_tree tree"
  by (induction tree rule: own_tree.induct) (simp_all add: tree_free_def mset_free_chars)

lemma own_strings_Cons: "os \<noteq> [] \<Longrightarrow> own_strings (s # os) = own_strings [s] + own_strings os"
  by (cases s) (simp_all add: own_strings_def)

lemma own_regexps_Cons: "os \<noteq> [] \<Longrightarrow> own_regexps (r # os) = own_regexps [r] + own_regexps os"
  by (cases r) (simp_all add: own_regexps_def)

lemmas release_msets = mset_sp_free_zstr mset_sp_regexp_free mset_free_chars mset_free_cidr mset_tree_free
  own_strings_Cons own_regexps_Cons

interpretation function_name: releases "\<lambda>f. [P_chars f]" "\<lambda>_. {#}" "\<lambda>f. {#P_chars f#}"
  by unfold_locales simp

interpretation listed_string: releases "\<lambda>s. sp_free_zstr (Some s)" "\<lambda>_. {#}" "\<lambda>s. {#P_zstr s#}"
  by unfold_locales (simp add: sp_free_zstr_def)

interpretation rule: releases sp_free_disabled_function "\<lambda>_. {#}" own_rule
  by unfold_locales
    (simp add: sp_free_disabled_function_def own_rule_def release_msets function_name.list_gives_all add_ac)

interpretation cookie: releases sp_free_cookie "\<lambda>_. {#P_cookie#}" own_cookie
  by unfold_locales (simp add: sp_free_cookie_def own_cookie_def release_msets)

interpretation ini_entry: releases sp_free_ini_entry "\<lambda>_. {#P_ini_entry#}" own_ini_entry
  by unfold_locales (simp add: sp_free_ini_entry_def own_ini_entry_def release_msets add_ac)

lemma mset_free_table: "mset (free_disabled_functions_hashtable ht) = own_table ht"
  by (induction ht) (auto simp: free_disabled_functions_hashtable_def own_table_def rule.list_gives_all)

lemma mset_free_ini: "mset (free_config_ini_entries ht) = (\<Sum>(k, e)\<in>#mset ht. own_ini_entry e)"
  by (induction ht) (auto simp: free_config_ini_entries_def simp flip: ini_entry.gives)

lemma mset_free_strings: "mset (free_strings l) = own_list (\<lambda>s. {#P_zstr s#}) l"
  unfolding free_strings_def by (rule listed_string.list_gives_all) simp

section \<open>The configuration\<close>

text \<open>
  C27. Unloading a configuration gives back what the configuration owns, everything once, with one
  exception: the structures of its cookies, which stay allocated, as many as there are cookies. What
  is left in the globals afterwards owns nothing.
\<close>

theorem config_released_once:
  "own_config g = mset (config_releases g) + replicate_mset (length (cfg_cookies g)) P_cookie \<and>
   own_config (sp_free_config g) = {#}"
proof
  have cookies: "own_list own_cookie (cfg_cookies g) =
      mset (list_free sp_free_cookie (cfg_cookies g)) + replicate_mset (length (cfg_cookies g)) P_cookie"
    by (simp add: image_mset_const_eq sum_replicate_single flip: cookie.list_gives)
  show "own_config g = mset (config_releases g) + replicate_mset (length (cfg_cookies g)) P_cookie"
    by (simp add: own_config_def config_releases_def release_msets mset_free_table mset_free_ini mset_free_strings
        rule.list_gives_all cookies ac_simps)
  show "own_config (sp_free_config g) = {#}"
    by (simp add: own_config_def sp_free_config_def own_table_def own_strings_def)
qed

end
